(* ===== verification/Rust_Text.thy ===== *)
theory Rust_Text
  imports Prelude
begin

text \<open>
  The part of Rust's standard library for text that the source calls: character classes,
  trimming, case mapping, \<open>str::replace\<close> with a character pattern, \<open>Display\<close> and \<open>FromStr\<close> for
  integers. A Rust \<open>String\<close> is a sequence of Unicode scalar values; the model's \<open>string\<close> holds
  the scalar values below 256 (Latin-1), with the Unicode classification of those values. The
  code treats every other scalar value either as an ordinary character or through these same
  classes.
\<close>

section \<open>Character classes\<close>

definition code_point :: "char \<Rightarrow> nat" where
  "code_point c = of_char c"

definition is_ascii_digit :: "char \<Rightarrow> bool" where
  "is_ascii_digit c \<longleftrightarrow> 48 \<le> code_point c \<and> code_point c \<le> 57"

definition is_ascii_upper :: "char \<Rightarrow> bool" where
  "is_ascii_upper c \<longleftrightarrow> 65 \<le> code_point c \<and> code_point c \<le> 90"

definition is_ascii_lower :: "char \<Rightarrow> bool" where
  "is_ascii_lower c \<longleftrightarrow> 97 \<le> code_point c \<and> code_point c \<le> 122"

definition is_ascii_alphanumeric :: "char \<Rightarrow> bool" where
  "is_ascii_alphanumeric c \<longleftrightarrow> is_ascii_digit c \<or> is_ascii_upper c \<or> is_ascii_lower c"

definition is_whitespace :: "char \<Rightarrow> bool" where
  "is_whitespace c \<longleftrightarrow> (9 \<le> code_point c \<and> code_point c \<le> 13) \<or> code_point c \<in> {32, 133, 160}"

definition is_alphabetic :: "char \<Rightarrow> bool" where
  "is_alphabetic c \<longleftrightarrow> is_ascii_upper c \<or> is_ascii_lower c \<or> code_point c \<in> {170, 181, 186}
     \<or> (192 \<le> code_point c \<and> code_point c \<notin> {215, 247})"

definition is_numeric :: "char \<Rightarrow> bool" where
  "is_numeric c \<longleftrightarrow> is_ascii_digit c \<or> code_point c \<in> {178, 179, 185, 188, 189, 190}"

definition is_alphanumeric :: "char \<Rightarrow> bool" where
  "is_alphanumeric c \<longleftrightarrow> is_alphabetic c \<or> is_numeric c"

lemmas char_class_defs = code_point_def is_ascii_digit_def is_ascii_upper_def is_ascii_lower_def
  is_ascii_alphanumeric_def is_whitespace_def is_alphabetic_def is_numeric_def is_alphanumeric_def

section \<open>Case mapping\<close>

definition ascii_upper :: "char \<Rightarrow> char" where
  "ascii_upper c = (if is_ascii_lower c then char_of (code_point c - 32) else c)"

definition to_ascii_uppercase :: "string \<Rightarrow> string" where
  "to_ascii_uppercase s = map ascii_upper s"

definition ascii_lower :: "char \<Rightarrow> char" where
  "ascii_lower c = (if is_ascii_upper c then char_of (code_point c + 32) else c)"

definition to_ascii_lowercase :: "string \<Rightarrow> string" where
  "to_ascii_lowercase s = map ascii_lower s"

definition eq_ignore_ascii_case :: "string \<Rightarrow> string \<Rightarrow> bool" where
  "eq_ignore_ascii_case a b \<longleftrightarrow> to_ascii_lowercase a = to_ascii_lowercase b"

text \<open>
  \<open>char::to_uppercase\<close>: one character may become two (the sharp s). The micro sign and y with
  diaeresis map outside Latin-1 and are left as they are.
\<close>

definition upper_char :: "char \<Rightarrow> string" where
  "upper_char c =
     (if code_point c = 223 then ''SS''
      else if is_ascii_lower c \<or> (224 \<le> code_point c \<and> code_point c \<notin> {247, 255})
        then [char_of (code_point c - 32)]
      else [c])"

definition to_uppercase :: "string \<Rightarrow> string" where
  "to_uppercase s = concat (map upper_char s)"

lemma length_to_ascii_uppercase [simp]: "length (to_ascii_uppercase s) = length s"
  by (simp add: to_ascii_uppercase_def)

lemma ascii_upper_not_lower: "\<not> is_ascii_lower (ascii_upper c)"
proof (cases "is_ascii_lower c")
  case True
  then have "of_char c - 32 < (256 :: nat)"
    unfolding is_ascii_lower_def code_point_def by linarith
  then have "of_char (char_of (of_char c - 32 :: nat)) = (of_char c - 32 :: nat)"
    by simp
  with True show ?thesis
    by (auto simp: ascii_upper_def is_ascii_lower_def code_point_def)
qed (simp add: ascii_upper_def)

lemma ascii_upper_idem [simp]: "ascii_upper (ascii_upper c) = ascii_upper c"
  using ascii_upper_not_lower [of c] by (simp add: ascii_upper_def [of "ascii_upper c"])

lemma to_ascii_uppercase_idem [simp]:
  "to_ascii_uppercase (to_ascii_uppercase s) = to_ascii_uppercase s"
  by (simp add: to_ascii_uppercase_def)

section \<open>Slices of text\<close>

definition trim_start :: "string \<Rightarrow> string" where
  "trim_start s = dropWhile is_whitespace s"

definition trim_end :: "string \<Rightarrow> string" where
  "trim_end s = rev (dropWhile is_whitespace (rev s))"

definition trim :: "string \<Rightarrow> string" where
  "trim s = trim_end (trim_start s)"

definition starts_with :: "string \<Rightarrow> string \<Rightarrow> bool" where
  "starts_with p s \<longleftrightarrow> prefix p s"

definition ends_with_char :: "string \<Rightarrow> char \<Rightarrow> bool" where
  "ends_with_char s c \<longleftrightarrow> s \<noteq> [] \<and> last s = c"

text \<open>\<open>str::replace\<close> of one character by a string.\<close>

definition replace_char :: "char \<Rightarrow> string \<Rightarrow> string \<Rightarrow> string" where
  "replace_char d r s = concat (map (\<lambda>c. if c = d then r else [c]) s)"

lemma replace_char_Nil [simp]: "replace_char d r [] = []"
  by (simp add: replace_char_def)

lemma replace_char_Cons [simp]:
  "replace_char d r (c # s) = (if c = d then r else [c]) @ replace_char d r s"
  by (simp add: replace_char_def)

lemma trim_start_Nil [simp]: "trim_start [] = []"
  by (simp add: trim_start_def)

lemma dropWhile_fixed: "s \<noteq> [] \<Longrightarrow> \<not> P (hd s) \<Longrightarrow> dropWhile P s = s"
  by (cases s) auto

lemma trim_fixed: "s \<noteq> [] \<Longrightarrow> \<not> is_whitespace (hd s) \<Longrightarrow> \<not> is_whitespace (last s) \<Longrightarrow> trim s = s"
  by (simp add: trim_def trim_start_def trim_end_def dropWhile_fixed hd_rev)

lemma trim_skip_prefix: "(\<And>c. c \<in> set w \<Longrightarrow> is_whitespace c) \<Longrightarrow> trim (w @ s) = trim s"
  by (simp add: trim_def trim_start_def dropWhile_append2)

lemma trim_all_whitespace: "(\<And>c. c \<in> set s \<Longrightarrow> is_whitespace c) \<Longrightarrow> trim s = []"
proof -
  assume "\<And>c. c \<in> set s \<Longrightarrow> is_whitespace c"
  then have "trim_start s = []" by (simp add: trim_start_def dropWhile_eq_Nil_conv)
  then show ?thesis by (simp add: trim_def trim_end_def)
qed

lemma trim_end_snoc: "\<not> is_whitespace c \<Longrightarrow> trim_end (s @ [c]) = s @ [c]"
  by (simp add: trim_end_def)

lemma trim_start_last:
  "trim_start s \<noteq> [] \<Longrightarrow> last (trim_start s) = last s"
proof -
  assume "trim_start s \<noteq> []"
  moreover have "s = takeWhile is_whitespace s @ trim_start s"
    by (simp add: trim_start_def)
  ultimately show ?thesis by (metis last_appendR)
qed

lemma trim_ends: "trim s \<noteq> [] \<Longrightarrow> \<not> is_whitespace (hd (trim s)) \<and> \<not> is_whitespace (last (trim s))"
proof -
  assume ne: "trim s \<noteq> []"
  let ?t = "trim_start s"
  have pre: "prefix (trim s) ?t"
    unfolding trim_def trim_end_def
    by (metis rev_rev_ident suffix_dropWhile suffix_to_prefix)
  have "last (trim s) = hd (dropWhile is_whitespace (rev ?t))"
    using ne by (simp add: trim_def trim_end_def last_rev)
  moreover have "dropWhile is_whitespace (rev ?t) \<noteq> []"
    using ne by (simp add: trim_def trim_end_def)
  ultimately have "\<not> is_whitespace (last (trim s))"
    by (metis hd_dropWhile)
  moreover have "hd (trim s) = hd ?t"
    using pre ne by (metis hd_append2 prefixE)
  moreover have "?t \<noteq> []" using ne by (auto simp: trim_def trim_end_def)
  ultimately show ?thesis
    by (metis hd_dropWhile trim_start_def)
qed

lemma trim_not_empty: "c \<in> set s \<Longrightarrow> \<not> is_whitespace c \<Longrightarrow> trim s \<noteq> []"
proof -
  assume c: "c \<in> set s" "\<not> is_whitespace c"
  then have "c \<in> set (trim_start s)"
    using set_takeWhileD [of c is_whitespace s] takeWhile_dropWhile_id [of is_whitespace s]
    by (metis Un_iff set_append trim_start_def)
  with c have "\<exists>d\<in>set (rev (trim_start s)). \<not> is_whitespace d" by auto
  then show ?thesis by (simp add: trim_def trim_end_def dropWhile_eq_Nil_conv)
qed

lemma trim_idem [simp]: "trim (trim s) = trim s"
proof (cases "trim s = []")
  case True
  moreover have "trim [] = []" by (rule trim_all_whitespace) simp
  ultimately show ?thesis by simp
next
  case False
  with trim_ends [OF False] show ?thesis by (blast intro: trim_fixed)
qed

section \<open>Integers as text\<close>

definition digit_char :: "nat \<Rightarrow> char" where
  "digit_char d = char_of (48 + d)"

fun show_nat :: "nat \<Rightarrow> string" where
  "show_nat n = (if n < 10 then [digit_char n] else show_nat (n div 10) @ [digit_char (n mod 10)])"

declare show_nat.simps [simp del]

definition show_int :: "int \<Rightarrow> string" where
  "show_int i = (if i < 0 then CHR ''-'' # show_nat (nat (- i)) else show_nat (nat i))"

text \<open>
  \<open>str::parse\<close> for integers: an optional sign (a minus only for a signed type), then at least
  one ASCII digit and nothing else, within the type's range.
\<close>

fun parse_digits :: "nat \<Rightarrow> string \<Rightarrow> nat option" where
  "parse_digits acc [] = Some acc"
| "parse_digits acc (c # s) =
     (if is_ascii_digit c then parse_digits (10 * acc + (code_point c - 48)) s else None)"

definition parse_unsigned :: "nat \<Rightarrow> string \<Rightarrow> nat option" where
  "parse_unsigned limit s =
     (let t = (case s of c # r \<Rightarrow> if c = CHR ''+'' then r else s | [] \<Rightarrow> [])
      in if t = [] then None
         else case parse_digits 0 t of
           None \<Rightarrow> None | Some n \<Rightarrow> if n < limit then Some n else None)"

definition parse_i64 :: "string \<Rightarrow> int option" where
  "parse_i64 s =
     (let neg = (case s of c # _ \<Rightarrow> c = CHR ''-'' | [] \<Rightarrow> False);
          t = (case s of c # r \<Rightarrow> if c = CHR ''+'' \<or> c = CHR ''-'' then r else s | [] \<Rightarrow> [])
      in if t = [] then None
         else case parse_digits 0 t of
           None \<Rightarrow> None
         | Some n \<Rightarrow> (let i = (if neg then - int n else int n)
                     in if - (2 ^ 63) \<le> i \<and> i < 2 ^ 63 then Some i else None))"

abbreviation parse_u64 :: "string \<Rightarrow> nat option" where
  "parse_u64 \<equiv> parse_unsigned (2 ^ 64)"

abbreviation parse_u32 :: "string \<Rightarrow> nat option" where
  "parse_u32 \<equiv> parse_unsigned (2 ^ 32)"

lemma digit_char_code [simp]: "d < 10 \<Longrightarrow> code_point (digit_char d) = 48 + d"
  by (simp add: digit_char_def code_point_def)

lemma digit_char_is_digit [simp]: "d < 10 \<Longrightarrow> is_ascii_digit (digit_char d)"
  by (simp add: is_ascii_digit_def)

lemma show_nat_digits: "c \<in> set (show_nat n) \<Longrightarrow> is_ascii_digit c"
proof (induction n rule: show_nat.induct)
  case (1 n)
  then show ?case
    by (cases "n < 10") (auto simp: show_nat.simps [of n])
qed

lemma show_nat_nonempty [simp]: "show_nat n \<noteq> []"
  by (subst show_nat.simps) simp

lemma parse_digits_append:
  "parse_digits acc (s @ t) = (case parse_digits acc s of None \<Rightarrow> None | Some a \<Rightarrow> parse_digits a t)"
  by (induction s arbitrary: acc) auto

lemma parse_digits_show_nat: "parse_digits 0 (show_nat n) = Some n"
proof (induction n rule: show_nat.induct)
  case (1 n)
  then show ?case
    by (cases "n < 10") (simp_all add: show_nat.simps [of n] parse_digits_append)
qed

lemma show_nat_no_sign: "c \<in> set (show_nat n) \<Longrightarrow> c \<noteq> CHR ''-'' \<and> c \<noteq> CHR ''+''"
  using show_nat_digits [of c n] by (auto simp: is_ascii_digit_def code_point_def)

lemma parse_unsigned_show_nat: "n < limit \<Longrightarrow> parse_unsigned limit (show_nat n) = Some n"
  using show_nat_no_sign [of "hd (show_nat n)" n] parse_digits_show_nat [of n]
  by (cases "show_nat n") (simp_all add: parse_unsigned_def Let_def)

lemma parse_i64_show_int:
  assumes "- (2 ^ 63) \<le> i" "i < 2 ^ 63"
  shows "parse_i64 (show_int i) = Some i"
proof (cases "i < 0")
  case True
  with assms show ?thesis
    by (simp add: show_int_def parse_i64_def parse_digits_show_nat Let_def)
next
  case False
  obtain c r where cr: "show_nat (nat i) = c # r" by (cases "show_nat (nat i)") auto
  then have "c \<noteq> CHR ''-'' \<and> c \<noteq> CHR ''+''"
    using show_nat_no_sign [of c "nat i"] by simp
  with assms False show ?thesis
    using parse_digits_show_nat [of "nat i"] by (simp add: show_int_def parse_i64_def cr Let_def)
qed

lemma show_nat_inj: "show_nat m = show_nat n \<Longrightarrow> m = n"
  by (metis option.inject parse_digits_show_nat)

section \<open>Hexadecimal and Debug text\<close>

definition hex_digit :: "nat \<Rightarrow> char" where
  "hex_digit d = ''0123456789abcdef'' ! d"

text \<open>A byte as two lower-case hexadecimal digits, and a code point without leading zeros.\<close>

definition hex_byte :: "nat \<Rightarrow> string" where
  "hex_byte b = [hex_digit (b div 16), hex_digit (b mod 16)]"

definition hex_code :: "nat \<Rightarrow> string" where
  "hex_code n = (if n < 16 then [hex_digit n] else hex_byte n)"

text \<open>\<open>Debug\<close> of a string: quoted, with the escapes of \<open>char::escape_debug\<close>.\<close>

definition debug_char :: "char \<Rightarrow> string" where
  "debug_char c =
     (let n = code_point c in
      if n = 0 then [CHR 0x5C, CHR ''0'']
      else if n = 9 then [CHR 0x5C, CHR ''t'']
      else if n = 10 then [CHR 0x5C, CHR ''n'']
      else if n = 13 then [CHR 0x5C, CHR ''r'']
      else if n = 34 then [CHR 0x5C, CHR 0x22]
      else if n = 92 then [CHR 0x5C, CHR 0x5C]
      else if n < 32 \<or> (127 \<le> n \<and> n \<le> 160) \<or> n = 173
        then [CHR 0x5C] @ ''u{'' @ hex_code n @ ''}''
      else [c])"

definition debug_string :: "string \<Rightarrow> string" where
  "debug_string s = [CHR 0x22] @ concat (map debug_char s) @ [CHR 0x22]"

lemma hex_digit_set: "d < 16 \<Longrightarrow> hex_digit d \<in> set ''0123456789abcdef''"
  unfolding hex_digit_def by (rule nth_mem) simp

lemma hex_byte_set: "b < 256 \<Longrightarrow> set (hex_byte b) \<subseteq> set ''0123456789abcdef''"
  using hex_digit_set [of "b div 16"] hex_digit_set [of "b mod 16"]
  unfolding hex_byte_def by (simp only: set_simps insert_subset) auto

end
