(* ===== verification/Rust_Float.thy ===== *)
theory Rust_Float
  imports Rust_Text
begin

text \<open>
  The part of Rust's \<open>f64\<close> the source uses: the bit pattern, the classes, \<open>total_cmp\<close>, the
  \<open>as f64\<close> cast of an \<open>i64\<close> (round to nearest, ties to even) and \<open>Display\<close> (shortest digits
  that read back as the same value, written without an exponent).
\<close>

datatype f64 = F64 (to_bits: "64 word")

section \<open>Classes\<close>

definition f64_exponent :: "f64 \<Rightarrow> nat" where
  "f64_exponent x = unat (to_bits x) div 2 ^ 52 mod 2048"

definition f64_fraction :: "f64 \<Rightarrow> nat" where
  "f64_fraction x = unat (to_bits x) mod 2 ^ 52"

definition is_sign_positive :: "f64 \<Rightarrow> bool" where
  "is_sign_positive x \<longleftrightarrow> unat (to_bits x) < 2 ^ 63"

definition is_nan :: "f64 \<Rightarrow> bool" where
  "is_nan x \<longleftrightarrow> f64_exponent x = 2047 \<and> f64_fraction x \<noteq> 0"

definition is_finite :: "f64 \<Rightarrow> bool" where
  "is_finite x \<longleftrightarrow> f64_exponent x \<noteq> 2047"

section \<open>Total order\<close>

text \<open>
  \<open>total_cmp\<close> compares the bit patterns as signed integers after flipping the magnitude bits of
  a negative number: a positive pattern is its own magnitude, a negative one with magnitude \<open>m\<close>
  becomes \<open>- 1 - m\<close>.
\<close>

definition total_key :: "f64 \<Rightarrow> int" where
  "total_key x =
     (let n = int (unat (to_bits x)) in if n < 2 ^ 63 then n else 2 ^ 63 - 1 - n)"

definition total_cmp :: "f64 \<Rightarrow> f64 \<Rightarrow> ordering" where
  "total_cmp x y = cmp (total_key x) (total_key y)"

lemma total_key_inj: "total_key x = total_key y \<longleftrightarrow> x = y"
proof
  assume eq: "total_key x = total_key y"
  have key: "a = b"
    if "(if a < 2 ^ 63 then a else 2 ^ 63 - 1 - a) = (if b < 2 ^ 63 then b else 2 ^ 63 - 1 - b)"
      "0 \<le> a" "0 \<le> b" for a b :: int
    using that by (simp split: if_splits)
  have "int (unat (to_bits x)) = int (unat (to_bits y))"
    using eq unfolding total_key_def Let_def by (rule key) (rule of_nat_0_le_iff)+
  then have "uint (to_bits x) = uint (to_bits y)" by simp
  then show "x = y" by (cases x; cases y) (simp add: word_uint_eq_iff)
qed simp

section \<open>Integers to floats\<close>

fun bit_length :: "nat \<Rightarrow> nat" where
  "bit_length n = (if n = 0 then 0 else Suc (bit_length (n div 2)))"

declare bit_length.simps [simp del]

lemma bit_length_0 [simp]: "bit_length 0 = 0"
  by (simp add: bit_length.simps)

lemma bit_length_bounds: "0 < n \<Longrightarrow> 2 ^ (bit_length n - 1) \<le> n \<and> n < 2 ^ bit_length n"
proof (induction n rule: bit_length.induct)
  case (1 n)
  show ?case
  proof (cases "n = 1")
    case True
    then show ?thesis by (simp add: bit_length.simps [of "Suc 0"])
  next
    case False
    with 1 have half: "0 < n div 2" and ih:
      "2 ^ (bit_length (n div 2) - 1) \<le> n div 2" "n div 2 < 2 ^ bit_length (n div 2)" by auto
    have len: "bit_length n = Suc (bit_length (n div 2))"
      using 1 by (simp add: bit_length.simps [of n])
    have pos: "0 < bit_length (n div 2)"
      using half by (simp add: bit_length.simps [of "n div 2"])
    then have "(2::nat) ^ bit_length (n div 2) = 2 * 2 ^ (bit_length (n div 2) - 1)"
      by (simp flip: power_Suc)
    with ih len show ?thesis by simp linarith
  qed
qed

text \<open>The bit pattern, below the sign, of the float nearest to a natural number.\<close>

definition f64_magnitude :: "nat \<Rightarrow> nat" where
  "f64_magnitude a =
     (if a = 0 then 0
      else let k = bit_length a - 1
           in if k \<le> 52 then (k + 1022) * 2 ^ 52 + a * 2 ^ (52 - k)
              else let s = k - 52; q = a div 2 ^ s; r = a mod 2 ^ s; half = 2 ^ (s - 1);
                       q' = (if half < r \<or> (r = half \<and> odd q) then q + 1 else q)
                   in (k + 1022) * 2 ^ 52 + q')"

definition f64_of_int :: "int \<Rightarrow> f64" where
  "f64_of_int i =
     F64 (word_of_nat ((if i < 0 then 2 ^ 63 else 0) + f64_magnitude (nat \<bar>i\<bar>)))"

text \<open>
  Up to \<open>2 ^ 53\<close> in magnitude the cast is exact, so it keeps the order strictly; beyond, two
  integers can share a float.
\<close>

definition exact_int :: "int \<Rightarrow> bool" where
  "exact_int i \<longleftrightarrow> \<bar>i\<bar> < 2 ^ 53"

lemma f64_magnitude_exact:
  assumes "0 < a" "a < 2 ^ 53"
  defines "k \<equiv> bit_length a - 1"
  shows "k \<le> 52" "f64_magnitude a = (k + 1022) * 2 ^ 52 + a * 2 ^ (52 - k)"
    "2 ^ 52 \<le> a * 2 ^ (52 - k)" "a * 2 ^ (52 - k) < 2 ^ 53"
proof -
  have lo: "2 ^ k \<le> a" and hi: "a < 2 ^ Suc k"
    using bit_length_bounds [OF assms(1)] assms(1)
    by (auto simp: k_def bit_length.simps [of a])
  have "(2::nat) ^ k < 2 ^ 53" using lo assms(2) by linarith
  then have "k < 53" by (rule power_less_imp_less_exp [rotated]) simp
  then show k: "k \<le> 52" by simp
  then show "f64_magnitude a = (k + 1022) * 2 ^ 52 + a * 2 ^ (52 - k)"
    using assms(1) unfolding k_def by (simp add: f64_magnitude_def Let_def)
  have "(2::nat) ^ 52 = 2 ^ k * 2 ^ (52 - k)" using k by (simp flip: power_add)
  also have "\<dots> \<le> a * 2 ^ (52 - k)" using lo by simp
  finally show "2 ^ 52 \<le> a * 2 ^ (52 - k)" .
  have "a * 2 ^ (52 - k) < 2 ^ Suc k * 2 ^ (52 - k)" using hi by simp
  also have "\<dots> = 2 ^ 53" using k by (simp flip: power_add)
  finally show "a * 2 ^ (52 - k) < 2 ^ 53" .
qed

lemma f64_magnitude_mono:
  assumes "a < b" "b < 2 ^ 53"
  shows "f64_magnitude a < f64_magnitude b"
proof (cases "a = 0")
  case True
  from assms f64_magnitude_exact [of b] show ?thesis
    by (simp add: True f64_magnitude_def [of 0])
next
  case False
  define j where "j = bit_length a - 1"
  define k where "k = bit_length b - 1"
  have a: "j \<le> 52" "f64_magnitude a = (j + 1022) * 2 ^ 52 + a * 2 ^ (52 - j)"
    "2 ^ 52 \<le> a * 2 ^ (52 - j)" "a * 2 ^ (52 - j) < 2 ^ 53"
    using f64_magnitude_exact [of a] assms False by (auto simp: j_def)
  have b: "k \<le> 52" "f64_magnitude b = (k + 1022) * 2 ^ 52 + b * 2 ^ (52 - k)"
    "2 ^ 52 \<le> b * 2 ^ (52 - k)" "b * 2 ^ (52 - k) < 2 ^ 53"
    using f64_magnitude_exact [of b] assms by (auto simp: k_def)
  have ja: "2 ^ j \<le> a" and kb: "b < 2 ^ Suc k"
    using bit_length_bounds [of a] bit_length_bounds [of b] assms False
    by (auto simp: j_def k_def bit_length.simps [of b])
  have "(2::nat) ^ j < 2 ^ Suc k" using ja kb assms(1) by linarith
  then have "j \<le> k" by (simp add: power_strict_increasing_iff less_Suc_eq_le flip: power_Suc)
  then consider "j = k" | "j < k" by linarith
  then show ?thesis
  proof cases
    case 1
    with a(2) b(2) assms(1) show ?thesis by simp
  next
    case 2
    then have "(j + 1022) * 2 ^ 52 + 2 ^ 52 \<le> (k + 1022) * (2::nat) ^ 52"
      by (simp flip: mult_Suc)
    with a b show ?thesis by simp
  qed
qed

lemma f64_magnitude_bound: "a < 2 ^ 53 \<Longrightarrow> f64_magnitude a < 2 ^ 63"
proof (cases "a = 0")
  case False
  assume "a < 2 ^ 53"
  with False f64_magnitude_exact [of a] show ?thesis by simp
qed (simp add: f64_magnitude_def)

lemma total_key_of_int:
  assumes "exact_int i"
  shows "total_key (f64_of_int i) =
    (if i < 0 then - 1 - int (f64_magnitude (nat (- i))) else int (f64_magnitude (nat i)))"
proof -
  define m where "m = f64_magnitude (nat \<bar>i\<bar>)"
  have m: "m < 2 ^ 63"
    using assms f64_magnitude_bound [of "nat \<bar>i\<bar>"] by (simp add: exact_int_def m_def nat_less_iff)
  have "unat (to_bits (f64_of_int i)) = ((if i < 0 then 2 ^ 63 else 0) + m) mod 2 ^ LENGTH(64)"
    by (simp only: f64_of_int_def f64.sel unat_of_nat flip: m_def)
  with m have "unat (to_bits (f64_of_int i)) = (if i < 0 then 2 ^ 63 else 0) + m"
    by simp
  then have bits: "int (unat (to_bits (f64_of_int i))) = (if i < 0 then 2 ^ 63 else 0) + int m"
    by simp
  have mag: "m = (if i < 0 then f64_magnitude (nat (- i)) else f64_magnitude (nat i))"
    by (simp add: m_def)
  have "int m < 2 ^ 63" using m by simp
  then show ?thesis
    unfolding total_key_def Let_def bits by (cases "i < 0") (simp_all add: mag)
qed

lemma total_key_of_int_mono:
  assumes "exact_int i" "exact_int j"
  shows "total_key (f64_of_int i) < total_key (f64_of_int j) \<longleftrightarrow> i < j"
proof -
  have mono: "total_key (f64_of_int i) < total_key (f64_of_int j)"
    if "i < j" "exact_int i" "exact_int j" for i j
  proof (cases "j < 0")
    case True
    with that have "nat (- j) < nat (- i)" "nat (- i) < 2 ^ 53"
      by (auto simp: exact_int_def nat_less_iff)
    then have "f64_magnitude (nat (- j)) < f64_magnitude (nat (- i))"
      by (rule f64_magnitude_mono)
    with True that show ?thesis by (simp add: total_key_of_int)
  next
    case False
    show ?thesis
    proof (cases "i < 0")
      case True
      with False that show ?thesis by (simp add: total_key_of_int)
    next
      case i: False
      with that have "nat i < nat j" "nat j < 2 ^ 53"
        by (auto simp: exact_int_def nat_less_iff)
      then have "f64_magnitude (nat i) < f64_magnitude (nat j)"
        by (rule f64_magnitude_mono)
      with False i that show ?thesis by (simp add: total_key_of_int)
    qed
  qed
  show ?thesis
    using mono [of i j] mono [of j i] assms by (cases i j rule: linorder_cases) auto
qed

lemma total_key_of_int_eq:
  "exact_int i \<Longrightarrow> exact_int j \<Longrightarrow> total_key (f64_of_int i) = total_key (f64_of_int j) \<longleftrightarrow> i = j"
  using total_key_of_int_mono [of i j] total_key_of_int_mono [of j i]
  by (cases i j rule: linorder_cases) auto

section \<open>Display\<close>

text \<open>
  A finite, non-zero float as \<open>mant * 2 ^ exp\<close> with the distances \<open>minus\<close> and \<open>plus\<close> to the
  boundaries of the interval that reads back as it; the boundaries belong to the interval when
  the significand is even.
\<close>

record decoded_f64 =
  dc_mant :: nat
  dc_minus :: nat
  dc_plus :: nat
  dc_exp :: int
  dc_inclusive :: bool

definition f64_decode :: "f64 \<Rightarrow> decoded_f64" where
  "f64_decode x =
     (let e = f64_exponent x; f = f64_fraction x
      in if e = 0 then
           \<lparr>dc_mant = 2 * f, dc_minus = 1, dc_plus = 1, dc_exp = - 1075, dc_inclusive = True\<rparr>
         else if f = 0 then
           \<lparr>dc_mant = 4 * 2 ^ 52, dc_minus = 1, dc_plus = 2, dc_exp = int e - 1077,
             dc_inclusive = True\<rparr>
         else
           \<lparr>dc_mant = 2 * (2 ^ 52 + f), dc_minus = 1, dc_plus = 1, dc_exp = int e - 1076,
             dc_inclusive = even f\<rparr>)"

definition fits :: "bool \<Rightarrow> nat \<Rightarrow> nat \<Rightarrow> bool" where
  "fits incl h s \<longleftrightarrow> (if incl then h < s else h \<le> s)"

text \<open>
  The least decimal exponent \<open>k\<close> with the upper boundary below \<open>10 ^ k\<close>: first the exponents
  from 0 upwards, then downwards.
\<close>

function scale_up :: "bool \<Rightarrow> nat \<Rightarrow> nat \<Rightarrow> nat \<Rightarrow> nat" where
  "scale_up incl h s k =
     (if s = 0 \<or> fits incl h s then k else scale_up incl h (10 * s) (Suc k))"
  by pat_completeness auto
termination
  by (relation "measure (\<lambda>(incl, h, s, k). Suc h - s)") (auto simp: fits_def split: if_splits)

function scale_down :: "bool \<Rightarrow> nat \<Rightarrow> nat \<Rightarrow> nat \<Rightarrow> nat" where
  "scale_down incl h s k =
     (if h = 0 \<or> \<not> fits incl (10 * h) s then k else scale_down incl (10 * h) s (Suc k))"
  by pat_completeness auto
termination
  by (relation "measure (\<lambda>(incl, h, s, k). s - h)") (auto simp: fits_def split: if_splits)

declare scale_up.simps [simp del] scale_down.simps [simp del]

text \<open>
  Digit generation: one digit per round, until the remainder is within reach of a boundary; the
  second result says whether the last digit is to be rounded up.
\<close>

function gen_digits :: "bool \<Rightarrow> nat \<Rightarrow> nat \<Rightarrow> nat \<Rightarrow> nat \<Rightarrow> nat list \<times> bool" where
  "gen_digits incl m lo hi s =
     (let d = m div s; r = m mod s;
          down = (if incl then r \<le> lo else r < lo);
          up = (\<not> fits incl (r + hi) s)
      in if down \<or> up \<or> lo = 0 \<or> s = 0 then ([d], up \<and> (\<not> down \<or> s \<le> 2 * r))
         else let (ds, round) = gen_digits incl (10 * r) (10 * lo) (10 * hi) s
              in (d # ds, round))"
  by pat_completeness auto
termination
proof (relation "measure (\<lambda>(incl, m, lo, hi, s). s - lo)", goal_cases)
  case (2 incl m lo hi s d r down up)
  then have "0 < lo" "0 < s" "lo \<le> r" by (auto split: if_splits)
  moreover have "r < s" using 2 \<open>0 < s\<close> by simp
  ultimately show ?case by simp
qed simp

declare gen_digits.simps [simp del]

text \<open>Rounding the last digit up, on the digits in reverse: a 9 becomes 0 and carries.\<close>

fun carry :: "nat list \<Rightarrow> nat list \<times> bool" where
  "carry [] = ([], True)"
| "carry (d # ds) = (if d < 9 then (Suc d # ds, False)
     else let (ds', c) = carry ds in (0 # ds', c))"

definition round_up :: "nat list \<Rightarrow> nat list \<times> bool" where
  "round_up ds = (let (r, c) = carry (rev ds) in if c then (1 # rev r, True) else (rev r, False))"

definition f64_scaled :: "f64 \<Rightarrow> bool \<times> nat \<times> nat \<times> nat \<times> nat \<times> int" where
  "f64_scaled x =
     (let d = f64_decode x;
          p = (if 0 \<le> dc_exp d then 2 ^ nat (dc_exp d) else 1);
          s = (if 0 \<le> dc_exp d then 1 else 2 ^ nat (- dc_exp d));
          m = dc_mant d * p; lo = dc_minus d * p; hi = dc_plus d * p; incl = dc_inclusive d;
          u = scale_up incl (m + hi) s 0;
          w = (if u = 0 then scale_down incl (m + hi) s 0 else 0)
      in (incl, 10 * (m * 10 ^ w), 10 * (lo * 10 ^ w), 10 * (hi * 10 ^ w), s * 10 ^ u,
          int u - int w))"

definition f64_digits :: "f64 \<Rightarrow> nat list \<times> int" where
  "f64_digits x =
     (case f64_scaled x of (incl, m, lo, hi, s, k) \<Rightarrow>
        case gen_digits incl m lo hi s of (ds, rnd) \<Rightarrow>
          if rnd then (case round_up ds of (ds', c) \<Rightarrow> (ds', if c then k + 1 else k))
          else (ds, k))"

definition show_positional :: "nat list \<Rightarrow> int \<Rightarrow> string" where
  "show_positional ds k =
     (let buf = map digit_char ds
      in if k \<le> 0 then ''0.'' @ replicate (nat (- k)) (CHR ''0'') @ buf
         else if nat k < length buf then take (nat k) buf @ ''.'' @ drop (nat k) buf
         else buf @ replicate (nat k - length buf) (CHR ''0''))"

definition show_f64 :: "f64 \<Rightarrow> string" where
  "show_f64 x =
     (if is_nan x then ''NaN''
      else (if is_sign_positive x then [] else ''-'') @
        (if \<not> is_finite x then ''inf''
         else if f64_exponent x = 0 \<and> f64_fraction x = 0 then ''0''
         else case f64_digits x of (ds, k) \<Rightarrow> show_positional ds k))"

text \<open>
  The digits generated are decimal digits, so a displayed float is made of digits, a minus
  sign, a point and the letters of \<open>NaN\<close> and \<open>inf\<close>.
\<close>

lemma scale_up_fits: "0 < s \<Longrightarrow> k \<le> scale_up incl h s k \<and> fits incl h (s * 10 ^ (scale_up incl h s k - k))"
proof (induction incl h s k rule: scale_up.induct)
  case (1 incl h s k)
  show ?case
  proof (cases "fits incl h s")
    case True
    then show ?thesis by (simp add: scale_up.simps [of incl h s k])
  next
    case False
    let ?u = "scale_up incl h (10 * s) (Suc k)"
    from False 1 have "Suc k \<le> ?u" "fits incl h (10 * s * 10 ^ (?u - Suc k))" by auto
    moreover from this(1) have "10 * s * 10 ^ (?u - Suc k) = s * 10 ^ (?u - k)"
      by (simp add: Suc_diff_Suc Suc_le_eq mult.assoc flip: power_Suc)
    ultimately show ?thesis
      using False 1 by (simp add: scale_up.simps [of incl h s k])
  qed
qed

lemma scale_down_fits:
  "fits incl h s \<Longrightarrow> k \<le> scale_down incl h s k \<and> fits incl (h * 10 ^ (scale_down incl h s k - k)) s"
proof (induction incl h s k rule: scale_down.induct)
  case (1 incl h s k)
  show ?case
  proof (cases "h = 0 \<or> \<not> fits incl (10 * h) s")
    case True
    with 1 show ?thesis by (simp add: scale_down.simps [of incl h s k])
  next
    case False
    let ?w = "scale_down incl (10 * h) s (Suc k)"
    from False 1 have "Suc k \<le> ?w" "fits incl (10 * h * 10 ^ (?w - Suc k)) s" by auto
    moreover from this(1) have "10 * h * 10 ^ (?w - Suc k) = h * 10 ^ (?w - k)"
      by (simp add: Suc_diff_Suc Suc_le_eq mult.assoc flip: power_Suc)
    ultimately show ?thesis
      using False by (simp add: scale_down.simps [of incl h s k])
  qed
qed

lemma gen_digits_small:
  "m < 10 * s \<Longrightarrow> gen_digits incl m lo hi s = (ds, rnd) \<Longrightarrow> d \<in> set ds \<Longrightarrow> d < 10"
proof (induction incl m lo hi s arbitrary: ds rnd rule: gen_digits.induct)
  case (1 incl m lo hi s)
  have d0: "m div s < 10" using "1.prems"(1) by (simp add: div_less_iff_less_mult)
  have "0 < s" using "1.prems"(1) by auto
  then have "10 * (m mod s) < 10 * s" by simp
  then show ?case
    using "1.prems"(2,3) "1.IH" [OF refl refl refl refl] d0
    by (auto simp: gen_digits.simps [of incl m] Let_def split: if_splits prod.splits)
qed

lemma carry_small: "(\<And>d. d \<in> set ds \<Longrightarrow> d < 10) \<Longrightarrow> d \<in> set (fst (carry ds)) \<Longrightarrow> d < 10"
  by (induction ds) (auto split: if_splits prod.splits)

lemma round_up_small: "(\<And>d. d \<in> set ds \<Longrightarrow> d < 10) \<Longrightarrow> d \<in> set (fst (round_up ds)) \<Longrightarrow> d < 10"
  using carry_small [of "rev ds" d] by (auto simp: round_up_def split: if_splits prod.splits)

lemma f64_scaled_bound:
  assumes "f64_scaled x = (incl, m', lo', hi', s', k)"
  shows "m' < 10 * s'"
proof -
  define dc where "dc = f64_decode x"
  define p :: nat where "p = (if 0 \<le> dc_exp dc then 2 ^ nat (dc_exp dc) else 1)"
  define s :: nat where "s = (if 0 \<le> dc_exp dc then 1 else 2 ^ nat (- dc_exp dc))"
  define m where "m = dc_mant dc * p"
  define hi where "hi = dc_plus dc * p"
  define u where "u = scale_up (dc_inclusive dc) (m + hi) s 0"
  define w where "w = (if u = 0 then scale_down (dc_inclusive dc) (m + hi) s 0 else 0)"
  have s: "0 < s" by (simp add: s_def)
  have hi: "0 < hi" by (simp add: hi_def p_def dc_def f64_decode_def Let_def)
  have u: "fits (dc_inclusive dc) (m + hi) (s * 10 ^ u)"
    using scale_up_fits [OF s, of 0 "dc_inclusive dc" "m + hi"] by (simp add: u_def)
  have "fits (dc_inclusive dc) ((m + hi) * 10 ^ w) (s * 10 ^ u)"
  proof (cases "u = 0")
    case True
    with u scale_down_fits [of "dc_inclusive dc" "m + hi" s 0] show ?thesis by (simp add: w_def)
  next
    case False
    with u show ?thesis by (simp add: w_def)
  qed
  then have "(m + hi) * 10 ^ w \<le> s * 10 ^ u" by (simp add: fits_def split: if_splits)
  moreover have "m * 10 ^ w < (m + hi) * 10 ^ w" using hi by simp
  ultimately have "10 * (m * 10 ^ w) < 10 * (s * 10 ^ u)" by linarith
  moreover have "f64_scaled x = (dc_inclusive dc, 10 * (m * 10 ^ w), 10 * (dc_minus dc * p * 10 ^ w),
      10 * (hi * 10 ^ w), s * 10 ^ u, int u - int w)"
    by (simp only: f64_scaled_def Let_def dc_def p_def s_def m_def hi_def u_def w_def)
  ultimately show ?thesis using assms by simp
qed

lemma f64_digits_small:
  assumes "f64_digits x = (ds, k)" "d \<in> set ds"
  shows "d < 10"
proof -
  obtain incl m lo hi s k' where sc: "f64_scaled x = (incl, m, lo, hi, s, k')"
    by (cases "f64_scaled x") auto
  obtain ds' r where g: "gen_digits incl m lo hi s = (ds', r)" by fastforce
  have small: "d < 10" if "d \<in> set ds'" for d
    using gen_digits_small [OF f64_scaled_bound [OF sc] g that] .
  have "ds = (if r then fst (round_up ds') else ds')"
    using assms(1) by (auto simp: f64_digits_def sc g split: if_splits prod.splits)
  with assms(2) small round_up_small [of ds' d] show ?thesis by (auto split: if_splits)
qed

definition float_chars :: "char set" where
  "float_chars = {c. is_ascii_digit c} \<union> set ''-.NaNinf''"

lemma show_positional_chars:
  "(\<And>d. d \<in> set ds \<Longrightarrow> d < 10) \<Longrightarrow> c \<in> set (show_positional ds k) \<Longrightarrow> is_ascii_digit c \<or> c = CHR ''.''"
proof -
  assume small: "\<And>d. d \<in> set ds \<Longrightarrow> d < 10" and c: "c \<in> set (show_positional ds k)"
  have "is_ascii_digit c" if "c \<in> set (map digit_char ds)" using that small by auto
  moreover have "is_ascii_digit (CHR ''0'')" by (simp add: is_ascii_digit_def code_point_def)
  ultimately show ?thesis
    using c by (auto simp: show_positional_def Let_def simp del: set_map split: if_splits
        dest!: in_set_takeD in_set_dropD)
qed

lemma show_f64_chars: "set (show_f64 x) \<subseteq> float_chars"
proof -
  obtain ds k where dk: "f64_digits x = (ds, k)" by fastforce
  have "set (show_positional ds k) \<subseteq> float_chars"
    using show_positional_chars [OF f64_digits_small [OF dk]] by (auto simp: float_chars_def)
  then show ?thesis
    by (auto simp: show_f64_def dk float_chars_def is_ascii_digit_def code_point_def split: if_splits)
qed

end
