(* ===== verification/Core_Data.thy ===== *)
theory Core_Data
  imports Rust_Float
begin

text \<open>
  The value types of crate \<open>dbboard-core\<close>: the error taxonomy (\<open>error.rs\<close>), a database cell and
  its JSON wire form (\<open>value.rs\<close>), rows and results (\<open>row.rs\<close>), the row cap (\<open>limits.rs\<close>) and
  the schema metadata (\<open>schema.rs\<close>).
\<close>

section \<open>Errors\<close>

datatype db_error =
    Connection_Error string
  | Query_Error string
  | Schema_Error string
  | Type_Conversion_Error string
  | Capability_Error string

type_synonym 'a db_result = "db_error + 'a"

fun db_error_category :: "db_error \<Rightarrow> string" where
  "db_error_category (Connection_Error _) = ''connection''"
| "db_error_category (Query_Error _) = ''query''"
| "db_error_category (Schema_Error _) = ''schema''"
| "db_error_category (Type_Conversion_Error _) = ''type_conversion''"
| "db_error_category (Capability_Error _) = ''capability''"

fun db_error_message :: "db_error \<Rightarrow> string" where
  "db_error_message (Connection_Error m) = m"
| "db_error_message (Query_Error m) = m"
| "db_error_message (Schema_Error m) = m"
| "db_error_message (Type_Conversion_Error m) = m"
| "db_error_message (Capability_Error m) = m"

fun db_error_display :: "db_error \<Rightarrow> string" where
  "db_error_display (Connection_Error m) = ''connection failed: '' @ m"
| "db_error_display (Query_Error m) = ''query failed: '' @ m"
| "db_error_display (Schema_Error m) = ''schema introspection failed: '' @ m"
| "db_error_display (Type_Conversion_Error m) = ''type conversion failed: '' @ m"
| "db_error_display (Capability_Error m) = ''capability unavailable: '' @ m"

definition db_error_from_parts :: "string \<Rightarrow> string \<Rightarrow> db_error" where
  "db_error_from_parts category message =
     (if category = ''connection'' then Connection_Error message
      else if category = ''schema'' then Schema_Error message
      else if category = ''type_conversion'' then Type_Conversion_Error message
      else if category = ''capability'' then Capability_Error message
      else Query_Error message)"

lemma db_error_parts: "db_error_from_parts (db_error_category e) (db_error_message e) = e"
  by (cases e) (simp_all add: db_error_from_parts_def)

section \<open>JSON trees and cells\<close>

text \<open>
  The enum of \<open>serde_json\<close> that a document cell carries; its map keeps the members as the list
  of pairs in iteration order. Its compact rendering is a parameter, \<open>json_text\<close>, of the
  definitions that print a document.
\<close>

datatype json_number = Num_Int int | Num_Float f64

datatype json =
    JNull
  | JBool bool
  | JNumber json_number
  | JString string
  | JArray "json list"
  | JObject "(string \<times> json) list"

datatype val =
    Null
  | Integer i64
  | Real f64
  | Text string
  | Blob "8 word list"
  | Json json

fun is_null :: "val \<Rightarrow> bool" where
  "is_null Null = True"
| "is_null _ = False"

fun value_display :: "(json \<Rightarrow> string) \<Rightarrow> val \<Rightarrow> string" where
  "value_display json_text Null = ''NULL''"
| "value_display json_text (Integer n) = show_int (sint n)"
| "value_display json_text (Real x) = show_f64 x"
| "value_display json_text (Text s) = s"
| "value_display json_text (Blob b) = ''<blob: '' @ show_nat (length b) @ '' bytes>''"
| "value_display json_text (Json v) = json_text v"

section \<open>The wire form of a cell\<close>

definition BLOB_KEY :: string where "BLOB_KEY = ''$blob''"
definition JSON_KEY :: string where "JSON_KEY = ''$json''"

text \<open>
  \<open>Serialize\<close>: the tree the serializer is driven to write. A non-finite float has no JSON number
  and \<open>serde_json\<close> writes null for it. Base64 comes from another crate and is a parameter.
\<close>

fun value_serialize :: "(8 word list \<Rightarrow> string) \<Rightarrow> val \<Rightarrow> json" where
  "value_serialize b64_encode Null = JNull"
| "value_serialize b64_encode (Integer n) = JNumber (Num_Int (sint n))"
| "value_serialize b64_encode (Real x) =
     (if is_finite x then JNumber (Num_Float x) else JNull)"
| "value_serialize b64_encode (Text s) = JString s"
| "value_serialize b64_encode (Blob bytes) = JObject [(BLOB_KEY, JString (b64_encode bytes))]"
| "value_serialize b64_encode (Json tree) = JObject [(JSON_KEY, tree)]"

text \<open>
  \<open>Deserialize\<close>: the visitor method \<open>serde\<close> calls for each token; the visitor has no method for
  a boolean or a sequence, which is an error.
\<close>

definition visit_i64 :: "int \<Rightarrow> string + val" where
  "visit_i64 v = Inr (Integer (word_of_int v))"

definition visit_u64 :: "int \<Rightarrow> string + val" where
  "visit_u64 v = (if v < 2 ^ 63 then Inr (Integer (word_of_int v))
     else Inl ''out of range integral type conversion attempted'')"

fun visit_map :: "(string \<Rightarrow> string + 8 word list) \<Rightarrow> (string \<times> json) list \<Rightarrow> string + val" where
  "visit_map b64_decode [] = Inl ''expected a blob or json object, got an empty map''"
| "visit_map b64_decode ((key, payload) # rest) =
     (if key = BLOB_KEY then
        (case payload of
           JString encoded \<Rightarrow> rbind (b64_decode encoded) (\<lambda>bytes.
             if rest \<noteq> [] then Inl ''unexpected extra key in blob object'' else Inr (Blob bytes))
         | _ \<Rightarrow> Inl ''invalid type, expected a string'')
      else if key = JSON_KEY then
        (if rest \<noteq> [] then Inl ''unexpected extra key in json object'' else Inr (Json payload))
      else Inl (''unexpected key '' @ key @ '', expected '' @ BLOB_KEY @ '' or '' @ JSON_KEY))"

fun value_deserialize :: "(string \<Rightarrow> string + 8 word list) \<Rightarrow> json \<Rightarrow> string + val" where
  "value_deserialize b64_decode JNull = Inr Null"
| "value_deserialize b64_decode (JBool b) = Inl ''invalid type: boolean''"
| "value_deserialize b64_decode (JNumber (Num_Int i)) =
     (if i < 0 then visit_i64 i else visit_u64 i)"
| "value_deserialize b64_decode (JNumber (Num_Float x)) = Inr (Real x)"
| "value_deserialize b64_decode (JString s) = Inr (Text s)"
| "value_deserialize b64_decode (JArray items) = Inl ''invalid type: sequence''"
| "value_deserialize b64_decode (JObject members) = visit_map b64_decode members"

fun finite_real :: "val \<Rightarrow> bool" where
  "finite_real (Real x) \<longleftrightarrow> is_finite x"
| "finite_real _ \<longleftrightarrow> True"

lemma sint_i64_bounds: "- (2 ^ 63) \<le> sint (n :: i64)" "sint (n :: i64) < 2 ^ 63"
  using sint_greater_eq [of n] sint_less [of n] by simp_all

text \<open>
  Every cell survives the JSON wire form: deserializing what \<open>Serialize\<close> wrote gives the cell
  back, for each integer at its 64-bit width, finite float, text, blob and document, given that
  the Base64 decoder inverts the encoder.
\<close>

theorem value_wire_round_trip:
  assumes "\<And>bytes. b64_decode (b64_encode bytes) = Inr bytes" "finite_real v"
  shows "value_deserialize b64_decode (value_serialize b64_encode v) = Inr v"
  using assms sint_i64_bounds
  by (cases v) (auto simp: visit_i64_def visit_u64_def BLOB_KEY_def JSON_KEY_def)

theorem value_wire_round_trip_witness:
  "value_deserialize (\<lambda>s. Inr (map (\<lambda>c. word_of_nat (of_char c)) s))
     (value_serialize (map (\<lambda>b. char_of (unat b))) (Blob [0, 255])) = Inr (Blob [0, 255])"
proof -
  have inverse: "unat b mod 256 = unat b" for b :: "8 word"
  proof -
    have "unat b < 2 ^ LENGTH(8)" by (rule unsigned_less)
    then show ?thesis by simp
  qed
  show ?thesis
    by (rule value_wire_round_trip) (simp_all add: inverse map_idI)
qed

section \<open>Rows and results\<close>

record column =
  col_name :: string
  col_declared_type :: "string option"

type_synonym row = "val list"

record query_result =
  qr_columns :: "column list"
  qr_rows :: "row list"
  qr_rows_affected :: u64
  qr_has_more :: bool
  qr_next_cursor :: "val list option"

definition query_result_empty :: query_result where
  "query_result_empty = \<lparr>qr_columns = [], qr_rows = [], qr_rows_affected = 0,
     qr_has_more = False, qr_next_cursor = None\<rparr>"

definition truncate_rows :: "nat \<Rightarrow> query_result \<Rightarrow> query_result" where
  "truncate_rows max_rows r = r\<lparr>qr_rows := take max_rows (qr_rows r)\<rparr>"

definition column_names :: "query_result \<Rightarrow> string list" where
  "column_names r = map col_name (qr_columns r)"

lemma truncate_rows_simps [simp]:
  "qr_rows (truncate_rows n r) = take n (qr_rows r)"
  "qr_columns (truncate_rows n r) = qr_columns r"
  "column_names (truncate_rows n r) = column_names r"
  by (simp_all add: truncate_rows_def column_names_def)

section \<open>The row cap\<close>

definition MAX_RESULT_ROWS :: nat where "MAX_RESULT_ROWS = 10000"

definition too_many_rows_error :: db_error where
  "too_many_rows_error = Query_Error (''result set exceeds the '' @ show_nat MAX_RESULT_ROWS
     @ ''-row cap; add a LIMIT clause to narrow it'')"

section \<open>Schema metadata\<close>

record table_info =
  ti_schema :: "string option"
  ti_name :: string

definition table_unqualified :: "string \<Rightarrow> table_info" where
  "table_unqualified name = \<lparr>ti_schema = None, ti_name = name\<rparr>"

definition table_qualified :: "string \<Rightarrow> string \<Rightarrow> table_info" where
  "table_qualified schema name = \<lparr>ti_schema = Some schema, ti_name = name\<rparr>"

record column_info =
  ci_name :: string
  ci_declared_type :: "string option"
  ci_nullable :: bool
  ci_primary_key :: bool
  ci_ordinal :: u32
  ci_default_value :: "string option"

record table_schema =
  ts_table :: table_info
  ts_columns :: "column_info list"
  ts_primary_key :: "string list"

record index_info =
  ix_name :: string
  ix_columns :: "string list"
  ix_unique :: bool

record foreign_key =
  fk_columns :: "string list"
  fk_referenced_table :: table_info
  fk_referenced_columns :: "string list"
  fk_constraint_name :: "string option"

text \<open>The fallbacks of an implicit reference: the parent's key column, then \<open>rowid\<close>.\<close>

definition resolve_referenced_columns :: "string option list \<Rightarrow> string list \<Rightarrow> string list" where
  "resolve_referenced_columns to parent_pk =
     map (\<lambda>(i, col). case col of
            Some c \<Rightarrow> c
          | None \<Rightarrow> (case get parent_pk i of Some k \<Rightarrow> k | None \<Rightarrow> ''rowid''))
       (enumerate 0 to)"

lemma length_resolve_referenced_columns [simp]:
  "length (resolve_referenced_columns to parent_pk) = length to"
  by (simp add: resolve_referenced_columns_def)

lemma nth_resolve_referenced_columns:
  "i < length to \<Longrightarrow> resolve_referenced_columns to parent_pk ! i =
    (case to ! i of Some c \<Rightarrow> c
     | None \<Rightarrow> if i < length parent_pk then parent_pk ! i else ''rowid'')"
  by (simp add: resolve_referenced_columns_def nth_enumerate_eq get_def split: option.split)

text \<open>The name a table is reported under; both the dump and the restore runner have this helper.\<close>

definition display_name :: "table_info \<Rightarrow> string" where
  "display_name table =
     (case ti_schema table of Some schema \<Rightarrow> schema @ ''.'' @ ti_name table | None \<Rightarrow> ti_name table)"

end
