(* ===== verification/Row_Sort.thy ===== *)
theory Row_Sort
  imports Core_Data "HOL-Library.Product_Lexorder"
begin

text \<open>
  Multi-key sorting of result rows (\<open>dbboard-core/src/sort.rs\<close>): the comparison of cells, of
  rows under a list of sort keys, and the stable permutation of row indices. The contract of
  \<open>slice::sort_by\<close> (a total preorder in, a stable sorted permutation out) is the locale
  \<open>comparison\<close>, interpreted on the cell comparison, the row comparison and the comparison of row
  indices that \<open>sorted_row_order\<close> hands to the sort.
\<close>

section \<open>The interface of a stable sort\<close>

fun insert_stable :: "('a \<Rightarrow> 'a \<Rightarrow> ordering) \<Rightarrow> 'a \<Rightarrow> 'a list \<Rightarrow> 'a list" where
  "insert_stable c x [] = [x]"
| "insert_stable c x (y # ys) =
     (if c x y = Greater then y # insert_stable c x ys else x # y # ys)"

text \<open>
  \<open>slice::sort_by\<close> for a comparison that is a total preorder on the elements: the one stable
  sorted permutation. For any other comparison the library leaves the result open and may panic,
  so nothing is claimed there.
\<close>

fun sort_by :: "('a \<Rightarrow> 'a \<Rightarrow> ordering) \<Rightarrow> 'a list \<Rightarrow> 'a list" where
  "sort_by c [] = []"
| "sort_by c (x # xs) = insert_stable c x (sort_by c xs)"

lemma mset_insert_stable [simp]: "mset (insert_stable c x xs) = add_mset x (mset xs)"
  by (induction xs) auto

lemma mset_sort_by [simp]: "mset (sort_by c xs) = mset xs"
  by (induction xs) auto

lemma set_insert_stable [simp]: "set (insert_stable c x xs) = insert x (set xs)"
  by (induction xs) auto

lemma set_sort_by [simp]: "set (sort_by c xs) = set xs"
  by (induction xs) auto

lemma length_sort_by [simp]: "length (sort_by c xs) = length xs"
  by (metis mset_sort_by size_mset)

locale comparison =
  fixes compare :: "'a \<Rightarrow> 'a \<Rightarrow> ordering"
    and carrier :: "'a \<Rightarrow> bool"
  assumes compare_refl: "carrier x \<Longrightarrow> compare x x = Equal"
    and compare_reverse: "carrier x \<Longrightarrow> carrier y \<Longrightarrow> compare y x = ord_reverse (compare x y)"
    and compare_trans: "carrier x \<Longrightarrow> carrier y \<Longrightarrow> carrier z \<Longrightarrow>
      compare x y \<noteq> Greater \<Longrightarrow> compare y z \<noteq> Greater \<Longrightarrow> compare x z \<noteq> Greater"
begin

lemma equal_trans:
  assumes "carrier x" "carrier y" "carrier z" "compare x y = Equal" "compare y z = Equal"
  shows "compare x z = Equal"
proof -
  have "compare x z \<noteq> Greater" using compare_trans [of x y z] assms by simp
  moreover have "compare z x \<noteq> Greater"
    using compare_trans [of z y x] compare_reverse [of x y] compare_reverse [of y z] assms by simp
  ultimately show ?thesis
    using compare_reverse [of x z] assms by (cases "compare x z") auto
qed

lemma less_trans:
  assumes "carrier x" "carrier y" "carrier z"
    "compare x y \<noteq> Greater" "compare y z \<noteq> Greater" "compare x z = Equal"
  shows "compare x y = Equal" "compare y z = Equal"
proof -
  have "compare z x = Equal" using assms compare_reverse [of x z] by simp
  then have "compare y x \<noteq> Greater" "compare z y \<noteq> Greater"
    using compare_trans [of y z x] compare_trans [of z x y] assms by auto
  then show "compare x y = Equal" "compare y z = Equal"
    using assms compare_reverse [of x y] compare_reverse [of y z]
    by (cases "compare x y"; cases "compare y z"; simp)+
qed

lemma insert_stable_sorted:
  assumes "carrier x" "\<forall>y\<in>set ys. carrier y \<and> R x y"
    "sorted_wrt (\<lambda>a b. compare a b = Less \<or> compare a b = Equal \<and> R a b) ys"
  shows "sorted_wrt (\<lambda>a b. compare a b = Less \<or> compare a b = Equal \<and> R a b)
    (insert_stable compare x ys)"
  using assms
proof (induction ys)
  case (Cons y ys)
  show ?case
  proof (cases "compare x y = Greater")
    case True
    then have "compare y x = Less" using compare_reverse [of x y] Cons.prems by simp
    with True Cons show ?thesis by simp
  next
    case False
    have "compare x z = Less \<or> compare x z = Equal \<and> R x z" if "z \<in> set ys" for z
    proof -
      have "compare y z \<noteq> Greater" using Cons.prems that by auto
      then have "compare x z \<noteq> Greater"
        using compare_trans [of x y z] False Cons.prems that by simp
      then show ?thesis using Cons.prems that by (cases "compare x z") auto
    qed
    moreover have "compare x y = Less \<or> compare x y = Equal \<and> R x y"
      using False Cons.prems by (cases "compare x y") auto
    ultimately show ?thesis using False Cons.prems by simp
  qed
qed simp

text \<open>
  The sort is ordered by the comparison, and elements it calls equal keep whatever order \<open>R\<close>
  they had before.
\<close>

lemma sort_by_sorted:
  assumes "\<forall>x\<in>set xs. carrier x" "sorted_wrt R xs"
  shows "sorted_wrt (\<lambda>a b. compare a b = Less \<or> compare a b = Equal \<and> R a b) (sort_by compare xs)"
  using assms by (induction xs) (simp_all add: insert_stable_sorted)

end

section \<open>Comparing cells\<close>

record sort_key =
  sk_column :: nat
  sk_ascending :: bool

fun value_rank :: "val \<Rightarrow> nat" where
  "value_rank Null = 0"
| "value_rank (Integer _) = 1"
| "value_rank (Real _) = 1"
| "value_rank (Text _) = 2"
| "value_rank (Blob _) = 3"
| "value_rank (Json _) = 4"

definition cmp_int_real :: "i64 \<Rightarrow> f64 \<Rightarrow> ordering" where
  "cmp_int_real n x = total_cmp (f64_of_int (sint n)) x"

fun compare_values :: "(json \<Rightarrow> string) \<Rightarrow> val \<Rightarrow> val \<Rightarrow> ordering" where
  "compare_values json_text Null Null = Equal"
| "compare_values json_text (Integer x) (Integer y) = cmp (sint x) (sint y)"
| "compare_values json_text (Real x) (Real y) = total_cmp x y"
| "compare_values json_text (Integer x) (Real y) = cmp_int_real x y"
| "compare_values json_text (Real x) (Integer y) = ord_reverse (cmp_int_real y x)"
| "compare_values json_text (Text x) (Text y) = cmp x y"
| "compare_values json_text (Blob x) (Blob y) = cmp x y"
| "compare_values json_text (Json x) (Json y) = cmp (json_text x) (json_text y)"
| "compare_values json_text a b = cmp (value_rank a) (value_rank b)"

text \<open>
  On cells whose integers are exact as floats the comparison is the one of a key in a linear
  order: the rank, then the number on the float's total order, then the text, then the bytes.
\<close>

fun sortable_value :: "val \<Rightarrow> bool" where
  "sortable_value (Integer n) \<longleftrightarrow> exact_int (sint n)"
| "sortable_value _ \<longleftrightarrow> True"

fun value_key :: "(json \<Rightarrow> string) \<Rightarrow> val \<Rightarrow> nat \<times> int \<times> string \<times> 8 word list" where
  "value_key json_text (Integer n) = (1, total_key (f64_of_int (sint n)), [], [])"
| "value_key json_text (Real x) = (1, total_key x, [], [])"
| "value_key json_text (Text s) = (2, 0, s, [])"
| "value_key json_text (Blob b) = (3, 0, [], b)"
| "value_key json_text (Json j) = (4, 0, json_text j, [])"
| "value_key json_text Null = (0, 0, [], [])"

lemma compare_values_key:
  "sortable_value a \<Longrightarrow> sortable_value b \<Longrightarrow>
    compare_values json_text a b = cmp (value_key json_text a) (value_key json_text b)"
  by (cases a; cases b)
    (auto simp: cmp_def cmp_int_real_def total_cmp_def less_prod_def total_key_of_int_mono
      total_key_of_int_eq)

interpretation value_cmp: comparison "compare_values json_text" sortable_value for json_text
proof
  fix x y z
  assume "sortable_value x" "sortable_value y"
  note key = compare_values_key [of _ _ json_text]
  show "compare_values json_text x x = Equal"
    using \<open>sortable_value x\<close> by (simp add: key)
  show "compare_values json_text y x = ord_reverse (compare_values json_text x y)"
    using \<open>sortable_value x\<close> \<open>sortable_value y\<close> by (simp add: key cmp_reverse)
  assume "sortable_value z" "compare_values json_text x y \<noteq> Greater"
    "compare_values json_text y z \<noteq> Greater"
  then show "compare_values json_text x z \<noteq> Greater"
    using \<open>sortable_value x\<close> \<open>sortable_value y\<close> by (simp add: key not_less)
qed

section \<open>Comparing rows\<close>

fun compare_cells :: "(json \<Rightarrow> string) \<Rightarrow> val option \<Rightarrow> val option \<Rightarrow> ordering" where
  "compare_cells json_text (Some x) (Some y) = compare_values json_text x y"
| "compare_cells json_text None (Some _) = Less"
| "compare_cells json_text (Some _) None = Greater"
| "compare_cells json_text None None = Equal"

fun compare_rows :: "(json \<Rightarrow> string) \<Rightarrow> sort_key list \<Rightarrow> row \<Rightarrow> row \<Rightarrow> ordering" where
  "compare_rows json_text [] a b = Equal"
| "compare_rows json_text (key # keys) a b =
     (let o0 = compare_cells json_text (get a (sk_column key)) (get b (sk_column key));
          o1 = (if sk_ascending key then o0 else ord_reverse o0)
      in if o1 \<noteq> Equal then o1 else compare_rows json_text keys a b)"

definition sortable_row :: "row \<Rightarrow> bool" where
  "sortable_row r \<longleftrightarrow> (\<forall>v\<in>set r. sortable_value v)"

definition sortable_cell :: "val option \<Rightarrow> bool" where
  "sortable_cell c \<longleftrightarrow> (case c of None \<Rightarrow> True | Some v \<Rightarrow> sortable_value v)"

lemma sortable_get: "sortable_row r \<Longrightarrow> sortable_cell (get r i)"
  by (auto simp: sortable_row_def sortable_cell_def get_def)

interpretation cell_cmp: comparison "compare_cells json_text" sortable_cell for json_text
proof
  fix x y z
  assume xy: "sortable_cell x" "sortable_cell y"
  show "compare_cells json_text x x = Equal"
    using xy by (cases x) (auto simp: sortable_cell_def value_cmp.compare_refl)
  show "compare_cells json_text y x = ord_reverse (compare_cells json_text x y)"
    using xy by (cases x; cases y) (auto simp: sortable_cell_def intro: value_cmp.compare_reverse)
  assume "sortable_cell z" "compare_cells json_text x y \<noteq> Greater"
    "compare_cells json_text y z \<noteq> Greater"
  then show "compare_cells json_text x z \<noteq> Greater"
    using xy by (cases x; cases y; cases z) (auto simp: sortable_cell_def dest: value_cmp.compare_trans)
qed

text \<open>Reversing a comparison, and refining one by another, keep the laws.\<close>

context comparison begin

lemma comparison_reversed: "comparison (\<lambda>x y. ord_reverse (compare x y)) carrier"
proof
  fix x y z
  assume xy: "carrier x" "carrier y"
  then show "ord_reverse (compare x x) = Equal" by (simp add: compare_refl)
  show rev: "ord_reverse (compare y x) = ord_reverse (ord_reverse (compare x y))"
    using xy by (simp only: compare_reverse [of x y])
  assume z: "carrier z" and "ord_reverse (compare x y) \<noteq> Greater" "ord_reverse (compare y z) \<noteq> Greater"
  then have "compare z x \<noteq> Greater"
    using compare_trans [of z y x] compare_reverse [of x y] compare_reverse [of y z] xy z by simp
  then show "ord_reverse (compare x z) \<noteq> Greater"
    using compare_reverse [of z x] xy z by simp
qed

lemma comparison_then:
  assumes "comparison compare' carrier"
  shows "comparison (\<lambda>x y. if compare x y \<noteq> Equal then compare x y else compare' x y) carrier"
proof -
  note laws' = comparison.compare_refl [OF assms] comparison.compare_reverse [OF assms]
    comparison.compare_trans [OF assms]
  show ?thesis
  proof
    fix x y z
    assume xy: "carrier x" "carrier y"
    show "(if compare x x \<noteq> Equal then compare x x else compare' x x) = Equal"
      using xy by (simp add: compare_refl laws'(1))
    show "(if compare y x \<noteq> Equal then compare y x else compare' y x) =
      ord_reverse (if compare x y \<noteq> Equal then compare x y else compare' x y)"
      using xy by (simp add: compare_reverse [of x y] laws'(2) [of x y])
    assume z: "carrier z" and
      le: "(if compare x y \<noteq> Equal then compare x y else compare' x y) \<noteq> Greater"
        "(if compare y z \<noteq> Equal then compare y z else compare' y z) \<noteq> Greater"
    then have "compare x y \<noteq> Greater" "compare y z \<noteq> Greater" by (auto split: if_splits)
    then have "compare x z \<noteq> Greater" "compare x z = Equal \<Longrightarrow> compare x y = Equal \<and> compare y z = Equal"
      using compare_trans [of x y z] less_trans [of x y z] xy z by auto
    then show "(if compare x z \<noteq> Equal then compare x z else compare' x z) \<noteq> Greater"
      using le laws'(3) [of x y z] xy z by (auto split: if_splits)
  qed
qed

end

lemma comparison_pullback:
  assumes c: "comparison c P" and f: "\<And>x. Q x \<Longrightarrow> P (f x)"
  shows "comparison (\<lambda>x y. c (f x) (f y)) Q"
  using comparison.compare_refl [OF c f] comparison.compare_reverse [OF c f f]
    comparison.compare_trans [OF c f f f]
  by unfold_locales

lemma compare_rows_laws: "comparison (compare_rows json_text keys) sortable_row"
proof (induction keys)
  case Nil
  show ?case by unfold_locales simp_all
next
  case (Cons key keys)
  let ?c = "\<lambda>a b. compare_cells json_text (get a (sk_column key)) (get b (sk_column key))"
  have c: "comparison ?c sortable_row"
    by (rule comparison_pullback [OF cell_cmp.comparison_axioms sortable_get])
  have "comparison (\<lambda>a b. if sk_ascending key then ?c a b else ord_reverse (?c a b)) sortable_row"
    using c comparison.comparison_reversed [OF c] by (cases "sk_ascending key") simp_all
  note step = comparison.comparison_then [OF this Cons.IH]
  have "compare_rows json_text (key # keys) = (\<lambda>x y.
      if (if sk_ascending key then ?c x y else ord_reverse (?c x y)) \<noteq> Equal
      then (if sk_ascending key then ?c x y else ord_reverse (?c x y))
      else compare_rows json_text keys x y)"
    by (intro ext) (simp only: compare_rows.simps Let_def)
  then show ?case using step by (simp only:)
qed

interpretation row_cmp: comparison "compare_rows json_text keys" sortable_row for json_text keys
  by (rule compare_rows_laws)

section \<open>The permutation of row indices\<close>

definition sorted_row_order :: "(json \<Rightarrow> string) \<Rightarrow> row list \<Rightarrow> sort_key list \<Rightarrow> nat list" where
  "sorted_row_order json_text rows keys =
     (let order = [0..<length rows]
      in if keys = [] then order
         else sort_by (\<lambda>a b. compare_rows json_text keys (rows ! a) (rows ! b)) order)"

interpretation index_cmp: comparison "\<lambda>a b. compare_rows json_text keys (rows ! a) (rows ! b)"
    "\<lambda>i. i < length rows \<and> sortable_row (rows ! i)" for json_text keys rows
  by (rule comparison_pullback [OF row_cmp.comparison_axioms]) simp

lemma sorted_row_order_mset: "mset (sorted_row_order json_text rows keys) = mset [0..<length rows]"
  by (simp add: sorted_row_order_def Let_def del: upt_0)

lemma sorted_row_order_sorted:
  assumes "\<forall>r\<in>set rows. sortable_row r"
  shows "sorted_wrt (\<lambda>a b. compare_rows json_text keys (rows ! a) (rows ! b) = Less \<or>
      compare_rows json_text keys (rows ! a) (rows ! b) = Equal \<and> a < b)
    (sorted_row_order json_text rows keys)"
proof (cases "keys = []")
  case True
  then show ?thesis by (simp add: sorted_row_order_def sorted_wrt_upt)
next
  case False
  have "\<forall>i\<in>set [0..<length rows]. i < length rows \<and> sortable_row (rows ! i)"
    using assms by simp
  then show ?thesis
    using index_cmp.sort_by_sorted [of "[0..<length rows]" rows "(<)" json_text keys] False
    by (simp add: sorted_row_order_def)
qed

section \<open>Properties\<close>



text \<open>
  The comparison of cells is not transitive across integers and floats: above \<open>2 ^ 53\<close> two
  different integers both compare equal to one float and yet differ, so it is not the total order
  that a sort requires of its comparison.
\<close>

theorem compare_values_not_transitive:
  "\<exists>a b c. compare_values json_text a b = Equal \<and> compare_values json_text b c = Equal \<and>
     compare_values json_text a c = Greater"
proof -
  let ?big = "9007199254740992 :: i64"
  have rounds: "f64_of_int 9007199254740993 = f64_of_int 9007199254740992"
    by (simp add: f64_of_int_def f64_magnitude_def bit_length.simps)
  have reads: "sint (?big + 1) = 9007199254740993" "sint ?big = 9007199254740992"
    by simp_all
  have "cmp_int_real (?big + 1) (f64_of_int 9007199254740992) = Equal"
    "ord_reverse (cmp_int_real ?big (f64_of_int 9007199254740992)) = Equal"
    "cmp (sint (?big + 1)) (sint ?big) = Greater"
    unfolding cmp_int_real_def reads rounds by (simp_all add: total_cmp_def)
  then have "compare_values json_text (Integer (?big + 1)) (Real (f64_of_int 9007199254740992)) = Equal \<and>
    compare_values json_text (Real (f64_of_int 9007199254740992)) (Integer ?big) = Equal \<and>
    compare_values json_text (Integer (?big + 1)) (Integer ?big) = Greater"
    by (simp only: compare_values.simps simp_thms)
  then show ?thesis by blast
qed

end
