(* ===== verification/Sql_Text.thy ===== *)
theory Sql_Text
  imports Core_Data
begin

text \<open>
  Write-back SQL (\<open>dbboard-core/src/write_back.rs\<close>): dialects, what may identify a row, the
  quoting of identifiers and strings, and the single-row \<open>UPDATE\<close> built from staged edits.
\<close>

section \<open>Dialects and row identity\<close>

datatype sql_dialect = Sqlite | Postgres | MySql

definition dialect_for_adapter_id :: "string \<Rightarrow> sql_dialect option" where
  "dialect_for_adapter_id ident =
     (if ident \<in> {''turso'', ''d1''} then Some Sqlite
      else if ident \<in> {''postgres'', ''neon'', ''supabase'', ''aurora-dsql''} then Some Postgres
      else if ident = ''mysql'' then Some MySql
      else None)"

datatype row_identity = Primary_Key "string list" | Sqlite_Rowid

definition resolve_identity :: "table_schema \<Rightarrow> sql_dialect \<Rightarrow> bool \<Rightarrow> row_identity option" where
  "resolve_identity schema dialect without_rowid =
     (if ts_primary_key schema \<noteq> [] then Some (Primary_Key (ts_primary_key schema))
      else case dialect of
        Sqlite \<Rightarrow> if \<not> without_rowid then Some Sqlite_Rowid else None
      | Postgres \<Rightarrow> None
      | MySql \<Rightarrow> None)"

section \<open>Plans and their errors\<close>

datatype cell_value = Cell_Null | Cell_Text string

datatype row_key = Key_Columns "(string \<times> val) list" | Key_Rowid i64

record update_plan =
  up_table :: table_info
  up_key :: row_key
  up_edits :: "(string \<times> cell_value) list"

datatype write_back_error = No_Edits | Empty_Key | Unsupported_Key_Type string

fun write_back_error_display :: "write_back_error \<Rightarrow> string" where
  "write_back_error_display No_Edits = ''no columns were edited''"
| "write_back_error_display Empty_Key = ''no row-identity columns to key the update on''"
| "write_back_error_display (Unsupported_Key_Type col) =
     ''identity column '' @ debug_string col @ '' has an unsupported (blob or document) value''"

section \<open>Quoting\<close>

abbreviation SQUOTE :: char where "SQUOTE \<equiv> CHR 0x27"
abbreviation DQUOTE :: char where "DQUOTE \<equiv> CHR 0x22"
abbreviation BACKTICK :: char where "BACKTICK \<equiv> CHR 0x60"
abbreviation BACKSLASH :: char where "BACKSLASH \<equiv> CHR 0x5C"
abbreviation NEWLINE :: char where "NEWLINE \<equiv> CHR 0x0A"

definition quote_ident :: "string \<Rightarrow> sql_dialect \<Rightarrow> string" where
  "quote_ident ident dialect =
     (case dialect of
        MySql \<Rightarrow> [BACKTICK] @ replace_char BACKTICK [BACKTICK, BACKTICK] ident @ [BACKTICK]
      | _ \<Rightarrow> [DQUOTE] @ replace_char DQUOTE [DQUOTE, DQUOTE] ident @ [DQUOTE])"

definition quote_str :: "string \<Rightarrow> sql_dialect \<Rightarrow> string" where
  "quote_str s dialect =
     (case dialect of
        MySql \<Rightarrow> [SQUOTE] @ replace_char SQUOTE [SQUOTE, SQUOTE]
                   (replace_char BACKSLASH [BACKSLASH, BACKSLASH] s) @ [SQUOTE]
      | _ \<Rightarrow> [SQUOTE] @ replace_char SQUOTE [SQUOTE, SQUOTE] s @ [SQUOTE])"

definition qualified_table :: "table_info \<Rightarrow> sql_dialect \<Rightarrow> string" where
  "qualified_table table dialect =
     (case (dialect, ti_schema table) of
        (Postgres, Some schema) \<Rightarrow> quote_ident schema dialect @ ''.'' @ quote_ident (ti_name table) dialect
      | (MySql, Some schema) \<Rightarrow> quote_ident schema dialect @ ''.'' @ quote_ident (ti_name table) dialect
      | _ \<Rightarrow> quote_ident (ti_name table) dialect)"

section \<open>The UPDATE statement\<close>

fun edit_literal :: "cell_value \<Rightarrow> sql_dialect \<Rightarrow> string" where
  "edit_literal Cell_Null dialect = ''NULL''"
| "edit_literal (Cell_Text s) dialect = quote_str s dialect"

fun key_predicate :: "string \<Rightarrow> val \<Rightarrow> sql_dialect \<Rightarrow> write_back_error + string" where
  "key_predicate col Null dialect = Inr (quote_ident col dialect @ '' IS NULL'')"
| "key_predicate col (Integer n) dialect = Inr (quote_ident col dialect @ '' = '' @ show_int (sint n))"
| "key_predicate col (Real x) dialect = Inr (quote_ident col dialect @ '' = '' @ show_f64 x)"
| "key_predicate col (Text s) dialect = Inr (quote_ident col dialect @ '' = '' @ quote_str s dialect)"
| "key_predicate col (Blob _) dialect = Inl (Unsupported_Key_Type col)"
| "key_predicate col (Json _) dialect = Inl (Unsupported_Key_Type col)"

fun build_where :: "row_key \<Rightarrow> sql_dialect \<Rightarrow> write_back_error + string" where
  "build_where (Key_Rowid ident) dialect = Inr (''rowid = '' @ show_int (sint ident))"
| "build_where (Key_Columns cols) dialect =
     (if cols = [] then Inl Empty_Key
      else rmap (join '' AND '') (rmapM (\<lambda>(col, v). key_predicate col v dialect) cols))"

definition set_clause :: "(string \<times> cell_value) list \<Rightarrow> sql_dialect \<Rightarrow> string" where
  "set_clause edits dialect =
     join '', '' (map (\<lambda>(col, v). quote_ident col dialect @ '' = '' @ edit_literal v dialect) edits)"

definition build_update_sql :: "update_plan \<Rightarrow> sql_dialect \<Rightarrow> write_back_error + string" where
  "build_update_sql plan dialect =
     (if up_edits plan = [] then Inl No_Edits
      else rbind (build_where (up_key plan) dialect) (\<lambda>where_clause.
        Inr (''UPDATE '' @ qualified_table (up_table plan) dialect @ '' SET ''
          @ set_clause (up_edits plan) dialect @ '' WHERE '' @ where_clause)))"

section \<open>When a plan is accepted\<close>

text \<open>The key values with a safe comparison, and the first column that has none.\<close>

fun comparable_key :: "val \<Rightarrow> bool" where
  "comparable_key (Blob _) \<longleftrightarrow> False"
| "comparable_key (Json _) \<longleftrightarrow> False"
| "comparable_key _ \<longleftrightarrow> True"

lemma key_predicate_ok: "is_ok (key_predicate col v dialect) \<longleftrightarrow> comparable_key v"
  by (cases v) auto

lemma key_predicate_error: "key_predicate col v dialect = Inl e \<longleftrightarrow>
    \<not> comparable_key v \<and> e = Unsupported_Key_Type col"
  by (cases v) auto

fun key_error :: "row_key \<Rightarrow> write_back_error option" where
  "key_error (Key_Rowid _) = None"
| "key_error (Key_Columns cols) =
     (if cols = [] then Some Empty_Key
      else map_option (\<lambda>(col, _). Unsupported_Key_Type col)
        (List.find (\<lambda>(_, v). \<not> comparable_key v) cols))"

lemma rmapM_key_predicate_error:
  "rmapM (\<lambda>(col, v). key_predicate col v dialect) cols = Inl e \<longleftrightarrow>
    map_option (\<lambda>(col, _). Unsupported_Key_Type col) (List.find (\<lambda>(_, v). \<not> comparable_key v) cols) = Some e"
proof (induction cols)
  case (Cons c cols)
  obtain col v where c: "c = (col, v)" by (cases c)
  show ?case
  proof (cases "comparable_key v")
    case True
    then obtain s where "key_predicate col v dialect = Inr s"
      using key_predicate_ok [of col v dialect] by (auto simp: is_ok_iff)
    with True Cons show ?thesis by (simp add: c rbind_Inl_iff)
  next
    case False
    then have "key_predicate col v dialect = Inl (Unsupported_Key_Type col)"
      by (simp add: key_predicate_error)
    with False show ?thesis by (simp add: c)
  qed
qed simp

lemma build_where_error: "build_where key dialect = Inl e \<longleftrightarrow> key_error key = Some e"
  by (cases key) (auto simp: rmapM_key_predicate_error)

lemma build_update_sql_error:
  "build_update_sql plan dialect = Inl e \<longleftrightarrow>
    (if up_edits plan = [] then e = No_Edits else key_error (up_key plan) = Some e)"
  by (auto simp: build_update_sql_def rbind_Inl_iff build_where_error)

section \<open>Properties\<close>

text \<open>
  An update is refused exactly for the three documented reasons, with the first that applies:
  no edits; an empty key; and otherwise the first key column whose value is a blob or a document.
  Every other plan renders, so no update ever runs without a key predicate for each key column.
\<close>

theorem build_update_refusals:
  "build_update_sql plan dialect = Inl e \<longleftrightarrow>
    (if up_edits plan = [] then e = No_Edits else key_error (up_key plan) = Some e)"
  by (rule build_update_sql_error)

end
