(* ===== verification/Dump_Sql.thy ===== *)
theory Dump_Sql
  imports Sql_Text
begin

text \<open>
  The SQL of a logical dump (\<open>dbboard-core/src/dump/\<close>): literals (\<open>literal.rs\<close>), multi-row
  inserts (\<open>insert.rs\<close>), keyset pages and cursors (\<open>select.rs\<close>) and the preflight plan
  (\<open>plan.rs\<close>). A document's compact text is the parameter \<open>json_text\<close>.
\<close>

section \<open>Literals\<close>

definition real_literal :: "f64 \<Rightarrow> sql_dialect \<Rightarrow> string" where
  "real_literal x dialect =
     (if is_finite x then show_f64 x
      else case (dialect, is_nan x, is_sign_positive x) of
        (Postgres, True, _) \<Rightarrow> [SQUOTE] @ ''NaN'' @ [SQUOTE] @ ''::double precision''
      | (Postgres, False, True) \<Rightarrow> [SQUOTE] @ ''Infinity'' @ [SQUOTE] @ ''::double precision''
      | (Postgres, False, False) \<Rightarrow> [SQUOTE] @ ''-Infinity'' @ [SQUOTE] @ ''::double precision''
      | (Sqlite, True, _) \<Rightarrow> ''NULL''
      | (MySql, _, _) \<Rightarrow> ''NULL''
      | (Sqlite, False, True) \<Rightarrow> ''9e999''
      | (Sqlite, False, False) \<Rightarrow> ''-9e999'')"

definition blob_literal :: "8 word list \<Rightarrow> sql_dialect \<Rightarrow> string" where
  "blob_literal bytes dialect =
     (let hex = concat (map (\<lambda>b. hex_byte (unat b)) bytes)
      in case dialect of
           Postgres \<Rightarrow> [SQUOTE, BACKSLASH, CHR ''x''] @ hex @ [SQUOTE] @ ''::bytea''
         | _ \<Rightarrow> [CHR ''X'', SQUOTE] @ hex @ [SQUOTE])"

fun value_literal :: "(json \<Rightarrow> string) \<Rightarrow> val \<Rightarrow> sql_dialect \<Rightarrow> string" where
  "value_literal json_text Null dialect = ''NULL''"
| "value_literal json_text (Integer n) dialect = show_int (sint n)"
| "value_literal json_text (Real x) dialect = real_literal x dialect"
| "value_literal json_text (Text s) dialect = quote_str s dialect"
| "value_literal json_text (Blob bytes) dialect = blob_literal bytes dialect"
| "value_literal json_text (Json tree) dialect = quote_str (json_text tree) dialect"

section \<open>Inserts\<close>

definition row_tuple :: "(json \<Rightarrow> string) \<Rightarrow> nat \<Rightarrow> row \<Rightarrow> sql_dialect \<Rightarrow> string" where
  "row_tuple json_text width r dialect =
     ''('' @ join '', '' (map (\<lambda>i. value_literal json_text
         (case get r i of Some v \<Rightarrow> v | None \<Rightarrow> Null) dialect) [0..<width]) @ '')''"

definition build_insert ::
    "(json \<Rightarrow> string) \<Rightarrow> table_info \<Rightarrow> string list \<Rightarrow> row list \<Rightarrow> sql_dialect \<Rightarrow> string option" where
  "build_insert json_text table columns rows dialect =
     (if rows = [] \<or> columns = [] then None
      else
        (let table_sql = qualified_table table dialect;
             column_list = join '', '' (map (\<lambda>c. quote_ident c dialect) columns);
             tuples = join '', '' (map (\<lambda>r. row_tuple json_text (length columns) r dialect) rows)
         in Some (''INSERT INTO '' @ table_sql @ '' ('' @ column_list @ '') VALUES '' @ tuples @ '';'')))"

section \<open>Keyset pages\<close>

definition build_select_page ::
    "(json \<Rightarrow> string) \<Rightarrow> table_info \<Rightarrow> string list \<Rightarrow> sql_dialect \<Rightarrow> nat \<Rightarrow> val list option \<Rightarrow> string" where
  "build_select_page json_text table key_columns dialect limit after =
     ''SELECT * FROM '' @ qualified_table table dialect @
     (if key_columns \<noteq> [] then
        (let key_list = join '', '' (map (\<lambda>c. quote_ident c dialect) key_columns)
         in (case after of
               Some cursor \<Rightarrow>
                 '' WHERE ('' @ key_list @ '') > ('' @
                 join '', '' (map (\<lambda>v. value_literal json_text v dialect) cursor) @ '')''
             | None \<Rightarrow> []) @ '' ORDER BY '' @ key_list)
      else []) @
     '' LIMIT '' @ show_nat limit"

definition build_count :: "table_info \<Rightarrow> sql_dialect \<Rightarrow> string" where
  "build_count table dialect = ''SELECT COUNT(*) FROM '' @ qualified_table table dialect"

fun cursor_values :: "row \<Rightarrow> string list \<Rightarrow> string list \<Rightarrow> val list option" where
  "cursor_values last_row columns [] = Some []"
| "cursor_values last_row columns (key # keys) =
     (case position (\<lambda>c. c = key) columns of
        None \<Rightarrow> None
      | Some at \<Rightarrow> (case get last_row at of
          None \<Rightarrow> None
        | Some v \<Rightarrow> map_option (\<lambda>vs. v # vs) (cursor_values last_row columns keys)))"

definition cursor_from_last_row :: "row list \<Rightarrow> string list \<Rightarrow> string list \<Rightarrow> val list option" where
  "cursor_from_last_row rows columns key_columns =
     (if rows = [] then None else cursor_values (last rows) columns key_columns)"

lemma cursor_values_length: "cursor_values r columns keys = Some vs \<Longrightarrow> length vs = length keys"
  by (induction keys arbitrary: vs) (auto split: option.splits)

lemma cursor_values_nth:
  assumes "cursor_values r columns keys = Some vs" "i < length keys"
  shows "\<exists>at < length columns. columns ! at = keys ! i \<and> (\<forall>j<at. columns ! j \<noteq> keys ! i)
    \<and> at < length r \<and> vs ! i = r ! at"
  using assms
proof (induction keys arbitrary: vs i)
  case (Cons key keys)
  then obtain at v vs' where at: "position (\<lambda>c. c = key) columns = Some at" and
    v: "get r at = Some v" and vs': "cursor_values r columns keys = Some vs'" and vs: "vs = v # vs'"
    by (auto split: option.splits)
  show ?case
  proof (cases i)
    case 0
    with position_Some [OF at] v vs show ?thesis by auto
  next
    case (Suc j)
    with Cons.IH [OF vs', of j] Cons.prems vs show ?thesis by simp
  qed
qed simp

lemma cursor_from_last_row_complete:
  assumes "rows \<noteq> []" "set key_columns \<subseteq> set columns" "length (last rows) = length columns"
  shows "cursor_from_last_row rows columns key_columns \<noteq> None"
proof -
  have "cursor_values r columns keys \<noteq> None"
    if "set keys \<subseteq> set columns" "length r = length columns" for r keys
    using that
  proof (induction keys)
    case (Cons key keys)
    then have "position (\<lambda>c. c = key) columns \<noteq> None" by (auto simp: position_None)
    then obtain at where at: "position (\<lambda>c. c = key) columns = Some at" by blast
    with position_Some [OF at] Cons show ?case by (auto split: option.split)
  qed simp
  with assms show ?thesis by (simp add: cursor_from_last_row_def)
qed

section \<open>The preflight plan\<close>

definition DEFAULT_BACKUP_WARN_ROWS :: u64 where "DEFAULT_BACKUP_WARN_ROWS = 500000"
definition READ_PAGE_ROWS :: nat where "READ_PAGE_ROWS = MAX_RESULT_ROWS div 2"
definition INSERT_BATCH_ROWS :: nat where "INSERT_BATCH_ROWS = 500"

lemma paging_invariants:
  "READ_PAGE_ROWS < MAX_RESULT_ROWS" "INSERT_BATCH_ROWS \<le> 500" "INSERT_BATCH_ROWS \<le> READ_PAGE_ROWS"
  by (simp_all add: READ_PAGE_ROWS_def MAX_RESULT_ROWS_def INSERT_BATCH_ROWS_def)

record table_plan =
  tp_table :: table_info
  tp_row_count :: u64

type_synonym dump_plan = "table_plan list"

definition total_rows :: "dump_plan \<Rightarrow> u64" where
  "total_rows plan = foldl (\<lambda>acc t. u64_saturating_add acc (tp_row_count t)) 0 plan"

definition exceeds_threshold :: "dump_plan \<Rightarrow> u64 \<Rightarrow> u64 option" where
  "exceeds_threshold plan threshold =
     (let total = total_rows plan in if threshold < total then Some total else None)"

definition is_empty_data :: "dump_plan \<Rightarrow> bool" where
  "is_empty_data plan \<longleftrightarrow> total_rows plan = 0"

lemma total_rows_exact:
  "unat (total_rows plan) = min (\<Sum>t\<leftarrow>plan. unat (tp_row_count t)) (2 ^ 64 - 1)"
proof -
  have "unat (foldl (\<lambda>acc t. u64_saturating_add acc (tp_row_count t)) a plan) =
      min (unat a + (\<Sum>t\<leftarrow>plan. unat (tp_row_count t))) (2 ^ 64 - 1)" for a
  proof (induction plan arbitrary: a)
    case Nil
    have "unat a < 2 ^ LENGTH(64)" by (rule unsigned_less)
    then show ?case by simp
  next
    case (Cons t plan)
    then show ?case by (simp add: unat_u64_saturating_add)
  qed
  from this [of 0] show ?thesis by (simp add: total_rows_def)
qed

lemma is_empty_data_iff: "is_empty_data plan \<longleftrightarrow> (\<forall>t\<in>set plan. tp_row_count t = 0)"
proof -
  have min0: "min n (2 ^ 64 - 1) = 0 \<longleftrightarrow> n = 0" for n :: nat
    by (auto simp: min_def)
  have "is_empty_data plan \<longleftrightarrow> unat (total_rows plan) = 0"
    by (simp add: is_empty_data_def unat_eq_0)
  also have "\<dots> \<longleftrightarrow> (\<Sum>t\<leftarrow>plan. unat (tp_row_count t)) = 0"
    unfolding total_rows_exact by (rule min0)
  also have "\<dots> \<longleftrightarrow> (\<forall>t\<in>set plan. tp_row_count t = 0)"
    by (induction plan) (auto simp: unat_eq_0)
  finally show ?thesis .
qed

section \<open>Properties\<close>

text \<open>
  The preflight total is the exact sum of the table counts, capped at the top of \<open>u64\<close>; the
  plan counts as empty exactly when every table does.
\<close>

theorem preflight_total:
  "unat (total_rows plan) = min (\<Sum>t\<leftarrow>plan. unat (tp_row_count t)) (2 ^ 64 - 1) \<and>
   (is_empty_data plan \<longleftrightarrow> list_all (\<lambda>t. tp_row_count t = 0) plan) \<and>
   exceeds_threshold plan threshold =
     (if unat threshold < min (\<Sum>t\<leftarrow>plan. unat (tp_row_count t)) (2 ^ 64 - 1)
      then Some (total_rows plan) else None)"
  by (simp add: total_rows_exact is_empty_data_iff list_all_iff exceeds_threshold_def Let_def word_less_nat_alt)

text \<open>
  The cursor of a page is the key of its last row: one value per key column, in key order,
  each read from the first result column of that name.
\<close>

theorem cursor_is_last_key:
  assumes "cursor_from_last_row rows columns key_columns = Some cursor"
  shows "rows \<noteq> [] \<and> length cursor = length key_columns \<and>
    (\<forall>i < length key_columns. \<exists>at < length columns. columns ! at = key_columns ! i \<and>
       (\<forall>j < at. columns ! j \<noteq> key_columns ! i) \<and> at < length (last rows) \<and> cursor ! i = last rows ! at)"
  using assms cursor_values_length [of "last rows" columns key_columns cursor]
    cursor_values_nth [of "last rows" columns key_columns cursor]
  by (auto simp: cursor_from_last_row_def split: if_splits)

theorem cursor_is_last_key_witness:
  "\<exists>at < length [''a'', ''b'']. [''a'', ''b''] ! at = ''b'' \<and>
     [Text ''y''] ! 0 = [Integer 2, Text ''y''] ! at"
proof -
  have "cursor_from_last_row [[Integer 1, Text ''x''], [Integer 2, Text ''y'']] [''a'', ''b''] [''b''] = Some [Text ''y'']"
    by code_simp
  from cursor_is_last_key [OF this] show ?thesis by auto
qed

end
