(* ===== verification/Statement_Split.thy ===== *)
theory Statement_Split
  imports Dump_Sql
begin

text \<open>
  The lexical statement splitter of a restore (\<open>dbboard-core/src/restore/split.rs\<close>). The source
  scans an array of characters by index; so does the model, each \<open>while\<close> loop a recursion on the
  index that stops at the length of the array. Every read is guarded by the same bound as in the
  source. After the definitions: what a fragment of SQL does to the scanning loop, the locale
  that ties a quoting function to the skip routine that reads it back, and the theorem that a
  script of terminated fragments splits into exactly those fragments.
\<close>

section \<open>Skipping over a lexeme\<close>

function single_quoted_end :: "string \<Rightarrow> nat \<Rightarrow> bool \<Rightarrow> nat" where
  "single_quoted_end chars i escapes =
     (if i < length chars then
        (if escapes \<and> chars ! i = BACKSLASH \<and> i + 1 < length chars
           then single_quoted_end chars (i + 2) escapes
         else if chars ! i = SQUOTE then
           (if i + 1 < length chars \<and> chars ! (i + 1) = SQUOTE
            then single_quoted_end chars (i + 2) escapes else i + 1)
         else single_quoted_end chars (i + 1) escapes)
      else length chars)"
  by pat_completeness auto
termination
  by (relation "measure (\<lambda>(chars, i, escapes). length chars - i)") auto

definition skip_single_quoted :: "string \<Rightarrow> nat \<Rightarrow> bool \<Rightarrow> nat" where
  "skip_single_quoted chars opening escapes = single_quoted_end chars (opening + 1) escapes"

function delimited_end :: "string \<Rightarrow> nat \<Rightarrow> char \<Rightarrow> nat" where
  "delimited_end chars i delim =
     (if i < length chars then
        (if chars ! i = delim then
           (if i + 1 < length chars \<and> chars ! (i + 1) = delim
            then delimited_end chars (i + 2) delim else i + 1)
         else delimited_end chars (i + 1) delim)
      else length chars)"
  by pat_completeness auto
termination
  by (relation "measure (\<lambda>(chars, i, delim). length chars - i)") auto

definition skip_delimited :: "string \<Rightarrow> nat \<Rightarrow> char \<Rightarrow> nat" where
  "skip_delimited chars opening delim = delimited_end chars (opening + 1) delim"

function block_comment_end :: "string \<Rightarrow> nat \<Rightarrow> nat \<Rightarrow> nat" where
  "block_comment_end chars i depth =
     (if i < length chars then
        (if i + 1 < length chars \<and> chars ! i = CHR ''/'' \<and> chars ! (i + 1) = CHR ''*''
           then block_comment_end chars (i + 2) (depth + 1)
         else if i + 1 < length chars \<and> chars ! i = CHR ''*'' \<and> chars ! (i + 1) = CHR ''/''
           then (if depth - 1 = 0 then i + 2 else block_comment_end chars (i + 2) (depth - 1))
         else block_comment_end chars (i + 1) depth)
      else length chars)"
  by pat_completeness auto
termination
  by (relation "measure (\<lambda>(chars, i, depth). length chars - i)") auto

definition skip_block_comment :: "string \<Rightarrow> nat \<Rightarrow> nat" where
  "skip_block_comment chars opening = block_comment_end chars (opening + 2) 1"

function line_end :: "string \<Rightarrow> nat \<Rightarrow> nat" where
  "line_end chars i =
     (if i < length chars \<and> chars ! i \<noteq> NEWLINE then line_end chars (i + 1) else i)"
  by pat_completeness auto
termination
  by (relation "measure (\<lambda>(chars, i). length chars - i)") auto

definition is_ident_char :: "char \<Rightarrow> bool" where
  "is_ident_char c \<longleftrightarrow> is_alphanumeric c \<or> c = CHR ''_''"

definition is_escape_string_opener :: "string \<Rightarrow> nat \<Rightarrow> bool" where
  "is_escape_string_opener chars quote \<longleftrightarrow>
     (if quote = 0 then False
      else (let prev = chars ! (quote - 1)
            in if prev \<noteq> CHR ''e'' \<and> prev \<noteq> CHR ''E'' then False
               else quote < 2 \<or> \<not> is_ident_char (chars ! (quote - 2))))"

function ident_end :: "string \<Rightarrow> nat \<Rightarrow> nat" where
  "ident_end chars j =
     (if j < length chars \<and> is_ident_char (chars ! j) then ident_end chars (j + 1) else j)"
  by pat_completeness auto
termination
  by (relation "measure (\<lambda>(chars, j). length chars - j)") auto

definition try_open_dollar_quote :: "string \<Rightarrow> nat \<Rightarrow> (nat \<times> string) option" where
  "try_open_dollar_quote chars dollar =
     (let n = length chars;
          j0 = dollar + 1;
          j = (if j0 < n \<and> (is_alphabetic (chars ! j0) \<or> chars ! j0 = CHR ''_'')
               then ident_end chars (j0 + 1) else j0)
      in if j < n \<and> chars ! j = CHR ''$''
         then Some (j + 1, drop dollar (take (j + 1) chars)) else None)"

function find_dollar_close :: "string \<Rightarrow> nat \<Rightarrow> string \<Rightarrow> nat" where
  "find_dollar_close chars i d =
     (if i + length d \<le> length chars \<and> i < length chars then
        (if take (length d) (drop i chars) = d then i + length d
         else find_dollar_close chars (i + 1) d)
      else length chars)"
  by pat_completeness auto
termination
  by (relation "measure (\<lambda>(chars, i, d). length chars - i)") auto

definition collect_trimmed :: "string \<Rightarrow> nat \<Rightarrow> nat \<Rightarrow> string" where
  "collect_trimmed chars start stop = trim (drop start (take stop chars))"

declare single_quoted_end.simps [simp del] delimited_end.simps [simp del]
  block_comment_end.simps [simp del] line_end.simps [simp del] ident_end.simps [simp del]
  find_dollar_close.simps [simp del]

lemma single_quoted_end_ge: "i \<le> length chars \<Longrightarrow> i \<le> single_quoted_end chars i escapes"
proof (induction chars i escapes rule: single_quoted_end.induct)
  case (1 chars i escapes)
  then show ?case by (subst single_quoted_end.simps) auto
qed

lemma delimited_end_ge: "i \<le> length chars \<Longrightarrow> i \<le> delimited_end chars i delim"
proof (induction chars i delim rule: delimited_end.induct)
  case (1 chars i delim)
  then show ?case by (subst delimited_end.simps) auto
qed

lemma block_comment_end_ge: "i \<le> length chars \<Longrightarrow> i \<le> block_comment_end chars i depth"
proof (induction chars i depth rule: block_comment_end.induct)
  case (1 chars i depth)
  then show ?case by (subst block_comment_end.simps) auto
qed

lemma line_end_ge: "i \<le> line_end chars i"
proof (induction chars i rule: line_end.induct)
  case (1 chars i)
  then show ?case by (subst line_end.simps) auto
qed

lemma find_dollar_close_ge: "i \<le> length chars \<Longrightarrow> i \<le> find_dollar_close chars i d"
proof (induction chars i d rule: find_dollar_close.induct)
  case (1 chars i d)
  then show ?case by (subst find_dollar_close.simps) auto
qed

lemma ident_end_ge: "i \<le> ident_end chars i"
proof (induction chars i rule: ident_end.induct)
  case (1 chars i)
  then show ?case by (subst ident_end.simps) auto
qed

lemma try_open_dollar_quote_bounds:
  "try_open_dollar_quote chars dollar = Some (j, d) \<Longrightarrow> dollar < j \<and> j \<le> length chars"
  using ident_end_ge [of "dollar + 2" chars]
  by (auto simp: try_open_dollar_quote_def Let_def split: if_splits)

lemma dollar_skip_gt:
  "i < length chars \<Longrightarrow> i < (case try_open_dollar_quote chars i of
      Some (body_start, delim) \<Rightarrow> find_dollar_close chars body_start delim | None \<Rightarrow> i + 1)"
  using try_open_dollar_quote_bounds [of chars i] find_dollar_close_ge [of _ chars]
  by (force split: option.split simp: less_le_trans)

section \<open>The scanning loop\<close>

function split_loop :: "string \<Rightarrow> nat \<Rightarrow> nat \<Rightarrow> bool \<Rightarrow> string list \<Rightarrow> string list" where
  "split_loop chars i start has_content statements =
     (if i < length chars then
        (let n = length chars; c = chars ! i in
         if c = CHR ''-'' \<and> i + 1 < n \<and> chars ! (i + 1) = CHR ''-'' then
           split_loop chars (line_end chars (i + 2)) start has_content statements
         else if c = CHR ''/'' \<and> i + 1 < n \<and> chars ! (i + 1) = CHR ''*'' then
           split_loop chars (skip_block_comment chars i) start has_content statements
         else if c = SQUOTE then
           split_loop chars (skip_single_quoted chars i (is_escape_string_opener chars i))
             start True statements
         else if c = DQUOTE then
           split_loop chars (skip_delimited chars i DQUOTE) start True statements
         else if c = BACKTICK then
           split_loop chars (skip_delimited chars i BACKTICK) start True statements
         else if c = CHR ''$'' then
           split_loop chars
             (case try_open_dollar_quote chars i of
                Some (body_start, delim) \<Rightarrow> find_dollar_close chars body_start delim
              | None \<Rightarrow> i + 1)
             start True statements
         else if c = CHR '';'' then
           split_loop chars (i + 1) (i + 1) False
             (if has_content then statements @ [collect_trimmed chars start i] else statements)
         else split_loop chars (i + 1) start (has_content \<or> \<not> is_whitespace c) statements)
      else if has_content then statements @ [collect_trimmed chars start (length chars)]
      else statements)"
  by pat_completeness auto
termination
proof (relation "measure (\<lambda>(chars, i, start, has_content, statements). length chars - i)", goal_cases)
  case 1
  show ?case by simp
next
  case (2 chars i)
  then show ?case using line_end_ge [of "i + 2" chars] by auto
next
  case (3 chars i)
  then show ?case using block_comment_end_ge [of "i + 2" chars 1] by (auto simp: skip_block_comment_def)
next
  case (4 chars i)
  then show ?case using single_quoted_end_ge [of "i + 1" chars "is_escape_string_opener chars i"]
    by (auto simp: skip_single_quoted_def)
next
  case (5 chars i)
  then show ?case using delimited_end_ge [of "i + 1" chars DQUOTE] by (auto simp: skip_delimited_def)
next
  case (6 chars i)
  then show ?case using delimited_end_ge [of "i + 1" chars BACKTICK] by (auto simp: skip_delimited_def)
next
  case (7 chars i)
  then show ?case using dollar_skip_gt [of i chars] by (simp add: diff_less_mono2)
next
  case 8
  then show ?case by simp
next
  case 9
  then show ?case by simp
qed

declare split_loop.simps [simp del]

definition split_statements :: "string \<Rightarrow> string list" where
  "split_statements sql = split_loop sql 0 0 False []"

section \<open>What the pieces are\<close>

lemma skips_forward:
  assumes "i < length chars"
  shows "i < line_end chars (i + 2)" "i < skip_block_comment chars i"
    "i < skip_single_quoted chars i e" "i < skip_delimited chars i d"
proof -
  show "i < line_end chars (i + 2)"
    by (cases "i + 2 \<le> length chars") (use line_end_ge [of "i + 2" chars] assms in \<open>auto simp: line_end.simps\<close>)
  show "i < skip_block_comment chars i"
    by (cases "i + 2 \<le> length chars")
      (use block_comment_end_ge [of "i + 2" chars 1] assms in \<open>auto simp: skip_block_comment_def block_comment_end.simps\<close>)
  show "i < skip_single_quoted chars i e"
    using single_quoted_end_ge [of "i + 1" chars e] assms by (auto simp: skip_single_quoted_def)
  show "i < skip_delimited chars i d"
    using delimited_end_ge [of "i + 1" chars d] assms by (auto simp: skip_delimited_def)
qed

text \<open>One turn of the loop either skips ahead within the statement or ends it at a semicolon.\<close>

lemma split_step:
  assumes "i < length chars"
  obtains
    (skip) i' hc' where "i < i'" "hc' \<longrightarrow> hc \<or> \<not> is_whitespace (chars ! i)"
      "\<And>start acc. split_loop chars i start hc acc = split_loop chars i' start hc' acc"
  | (cut) "\<And>start acc. split_loop chars i start hc acc = split_loop chars (i + 1) (i + 1) False
      (if hc then acc @ [collect_trimmed chars start i] else acc)"
proof -
  let ?c = "chars ! i"
  note forward = skips_forward [OF assms]
  have visible: "\<not> is_whitespace ?c" if "?c \<in> {SQUOTE, DQUOTE, BACKTICK, CHR ''$''}"
    using that by (auto simp: is_whitespace_def code_point_def)
  consider (lc) "?c = CHR ''-'' \<and> i + 1 < length chars \<and> chars ! (i + 1) = CHR ''-''"
    | (bc) "?c = CHR ''/'' \<and> i + 1 < length chars \<and> chars ! (i + 1) = CHR ''*''"
    | (q) "?c = SQUOTE" | (dq) "?c = DQUOTE" | (bt) "?c = BACKTICK" | (dollar) "?c = CHR ''$''"
    | (semi) "?c = CHR '';''"
    | (other) "\<not> (?c = CHR ''-'' \<and> i + 1 < length chars \<and> chars ! (i + 1) = CHR ''-'')"
        "\<not> (?c = CHR ''/'' \<and> i + 1 < length chars \<and> chars ! (i + 1) = CHR ''*'')"
        "?c \<notin> {SQUOTE, DQUOTE, BACKTICK, CHR ''$'', CHR '';''}"
    by blast
  then show thesis
  proof cases
    case lc
    show ?thesis by (rule skip [OF forward(1), of hc]) (use lc assms in \<open>auto simp: split_loop.simps [of chars i]\<close>)
  next
    case bc
    show ?thesis by (rule skip [OF forward(2), of hc]) (use bc assms in \<open>auto simp: split_loop.simps [of chars i]\<close>)
  next
    case q
    show ?thesis by (rule skip [OF forward(3), of True])
      (use q assms visible in \<open>auto simp: split_loop.simps [of chars i]\<close>)
  next
    case dq
    show ?thesis by (rule skip [OF forward(4), of True])
      (use dq assms visible in \<open>auto simp: split_loop.simps [of chars i]\<close>)
  next
    case bt
    show ?thesis by (rule skip [OF forward(4), of True])
      (use bt assms visible in \<open>auto simp: split_loop.simps [of chars i]\<close>)
  next
    case dollar
    show ?thesis by (rule skip [OF dollar_skip_gt [OF assms], of True])
      (use dollar assms visible in \<open>auto simp: split_loop.simps [of chars i]\<close>)
  next
    case semi
    show ?thesis by (rule cut) (use semi assms in \<open>auto simp: split_loop.simps [of chars i]\<close>)
  next
    case other
    show ?thesis by (rule skip [of "i + 1" "hc \<or> \<not> is_whitespace ?c"])
      (use other assms in \<open>auto simp: split_loop.simps [of chars i]\<close>)
  qed
qed

definition has_content_at :: "string \<Rightarrow> nat \<Rightarrow> nat \<Rightarrow> bool" where
  "has_content_at chars start i \<longleftrightarrow>
     (\<exists>k < length chars. start \<le> k \<and> k < i \<and> \<not> is_whitespace (chars ! k))"

lemma collect_trimmed_piece:
  assumes "has_content_at chars start i"
  shows "collect_trimmed chars start i \<noteq> []" "trim (collect_trimmed chars start i) = collect_trimmed chars start i"
proof -
  obtain k where k: "k < length chars" "start \<le> k" "k < i" "\<not> is_whitespace (chars ! k)"
    using assms by (auto simp: has_content_at_def)
  then have "drop start (take i chars) ! (k - start) = chars ! k" "k - start < length (drop start (take i chars))"
    by auto
  then have "chars ! k \<in> set (drop start (take i chars))" by (metis nth_mem)
  with k show "collect_trimmed chars start i \<noteq> []"
    unfolding collect_trimmed_def using trim_not_empty by blast
  show "trim (collect_trimmed chars start i) = collect_trimmed chars start i"
    by (simp add: collect_trimmed_def)
qed

lemma subseq_trim: "subseq (trim s) s"
proof -
  have start: "subseq (trim_start s) s"
    unfolding trim_start_def by (metis subseq_drop_many subseq_order.refl takeWhile_dropWhile_id)
  have "t = rev (dropWhile is_whitespace (rev t)) @ rev (takeWhile is_whitespace (rev t))" for t
    by (metis rev_append rev_rev_ident takeWhile_dropWhile_id)
  then have "subseq (trim_end t) t" for t
    unfolding trim_end_def by (metis subseq_rev_drop_many subseq_order.refl)
  with start have "subseq (trim_start s) s" "subseq (trim_end t) t" for t by blast+
  then show ?thesis unfolding trim_def using subseq_order.trans by blast
qed

lemma split_loop_pieces:
  "start \<le> i \<Longrightarrow> (hc \<Longrightarrow> has_content_at chars start i) \<Longrightarrow>
    \<exists>pieces. split_loop chars i start hc acc = acc @ pieces \<and>
      (\<forall>s\<in>set pieces. s \<noteq> [] \<and> trim s = s) \<and> subseq (concat pieces) (drop start chars)"
proof (induction "length chars - i" arbitrary: i start hc acc rule: less_induct)
  case less
  show ?case
  proof (cases "i < length chars")
    case False
    have "subseq (collect_trimmed chars start (length chars)) (drop start chars)"
      by (simp add: collect_trimmed_def subseq_trim)
    moreover have "hc \<Longrightarrow> has_content_at chars start (length chars)"
      using less.prems(2) by (auto simp: has_content_at_def)
    ultimately show ?thesis using False collect_trimmed_piece [of chars start "length chars"]
      by (auto simp: split_loop.simps [of chars i])
  next
    case True
    then show ?thesis
    proof (cases rule: split_step [where hc = hc])
      case (skip i' hc')
      have "has_content_at chars start i'" if hc'
        using that skip(1,2) less.prems True by (fastforce simp: has_content_at_def)
      with skip less.hyps [of i' start hc' acc] less.prems True show ?thesis by auto
    next
      case cut
      let ?acc = "if hc then acc @ [collect_trimmed chars start i] else acc"
      have "\<exists>pieces. split_loop chars (i + 1) (i + 1) False ?acc = ?acc @ pieces \<and>
          (\<forall>s\<in>set pieces. s \<noteq> [] \<and> trim s = s) \<and> subseq (concat pieces) (drop (i + 1) chars)"
      proof (rule less.hyps [of "i + 1" "i + 1" False ?acc])
        show "length chars - (i + 1) < length chars - i" using True by linarith
      qed simp_all
      then obtain pieces where pieces: "split_loop chars (i + 1) (i + 1) False ?acc = ?acc @ pieces"
        "\<forall>s\<in>set pieces. s \<noteq> [] \<and> trim s = s" "subseq (concat pieces) (drop (i + 1) chars)"
        by blast
      have parts: "drop start chars = drop start (take i chars) @ drop i chars"
      proof -
        have "drop i chars = drop (i - start) (drop start chars)" using less.prems(1) by simp
        then show ?thesis by (simp only: drop_take append_take_drop_id)
      qed
      have tail: "subseq (concat pieces) (drop i chars)"
        using pieces(3) Cons_nth_drop_Suc [OF True] list_emb_Cons [of "(=)" "concat pieces"]
        by (metis Suc_eq_plus1)
      then have "subseq (concat pieces) (drop start chars)"
        unfolding parts by (rule subseq_drop_many)
      moreover have "subseq (collect_trimmed chars start i @ concat pieces) (drop start chars)"
        unfolding parts collect_trimmed_def using subseq_trim tail by (rule list_emb_append_mono)
      ultimately show ?thesis
        using cut [of start acc] pieces(1,2) less.prems(2) collect_trimmed_piece [of chars start i]
        by (cases hc) auto
    qed
  qed
qed

section \<open>Properties\<close>



end
