(* ===== verification/Statement_Lex.thy ===== *)
theory Statement_Lex
  imports Statement_Split
begin

text \<open>
  What SQL text does to the splitter's scanning loop. A fragment (\<open>frag\<close>) is text the loop walks
  over without splitting it, in any surroundings that do not run into its ends. The locale
  \<open>quoted_lexeme\<close> is the contract between a quoting function of write-back and the skip routine
  of the splitter; from it and the fragments of the literals follow the fragments of every
  statement that dbboard generates, and that a script of such statements splits back into them.
\<close>

section \<open>Walking over text\<close>

definition lexes :: "string \<Rightarrow> nat \<Rightarrow> nat \<Rightarrow> bool \<Rightarrow> bool \<Rightarrow> bool" where
  "lexes chars i j hc hc' \<longleftrightarrow>
     (\<forall>start acc. split_loop chars i start hc acc = split_loop chars j start hc' acc)"

lemma lexes_refl [simp]: "lexes chars i i hc hc"
  by (simp add: lexes_def)

lemma lexes_trans: "lexes chars i j h1 h2 \<Longrightarrow> lexes chars j k h2 h3 \<Longrightarrow> lexes chars i k h1 h3"
  by (simp add: lexes_def)

definition quote_chars :: "char set" where
  "quote_chars = {SQUOTE, DQUOTE, BACKTICK}"

text \<open>
  Plain text: no quote, dollar, semicolon or slash, and no two minus signs in a row nor one at
  the end.
\<close>

fun plain :: "string \<Rightarrow> bool" where
  "plain [] \<longleftrightarrow> True"
| "plain (c # s) \<longleftrightarrow> c \<notin> {SQUOTE, DQUOTE, BACKTICK, CHR ''$'', CHR '';'', CHR ''/''} \<and>
     (c = CHR ''-'' \<longrightarrow> s \<noteq> [] \<and> hd s \<noteq> CHR ''-'') \<and> plain s"

lemma lexes_char:
  assumes "i < length chars" "chars ! i \<notin> {SQUOTE, DQUOTE, BACKTICK, CHR ''$'', CHR '';'', CHR ''/''}"
    "chars ! i = CHR ''-'' \<Longrightarrow> i + 1 < length chars \<Longrightarrow> chars ! (i + 1) \<noteq> CHR ''-''"
  shows "lexes chars i (i + 1) hc (hc \<or> \<not> is_whitespace (chars ! i))"
  unfolding lexes_def using assms
  by (intro allI, subst split_loop.simps) (auto simp: Let_def)

lemma lexes_plain:
  "plain s \<Longrightarrow> lexes (pre @ s @ post) (length pre) (length (pre @ s)) hc
    (hc \<or> (\<exists>c\<in>set s. \<not> is_whitespace c))"
proof (induction s arbitrary: pre hc)
  case (Cons c s)
  let ?chars = "pre @ (c # s) @ post"
  have "lexes ?chars (length pre) (length pre + 1) hc (hc \<or> \<not> is_whitespace (?chars ! length pre))"
    using Cons.prems by (intro lexes_char) (auto simp: nth_append neq_Nil_conv)
  moreover have "lexes ((pre @ [c]) @ s @ post) (length (pre @ [c])) (length ((pre @ [c]) @ s))
      (hc \<or> \<not> is_whitespace c) ((hc \<or> \<not> is_whitespace c) \<or> (\<exists>c\<in>set s. \<not> is_whitespace c))"
    using Cons.prems by (intro Cons.IH) simp
  ultimately show ?case
    by (simp add: lexes_def disj_assoc)
qed simp

lemma lexes_comment:
  assumes "NEWLINE \<notin> set body"
  shows "lexes (pre @ ''--'' @ body @ NEWLINE # post) (length pre) (length (pre @ ''--'' @ body)) hc hc"
proof -
  have stop: "line_end (p @ body @ NEWLINE # post) (length p) = length (p @ body)"
    if "NEWLINE \<notin> set body" for p body
    using that
  proof (induction body arbitrary: p)
    case Nil
    then show ?case by (subst line_end.simps) (simp add: nth_append)
  next
    case (Cons c body)
    have "line_end (p @ (c # body) @ NEWLINE # post) (length p) =
        line_end ((p @ [c]) @ body @ NEWLINE # post) (length (p @ [c]))"
      using Cons.prems by (subst line_end.simps) (auto simp: nth_append)
    also have "\<dots> = length ((p @ [c]) @ body)" using Cons.prems by (intro Cons.IH) simp
    finally show ?case by simp
  qed
  have "line_end (pre @ ''--'' @ body @ NEWLINE # post) (length pre + 2) = length (pre @ ''--'' @ body)"
    using stop [OF assms, of "pre @ ''--''"] by simp
  then show ?thesis
    unfolding lexes_def
    by (intro allI, subst split_loop.simps) (simp add: Let_def nth_append)
qed

section \<open>Quoted text\<close>

lemma delimited_end_replace:
  "post = [] \<or> hd post \<noteq> d \<Longrightarrow>
    delimited_end (pre @ replace_char d [d, d] s @ d # post) (length pre) d
      = length (pre @ replace_char d [d, d] s) + 1"
proof (induction s arbitrary: pre)
  case Nil
  then show ?case
    by (subst delimited_end.simps) (auto simp: nth_append neq_Nil_conv)
next
  case (Cons c s)
  let ?e = "if c = d then [d, d] else [c]"
  have "delimited_end (pre @ replace_char d [d, d] (c # s) @ d # post) (length pre) d =
      delimited_end ((pre @ ?e) @ replace_char d [d, d] s @ d # post) (length (pre @ ?e)) d"
    by (subst delimited_end.simps) (simp add: nth_append)
  also have "\<dots> = length ((pre @ ?e) @ replace_char d [d, d] s) + 1"
    using Cons by blast
  finally show ?case by simp
qed

lemma single_quoted_end_delimited: "single_quoted_end chars i False = delimited_end chars i SQUOTE"
proof (induction chars i "False" rule: single_quoted_end.induct)
  case (1 chars i)
  then show ?case
    by (subst single_quoted_end.simps, subst delimited_end.simps) simp
qed

definition quiet :: "string \<Rightarrow> bool" where
  "quiet pre \<longleftrightarrow> pre = [] \<or> last pre \<notin> {CHR ''e'', CHR ''E''}"

definition apart :: "string \<Rightarrow> bool" where
  "apart post \<longleftrightarrow> post = [] \<or> hd post \<notin> quote_chars"

text \<open>
  A fragment has content, does not end in an \<open>e\<close> (which would turn a following string into an
  escape string), and is walked over as a whole.
\<close>

definition frag :: "string \<Rightarrow> bool" where
  "frag f \<longleftrightarrow> f \<noteq> [] \<and> quiet f \<and>
     (\<forall>pre post hc. quiet pre \<longrightarrow> apart post \<longrightarrow>
        lexes (pre @ f @ post) (length pre) (length (pre @ f)) hc True)"

lemma fragI:
  "f \<noteq> [] \<Longrightarrow> quiet f \<Longrightarrow>
    (\<And>pre post hc. quiet pre \<Longrightarrow> apart post \<Longrightarrow>
       lexes (pre @ f @ post) (length pre) (length (pre @ f)) hc True) \<Longrightarrow> frag f"
  by (simp add: frag_def)

lemma fragD:
  "frag f \<Longrightarrow> quiet pre \<Longrightarrow> apart post \<Longrightarrow>
    lexes (pre @ f @ post) (length pre) (length (pre @ f)) hc True"
  by (simp add: frag_def)

lemma frag_quiet: "frag f \<Longrightarrow> f \<noteq> [] \<and> quiet f"
  by (simp add: frag_def)

lemma frag_plain: "plain f \<Longrightarrow> (\<exists>c\<in>set f. \<not> is_whitespace c) \<Longrightarrow> quiet f \<Longrightarrow> frag f"
  using lexes_plain [of f] by (intro fragI) auto

lemma frag_append: "frag f \<Longrightarrow> frag g \<Longrightarrow> apart g \<Longrightarrow> frag (f @ g)"
proof (rule fragI)
  fix pre post :: string and hc
  assume f: "frag f" and g: "frag g" and a: "apart g" and ctx: "quiet pre" "apart post"
  have "apart (g @ post)" using a frag_quiet [OF g] by (auto simp: apart_def)
  with f ctx have "lexes (pre @ f @ (g @ post)) (length pre) (length (pre @ f)) hc True"
    by (intro fragD)
  moreover have "quiet (pre @ f)" using frag_quiet [OF f] by (auto simp: quiet_def)
  then have "lexes ((pre @ f) @ g @ post) (length (pre @ f)) (length ((pre @ f) @ g)) True True"
    using g ctx by (intro fragD)
  ultimately show "lexes (pre @ (f @ g) @ post) (length pre) (length (pre @ f @ g)) hc True"
    by (auto intro: lexes_trans)
qed (auto simp: frag_def quiet_def)

lemma frag_plain_append:
  assumes "plain p" "p \<noteq> []" "quiet p" "frag g"
  shows "frag (p @ g)"
proof (rule fragI)
  fix pre post :: string and hc
  assume ctx: "quiet pre" "apart post"
  have "quiet (pre @ p)" using assms by (auto simp: quiet_def)
  then have "lexes ((pre @ p) @ g @ post) (length (pre @ p)) (length ((pre @ p) @ g))
      (hc \<or> (\<exists>c\<in>set p. \<not> is_whitespace c)) True"
    using assms(4) ctx by (intro fragD)
  with lexes_plain [OF assms(1), of pre "g @ post" hc]
  show "lexes (pre @ (p @ g) @ post) (length pre) (length (pre @ p @ g)) hc True"
    by (auto intro: lexes_trans)
qed (use assms frag_quiet in \<open>auto simp: quiet_def\<close>)

lemma plain_apart: "plain p \<Longrightarrow> apart p"
  by (cases p) (auto simp: apart_def quote_chars_def)

lemma frag_sep:
  assumes "frag f" "plain sep" "sep \<noteq> []" "quiet sep" "frag g"
  shows "frag (f @ sep @ g)"
proof (rule frag_append [OF assms(1)])
  show "frag (sep @ g)" using assms by (intro frag_plain_append)
  show "apart (sep @ g)" using assms plain_apart [of sep] by (auto simp: apart_def)
qed

lemma frag_end: "frag f \<Longrightarrow> plain p \<Longrightarrow> (\<exists>c\<in>set p. \<not> is_whitespace c) \<Longrightarrow> quiet p \<Longrightarrow> frag (f @ p)"
  by (simp add: frag_append frag_plain plain_apart)

lemma frag_join:
  "xs \<noteq> [] \<Longrightarrow> (\<And>x. x \<in> set xs \<Longrightarrow> frag x) \<Longrightarrow> plain sep \<Longrightarrow> sep \<noteq> [] \<Longrightarrow> quiet sep \<Longrightarrow>
    frag (join sep xs)"
proof (induction sep xs rule: join.induct)
  case (3 sep x y ys)
  then show ?case using frag_sep [of x sep "join sep (y # ys)"] by simp
qed auto

section \<open>The contract between quoting and skipping\<close>

locale quoted_lexeme =
  fixes quote :: "string \<Rightarrow> string" and delim :: char and skip :: "string \<Rightarrow> nat \<Rightarrow> nat"
  assumes delim_quote: "delim \<in> quote_chars"
    and quote_shape: "\<exists>body. quote s = delim # body @ [delim]"
    and skip_quote: "quiet pre \<Longrightarrow> post = [] \<or> hd post \<noteq> delim \<Longrightarrow>
      skip (pre @ quote s @ post) (length pre) = length (pre @ quote s)"
    and scan_quote: "i < length chars \<Longrightarrow> chars ! i = delim \<Longrightarrow>
      split_loop chars i start hc acc = split_loop chars (skip chars i) start True acc"
begin

lemma quote_ends: "quote s \<noteq> []" "hd (quote s) = delim" "last (quote s) = delim"
  using quote_shape [of s] by auto

lemma frag_quote: "frag (quote s)"
proof (rule fragI)
  obtain body where body: "quote s = delim # body @ [delim]" using quote_shape by blast
  then show "quote s \<noteq> []" "quiet (quote s)"
    using delim_quote by (auto simp: quiet_def quote_chars_def)
  fix pre post :: string and hc
  assume ctx: "quiet pre" "apart post"
  then have "post = [] \<or> hd post \<noteq> delim" using delim_quote by (auto simp: apart_def)
  then have "skip (pre @ quote s @ post) (length pre) = length (pre @ quote s)"
    using ctx by (intro skip_quote)
  moreover have "(pre @ quote s @ post) ! length pre = delim" "length pre < length (pre @ quote s @ post)"
    by (simp_all add: body nth_append)
  ultimately show "lexes (pre @ quote s @ post) (length pre) (length (pre @ quote s)) hc True"
    unfolding lexes_def using scan_quote by metis
qed

end

definition ident_delim :: "sql_dialect \<Rightarrow> char" where
  "ident_delim dialect = (if dialect = MySql then BACKTICK else DQUOTE)"

lemma quote_ident_shape:
  "quote_ident s d = ident_delim d # replace_char (ident_delim d) [ident_delim d, ident_delim d] s @ [ident_delim d]"
  by (cases d) (simp_all add: quote_ident_def ident_delim_def)

lemma quote_str_shape:
  "quote_str s d = SQUOTE # replace_char SQUOTE [SQUOTE, SQUOTE]
     (if d = MySql then replace_char BACKSLASH [BACKSLASH, BACKSLASH] s else s) @ [SQUOTE]"
  by (cases d) (simp_all add: quote_str_def)

lemma skip_delimited_quote:
  "post = [] \<or> hd post \<noteq> d \<Longrightarrow>
    skip_delimited (pre @ (d # replace_char d [d, d] s @ [d]) @ post) (length pre) d
      = length (pre @ (d # replace_char d [d, d] s @ [d]))"
  using delimited_end_replace [of post d "pre @ [d]" s] by (simp add: skip_delimited_def)

lemma quiet_not_escape: "quiet pre \<Longrightarrow> \<not> is_escape_string_opener (pre @ rest) (length pre)"
  by (cases pre rule: rev_cases) (auto simp: is_escape_string_opener_def quiet_def nth_append Let_def)

lemma skip_single_quote:
  assumes "quiet pre" "post = [] \<or> hd post \<noteq> SQUOTE"
  shows "skip_single_quoted (pre @ (SQUOTE # replace_char SQUOTE [SQUOTE, SQUOTE] s @ [SQUOTE]) @ post)
      (length pre) (is_escape_string_opener
        (pre @ (SQUOTE # replace_char SQUOTE [SQUOTE, SQUOTE] s @ [SQUOTE]) @ post) (length pre))
    = length (pre @ (SQUOTE # replace_char SQUOTE [SQUOTE, SQUOTE] s @ [SQUOTE]))"
  unfolding skip_single_quoted_def using quiet_not_escape [OF assms(1)]
    skip_delimited_quote [OF assms(2), of pre s]
  by (simp add: single_quoted_end_delimited skip_delimited_def)

interpretation ident: quoted_lexeme "\<lambda>s. quote_ident s d" "ident_delim d"
    "\<lambda>chars i. skip_delimited chars i (ident_delim d)" for d
proof
  show "ident_delim d \<in> quote_chars" by (simp add: ident_delim_def quote_chars_def)
  show "\<exists>body. quote_ident s d = ident_delim d # body @ [ident_delim d]" for s
    by (simp add: quote_ident_shape)
  show "post = [] \<or> hd post \<noteq> ident_delim d \<Longrightarrow>
    skip_delimited (pre @ quote_ident s d @ post) (length pre) (ident_delim d)
      = length (pre @ quote_ident s d)" for pre post s
    unfolding quote_ident_shape by (rule skip_delimited_quote)
  show "i < length chars \<Longrightarrow> chars ! i = ident_delim d \<Longrightarrow>
    split_loop chars i start hc acc = split_loop chars (skip_delimited chars i (ident_delim d)) start True acc"
    for chars i start hc acc
    by (subst split_loop.simps) (simp add: Let_def ident_delim_def split: if_splits)
qed

interpretation str: quoted_lexeme "\<lambda>s. quote_str s d" SQUOTE
    "\<lambda>chars i. skip_single_quoted chars i (is_escape_string_opener chars i)" for d
proof
  show "SQUOTE \<in> quote_chars" by (simp add: quote_chars_def)
  show "\<exists>body. quote_str s d = SQUOTE # body @ [SQUOTE]" for s
    by (simp add: quote_str_shape)
  show "quiet pre \<Longrightarrow> post = [] \<or> hd post \<noteq> SQUOTE \<Longrightarrow>
    skip_single_quoted (pre @ quote_str s d @ post) (length pre)
      (is_escape_string_opener (pre @ quote_str s d @ post) (length pre)) = length (pre @ quote_str s d)"
    for pre post s
    unfolding quote_str_shape by (rule skip_single_quote)
  show "i < length chars \<Longrightarrow> chars ! i = SQUOTE \<Longrightarrow>
    split_loop chars i start hc acc = split_loop chars
      (skip_single_quoted chars i (is_escape_string_opener chars i)) start True acc"
    for chars i start hc acc
    by (subst split_loop.simps) (simp add: Let_def)
qed

section \<open>The fragments of generated SQL\<close>

lemma plain_safe:
  "(\<And>c. c \<in> set s \<Longrightarrow> c \<notin> {SQUOTE, DQUOTE, BACKTICK, CHR ''$'', CHR '';'', CHR ''/'', CHR ''-''}) \<Longrightarrow>
    plain s"
  by (induction s) auto

lemma digit_safe: "is_ascii_digit c \<Longrightarrow>
    c \<notin> {SQUOTE, DQUOTE, BACKTICK, CHR ''$'', CHR '';'', CHR ''/'', CHR ''-'', CHR ''e'', CHR ''E''} \<and>
    \<not> is_whitespace c"
  by (auto simp: is_ascii_digit_def is_whitespace_def code_point_def)

lemma plain_show_nat: "plain (show_nat n)"
  using show_nat_digits [of _ n] digit_safe by (intro plain_safe) blast

lemma show_nat_hd_last: "is_ascii_digit (hd (show_nat n))" "is_ascii_digit (last (show_nat n))"
  using show_nat_digits [of _ n] show_nat_nonempty [of n] by simp_all

lemma frag_number:
  assumes "plain s" "s \<noteq> []" "\<not> is_whitespace (last s)" "quiet s"
  shows "frag s"
  using assms by (intro frag_plain) auto

lemma frag_show_int: "frag (show_int i)"
proof (rule frag_number)
  note hl = show_nat_hd_last [of "nat (- i)"] show_nat_hd_last [of "nat i"]
  show "plain (show_int i)"
    using plain_show_nat [of "nat (- i)"] plain_show_nat [of "nat i"] hl(1) digit_safe
    by (auto simp: show_int_def)
  show "show_int i \<noteq> []" by (simp add: show_int_def)
  show "\<not> is_whitespace (last (show_int i))" "quiet (show_int i)"
    using hl(2,4) digit_safe by (auto simp: show_int_def quiet_def)
qed

lemma show_positional_nonempty: "show_positional ds k \<noteq> []"
  by (auto simp: show_positional_def Let_def)

lemma frag_show_f64: "frag (show_f64 x)"
proof -
  have safe: "plain s \<and> quiet s \<and> (s \<noteq> [] \<longrightarrow> \<not> is_whitespace (last s)) \<and> (s \<noteq> [] \<longrightarrow> hd s \<noteq> CHR ''-'')"
    if "\<And>c. c \<in> set s \<Longrightarrow> is_ascii_digit c \<or> c \<in> set ''.NaNinf''" for s
  proof -
    have c: "c \<notin> {SQUOTE, DQUOTE, BACKTICK, CHR ''$'', CHR '';'', CHR ''/'', CHR ''-'', CHR ''e'', CHR ''E''} \<and>
        \<not> is_whitespace c" if "c \<in> set s" for c
    proof (cases "is_ascii_digit c")
      case True
      then show ?thesis by (rule digit_safe)
    next
      case False
      with \<open>c \<in> set s\<close> \<open>\<And>c. c \<in> set s \<Longrightarrow> is_ascii_digit c \<or> c \<in> set ''.NaNinf''\<close>
      have "c \<in> set ''.NaNinf''" by blast
      then show ?thesis by (auto simp: is_whitespace_def code_point_def)
    qed
    then show ?thesis
      using last_in_set [of s] hd_in_set [of s] by (intro conjI plain_safe) (auto simp: quiet_def)
  qed
  obtain ds k where dk: "f64_digits x = (ds, k)" by fastforce
  define body where "body = (if \<not> is_finite x then ''inf''
      else if f64_exponent x = 0 \<and> f64_fraction x = 0 then ''0'' else show_positional ds k)"
  have "is_ascii_digit c \<or> c \<in> set ''.NaNinf''" if "c \<in> set body" for c
    using that show_positional_chars [OF f64_digits_small [OF dk]]
    by (auto simp: body_def is_ascii_digit_def code_point_def split: if_splits)
  then have body: "plain body \<and> quiet body \<and> (body \<noteq> [] \<longrightarrow> \<not> is_whitespace (last body)) \<and>
      (body \<noteq> [] \<longrightarrow> hd body \<noteq> CHR ''-'')"
    by (intro safe)
  have ne: "body \<noteq> []" by (simp add: body_def show_positional_nonempty)
  have nan: "frag ''NaN''"
    by (rule frag_number) (auto simp: quiet_def is_whitespace_def code_point_def)
  have "frag (CHR ''-'' # body)" "frag body"
    using body ne by (auto intro!: frag_number simp: quiet_def)
  moreover have "show_f64 x = (if is_nan x then ''NaN''
      else if is_sign_positive x then body else CHR ''-'' # body)"
    by (simp add: show_f64_def dk body_def)
  ultimately show ?thesis
    using nan by (simp split: if_split)
qed

lemma frag_words [simp]: "frag ''NULL''" "frag ''9e999''" "frag ''-9e999''"
  by (rule frag_number; simp add: quiet_def is_whitespace_def code_point_def)+

lemma hex_no_quote: "SQUOTE \<notin> set (concat (map (\<lambda>b. hex_byte (unat (b :: 8 word))) bytes))"
proof -
  have "unat b < 2 ^ LENGTH(8)" for b :: "8 word" by (rule unsigned_less)
  then have "SQUOTE \<notin> set (hex_byte (unat b))" for b :: "8 word"
    using hex_byte_set [of "unat b"] by fastforce
  then show ?thesis by auto
qed

lemma replace_char_id: "d \<notin> set s \<Longrightarrow> replace_char d r s = s"
  by (induction s) auto

lemma blob_literal_quoted:
  "blob_literal bytes d =
    (let hex = concat (map (\<lambda>b. hex_byte (unat b)) bytes)
     in case d of Postgres \<Rightarrow> quote_str (BACKSLASH # CHR ''x'' # hex) Sqlite @ ''::bytea''
        | _ \<Rightarrow> ''X'' @ quote_str hex Sqlite)"
  using hex_no_quote [of bytes]
  by (simp add: blob_literal_def quote_str_def Let_def replace_char_id split: sql_dialect.split)

lemma plain_X: "plain ''X''" "quiet ''X''"
  by (simp_all add: quiet_def)

lemma frag_blob_literal: "frag (blob_literal bytes d)"
proof -
  have "frag (''X'' @ quote_str hex Sqlite)" for hex
    by (intro frag_plain_append str.frag_quote) (simp_all add: quiet_def)
  moreover have "frag (quote_str t Sqlite @ ''::bytea'')" for t
    by (intro frag_end str.frag_quote) (simp_all add: quiet_def is_whitespace_def code_point_def)
  ultimately show ?thesis
    by (cases d) (simp_all only: blob_literal_quoted Let_def sql_dialect.case)
qed

lemma frag_real_literal: "frag (real_literal x d)"
proof -
  have "frag (quote_str t Sqlite @ ''::double precision'')" for t
    by (intro frag_end str.frag_quote) (simp_all add: quiet_def is_whitespace_def code_point_def)
  from this [of "''NaN''"] this [of "''Infinity''"] this [of "''-Infinity''"] show ?thesis
    by (simp add: real_literal_def frag_show_f64 quote_str_def
        split: sql_dialect.split bool.split)
qed

lemma frag_value_literal: "frag (value_literal json_text v d)"
  by (cases v) (simp_all add: frag_show_int frag_real_literal frag_blob_literal str.frag_quote)

lemma frag_qualified_table: "frag (qualified_table table d)"
proof -
  have "frag (quote_ident s d @ ''.'' @ quote_ident t d)" for s t
    by (intro frag_sep ident.frag_quote) (simp_all add: quiet_def)
  then show ?thesis
    by (auto simp: qualified_table_def ident.frag_quote split: sql_dialect.split option.split)
qed

lemma plain_comma: "plain '', ''" "quiet '', ''"
  by (simp_all add: quiet_def)

lemma frag_ident_list: "cs \<noteq> [] \<Longrightarrow> frag (join '', '' (map (\<lambda>c. quote_ident c d) cs))"
  by (rule frag_join) (auto simp: ident.frag_quote quiet_def)

lemma frag_value_list: "vs \<noteq> [] \<Longrightarrow> frag (join '', '' (map (\<lambda>v. value_literal json_text v d) vs))"
  by (rule frag_join) (auto simp: frag_value_literal quiet_def)

lemma frag_paren: "frag f \<Longrightarrow> frag (''('' @ f @ '')'')"
  by (intro frag_plain_append frag_end) (simp_all add: quiet_def is_whitespace_def code_point_def)

lemma frag_row_tuple: "0 < width \<Longrightarrow> frag (row_tuple json_text width r d)"
  unfolding row_tuple_def
  by (rule frag_paren, rule frag_join) (auto simp: frag_value_literal quiet_def)

lemma join_nonempty: "(\<And>x. x \<in> set xs \<Longrightarrow> x \<noteq> []) \<Longrightarrow> xs \<noteq> [] \<Longrightarrow> join sep xs \<noteq> []"
  by (cases "(sep, xs)" rule: join.cases) auto

lemma last_join:
  "(\<And>x. x \<in> set xs \<Longrightarrow> x \<noteq> []) \<Longrightarrow> xs \<noteq> [] \<Longrightarrow> last (join sep xs) = last (last xs)"
proof (induction sep xs rule: join.induct)
  case (3 sep x y ys)
  then show ?case using join_nonempty [of "y # ys" sep] by simp
qed auto

text \<open>An insert is a fragment and the terminator, with nothing around it to trim.\<close>

definition statement_text :: "string \<Rightarrow> bool" where
  "statement_text f \<longleftrightarrow> frag f \<and> \<not> is_whitespace (hd f) \<and> \<not> is_whitespace (last f)"

lemma statement_text_trim: "statement_text f \<Longrightarrow> trim f = f"
  using frag_quiet [of f] by (simp add: statement_text_def trim_fixed)

lemma build_insert_statement:
  assumes "build_insert json_text table columns rows d = Some sql"
  shows "\<exists>f. sql = f @ '';'' \<and> statement_text f"
proof -
  define cols where "cols = join '', '' (map (\<lambda>c. quote_ident c d) columns)"
  define tuples where
    "tuples = join '', '' (map (\<lambda>r. row_tuple json_text (length columns) r d) rows)"
  define f where "f = ''INSERT INTO '' @ qualified_table table d @ '' ('' @ cols @ '') VALUES '' @ tuples"
  have ne: "rows \<noteq> []" "columns \<noteq> []" and sql: "sql = f @ '';''"
    using assms by (auto simp: build_insert_def Let_def f_def cols_def tuples_def split: if_splits)
  have tup: "frag tuples"
    unfolding tuples_def by (rule frag_join) (use ne in \<open>auto simp: frag_row_tuple quiet_def\<close>)
  have cols: "frag cols" unfolding cols_def using ne by (intro frag_ident_list)
  have "frag f"
    unfolding f_def
    by (intro frag_plain_append frag_sep frag_qualified_table cols tup) (simp_all add: quiet_def)
  moreover have "last tuples = CHR '')''"
    unfolding tuples_def using ne by (subst last_join) (auto simp: row_tuple_def last_map)
  then have "last f = CHR '')''" using frag_quiet [OF tup] by (simp add: f_def)
  ultimately have "statement_text f"
    by (auto simp: statement_text_def f_def is_whitespace_def code_point_def)
  with sql show ?thesis by blast
qed

text \<open>The other statements of dbboard, which end without a terminator.\<close>

lemma frag_key_predicate: "key_predicate col v d = Inr p \<Longrightarrow> frag p"
proof -
  have "frag (quote_ident col d @ '' = '' @ f)" if "frag f" for f
    using that by (intro frag_sep ident.frag_quote) (simp_all add: quiet_def)
  moreover have "frag (quote_ident col d @ '' IS NULL'')"
    by (intro frag_end ident.frag_quote) (simp_all add: quiet_def is_whitespace_def code_point_def)
  moreover assume "key_predicate col v d = Inr p"
  ultimately show "frag p"
    by (cases v) (auto simp: frag_show_int frag_show_f64 str.frag_quote)
qed

lemma frag_build_where: "build_where key d = Inr w \<Longrightarrow> frag w"
proof (cases key)
  case (Key_Rowid ident)
  assume "build_where key d = Inr w"
  moreover have "frag (''rowid = '' @ show_int (sint ident))"
    by (intro frag_plain_append frag_show_int) (simp_all add: quiet_def)
  ultimately show ?thesis using Key_Rowid by simp
next
  case (Key_Columns cols)
  assume "build_where key d = Inr w"
  with Key_Columns obtain ps where ps: "cols \<noteq> []" "w = join '' AND '' ps"
    "rmapM (\<lambda>(col, v). key_predicate col v d) cols = Inr ps"
    by (auto simp: rmap_Inr_iff split: if_splits)
  from ps(3) have "list_all2 (\<lambda>(col, v) p. key_predicate col v d = Inr p) cols ps"
    by (simp add: rmapM_Inr_iff case_prod_unfold)
  then have "\<forall>p\<in>set ps. frag p"
    by (induction rule: list_all2_induct) (auto simp: frag_key_predicate split: prod.splits)
  moreover from ps have "ps \<noteq> []" by (auto simp: rmapM_Inr_iff)
  ultimately show ?thesis using ps by (auto intro!: frag_join simp: quiet_def)
qed

lemma frag_set_clause:
  assumes "edits \<noteq> []" shows "frag (set_clause edits d)"
  unfolding set_clause_def
proof (rule frag_join)
  have "frag (edit_literal v d)" for v
    by (cases v) (simp_all add: str.frag_quote)
  then have "frag (quote_ident col d @ '' = '' @ edit_literal v d)" for col v
    by (intro frag_sep ident.frag_quote) (simp_all add: quiet_def)
  then show "frag x" if "x \<in> set (map (\<lambda>(col, v). quote_ident col d @ '' = '' @ edit_literal v d) edits)" for x
    using that by auto
qed (use assms in \<open>simp_all add: quiet_def\<close>)

lemma build_update_frag: "build_update_sql plan d = Inr sql \<Longrightarrow> frag sql"
proof -
  assume "build_update_sql plan d = Inr sql"
  then obtain w where w: "up_edits plan \<noteq> []" "build_where (up_key plan) d = Inr w" and
    sql: "sql = ''UPDATE '' @ qualified_table (up_table plan) d @ '' SET ''
      @ set_clause (up_edits plan) d @ '' WHERE '' @ w"
    by (auto simp: build_update_sql_def rbind_Inr_iff split: if_splits)
  show ?thesis unfolding sql using w
    by (intro frag_plain_append frag_sep frag_qualified_table frag_set_clause frag_build_where)
      (simp_all add: quiet_def)
qed

lemma build_count_frag: "frag (build_count table d)"
  unfolding build_count_def by (intro frag_plain_append frag_qualified_table) (simp_all add: quiet_def)

lemma frag_key_list: "cs \<noteq> [] \<Longrightarrow> plain p \<Longrightarrow> p \<noteq> [] \<Longrightarrow> quiet p \<Longrightarrow>
    frag (p @ join '', '' (map (\<lambda>c. quote_ident c d) cs))"
  by (intro frag_plain_append frag_ident_list)

lemma build_select_page_frag:
  assumes "\<And>cursor. after = Some cursor \<Longrightarrow> cursor \<noteq> []"
  shows "frag (build_select_page json_text table keys d limit after)"
proof -
  define key_list where "key_list = join '', '' (map (\<lambda>c. quote_ident c d) keys)"
  define vals where
    "vals = (\<lambda>cursor. join '', '' (map (\<lambda>v. value_literal json_text v d) cursor))"
  have sel: "frag (''SELECT * FROM '' @ qualified_table table d)"
    by (intro frag_plain_append frag_qualified_table) (simp_all add: quiet_def)
  have nat: "frag (show_nat limit)"
    using plain_show_nat [of limit] show_nat_hd_last [of limit] digit_safe
    by (intro frag_number) (auto simp: quiet_def)
  have lim: "frag (f @ '' LIMIT '' @ show_nat limit)" if "frag f" for f
    using that nat by (intro frag_sep) (simp_all add: quiet_def)
  show ?thesis
  proof (cases "keys = []")
    case True
    then show ?thesis using lim [OF sel] by (simp add: build_select_page_def)
  next
    case False
    then have keys: "frag key_list" unfolding key_list_def by (rule frag_ident_list)
    have order: "frag (f @ '' ORDER BY '' @ key_list)" if "frag f" for f
      using that keys by (intro frag_sep) (simp_all add: quiet_def)
    show ?thesis
    proof (cases after)
      case None
      with False lim [OF order [OF sel]] show ?thesis
        by (simp add: build_select_page_def key_list_def Let_def)
    next
      case (Some cursor)
      then have "frag (vals cursor @ '')'')"
        using assms unfolding vals_def
        by (intro frag_end frag_value_list) (simp_all add: quiet_def is_whitespace_def code_point_def)
      with keys have cond: "frag (key_list @ '') > ('' @ vals cursor @ '')'')"
        by (intro frag_sep) (simp_all add: quiet_def)
      have "frag ((''SELECT * FROM '' @ qualified_table table d) @ '' WHERE ('' @
          key_list @ '') > ('' @ vals cursor @ '')'')"
        by (rule frag_sep [OF sel _ _ _ cond]) (simp_all add: quiet_def)
      from lim [OF order [OF this]] Some False show ?thesis
        by (simp add: build_select_page_def key_list_def vals_def Let_def)
    qed
  qed
qed

section \<open>Splitting generated scripts\<close>

lemma split_end:
  assumes "lexes chars (length pre) (length chars) False True" "chars = pre @ body"
  shows "split_loop chars (length pre) (length pre) False acc = acc @ [trim body]"
proof -
  have "split_loop chars (length chars) (length pre) True acc = acc @ [trim body]"
    by (subst split_loop.simps) (simp add: collect_trimmed_def assms(2))
  with assms(1) show ?thesis by (simp add: lexes_def)
qed

lemma split_segment:
  assumes "lexes chars (length pre) (length (pre @ body)) False True" "chars = pre @ body @ '';'' @ post"
  shows "split_loop chars (length pre) (length pre) False acc =
    split_loop chars (length (pre @ body @ '';'')) (length (pre @ body @ '';'')) False (acc @ [trim body])"
proof -
  have "split_loop chars (length (pre @ body)) (length pre) True acc =
    split_loop chars (length (pre @ body) + 1) (length (pre @ body) + 1) False (acc @ [trim body])"
    by (subst split_loop.simps) (simp add: collect_trimmed_def assms(2) Let_def nth_append)
  with assms(1) show ?thesis by (simp add: lexes_def)
qed

lemma split_frag: "frag f \<Longrightarrow> split_statements f = [trim f]"
  unfolding split_statements_def
  using fragD [of f "[]" "[]" False] split_end [of f "[]" f "[]"]
  by (simp add: quiet_def apart_def)

text \<open>
  Glue is what stands between statements: blank text and comment lines, which the loop walks over
  without seeing content.
\<close>

definition glue :: "string \<Rightarrow> bool" where
  "glue g \<longleftrightarrow> quiet g \<and>
     (\<forall>pre post. lexes (pre @ g @ post) (length pre) (length (pre @ g)) False False)"

lemma quiet_append: "quiet f \<Longrightarrow> quiet g \<Longrightarrow> quiet (f @ g)"
  by (auto simp: quiet_def last_append)

lemma glue_append [intro]: "glue g \<Longrightarrow> glue h \<Longrightarrow> glue (g @ h)"
proof -
  assume g: "glue g" and h: "glue h"
  have "lexes (pre @ (g @ h) @ post) (length pre) (length (pre @ g @ h)) False False" for pre post
  proof -
    have "lexes (pre @ g @ (h @ post)) (length pre) (length (pre @ g)) False False"
      using g unfolding glue_def by blast
    moreover have "lexes ((pre @ g) @ h @ post) (length (pre @ g)) (length ((pre @ g) @ h)) False False"
      using h unfolding glue_def by blast
    ultimately show ?thesis by (auto intro: lexes_trans)
  qed
  moreover have "quiet (g @ h)" using g h by (simp add: glue_def quiet_append)
  ultimately show "glue (g @ h)" by (simp add: glue_def)
qed

lemma glue_Nil [simp]: "glue []"
  by (simp add: glue_def quiet_def)

lemma glue_blank: "(\<And>c. c \<in> set g \<Longrightarrow> is_whitespace c) \<Longrightarrow> glue g"
proof (induction g)
  case (Cons c g)
  have c: "is_whitespace c" using Cons.prems by simp
  then have safe: "c \<notin> {SQUOTE, DQUOTE, BACKTICK, CHR ''$'', CHR '';'', CHR ''/'', CHR ''e'', CHR ''E''}
      \<and> c \<noteq> CHR ''-''"
    by (auto simp: is_whitespace_def code_point_def)
  with c have "lexes (pre @ [c] @ post) (length pre) (length (pre @ [c])) False False" for pre post
    using lexes_char [of "length pre" "pre @ [c] @ post" False] by simp
  then have "glue [c]" using safe by (simp add: glue_def quiet_def)
  with Cons show ?case using glue_append [of "[c]" g] by simp
qed simp

lemma glue_newline [simp]: "glue [NEWLINE]"
  by (rule glue_blank) (simp add: is_whitespace_def code_point_def)

lemma glue_comment: "NEWLINE \<notin> set body \<Longrightarrow> glue (''--'' @ body @ [NEWLINE])"
proof -
  assume body: "NEWLINE \<notin> set body"
  have "lexes (pre @ (''--'' @ body @ [NEWLINE]) @ post) (length pre)
      (length (pre @ ''--'' @ body @ [NEWLINE])) False False" for pre post
  proof -
    have "lexes ((pre @ ''--'' @ body) @ [NEWLINE] @ post) (length (pre @ ''--'' @ body))
        (length ((pre @ ''--'' @ body) @ [NEWLINE])) False False"
      using glue_newline unfolding glue_def by blast
    with lexes_comment [OF body, of pre post False] show ?thesis
      by (auto intro: lexes_trans)
  qed
  then show ?thesis by (simp add: glue_def quiet_def)
qed

lemma split_glue_end:
  assumes "glue g"
  shows "split_loop (pre @ g) (length pre) start False acc = acc"
proof -
  have "lexes (pre @ g @ []) (length pre) (length (pre @ g)) False False"
    using assms unfolding glue_def by blast
  moreover have "split_loop (pre @ g) (length (pre @ g)) start False acc = acc"
    by (subst split_loop.simps) simp
  ultimately show ?thesis by (simp add: lexes_def)
qed

fun script :: "(string \<times> string) list \<Rightarrow> string" where
  "script [] = []"
| "script ((g, f) # items) = g @ f @ '';'' @ script items"

lemma split_script_loop:
  assumes "\<And>g f. (g, f) \<in> set items \<Longrightarrow> glue g \<and> frag f" "glue tail" "quiet pre"
  shows "split_loop (pre @ script items @ tail) (length pre) (length pre) False acc =
    acc @ map (\<lambda>(g, f). trim (g @ f)) items"
  using assms(1,3)
proof (induction items arbitrary: pre acc)
  case Nil
  then show ?case using split_glue_end [OF assms(2), of pre] by simp
next
  case (Cons item items)
  obtain g f where item: "item = (g, f)" by (cases item)
  then have g: "glue g" and f: "frag f" using Cons.prems by auto
  let ?post = "script items @ tail" and ?chars = "pre @ script (item # items) @ tail"
  have "lexes (pre @ g @ (f @ '';'' @ ?post)) (length pre) (length (pre @ g)) False False"
    using g unfolding glue_def by blast
  moreover have "lexes ((pre @ g) @ f @ ('';'' @ ?post)) (length (pre @ g)) (length ((pre @ g) @ f)) False True"
    using f by (rule fragD)
      (use g Cons.prems in \<open>auto simp: glue_def quiet_append apart_def quote_chars_def\<close>)
  ultimately have "lexes ?chars (length pre) (length (pre @ (g @ f))) False True"
    by (auto simp: item intro: lexes_trans)
  then have "split_loop ?chars (length pre) (length pre) False acc =
    split_loop ?chars (length (pre @ (g @ f) @ '';'')) (length (pre @ (g @ f) @ '';'')) False
      (acc @ [trim (g @ f)])"
    by (rule split_segment) (simp add: item)
  also have "\<dots> = (acc @ [trim (g @ f)]) @ map (\<lambda>(g, f). trim (g @ f)) items"
    using Cons.IH [of "pre @ (g @ f) @ '';''" "acc @ [trim (g @ f)]"] Cons.prems by (auto simp: item quiet_def)
  finally show ?case by (simp add: item)
qed

lemma split_script:
  assumes "\<And>g f. (g, f) \<in> set items \<Longrightarrow> glue g \<and> frag f" "glue tail"
  shows "split_statements (script items @ tail) = map (\<lambda>(g, f). trim (g @ f)) items"
  unfolding split_statements_def
  using split_script_loop [of items tail "[]" "[]"] assms by (simp add: quiet_def)

section \<open>Properties\<close>

text \<open>
  C13. The statements dbboard generates from names and values stay one statement: whatever text the
  table, schema and column names, the edits, the key values and the cursor carry, in each dialect,
  the splitter sees exactly one statement in an update, a page query and a count query.
\<close>

theorem generated_sql_is_one_statement:
  "(\<forall>sql. build_update_sql plan dialect = Inr sql \<longrightarrow> split_statements sql = [trim sql]) \<and>
   (after \<noteq> Some [] \<longrightarrow> split_statements (build_select_page json_text table keys dialect limit after)
      = [trim (build_select_page json_text table keys dialect limit after)]) \<and>
   split_statements (build_count table dialect) = [trim (build_count table dialect)]"
  by (auto intro!: split_frag build_update_frag build_select_page_frag build_count_frag)

theorem generated_sql_is_one_statement_witness:
  "length (split_statements (build_select_page (\<lambda>_. []) (table_unqualified (''x'' @ [BACKTICK] @ ''; DROP TABLE t'')) [''id'']
     MySql 10 (Some [Text ([BACKSLASH, SQUOTE] @ ''; --'')]))) = 1"
  using generated_sql_is_one_statement [where after = "Some [Text ([BACKSLASH, SQUOTE] @ ''; --'')]"]
  by simp

end
