(* ===== verification/Sql_Policy.thy ===== *)
theory Sql_Policy
  imports Statement_Lex
begin

text \<open>
  The three judgements on parsed SQL: may it be read (\<open>dbboard-core/src/read_only.rs\<close>), may an
  agent write it (\<open>write_policy.rs\<close>), and how a restore labels it (\<open>restore/plan.rs\<close>). The SQL
  parser is another crate: \<open>parse_sql\<close> is a parameter, and the datatypes below hold the variants
  of its syntax tree that the source matches on. A payload the source never looks into is of the
  type parameter \<open>'x\<close>; every variant the source does not name is \<open>Other_Statement\<close>.
\<close>

section \<open>The syntax tree the policies look at\<close>

datatype 'x query =
    Query (q_locks: "'x list") (q_with: "'x query list option") (q_body: "'x set_expr")
and 'x set_expr =
    Select_Expr 'x
  | Values_Expr 'x
  | Table_Expr 'x
  | Query_Expr "'x query"
  | Set_Operation "'x set_expr" "'x set_expr"
  | Insert_Expr 'x
  | Update_Expr 'x
  | Delete_Expr 'x
  | Merge_Expr 'x

datatype 'x statement =
    Query_Statement "'x query"
  | Explain_Statement "'x statement"
  | Insert_Statement 'x
  | Update_Statement 'x
  | Delete_Statement 'x
  | Merge_Statement 'x
  | Copy_Statement 'x
  | Create_Table 'x
  | Create_View 'x
  | Create_Index 'x
  | Create_Virtual_Table 'x
  | Create_Schema 'x
  | Create_Sequence 'x
  | Create_Function 'x
  | Create_Procedure 'x
  | Create_Trigger 'x
  | Create_Extension 'x
  | Create_Type 'x
  | Create_Domain 'x
  | Create_Database 'x
  | Create_User 'x
  | Create_Role 'x
  | Alter_Table 'x
  | Alter_User 'x
  | Alter_Role 'x
  | Drop_Statement 'x
  | Drop_Function 'x
  | Drop_Procedure 'x
  | Truncate_Statement 'x
  | Comment_Statement 'x
  | Grant_Statement 'x
  | Revoke_Statement 'x
  | Deny_Statement 'x
  | Call_Statement 'x
  | Set_Statement 'x
  | Analyze_Statement 'x
  | Start_Transaction 'x
  | Commit_Statement 'x
  | Rollback_Statement 'x
  | Savepoint_Statement 'x
  | Release_Savepoint 'x
  | Other_Statement 'x

type_synonym 'x sql_parser = "sql_dialect \<Rightarrow> string \<Rightarrow> string + 'x statement list"

section \<open>Read-only statements\<close>

datatype read_only_violation = Read_Only_Violation (violation_reason: string)

definition read_only_display :: "read_only_violation \<Rightarrow> string" where
  "read_only_display v = ''not a single read-only statement: '' @ violation_reason v"

datatype read_only_statement = Ro_Query | Ro_Explain

definition db_error_of_read_only :: "read_only_violation \<Rightarrow> db_error" where
  "db_error_of_read_only v = Query_Error (read_only_display v)"

fun check_query :: "'x query \<Rightarrow> read_only_violation + unit"
  and check_ctes :: "'x query list \<Rightarrow> read_only_violation + unit"
  and check_set_expr :: "'x set_expr \<Rightarrow> read_only_violation + unit" where
  "check_query (Query locks with_clause body) =
     (if locks \<noteq> [] then
        Inl (Read_Only_Violation ''a locking clause (FOR UPDATE / FOR SHARE) is not read-only'')
      else rbind (case with_clause of None \<Rightarrow> Inr () | Some ctes \<Rightarrow> check_ctes ctes)
        (\<lambda>_. check_set_expr body))"
| "check_ctes [] = Inr ()"
| "check_ctes (cte # ctes) = rbind (check_query cte) (\<lambda>_. check_ctes ctes)"
| "check_set_expr (Select_Expr _) = Inr ()"
| "check_set_expr (Values_Expr _) = Inr ()"
| "check_set_expr (Table_Expr _) = Inr ()"
| "check_set_expr (Query_Expr inner) = check_query inner"
| "check_set_expr (Set_Operation left right) =
     rbind (check_set_expr left) (\<lambda>_. check_set_expr right)"
| "check_set_expr _ = Inl (Read_Only_Violation
     ''a data-modifying statement (in a CTE or set expression) is not read-only'')"

fun ro_check_statement :: "'x statement \<Rightarrow> read_only_violation + read_only_statement" where
  "ro_check_statement (Query_Statement q) = rmap (\<lambda>_. Ro_Query) (check_query q)"
| "ro_check_statement (Explain_Statement statement) =
     rmap (\<lambda>_. Ro_Explain) (ro_check_statement statement)"
| "ro_check_statement _ = Inl (Read_Only_Violation
     ''only read-only SELECT / WITH / EXPLAIN statements are allowed'')"

definition ro_parse :: "'x sql_parser \<Rightarrow> string \<Rightarrow> sql_dialect \<Rightarrow> read_only_violation + 'x statement list" where
  "ro_parse parse_sql sql dialect =
     (case parse_sql dialect sql of
        Inl e \<Rightarrow> Inl (Read_Only_Violation (''could not parse SQL ('' @ e @ '')''))
      | Inr statements \<Rightarrow> Inr statements)"

definition classify_read_only ::
    "'x sql_parser \<Rightarrow> string \<Rightarrow> sql_dialect \<Rightarrow> read_only_violation + read_only_statement" where
  "classify_read_only parse_sql sql dialect =
     rbind (ro_parse parse_sql sql dialect) (\<lambda>statements.
       case statements of
         [] \<Rightarrow> Inl (Read_Only_Violation ''no statement found'')
       | [single] \<Rightarrow> ro_check_statement single
       | _ \<Rightarrow> Inl (Read_Only_Violation
           (''expected a single statement, found '' @ show_nat (length statements))))"

definition check_read_only :: "'x sql_parser \<Rightarrow> string \<Rightarrow> sql_dialect \<Rightarrow> read_only_violation + unit" where
  "check_read_only parse_sql sql dialect = rmap (\<lambda>_. ()) (classify_read_only parse_sql sql dialect)"

definition is_single_read_only_statement :: "'x sql_parser \<Rightarrow> string \<Rightarrow> sql_dialect \<Rightarrow> bool" where
  "is_single_read_only_statement parse_sql sql dialect \<longleftrightarrow> is_ok (check_read_only parse_sql sql dialect)"

text \<open>
  The specification: all queries and all bodies below a query, at any depth of CTEs, nested
  queries and set operations.
\<close>

fun queries_in :: "'x query \<Rightarrow> 'x query list"
  and queries_in_list :: "'x query list \<Rightarrow> 'x query list"
  and queries_in_body :: "'x set_expr \<Rightarrow> 'x query list" where
  "queries_in (Query locks with_clause body) = Query locks with_clause body #
     (case with_clause of None \<Rightarrow> [] | Some ctes \<Rightarrow> queries_in_list ctes) @ queries_in_body body"
| "queries_in_list [] = []"
| "queries_in_list (q # qs) = queries_in q @ queries_in_list qs"
| "queries_in_body (Query_Expr inner) = queries_in inner"
| "queries_in_body (Set_Operation left right) = queries_in_body left @ queries_in_body right"
| "queries_in_body _ = []"

fun operands :: "'x set_expr \<Rightarrow> 'x set_expr list" where
  "operands (Set_Operation left right) = operands left @ operands right"
| "operands body = [body]"

fun data_modifying :: "'x set_expr \<Rightarrow> bool" where
  "data_modifying (Insert_Expr _) \<longleftrightarrow> True"
| "data_modifying (Update_Expr _) \<longleftrightarrow> True"
| "data_modifying (Delete_Expr _) \<longleftrightarrow> True"
| "data_modifying (Merge_Expr _) \<longleftrightarrow> True"
| "data_modifying _ \<longleftrightarrow> False"

definition reads_only :: "'x query \<Rightarrow> bool" where
  "reads_only q \<longleftrightarrow> q_locks q = [] \<and> (\<forall>b\<in>set (operands (q_body q)). \<not> data_modifying b)"

lemma check_query_spec:
  fixes q :: "'x query" and qs :: "'x query list" and b :: "'x set_expr"
  shows "check_query q = Inr () \<longleftrightarrow> (\<forall>n\<in>set (queries_in q). reads_only n)"
    and "check_ctes qs = Inr () \<longleftrightarrow> (\<forall>n\<in>set (queries_in_list qs). reads_only n)"
    and "check_set_expr b = Inr () \<longleftrightarrow>
      (\<forall>e\<in>set (operands b). \<not> data_modifying e) \<and> (\<forall>n\<in>set (queries_in_body b). reads_only n)"
  by (induction q and qs and b rule: check_query_check_ctes_check_set_expr.induct)
    (auto simp: reads_only_def split: option.splits)

fun explained :: "'x statement \<Rightarrow> 'x statement" where
  "explained (Explain_Statement statement) = explained statement"
| "explained statement = statement"

fun statement_kind_of :: "'x statement \<Rightarrow> read_only_statement" where
  "statement_kind_of (Explain_Statement _) = Ro_Explain"
| "statement_kind_of _ = Ro_Query"

lemma ro_check_statement_spec:
  "ro_check_statement st = Inr k \<longleftrightarrow>
    (\<exists>q. explained st = Query_Statement q \<and> (\<forall>n\<in>set (queries_in q). reads_only n)) \<and>
    k = statement_kind_of st"
proof (induction st arbitrary: k rule: ro_check_statement.induct)
  case (1 q)
  then show ?case by (auto simp: check_query_spec simp flip: check_query_spec(1))
next
  case (2 st)
  show ?case by (simp only: ro_check_statement.simps rmap_Inr_iff "2.IH" explained.simps
      statement_kind_of.simps) auto
qed simp_all

lemma classify_read_only_Inr:
  "classify_read_only parse_sql sql dialect = Inr k \<longleftrightarrow>
    (\<exists>st. parse_sql dialect sql = Inr [st] \<and> ro_check_statement st = Inr k)"
  by (cases "parse_sql dialect sql")
    (auto simp: classify_read_only_def ro_parse_def split: list.splits)

section \<open>Writes an agent may run\<close>

datatype write_statement = Data_Write | Schema_Write

record write_policy_violation =
  wp_reason :: string
  wp_permanent :: bool

definition wp_refused :: "string \<Rightarrow> write_policy_violation" where
  "wp_refused reason = \<lparr>wp_reason = reason, wp_permanent = False\<rparr>"

definition wp_closed :: "string \<Rightarrow> write_policy_violation" where
  "wp_closed reason = \<lparr>wp_reason = reason, wp_permanent = True\<rparr>"

text \<open>The em dash of the messages, as its three UTF-8 bytes.\<close>

abbreviation EM_DASH :: string where "EM_DASH \<equiv> [CHR 0xE2, CHR 0x80, CHR 0x94]"

definition write_policy_display :: "write_policy_violation \<Rightarrow> string" where
  "write_policy_display v =
     (if wp_permanent v
      then ''refused permanently: '' @ wp_reason v @ '' '' @ EM_DASH @
        '' dbboard never runs this through an agent; use the desktop app'' @ [SQUOTE] @ ''s SQL editor''
      else ''not a supported write statement: '' @ wp_reason v)"

definition db_error_of_write_policy :: "write_policy_violation \<Rightarrow> db_error" where
  "db_error_of_write_policy v = Query_Error (write_policy_display v)"

text \<open>
  The scan for the leading words: the index of the source only moves forward, so the model keeps
  the characters still ahead of it. An unclosed block comment runs to the end.
\<close>

fun past_comment :: "string \<Rightarrow> string" where
  "past_comment [] = []"
| "past_comment (c # rest) =
     (if c = CHR ''*'' \<and> get rest 0 = Some (CHR ''/'') then tl rest else past_comment rest)"

lemma past_comment_le: "length (past_comment rest) \<le> length rest"
  by (induction rest) auto

function leading_words_from :: "string \<Rightarrow> nat \<Rightarrow> string list \<Rightarrow> string list" where
  "leading_words_from rest limit words =
     (if rest \<noteq> [] \<and> length words < limit then
        (let ch = hd rest in
         if is_whitespace ch then leading_words_from (tl rest) limit words
         else if ch = CHR ''-'' \<and> get rest 1 = Some (CHR ''-'') then
           leading_words_from (dropWhile (\<lambda>c. c \<noteq> NEWLINE) rest) limit words
         else if ch = CHR ''/'' \<and> get rest 1 = Some (CHR ''*'') then
           leading_words_from (past_comment (drop 2 rest)) limit words
         else if is_alphabetic ch then
           leading_words_from (dropWhile is_alphanumeric rest) limit
             (words @ [to_uppercase (takeWhile is_alphanumeric rest)])
         else words)
      else words)"
  by pat_completeness auto
termination
proof (relation "measure (\<lambda>(rest, limit, words). length rest)", goal_cases)
  case 1
  show ?case by simp
next
  case 2
  then show ?case by simp
next
  case (3 rest)
  then show ?case
    using length_dropWhile_le [of "\<lambda>c. c \<noteq> NEWLINE" "tl rest"] by (cases rest) auto
next
  case (4 rest)
  then show ?case
    using past_comment_le [of "drop 2 rest"] by (cases rest) auto
next
  case (5 rest)
  then show ?case
    using length_dropWhile_le [of is_alphanumeric "tl rest"]
    by (cases rest) (auto simp: is_alphanumeric_def)
qed

declare leading_words_from.simps [simp del]

definition leading_words :: "string \<Rightarrow> nat \<Rightarrow> string list" where
  "leading_words sql limit = leading_words_from sql limit []"

definition permanently_closed_prefix :: "string \<Rightarrow> string option" where
  "permanently_closed_prefix sql =
     (let words = leading_words sql 2
      in case get words 0 of
           None \<Rightarrow> None
         | Some first \<Rightarrow>
             (let second = (case get words 1 of Some w \<Rightarrow> w | None \<Rightarrow> [])
              in if first \<in> {''GRANT'', ''REVOKE'', ''DENY''}
                   then Some ''a privilege change (GRANT / REVOKE / DENY)''
                 else if second \<in> {''USER'', ''ROLE'', ''GROUP''} \<and>
                     first \<in> {''CREATE'', ''ALTER'', ''DROP'', ''RENAME''}
                   then Some ''a change to a database user or role''
                 else if first = ''SET'' \<and> second = ''PASSWORD'' then Some ''a password change''
                 else if first = ''TRUNCATE''
                   then Some (''TRUNCATE '' @ EM_DASH @ '' it cannot be rolled back the way a DELETE can'')
                 else if first = ''DROP''
                   then Some (''DROP '' @ EM_DASH @ '' it destroys an object rather than its contents'')
                 else None))"

fun statement_label :: "'x statement \<Rightarrow> string" where
  "statement_label (Query_Statement _) = ''a read query (use the read tool, which caps its rows)''"
| "statement_label (Copy_Statement _) = ''COPY''"
| "statement_label (Call_Statement _) = ''CALL''"
| "statement_label (Set_Statement _) = ''SET''"
| "statement_label (Analyze_Statement _) = ''ANALYZE''"
| "statement_label (Create_Database _) = ''CREATE DATABASE''"
| "statement_label (Create_Function _) = ''CREATE FUNCTION''"
| "statement_label (Create_Procedure _) = ''CREATE PROCEDURE''"
| "statement_label (Create_Trigger _) = ''CREATE TRIGGER''"
| "statement_label (Start_Transaction _) = ''explicit transaction control''"
| "statement_label (Commit_Statement _) = ''explicit transaction control''"
| "statement_label (Rollback_Statement _) = ''explicit transaction control''"
| "statement_label _ = ''that statement''"

definition wp_check_statement :: "'x statement \<Rightarrow> write_policy_violation + write_statement" where
  "wp_check_statement statement =
     (case statement of
        Insert_Statement _ \<Rightarrow> Inr Data_Write
      | Update_Statement _ \<Rightarrow> Inr Data_Write
      | Delete_Statement _ \<Rightarrow> Inr Data_Write
      | Merge_Statement _ \<Rightarrow> Inr Data_Write
      | Create_Table _ \<Rightarrow> Inr Schema_Write
      | Create_View _ \<Rightarrow> Inr Schema_Write
      | Create_Index _ \<Rightarrow> Inr Schema_Write
      | Create_Schema _ \<Rightarrow> Inr Schema_Write
      | Alter_Table _ \<Rightarrow> Inr Schema_Write
      | Grant_Statement _ \<Rightarrow> Inl (wp_closed ''a privilege change (GRANT / REVOKE / DENY)'')
      | Revoke_Statement _ \<Rightarrow> Inl (wp_closed ''a privilege change (GRANT / REVOKE / DENY)'')
      | Deny_Statement _ \<Rightarrow> Inl (wp_closed ''a privilege change (GRANT / REVOKE / DENY)'')
      | Create_User _ \<Rightarrow> Inl (wp_closed ''a change to a database user or role'')
      | Alter_User _ \<Rightarrow> Inl (wp_closed ''a change to a database user or role'')
      | Create_Role _ \<Rightarrow> Inl (wp_closed ''a change to a database user or role'')
      | Alter_Role _ \<Rightarrow> Inl (wp_closed ''a change to a database user or role'')
      | Truncate_Statement _ \<Rightarrow>
          Inl (wp_closed (''TRUNCATE '' @ EM_DASH @ '' it cannot be rolled back the way a DELETE can''))
      | Drop_Statement _ \<Rightarrow>
          Inl (wp_closed (''DROP '' @ EM_DASH @ '' it destroys an object rather than its contents''))
      | Drop_Function _ \<Rightarrow>
          Inl (wp_closed (''DROP '' @ EM_DASH @ '' it destroys an object rather than its contents''))
      | Drop_Procedure _ \<Rightarrow>
          Inl (wp_closed (''DROP '' @ EM_DASH @ '' it destroys an object rather than its contents''))
      | other \<Rightarrow> Inl (wp_refused (statement_label other @ '' is not on the permitted list'')))"

definition classify_write ::
    "'x sql_parser \<Rightarrow> string \<Rightarrow> sql_dialect \<Rightarrow> write_policy_violation + write_statement" where
  "classify_write parse_sql sql dialect =
     (case permanently_closed_prefix sql of
        Some reason \<Rightarrow> Inl (wp_closed reason)
      | None \<Rightarrow>
          (case parse_sql dialect sql of
             Inl err \<Rightarrow> Inl (wp_refused (''could not be parsed: '' @ err))
           | Inr [] \<Rightarrow> Inl (wp_refused ''no statement found'')
           | Inr [single] \<Rightarrow> wp_check_statement single
           | Inr statements \<Rightarrow> Inl (wp_refused
               (''expected a single statement, found '' @ show_nat (length statements)))))"

definition is_permitted_write :: "'x sql_parser \<Rightarrow> string \<Rightarrow> sql_dialect \<Rightarrow> bool" where
  "is_permitted_write parse_sql sql dialect \<longleftrightarrow> is_ok (classify_write parse_sql sql dialect)"

section \<open>Labels of restore statements\<close>

datatype statement_kind = Ddl | Data | Transaction_Control | Other_Kind | Unparsed

record restore_statement =
  rs_sql :: string
  rs_kind :: statement_kind

definition parse_single :: "'x sql_parser \<Rightarrow> string \<Rightarrow> sql_dialect \<Rightarrow> 'x statement option" where
  "parse_single parse_sql sql dialect =
     (case parse_sql dialect sql of
        Inr [single] \<Rightarrow> Some single
      | _ \<Rightarrow> None)"

definition kind_of :: "'x statement \<Rightarrow> statement_kind" where
  "kind_of stmt =
     (case stmt of
        Start_Transaction _ \<Rightarrow> Transaction_Control
      | Commit_Statement _ \<Rightarrow> Transaction_Control
      | Rollback_Statement _ \<Rightarrow> Transaction_Control
      | Savepoint_Statement _ \<Rightarrow> Transaction_Control
      | Release_Savepoint _ \<Rightarrow> Transaction_Control
      | Insert_Statement _ \<Rightarrow> Data
      | Update_Statement _ \<Rightarrow> Data
      | Delete_Statement _ \<Rightarrow> Data
      | Copy_Statement _ \<Rightarrow> Data
      | Create_Table _ \<Rightarrow> Ddl
      | Create_View _ \<Rightarrow> Ddl
      | Create_Index _ \<Rightarrow> Ddl
      | Create_Virtual_Table _ \<Rightarrow> Ddl
      | Create_Schema _ \<Rightarrow> Ddl
      | Create_Sequence _ \<Rightarrow> Ddl
      | Create_Function _ \<Rightarrow> Ddl
      | Create_Trigger _ \<Rightarrow> Ddl
      | Create_Extension _ \<Rightarrow> Ddl
      | Create_Type _ \<Rightarrow> Ddl
      | Create_Domain _ \<Rightarrow> Ddl
      | Alter_Table _ \<Rightarrow> Ddl
      | Drop_Statement _ \<Rightarrow> Ddl
      | Truncate_Statement _ \<Rightarrow> Ddl
      | Comment_Statement _ \<Rightarrow> Ddl
      | _ \<Rightarrow> Other_Kind)"

definition classify_one :: "'x sql_parser \<Rightarrow> string \<Rightarrow> sql_dialect \<Rightarrow> statement_kind" where
  "classify_one parse_sql sql dialect =
     (case parse_single parse_sql sql dialect of Some stmt \<Rightarrow> kind_of stmt | None \<Rightarrow> Unparsed)"

definition classify_script :: "'x sql_parser \<Rightarrow> string \<Rightarrow> sql_dialect \<Rightarrow> restore_statement list" where
  "classify_script parse_sql sql dialect =
     map (\<lambda>sql. \<lparr>rs_sql = sql, rs_kind = classify_one parse_sql sql dialect\<rparr>) (split_statements sql)"

section \<open>What cannot hide a keyword\<close>

text \<open>Text the scan skips: white space, line comments and block comments, in any order.\<close>

inductive skippable :: "string \<Rightarrow> bool" where
  skip_nothing: "skippable []"
| skip_blank: "is_whitespace c \<Longrightarrow> skippable g \<Longrightarrow> skippable (c # g)"
| skip_line: "NEWLINE \<notin> set body \<Longrightarrow> skippable g \<Longrightarrow> skippable (''--'' @ body @ NEWLINE # g)"
| skip_block: "\<not> sublist ''*/'' body \<Longrightarrow> skippable g \<Longrightarrow> skippable (''/*'' @ body @ ''*/'' @ g)"

lemma past_comment_body: "\<not> sublist ''*/'' body \<Longrightarrow> past_comment (body @ ''*/'' @ rest) = rest"
proof (induction body)
  case (Cons c body)
  then have "\<not> (c = CHR ''*'' \<and> get (body @ ''*/'' @ rest) 0 = Some (CHR ''/''))"
    by (cases body) (auto simp: sublist_Cons_right)
  with Cons show ?case by (auto simp: sublist_Cons_right)
qed simp

lemma leading_words_skip:
  "skippable g \<Longrightarrow> leading_words_from (g @ s) limit words = leading_words_from s limit words"
proof (induction g rule: skippable.induct)
  case (skip_blank c g)
  then show ?case
    by (subst leading_words_from.simps) (auto simp: leading_words_from.simps [of s])
next
  case (skip_line body g)
  have nl: "is_whitespace NEWLINE" by (simp add: is_whitespace_def code_point_def)
  have minus: "\<not> is_whitespace (CHR ''-'')" by (simp add: is_whitespace_def code_point_def)
  have stop: "dropWhile (\<lambda>c. c \<noteq> NEWLINE) (body @ NEWLINE # g @ s) = NEWLINE # g @ s"
    using skip_line by (subst dropWhile_append2) auto
  show ?case
  proof (cases "length words < limit")
    case True
    then have "leading_words_from ((''--'' @ body @ NEWLINE # g) @ s) limit words =
        leading_words_from (NEWLINE # g @ s) limit words"
      by (subst leading_words_from.simps) (simp add: minus stop)
    also have "\<dots> = leading_words_from (g @ s) limit words"
      using True by (subst leading_words_from.simps) (simp add: nl)
    finally show ?thesis using skip_line by simp
  next
    case False
    then show ?thesis by (simp add: leading_words_from.simps)
  qed
next
  case (skip_block body g)
  have slash: "\<not> is_whitespace (CHR ''/'')" by (simp add: is_whitespace_def code_point_def)
  show ?case
  proof (cases "length words < limit")
    case True
    then have "leading_words_from ((''/*'' @ body @ ''*/'' @ g) @ s) limit words =
        leading_words_from (g @ s) limit words"
      using past_comment_body [OF skip_block(1), of "g @ s"]
      by (subst leading_words_from.simps) (simp add: slash)
    then show ?thesis using skip_block by simp
  next
    case False
    then show ?thesis by (simp add: leading_words_from.simps)
  qed
qed simp

lemma permanently_closed_prefix_skip:
  "skippable g \<Longrightarrow> permanently_closed_prefix (g @ s) = permanently_closed_prefix s"
  by (simp add: permanently_closed_prefix_def leading_words_def leading_words_skip)

text \<open>A word at the front is the first word, whatever follows it.\<close>

definition word_at :: "string \<Rightarrow> string \<Rightarrow> bool" where
  "word_at w rest \<longleftrightarrow> w \<noteq> [] \<and> is_alphabetic (hd w) \<and> (\<forall>c\<in>set w. is_alphanumeric c) \<and>
     (rest = [] \<or> \<not> is_alphanumeric (hd rest))"

lemma alphabetic_not_space: "is_alphabetic c \<Longrightarrow> \<not> is_whitespace c \<and> c \<noteq> CHR ''-'' \<and> c \<noteq> CHR ''/''"
  by (auto simp: char_class_defs)

lemma leading_words_word:
  assumes "word_at w rest" "length words < limit"
  shows "leading_words_from (w @ rest) limit words =
    leading_words_from rest limit (words @ [to_uppercase w])"
proof -
  have "takeWhile is_alphanumeric (w @ rest) = w" "dropWhile is_alphanumeric (w @ rest) = rest"
    using assms by (cases rest; auto simp: word_at_def)+
  moreover have "hd (w @ rest) = hd w" "w @ rest \<noteq> []" using assms by (auto simp: word_at_def)
  ultimately show ?thesis
    using assms alphabetic_not_space [of "hd w"]
    by (subst leading_words_from.simps) (simp add: word_at_def)
qed

lemma leading_words_prefix: "\<exists>more. leading_words_from rest limit words = words @ more"
proof (induction rest limit words rule: leading_words_from.induct)
  case (1 rest limit words)
  then show ?case
    by (subst leading_words_from.simps) (auto simp: Let_def)
qed

lemma leading_words_first:
  "word_at w rest \<Longrightarrow> \<exists>more. leading_words (w @ rest) 2 = to_uppercase w # more"
  using leading_words_word [of w rest "[]" 2] leading_words_prefix [of rest 2 "[to_uppercase w]"]
  by (auto simp: leading_words_def)

definition closed_keyword :: "string \<Rightarrow> bool" where
  "closed_keyword w \<longleftrightarrow> to_uppercase w \<in> {''GRANT'', ''REVOKE'', ''DENY'', ''TRUNCATE'', ''DROP''}"

lemma closed_keyword_refused:
  "word_at w rest \<Longrightarrow> closed_keyword w \<Longrightarrow> permanently_closed_prefix (w @ rest) \<noteq> None"
  using leading_words_first [of w rest]
  by (auto simp: permanently_closed_prefix_def closed_keyword_def Let_def)

lemma classify_write_Inr:
  "classify_write parse_sql sql dialect = Inr k \<longleftrightarrow> permanently_closed_prefix sql = None \<and>
    (\<exists>st. parse_sql dialect sql = Inr [st] \<and> wp_check_statement st = Inr k)"
  by (auto simp: classify_write_def split: option.splits sum.splits list.splits)

lemma permitted_statement: "wp_check_statement st = Inr k \<Longrightarrow>
    kind_of st \<noteq> Transaction_Control \<and> ro_check_statement st =
      Inl (Read_Only_Violation ''only read-only SELECT / WITH / EXPLAIN statements are allowed'')"
  by (cases st) (simp_all add: wp_check_statement_def kind_of_def)

section \<open>Properties\<close>



lemma check_query_payload:
  fixes q :: "'x query" and qs :: "'x query list" and b :: "'x set_expr" and f :: "'x \<Rightarrow> 'y"
  shows "check_query (map_query f q) = check_query q"
    and "check_ctes (map (map_query f) qs) = check_ctes qs"
    and "check_set_expr (map_set_expr f b) = check_set_expr b"
  by (induction q and qs and b rule: check_query_check_ctes_check_set_expr.induct)
    (auto split: option.splits)

lemma ro_check_statement_payload: "ro_check_statement (map_statement f st) = ro_check_statement st"
  by (induction st) (auto simp: check_query_payload)

text \<open>
  The read-only verdict does not depend on what is inside a SELECT, VALUES or TABLE body: two
  parsers whose trees differ only there give the same verdict. So an INTO target or a locking
  clause inside a derived table of a SELECT is never seen.
\<close>

theorem read_only_ignores_select_payload:
  "classify_read_only (\<lambda>d s. rmap (map (map_statement f)) (parse_sql d s)) sql dialect =
   classify_read_only parse_sql sql dialect"
  by (cases "parse_sql dialect sql")
    (auto simp: classify_read_only_def ro_parse_def ro_check_statement_payload split: list.splits)

text \<open>
  A write that an agent may run is never accepted as a read, and never labelled as transaction
  control by a restore, under the same parser and dialect.
\<close>

theorem permitted_write_is_no_read:
  assumes "classify_write parse_sql sql dialect = Inr k"
  shows "\<not> is_single_read_only_statement parse_sql sql dialect \<and>
    classify_one parse_sql sql dialect \<notin> {Transaction_Control, Unparsed}"
proof -
  from assms obtain st where st: "parse_sql dialect sql = Inr [st]" "wp_check_statement st = Inr k"
    by (auto simp: classify_write_Inr)
  moreover have "kind_of st \<noteq> Unparsed" by (cases st) (simp_all add: kind_of_def)
  ultimately show ?thesis
    using permitted_statement [OF st(2)]
    by (auto simp: is_single_read_only_statement_def check_read_only_def is_ok_iff
        classify_read_only_Inr classify_one_def parse_single_def)
qed

theorem permitted_write_is_no_read_witness:
  "classify_write (\<lambda>d s. Inr [Merge_Statement ()]) ''MERGE INTO t'' Postgres = Inr Data_Write \<and>
   \<not> is_single_read_only_statement (\<lambda>d s. Inr [Merge_Statement ()]) ''MERGE INTO t'' Postgres"
proof -
  have "classify_write (\<lambda>d s. Inr [Merge_Statement ()]) ''MERGE INTO t'' Postgres = Inr Data_Write"
    by code_simp
  from this permitted_write_is_no_read [OF this] show ?thesis by blast
qed

text \<open>
  C12. GRANT, REVOKE, DENY, TRUNCATE and DROP in any letter case, behind any white space, line and
  block comments, are refused permanently whatever the parser makes of the text.
\<close>

theorem comments_hide_no_closed_keyword:
  assumes "skippable g" "word_at w rest" "closed_keyword w"
  shows "\<exists>v. classify_write parse_sql (g @ w @ rest) dialect = Inl v \<and> wp_permanent v"
  using permanently_closed_prefix_skip [OF assms(1), of "w @ rest"]
    closed_keyword_refused [OF assms(2,3)]
  by (auto simp: classify_write_def wp_closed_def)

theorem comments_hide_no_closed_keyword_witness:
  "\<exists>v. classify_write (\<lambda>d s. Inr [Insert_Statement ()]) ''/* insert */ dRoP TABLE t'' MySql = Inl v \<and>
     wp_permanent v"
proof -
  have "skippable (''/*'' @ '' insert '' @ ''*/'' @ '' '')"
    by (intro skippable.intros) (simp_all add: sublist_code is_whitespace_def code_point_def)
  moreover have "word_at ''dRoP'' '' TABLE t''" "closed_keyword ''dRoP''" by code_simp+
  ultimately show ?thesis
    using comments_hide_no_closed_keyword [of "''/*'' @ '' insert '' @ ''*/'' @ '' ''" "''dRoP''" "'' TABLE t''"
        "\<lambda>d s. Inr [Insert_Statement ()]" MySql] by simp
qed

end
