(* ===== verification/Adapter.thy ===== *)
theory Adapter
  imports Sql_Policy
begin

text \<open>
  The contract every backend implements (\<open>dbboard-core/src/adapter.rs\<close>), the capability flags
  (\<open>capabilities/mod.rs\<close>) and keyset-paged browsing over it (\<open>browse.rs\<close>). A backend is a record
  of operations on a database state of type \<open>'d\<close>; each operation answers and leaves a new state.
\<close>

section \<open>Capabilities\<close>

record capabilities =
  has_views :: bool
  has_functions :: bool
  has_auth :: bool
  has_storage :: bool
  has_realtime :: bool
  has_describe_table :: bool
  has_table_ddl :: bool
  has_execute :: bool
  has_atomic_restore :: bool
  has_foreign_keys :: bool
  has_list_indexes :: bool
  has_list_databases :: bool
  has_history :: bool

definition capabilities_default :: capabilities where
  "capabilities_default = \<lparr>has_views = False, has_functions = False, has_auth = False,
     has_storage = False, has_realtime = False, has_describe_table = False, has_table_ddl = False,
     has_execute = False, has_atomic_restore = False, has_foreign_keys = False,
     has_list_indexes = False, has_list_databases = False, has_history = False\<rparr>"

section \<open>The adapter\<close>

type_synonym ('d, 'a) db_op = "'d \<Rightarrow> 'a db_result \<times> 'd"

record 'd adapter =
  ad_id :: string
  ad_capabilities :: capabilities
  ad_ping :: "('d, unit) db_op"
  ad_list_tables :: "('d, table_info list) db_op"
  ad_query :: "string \<Rightarrow> ('d, query_result) db_op"
  ad_query_read_only :: "string \<Rightarrow> nat \<Rightarrow> ('d, query_result) db_op"
  ad_describe_table :: "table_info \<Rightarrow> ('d, table_schema) db_op"
  ad_foreign_keys :: "table_info \<Rightarrow> ('d, foreign_key list) db_op"
  ad_table_ddl :: "table_info \<Rightarrow> ('d, string) db_op"
  ad_list_indexes :: "table_info \<Rightarrow> ('d, index_info list) db_op"
  ad_list_databases :: "('d, string list) db_op"
  ad_execute :: "string \<Rightarrow> ('d, u64) db_op"
  ad_execute_in_transaction :: "string list \<Rightarrow> ('d, unit) db_op"

definition unsupported :: "string \<Rightarrow> ('d, 'a) db_op" where
  "unsupported operation db = (Inl (Capability_Error (operation @ '' not supported by this adapter'')), db)"

definition default_query_read_only ::
    "'x sql_parser \<Rightarrow> (string \<Rightarrow> ('d, query_result) db_op) \<Rightarrow> string \<Rightarrow> nat \<Rightarrow> ('d, query_result) db_op" where
  "default_query_read_only parse_sql query sql max_rows db =
     (case check_read_only parse_sql sql Postgres of
        Inl violation \<Rightarrow> (Inl (db_error_of_read_only violation), db)
      | Inr _ \<Rightarrow>
          (case query sql db of
             (Inl e, db') \<Rightarrow> (Inl e, db')
           | (Inr result, db') \<Rightarrow> (Inr (truncate_rows max_rows result), db')))"

text \<open>An adapter that implements the required methods only.\<close>

definition adapter_defaults ::
    "'x sql_parser \<Rightarrow> string \<Rightarrow> capabilities \<Rightarrow> ('d, unit) db_op \<Rightarrow> ('d, table_info list) db_op \<Rightarrow>
     (string \<Rightarrow> ('d, query_result) db_op) \<Rightarrow> 'd adapter" where
  "adapter_defaults parse_sql ident caps ping list_tables query =
     \<lparr>ad_id = ident, ad_capabilities = caps, ad_ping = ping, ad_list_tables = list_tables,
      ad_query = query,
      ad_query_read_only = default_query_read_only parse_sql query,
      ad_describe_table = (\<lambda>_. unsupported ''describe_table''),
      ad_foreign_keys = (\<lambda>_. unsupported ''foreign_keys''),
      ad_table_ddl = (\<lambda>_. unsupported ''table_ddl''),
      ad_list_indexes = (\<lambda>_. unsupported ''list_indexes''),
      ad_list_databases = unsupported ''list_databases'',
      ad_execute = (\<lambda>_. unsupported ''execute''),
      ad_execute_in_transaction = (\<lambda>_. unsupported ''execute_in_transaction'')\<rparr>"

lemma check_read_only_ok:
  "check_read_only parse_sql sql dialect = Inr () \<longleftrightarrow> (\<exists>k. classify_read_only parse_sql sql dialect = Inr k)"
  by (auto simp: check_read_only_def)

section \<open>Keyset sources\<close>

text \<open>
  What paging relies on: with the rows of a table in key order, the page query answers a bounded
  prefix, and after the key of the row at index \<open>i\<close> a bounded prefix of what follows it. This
  is what the engine does with the \<open>WHERE (key) > (cursor) ORDER BY key LIMIT n\<close> it is given.
\<close>

definition page_result :: "column list \<Rightarrow> row list \<Rightarrow> query_result" where
  "page_result columns rows = query_result_empty\<lparr>qr_columns := columns, qr_rows := rows\<rparr>"

definition serves_keyset ::
    "(json \<Rightarrow> string) \<Rightarrow> (string \<Rightarrow> ('d, query_result) db_op) \<Rightarrow> sql_dialect \<Rightarrow> table_info \<Rightarrow>
     string list \<Rightarrow> nat \<Rightarrow> column list \<Rightarrow> row list \<Rightarrow> 'd \<Rightarrow> bool" where
  "serves_keyset json_text run dialect table keys limit columns full db \<longleftrightarrow>
     run (build_select_page json_text table keys dialect limit None) db
       = (Inr (page_result columns (take limit full)), db) \<and>
     (\<forall>i < length full. \<forall>cursor.
        cursor_values (full ! i) (map col_name columns) keys = Some cursor \<longrightarrow>
        run (build_select_page json_text table keys dialect limit (Some cursor)) db
          = (Inr (page_result columns (take limit (drop (Suc i) full))), db))"

lemma serves_keyset_code:
  "serves_keyset json_text run dialect table keys limit columns full db \<longleftrightarrow>
     run (build_select_page json_text table keys dialect limit None) db
       = (Inr (page_result columns (take limit full)), db) \<and>
     list_all (\<lambda>i. case cursor_values (full ! i) (map col_name columns) keys of
         None \<Rightarrow> True
       | Some cursor \<Rightarrow> run (build_select_page json_text table keys dialect limit (Some cursor)) db
           = (Inr (page_result columns (take limit (drop (Suc i) full))), db)) [0..<length full]"
  by (auto simp: serves_keyset_def list_all_iff split: option.splits)

text \<open>The rows already read, and where the next page starts.\<close>

definition page_start :: "column list \<Rightarrow> string list \<Rightarrow> row list \<Rightarrow> val list option \<Rightarrow> nat \<Rightarrow> bool" where
  "page_start columns keys full after start \<longleftrightarrow>
     (case after of
        None \<Rightarrow> start = 0
      | Some cursor \<Rightarrow> 0 < start \<and> start \<le> length full \<and>
          cursor_values (full ! (start - 1)) (map col_name columns) keys = Some cursor)"

lemma serves_keyset_page:
  assumes "serves_keyset json_text run dialect table keys limit columns full db"
    "page_start columns keys full after start"
  shows "run (build_select_page json_text table keys dialect limit after) db
    = (Inr (page_result columns (take limit (drop start full))), db)"
  using assms
  by (cases after) (auto simp: serves_keyset_def page_start_def Suc_le_eq dest!: spec [of _ "start - 1"])

lemma page_result_simps [simp]:
  "qr_rows (page_result columns rows) = rows"
  "qr_columns (page_result columns rows) = columns"
  by (simp_all add: page_result_def)

definition keyed_rows :: "column list \<Rightarrow> string list \<Rightarrow> row list \<Rightarrow> bool" where
  "keyed_rows columns keys full \<longleftrightarrow> keys \<noteq> [] \<and> set keys \<subseteq> set (map col_name columns) \<and>
     (\<forall>r\<in>set full. length r = length columns)"

lemma page_start_next:
  assumes "keyed_rows columns keys full" "0 < n" "start + n \<le> length full"
  shows "\<exists>cursor. cursor_from_last_row (take n (drop start full)) (map col_name columns) keys = Some cursor \<and>
    page_start columns keys full (Some cursor) (start + n)"
proof -
  let ?rows = "take n (drop start full)"
  have len: "length ?rows = n" using assms(3) by simp
  then have rows: "?rows \<noteq> []" using assms(2) by auto
  with len assms have last: "last ?rows = full ! (start + n - 1)" by (simp add: last_conv_nth)
  have "last ?rows \<in> set full"
    using rows by (meson in_set_dropD in_set_takeD last_in_set)
  then have "cursor_from_last_row ?rows (map col_name columns) keys \<noteq> None"
    using assms(1) by (intro cursor_from_last_row_complete [OF rows]) (auto simp: keyed_rows_def)
  then obtain cursor where "cursor_from_last_row ?rows (map col_name columns) keys = Some cursor" by blast
  moreover from this have "cursor_values (full ! (start + n - 1)) (map col_name columns) keys = Some cursor"
    using rows last by (simp add: cursor_from_last_row_def)
  ultimately show ?thesis using assms by (auto simp: page_start_def)
qed

section \<open>Browsing\<close>

definition clamp_page :: "nat \<Rightarrow> nat" where
  "clamp_page page_rows = max 1 (min page_rows (MAX_RESULT_ROWS - 1))"

definition browse_page ::
    "(json \<Rightarrow> string) \<Rightarrow> 'd adapter \<Rightarrow> sql_dialect \<Rightarrow> table_info \<Rightarrow> string list \<Rightarrow> nat \<Rightarrow>
     val list option \<Rightarrow> ('d, query_result) db_op" where
  "browse_page json_text adapter dialect table key_columns page_rows after db =
     (let page_rows = clamp_page page_rows;
          probe = page_rows + 1;
          sql = build_select_page json_text table key_columns dialect probe after
      in case ad_query_read_only adapter sql probe db of
           (Inl e, db') \<Rightarrow> (Inl e, db')
         | (Inr result, db') \<Rightarrow>
             (let has_more = page_rows < length (qr_rows result);
                  result = truncate_rows page_rows result;
                  next_cursor = (if has_more \<and> key_columns \<noteq> []
                    then cursor_from_last_row (qr_rows result) (column_names result) key_columns
                    else None)
              in (Inr (result\<lparr>qr_has_more := has_more, qr_next_cursor := next_cursor\<rparr>), db')))"

lemma clamp_page_bounds: "0 < clamp_page n" "clamp_page n < MAX_RESULT_ROWS"
  by (simp_all add: clamp_page_def MAX_RESULT_ROWS_def)

section \<open>Properties\<close>

text \<open>
  The read-only path an adapter gets by default refuses, without touching the database, every
  text that is not one read-only statement; what it lets through it answers with at most the
  requested number of rows, the first rows of the plain query path.
\<close>

theorem default_read_only_path:
  "ad_query_read_only (adapter_defaults parse_sql ident caps ping tables query) sql max_rows db =
     (if is_single_read_only_statement parse_sql sql Postgres
      then (rmap (truncate_rows max_rows) (fst (query sql db)), snd (query sql db))
      else (Inl (Query_Error (read_only_display
        (case check_read_only parse_sql sql Postgres of Inl v \<Rightarrow> v))), db))"
  by (cases "query sql db"; cases "fst (query sql db)"; cases "check_read_only parse_sql sql Postgres")
    (auto simp: adapter_defaults_def default_query_read_only_def is_single_read_only_statement_def
      db_error_of_read_only_def)

text \<open>
  C14. Browsing a table with a key: against a keyset source, the page after the row at index
  \<open>start - 1\<close> holds exactly the next rows, at most the clamped page size; it says there is more
  exactly when rows are left; and then its cursor is the one after which the next page starts
  where this one ended, so following the cursors reads every row once and in order.
\<close>

theorem browse_page_next:
  assumes "serves_keyset json_text (\<lambda>sql. ad_query_read_only adapter sql (clamp_page n + 1)) dialect
      table keys (clamp_page n + 1) columns full db"
    and "keyed_rows columns keys full" "page_start columns keys full after start" "start \<le> length full"
  shows "\<exists>r. browse_page json_text adapter dialect table keys n after db = (Inr r, db) \<and>
    qr_rows r = take (clamp_page n) (drop start full) \<and>
    (qr_has_more r \<longleftrightarrow> start + clamp_page n < length full) \<and>
    (if qr_has_more r
     then \<exists>cursor. qr_next_cursor r = Some cursor \<and>
       page_start columns keys full (Some cursor) (start + clamp_page n)
     else qr_next_cursor r = None)"
proof -
  note page = serves_keyset_page [OF assms(1,3)]
  let ?rows = "take (clamp_page n) (drop start full)"
  let ?more = "start + clamp_page n < length full"
  let ?next = "if ?more \<and> keys \<noteq> [] then cursor_from_last_row ?rows (map col_name columns) keys else None"
  let ?r = "(page_result columns ?rows)\<lparr>qr_has_more := ?more, qr_next_cursor := ?next\<rparr>"
  have more: "clamp_page n < length (take (clamp_page n + 1) (drop start full)) \<longleftrightarrow> ?more"
    using assms(4) by (auto simp: min_def)
  have cut: "truncate_rows (clamp_page n) (page_result columns (take (clamp_page n + 1) (drop start full)))
      = page_result columns ?rows"
    by (simp add: truncate_rows_def page_result_def)
  have "browse_page json_text adapter dialect table keys n after db = (Inr ?r, db)"
    unfolding browse_page_def Let_def page
    by (simp only: prod.case sum.case page_result_simps more cut column_names_def)
  moreover have "?more \<Longrightarrow> \<exists>cursor. ?next = Some cursor \<and>
      page_start columns keys full (Some cursor) (start + clamp_page n)"
    using page_start_next [OF assms(2) clamp_page_bounds(1), of start n] assms(2)
    by (auto simp: keyed_rows_def)
  ultimately show ?thesis by (intro exI [of _ ?r]) auto
qed

definition sample_columns :: "column list" where
  "sample_columns = [\<lparr>col_name = ''id'', col_declared_type = None\<rparr>]"

definition sample_rows :: "row list" where
  "sample_rows = [[Integer 1], [Integer 2], [Integer 3]]"

definition sample_source :: "nat \<Rightarrow> string \<Rightarrow> (unit, query_result) db_op" where
  "sample_source limit sql db =
     (let page = build_select_page (\<lambda>_. []) (table_unqualified ''t'') [''id''] Sqlite limit;
          rows = (if sql = page None then sample_rows
            else if sql = page (Some [Integer 1]) then drop 1 sample_rows
            else if sql = page (Some [Integer 2]) then drop 2 sample_rows else [])
      in (Inr (page_result sample_columns (take limit rows)), db))"

definition sample_adapter :: "unit adapter" where
  "sample_adapter = (adapter_defaults (\<lambda>d s. Inl [] :: string + unit statement list) ''turso''
      capabilities_default (\<lambda>db. (Inr (), db)) (\<lambda>db. (Inr [table_unqualified ''t''], db))
      (sample_source READ_PAGE_ROWS))\<lparr>ad_query_read_only := \<lambda>sql limit. sample_source limit sql\<rparr>"

lemma sample_source_serves:
  "serves_keyset (\<lambda>_. []) (sample_source limit) Sqlite (table_unqualified ''t'') [''id''] limit
     sample_columns sample_rows ()"
proof -
  have lits: "show_int 1 = ''1''" "show_int 2 = ''2''" "show_int 3 = ''3''" by code_simp+
  show ?thesis
    unfolding serves_keyset_code
    by (simp add: sample_rows_def sample_columns_def upt_rec get_def sample_source_def
        build_select_page_def Let_def lits)
qed

theorem browse_page_next_witness:
  "\<exists>r. browse_page (\<lambda>_. []) sample_adapter Sqlite (table_unqualified ''t'') [''id''] 2
       (Some [Integer 1]) () = (Inr r, ()) \<and>
     qr_rows r = [[Integer 2], [Integer 3]] \<and> \<not> qr_has_more r"
proof -
  have clamp: "clamp_page 2 = 2" by (simp add: clamp_page_def MAX_RESULT_ROWS_def)
  have "(\<lambda>sql. ad_query_read_only sample_adapter sql 3) = sample_source 3"
    by (simp add: sample_adapter_def)
  then show ?thesis
    using sample_source_serves [of 3]
      browse_page_next [of "\<lambda>_. []" sample_adapter 2 Sqlite "table_unqualified ''t''" "[''id'']"
        sample_columns sample_rows "()" "Some [Integer 1]" 1]
    by (simp add: keyed_rows_def sample_columns_def sample_rows_def page_start_def clamp get_def) blast
qed

end
