(* ===== verification/Dump_Run.thy ===== *)
theory Dump_Run
  imports Adapter
begin

text \<open>
  The dump orchestrator (\<open>dbboard-core/src/dump/run.rs\<close>). What the run touches is one state: the
  database behind the adapter, the chunks the sink has accepted, the number of cancellation
  polls, the progress reports and the outcome the source passes by mutable reference. How the
  sink and the cancel flag behave is given by \<open>dump_ports\<close>. The paging loop takes fuel, because
  a database that keeps answering full pages never ends it.
\<close>

section \<open>State\<close>

record dump_progress =
  dp_tables_total :: nat
  dp_tables_done :: nat
  dp_rows_total :: u64
  dp_rows_done :: u64
  dp_current_table :: "string option"

record table_failure =
  tf_table :: string
  tf_message :: string

record table_truncation =
  tt_table :: string
  tt_rows_written :: u64

record dump_outcome =
  do_tables_dumped :: nat
  do_rows_written :: u64
  do_failures :: "table_failure list"
  do_truncations :: "table_truncation list"
  do_cancelled :: bool

definition dump_outcome_default :: dump_outcome where
  "dump_outcome_default = \<lparr>do_tables_dumped = 0, do_rows_written = 0, do_failures = [],
     do_truncations = [], do_cancelled = False\<rparr>"

datatype dump_error = Sink string

fun dump_error_display :: "dump_error \<Rightarrow> string" where
  "dump_error_display (Sink m) = ''dump output failed: '' @ m"

datatype dump_halt = Dump_Error dump_error | Out_Of_Fuel

datatype table_flow = Completed | Failed | Cancelled

record dump_ports =
  sink_error :: "string list \<Rightarrow> string \<Rightarrow> string option"
  cancel_at :: "nat \<Rightarrow> bool"

record 'd dump_state =
  ds_db :: 'd
  ds_sink :: "string list"
  ds_polls :: nat
  ds_reports :: "dump_progress list"
  ds_outcome :: dump_outcome

type_synonym ('d, 'a) dump_step = "'d dump_state \<Rightarrow> (dump_halt + 'a) \<times> 'd dump_state"

definition dump_bind :: "('d, 'a) dump_step \<Rightarrow> ('a \<Rightarrow> ('d, 'b) dump_step) \<Rightarrow> ('d, 'b) dump_step" where
  "dump_bind m f s = (case m s of (Inl halt, s') \<Rightarrow> (Inl halt, s') | (Inr x, s') \<Rightarrow> f x s')"

definition write_str :: "dump_ports \<Rightarrow> string \<Rightarrow> ('d, unit) dump_step" where
  "write_str ports chunk s =
     (case sink_error ports (ds_sink s) chunk of
        Some m \<Rightarrow> (Inl (Dump_Error (Sink m)), s)
      | None \<Rightarrow> (Inr (), s\<lparr>ds_sink := ds_sink s @ [chunk]\<rparr>))"

definition dump_is_cancelled :: "dump_ports \<Rightarrow> 'd dump_state \<Rightarrow> bool \<times> 'd dump_state" where
  "dump_is_cancelled ports s = (cancel_at ports (ds_polls s), s\<lparr>ds_polls := ds_polls s + 1\<rparr>)"

definition dump_report ::
    "nat \<Rightarrow> nat \<Rightarrow> u64 \<Rightarrow> table_info option \<Rightarrow> 'd dump_state \<Rightarrow> 'd dump_state" where
  "dump_report tables_total tables_done rows_total current_table s =
     s\<lparr>ds_reports := ds_reports s @ [\<lparr>dp_tables_total = tables_total, dp_tables_done = tables_done,
       dp_rows_total = rows_total, dp_rows_done = do_rows_written (ds_outcome s),
       dp_current_table = map_option display_name current_table\<rparr>]\<rparr>"

definition fail_table :: "string \<Rightarrow> string \<Rightarrow> 'd dump_state \<Rightarrow> 'd dump_state" where
  "fail_table name message s = s\<lparr>ds_outcome := (ds_outcome s)\<lparr>do_failures :=
     do_failures (ds_outcome s) @ [\<lparr>tf_table = name, tf_message = message\<rparr>]\<rparr>\<rparr>"

section \<open>One table\<close>

fun write_inserts ::
    "(json \<Rightarrow> string) \<Rightarrow> dump_ports \<Rightarrow> table_info \<Rightarrow> string list \<Rightarrow> sql_dialect \<Rightarrow>
     row list list \<Rightarrow> ('d, unit) dump_step" where
  "write_inserts json_text ports table columns dialect [] s = (Inr (), s)"
| "write_inserts json_text ports table columns dialect (batch # batches) s =
     (case build_insert json_text table columns batch dialect of
        Some statement \<Rightarrow>
          dump_bind (write_str ports statement) (\<lambda>_.
          dump_bind (write_str ports [NEWLINE]) (\<lambda>_.
            write_inserts json_text ports table columns dialect batches)) s
      | None \<Rightarrow> write_inserts json_text ports table columns dialect batches s)"

text \<open>One turn of the paging loop ends the table or leaves the cursor of the next page.\<close>

datatype page_end = Table_Done table_flow | Next_Page "val list"

definition end_of_page ::
    "table_info \<Rightarrow> string list \<Rightarrow> query_result \<Rightarrow> ('d, page_end) dump_step" where
  "end_of_page table key_columns result s =
     (let page_len = length (qr_rows result);
          s = s\<lparr>ds_outcome := (ds_outcome s)\<lparr>do_rows_written :=
            u64_saturating_add (do_rows_written (ds_outcome s)) (of_nat page_len)\<rparr>\<rparr>
      in if key_columns = [] then
           (Inr (Table_Done Completed),
            if READ_PAGE_ROWS \<le> page_len
            then s\<lparr>ds_outcome := (ds_outcome s)\<lparr>do_truncations :=
              do_truncations (ds_outcome s) @
              [\<lparr>tt_table = display_name table, tt_rows_written = of_nat page_len\<rparr>]\<rparr>\<rparr>
            else s)
         else if page_len < READ_PAGE_ROWS then (Inr (Table_Done Completed), s)
         else
           (case cursor_from_last_row (qr_rows result) (column_names result) key_columns of
              None \<Rightarrow> (Inr (Table_Done Failed), fail_table (display_name table)
                ''primary-key column missing from result set'' s)
            | Some next \<Rightarrow> (Inr (Next_Page next), s)))"

definition dump_page ::
    "(json \<Rightarrow> string) \<Rightarrow> 'd adapter \<Rightarrow> dump_ports \<Rightarrow> sql_dialect \<Rightarrow> table_info \<Rightarrow>
     string list \<Rightarrow> val list option \<Rightarrow> ('d, page_end) dump_step" where
  "dump_page json_text adapter ports dialect table key_columns cursor s =
     (case dump_is_cancelled ports s of
        (True, s) \<Rightarrow> (Inr (Table_Done Cancelled), s)
      | (False, s) \<Rightarrow>
          (case ad_query adapter
              (build_select_page json_text table key_columns dialect READ_PAGE_ROWS cursor) (ds_db s) of
             (Inl e, db) \<Rightarrow> (Inr (Table_Done Failed),
               fail_table (display_name table) (db_error_message e) (s\<lparr>ds_db := db\<rparr>))
           | (Inr result, db) \<Rightarrow>
               (if qr_rows result = [] then (Inr (Table_Done Completed), s\<lparr>ds_db := db\<rparr>)
                else
                  dump_bind (write_inserts json_text ports table (column_names result) dialect
                      (chunks INSERT_BATCH_ROWS (qr_rows result)))
                    (\<lambda>_. end_of_page table key_columns result) (s\<lparr>ds_db := db\<rparr>))))"

fun dump_table_data ::
    "nat \<Rightarrow> (json \<Rightarrow> string) \<Rightarrow> 'd adapter \<Rightarrow> dump_ports \<Rightarrow> sql_dialect \<Rightarrow> table_info \<Rightarrow>
     string list \<Rightarrow> val list option \<Rightarrow> ('d, table_flow) dump_step" where
  "dump_table_data 0 json_text adapter ports dialect table key_columns cursor s = (Inl Out_Of_Fuel, s)"
| "dump_table_data (Suc fuel) json_text adapter ports dialect table key_columns cursor s =
     dump_bind (dump_page json_text adapter ports dialect table key_columns cursor)
       (\<lambda>page s. case page of
          Table_Done flow \<Rightarrow> (Inr flow, s)
        | Next_Page next \<Rightarrow>
            dump_table_data fuel json_text adapter ports dialect table key_columns (Some next) s) s"

definition write_ddl :: "dump_ports \<Rightarrow> string \<Rightarrow> string \<Rightarrow> ('d, unit) dump_step" where
  "write_ddl ports name ddl =
     dump_bind (write_str ports ([NEWLINE] @ ''-- '' @ name @ [NEWLINE])) (\<lambda>_.
     dump_bind (write_str ports ddl) (\<lambda>_ s.
       if \<not> ends_with_char ddl NEWLINE then write_str ports [NEWLINE] s else (Inr (), s)))"

text \<open>The two guarded adapter calls; \<open>Inr (Inl ())\<close> is the early return of a failed table.\<close>

definition dump_table_ddl ::
    "'d adapter \<Rightarrow> dump_ports \<Rightarrow> table_info \<Rightarrow> ('d, bool) dump_step" where
  "dump_table_ddl adapter ports table s =
     (if has_table_ddl (ad_capabilities adapter) then
        (case ad_table_ddl adapter table (ds_db s) of
           (Inr ddl, db) \<Rightarrow>
             dump_bind (write_ddl ports (display_name table) ddl) (\<lambda>_ s. (Inr True, s)) (s\<lparr>ds_db := db\<rparr>)
         | (Inl e, db) \<Rightarrow>
             (Inr False, fail_table (display_name table) (db_error_message e) (s\<lparr>ds_db := db\<rparr>)))
      else (Inr True, s))"

definition dump_key_columns ::
    "'d adapter \<Rightarrow> table_info \<Rightarrow> ('d, string list option) dump_step" where
  "dump_key_columns adapter table s =
     (if has_describe_table (ad_capabilities adapter) then
        (case ad_describe_table adapter table (ds_db s) of
           (Inr schema, db) \<Rightarrow> (Inr (Some (ts_primary_key schema)), s\<lparr>ds_db := db\<rparr>)
         | (Inl e, db) \<Rightarrow>
             (Inr None, fail_table (display_name table) (db_error_message e) (s\<lparr>ds_db := db\<rparr>)))
      else (Inr (Some []), s))"

definition dump_one_table ::
    "nat \<Rightarrow> (json \<Rightarrow> string) \<Rightarrow> 'd adapter \<Rightarrow> dump_ports \<Rightarrow> sql_dialect \<Rightarrow> table_info \<Rightarrow>
     ('d, table_flow) dump_step" where
  "dump_one_table fuel json_text adapter ports dialect table =
     dump_bind (dump_table_ddl adapter ports table) (\<lambda>go s.
       if \<not> go then (Inr Failed, s)
       else dump_bind (dump_key_columns adapter table) (\<lambda>keys s.
         case keys of
           None \<Rightarrow> (Inr Failed, s)
         | Some key_columns \<Rightarrow>
             dump_table_data fuel json_text adapter ports dialect table key_columns None s) s)"

section \<open>The run\<close>

definition dump_header :: "sql_dialect \<Rightarrow> string" where
  "dump_header dialect = ''-- dbboard logical dump ('' @
     (case dialect of Sqlite \<Rightarrow> ''sqlite'' | Postgres \<Rightarrow> ''postgres'' | MySql \<Rightarrow> ''mysql'')
     @ '')'' @ [NEWLINE]"

definition set_cancelled :: "'d dump_state \<Rightarrow> 'd dump_state" where
  "set_cancelled s = s\<lparr>ds_outcome := (ds_outcome s)\<lparr>do_cancelled := True\<rparr>\<rparr>"

definition count_dumped :: "'d dump_state \<Rightarrow> 'd dump_state" where
  "count_dumped s = s\<lparr>ds_outcome := (ds_outcome s)\<lparr>do_tables_dumped :=
     do_tables_dumped (ds_outcome s) + 1\<rparr>\<rparr>"

fun dump_tables ::
    "nat \<Rightarrow> (json \<Rightarrow> string) \<Rightarrow> 'd adapter \<Rightarrow> dump_ports \<Rightarrow> sql_dialect \<Rightarrow> nat \<Rightarrow> u64 \<Rightarrow>
     nat \<Rightarrow> table_plan list \<Rightarrow> ('d, unit) dump_step" where
  "dump_tables fuel json_text adapter ports dialect tables_total rows_total index [] s = (Inr (), s)"
| "dump_tables fuel json_text adapter ports dialect tables_total rows_total index (plan # plans) s =
     (case dump_is_cancelled ports s of
        (True, s) \<Rightarrow> (Inr (), set_cancelled s)
      | (False, s) \<Rightarrow>
          dump_bind (dump_one_table fuel json_text adapter ports dialect (tp_table plan))
            (\<lambda>flow s. case flow of
               Completed \<Rightarrow> dump_tables fuel json_text adapter ports dialect tables_total rows_total
                 (index + 1) plans (count_dumped s)
             | Failed \<Rightarrow> dump_tables fuel json_text adapter ports dialect tables_total rows_total
                 (index + 1) plans s
             | Cancelled \<Rightarrow> (Inr (), set_cancelled s))
            (dump_report tables_total index rows_total (Some (tp_table plan)) s))"

definition run_dump ::
    "nat \<Rightarrow> (json \<Rightarrow> string) \<Rightarrow> 'd adapter \<Rightarrow> dump_ports \<Rightarrow> sql_dialect \<Rightarrow> dump_plan \<Rightarrow>
     ('d, dump_outcome) dump_step" where
  "run_dump fuel json_text adapter ports dialect plan s =
     dump_bind (write_str ports (dump_header dialect)) (\<lambda>_.
     dump_bind (dump_tables fuel json_text adapter ports dialect (length plan) (total_rows plan) 0 plan)
       (\<lambda>_ s. let s = dump_report (length plan) (length plan) (total_rows plan) None s
              in (Inr (ds_outcome s), s)))
     (s\<lparr>ds_outcome := dump_outcome_default\<rparr>)"

section \<open>Preflight\<close>

fun value_to_u64 :: "val \<Rightarrow> u64 option" where
  "value_to_u64 (Integer n) = (if 0 \<le> sint n then Some n else None)"
| "value_to_u64 (Text s) = map_option of_nat (parse_u64 s)"
| "value_to_u64 _ = None"

definition count_rows :: "'d adapter \<Rightarrow> table_info \<Rightarrow> sql_dialect \<Rightarrow> 'd \<Rightarrow> u64 \<times> 'd" where
  "count_rows adapter table dialect db =
     (case ad_query adapter (build_count table dialect) db of
        (Inr result, db) \<Rightarrow>
          (case Option.bind (get (qr_rows result) 0) (\<lambda>r. Option.bind (get r 0) value_to_u64) of
             Some n \<Rightarrow> (n, db)
           | None \<Rightarrow> (0, db))
      | (Inl _, db) \<Rightarrow> (0, db))"

fun plan_tables :: "'d adapter \<Rightarrow> sql_dialect \<Rightarrow> table_info list \<Rightarrow> 'd \<Rightarrow> dump_plan \<times> 'd" where
  "plan_tables adapter dialect [] db = ([], db)"
| "plan_tables adapter dialect (table # tables) db =
     (let (count, db) = count_rows adapter table dialect db;
          (plans, db) = plan_tables adapter dialect tables db
      in (\<lparr>tp_table = table, tp_row_count = count\<rparr> # plans, db))"

definition plan_dump :: "'d adapter \<Rightarrow> sql_dialect \<Rightarrow> ('d, dump_plan) db_op" where
  "plan_dump adapter dialect db =
     (case ad_list_tables adapter db of
        (Inl e, db) \<Rightarrow> (Inl e, db)
      | (Inr tables, db) \<Rightarrow>
          (let (plans, db) = plan_tables adapter dialect tables db in (Inr plans, db)))"

end
