(* ===== verification/Dump_Proofs.thy ===== *)
theory Dump_Proofs
  imports Dump_Run
begin

text \<open>
  What a dump run guarantees: the accounting of tables, that a sink failure is the only fatal
  error, and that against a keyset source enough fuel dumps every row of every table, in order,
  as a script that splits back into the tables' DDL and inserts.
\<close>

section \<open>What a step may change\<close>

definition grows :: "'d dump_state \<Rightarrow> 'd dump_state \<Rightarrow> bool" where
  "grows s s' \<longleftrightarrow> (\<exists>new. ds_sink s' = ds_sink s @ new) \<and>
     do_tables_dumped (ds_outcome s') = do_tables_dumped (ds_outcome s) \<and>
     do_cancelled (ds_outcome s') = do_cancelled (ds_outcome s)"

definition same_failures :: "'d dump_state \<Rightarrow> 'd dump_state \<Rightarrow> bool" where
  "same_failures s s' \<longleftrightarrow> do_failures (ds_outcome s') = do_failures (ds_outcome s)"

definition one_failure :: "string \<Rightarrow> 'd dump_state \<Rightarrow> 'd dump_state \<Rightarrow> bool" where
  "one_failure name s s' \<longleftrightarrow> (\<exists>m. do_failures (ds_outcome s') =
     do_failures (ds_outcome s) @ [\<lparr>tf_table = name, tf_message = m\<rparr>])"

lemma grows_refl [simp]: "grows s s"
  by (simp add: grows_def)

lemma grows_trans: "grows s s' \<Longrightarrow> grows s' s'' \<Longrightarrow> grows s s''"
  by (auto simp: grows_def)

lemma same_failures_trans: "same_failures s s' \<Longrightarrow> same_failures s' s'' \<Longrightarrow> same_failures s s''"
  by (simp add: same_failures_def)

lemma same_one_failure: "same_failures s s' \<Longrightarrow> one_failure n s' s'' \<Longrightarrow> one_failure n s s''"
  by (simp add: same_failures_def one_failure_def)

text \<open>A step result is sound when only the sink makes it fail, and it grows the state.\<close>

definition sound_halt :: "dump_ports \<Rightarrow> dump_halt \<Rightarrow> bool" where
  "sound_halt ports h \<longleftrightarrow> h = Out_Of_Fuel \<or> (\<exists>m pre chunk. h = Dump_Error (Sink m) \<and> sink_error ports pre chunk = Some m)"

definition step_ok ::
    "dump_ports \<Rightarrow> 'd dump_state \<Rightarrow> (dump_halt + 'a) \<times> 'd dump_state \<Rightarrow> ('a \<Rightarrow> 'd dump_state \<Rightarrow> bool) \<Rightarrow> bool" where
  "step_ok ports s result Q \<longleftrightarrow> grows s (snd result) \<and>
     (case fst result of Inl h \<Rightarrow> sound_halt ports h | Inr x \<Rightarrow> Q x (snd result))"

lemma step_ok_bind:
  assumes "step_ok ports s (m s) P"
    "\<And>x s'. P x s' \<Longrightarrow> step_ok ports s' (f x s') (\<lambda>y s''. grows s s' \<longrightarrow> Q y s'')"
  shows "step_ok ports s (dump_bind m f s) Q"
proof (cases "m s")
  case (Pair r s')
  show ?thesis
  proof (cases r)
    case (Inl h)
    with assms(1) Pair show ?thesis by (simp add: dump_bind_def step_ok_def)
  next
    case (Inr x)
    with assms(1) Pair have "grows s s'" "P x s'" by (simp_all add: step_ok_def)
    with assms(2) [of x s'] show ?thesis
      by (auto simp: dump_bind_def step_ok_def Pair Inr intro: grows_trans split: sum.splits)
  qed
qed

lemma step_ok_mono: "step_ok ports s r P \<Longrightarrow> (\<And>x s'. P x s' \<Longrightarrow> Q x s') \<Longrightarrow> step_ok ports s r Q"
  by (auto simp: step_ok_def split: sum.splits)

lemma step_ok_return [simp]: "step_ok ports s (Inr x, s') Q \<longleftrightarrow> grows s s' \<and> Q x s'"
  by (simp add: step_ok_def)

lemma write_str_ok: "step_ok ports s (write_str ports chunk s) (\<lambda>_ s'. ds_outcome s' = ds_outcome s)"
  by (auto simp: step_ok_def write_str_def grows_def sound_halt_def split: option.split)

lemma write_inserts_ok:
  "step_ok ports s (write_inserts json_text ports table columns dialect batches s)
    (\<lambda>_ s'. ds_outcome s' = ds_outcome s)"
proof (induction batches arbitrary: s)
  case (Cons batch batches)
  show ?case
  proof (cases "build_insert json_text table columns batch dialect")
    case None
    then show ?thesis using Cons by simp
  next
    case (Some statement)
    have "step_ok ports s (dump_bind (write_str ports statement) (\<lambda>_.
        dump_bind (write_str ports [NEWLINE]) (\<lambda>_.
          write_inserts json_text ports table columns dialect batches)) s)
      (\<lambda>_ s'. ds_outcome s' = ds_outcome s)"
      by (intro step_ok_bind [OF write_str_ok] step_ok_mono [OF Cons.IH]) auto
    then show ?thesis using Some by simp
  qed
qed simp

definition flow_ok :: "table_info \<Rightarrow> 'd dump_state \<Rightarrow> table_flow \<Rightarrow> 'd dump_state \<Rightarrow> bool" where
  "flow_ok table s flow s' \<longleftrightarrow>
     (if flow = Failed then one_failure (display_name table) s s' else same_failures s s')"

lemma step_ok_start: "step_ok ports s1 r Q \<Longrightarrow> grows s s1 \<Longrightarrow> step_ok ports s r Q"
  by (auto simp: step_ok_def intro: grows_trans)

lemma flow_ok_start: "flow_ok table s1 flow s' \<Longrightarrow> same_failures s s1 \<Longrightarrow> flow_ok table s flow s'"
  by (auto simp: flow_ok_def same_failures_def one_failure_def)

lemma fail_table_ok [simp]:
  "grows s (fail_table name m s)" "one_failure name s (fail_table name m s)"
  by (simp_all add: grows_def one_failure_def fail_table_def)

definition page_ok :: "table_info \<Rightarrow> 'd dump_state \<Rightarrow> page_end \<Rightarrow> 'd dump_state \<Rightarrow> bool" where
  "page_ok table s page s' \<longleftrightarrow>
     (case page of Table_Done flow \<Rightarrow> flow_ok table s flow s' | Next_Page _ \<Rightarrow> same_failures s s')"

lemma page_ok_start: "same_failures s s1 \<Longrightarrow> page_ok table s1 page s' \<Longrightarrow> page_ok table s page s'"
  by (auto simp: page_ok_def intro: flow_ok_start same_failures_trans split: page_end.splits)

lemma end_of_page_ok: "step_ok ports s (end_of_page table keys result s) (page_ok table s)"
  by (auto simp: end_of_page_def Let_def page_ok_def flow_ok_def grows_def same_failures_def
      one_failure_def fail_table_def split: option.split)

lemma dump_page_ok:
  "step_ok ports s (dump_page json_text adapter ports dialect table keys cursor s) (page_ok table s)"
proof -
  define s0 where "s0 = s\<lparr>ds_polls := ds_polls s + 1\<rparr>"
  define sql where "sql = build_select_page json_text table keys dialect READ_PAGE_ROWS cursor"
  obtain r db where q: "ad_query adapter sql (ds_db s0) = (r, db)" by fastforce
  define s1 where "s1 = s0\<lparr>ds_db := db\<rparr>"
  have s1: "grows s s1" "same_failures s s1"
    by (simp_all add: s0_def s1_def grows_def same_failures_def)
  have stop: "step_ok ports s1 (Inr (Table_Done Failed), fail_table (display_name table) m s1)
      (page_ok table s1)" for m
    by (simp add: page_ok_def flow_ok_def)
  have rest: "step_ok ports s1 (dump_bind (write_inserts json_text ports table columns dialect batches)
      (\<lambda>_. end_of_page table keys result) s1) (page_ok table s1)" for columns batches result
  proof (rule step_ok_bind [OF write_inserts_ok])
    fix s' :: "'a dump_state" assume "ds_outcome s' = ds_outcome s1"
    then have "same_failures s1 s'" by (simp add: same_failures_def)
    then show "step_ok ports s' (end_of_page table keys result s')
        (\<lambda>y s''. grows s1 s' \<longrightarrow> page_ok table s1 y s'')"
      by (auto intro: step_ok_mono [OF end_of_page_ok] page_ok_start)
  qed
  have inner: "step_ok ports s1 (dump_page json_text adapter ports dialect table keys cursor s) (page_ok table s1)"
    if "\<not> cancel_at ports (ds_polls s)"
  proof -
    have polls: "dump_is_cancelled ports s = (False, s0)"
      using that by (simp add: dump_is_cancelled_def s0_def)
    show ?thesis
      unfolding dump_page_def polls prod.case bool.case sql_def [symmetric] q
      using stop rest
      by (cases r) (auto simp: page_ok_def flow_ok_def same_failures_def simp flip: s1_def)
  qed
  have "step_ok ports s (dump_page json_text adapter ports dialect table keys cursor s) (page_ok table s)"
    if "\<not> cancel_at ports (ds_polls s)"
    by (rule step_ok_start [OF step_ok_mono [OF inner [OF that]] s1(1)]) (rule page_ok_start [OF s1(2)])
  then show ?thesis
    by (cases "cancel_at ports (ds_polls s)")
      (auto simp: dump_page_def dump_is_cancelled_def page_ok_def flow_ok_def same_failures_def grows_def)
qed

lemma dump_table_data_ok:
  "step_ok ports s (dump_table_data fuel json_text adapter ports dialect table keys cursor s)
    (flow_ok table s)"
proof (induction fuel arbitrary: cursor s)
  case 0
  then show ?case by (simp add: step_ok_def sound_halt_def)
next
  case (Suc fuel)
  have "step_ok ports s' (case page of Table_Done flow \<Rightarrow> (Inr flow, s')
      | Next_Page next \<Rightarrow> dump_table_data fuel json_text adapter ports dialect table keys (Some next) s')
      (\<lambda>y s''. grows s s' \<longrightarrow> flow_ok table s y s'')"
    if "page_ok table s page s'" for page and s' :: "'a dump_state"
    using that by (cases page) (auto simp: page_ok_def intro: flow_ok_start step_ok_mono [OF Suc])
  then show ?case
    unfolding dump_table_data.simps by (intro step_ok_bind [OF dump_page_ok])
qed

section \<open>Accounting of the run\<close>

lemma dump_table_ddl_ok:
  "step_ok ports s (dump_table_ddl adapter ports table s)
    (\<lambda>go s'. flow_ok table s (if go then Completed else Failed) s')"
proof (cases "has_table_ddl (ad_capabilities adapter)")
  case True
  obtain r db where q: "ad_table_ddl adapter table (ds_db s) = (r, db)" by fastforce
  define s1 where "s1 = s\<lparr>ds_db := db\<rparr>"
  have s1: "grows s s1" "ds_outcome s1 = ds_outcome s" by (simp_all add: s1_def grows_def)
  have ddl: "step_ok ports s1 (write_ddl ports name body s1) (\<lambda>_ s'. ds_outcome s' = ds_outcome s1)"
    for name body
    unfolding write_ddl_def
    by (intro step_ok_bind [OF write_str_ok])
      (auto intro: step_ok_mono [OF write_str_ok])
  have "step_ok ports s1 (dump_bind (write_ddl ports name ddl) (\<lambda>_ s. (Inr True, s)) s1)
      (\<lambda>go s'. flow_ok table s (if go then Completed else Failed) s')" for name ddl
    by (rule step_ok_bind, rule ddl) (simp add: flow_ok_def same_failures_def s1)
  from step_ok_start [OF this s1(1)] show ?thesis
    using True q fail_table_ok [where s = s1] s1
    by (cases r) (auto simp: dump_table_ddl_def flow_ok_def one_failure_def intro: grows_trans simp flip: s1_def)
qed (simp add: dump_table_ddl_def flow_ok_def same_failures_def)

lemma dump_key_columns_ok:
  "step_ok ports s (dump_key_columns adapter table s)
    (\<lambda>keys s'. flow_ok table s (if keys = None then Failed else Completed) s')"
proof (cases "ad_describe_table adapter table (ds_db s)")
  case (Pair r db)
  define s1 where "s1 = s\<lparr>ds_db := db\<rparr>"
  have s1: "grows s s1" "ds_outcome s1 = ds_outcome s" by (simp_all add: s1_def grows_def)
  then show ?thesis
    using Pair fail_table_ok [where s = s1]
    by (cases r) (auto simp: dump_key_columns_def flow_ok_def one_failure_def same_failures_def
        intro: grows_trans simp flip: s1_def)
qed

lemma dump_one_table_ok:
  "step_ok ports s (dump_one_table fuel json_text adapter ports dialect table s) (flow_ok table s)"
  unfolding dump_one_table_def
proof (rule step_ok_bind [OF dump_table_ddl_ok], goal_cases)
  case (1 go s1)
  show ?case
  proof (cases go)
    case True
    with 1 have s1: "same_failures s s1" by (simp add: flow_ok_def)
    have "step_ok ports s1 (dump_bind (dump_key_columns adapter table) (\<lambda>keys s.
        case keys of None \<Rightarrow> (Inr Failed, s)
        | Some key_columns \<Rightarrow>
            dump_table_data fuel json_text adapter ports dialect table key_columns None s) s1) (flow_ok table s1)"
      by (rule step_ok_bind [OF dump_key_columns_ok], split option.split)
        (auto simp: flow_ok_def intro!: step_ok_mono [OF dump_table_data_ok]
          intro: same_failures_trans same_one_failure)
    then have "step_ok ports s1 (dump_bind (dump_key_columns adapter table) (\<lambda>keys s.
        case keys of None \<Rightarrow> (Inr Failed, s)
        | Some key_columns \<Rightarrow>
            dump_table_data fuel json_text adapter ports dialect table key_columns None s) s1)
        (\<lambda>y s''. grows s s1 \<longrightarrow> flow_ok table s y s'')"
      by (rule step_ok_mono) (use s1 in \<open>auto intro: flow_ok_start\<close>)
    then show ?thesis using True by simp
  qed (use 1 in \<open>simp add: flow_ok_def\<close>)
qed

definition accounts :: "'d dump_state \<Rightarrow> table_plan list \<Rightarrow> 'd dump_state \<Rightarrow> bool" where
  "accounts s plans s' \<longleftrightarrow> (\<exists>k fs.
     k \<le> length plans \<and> (do_cancelled (ds_outcome s') \<longleftrightarrow> k < length plans) \<and>
     do_failures (ds_outcome s') = do_failures (ds_outcome s) @ fs \<and>
     subseq (map tf_table fs) (map (\<lambda>p. display_name (tp_table p)) (take k plans)) \<and>
     do_tables_dumped (ds_outcome s') + length fs = do_tables_dumped (ds_outcome s) + k)"

lemma accounts_step:
  assumes "accounts s1 plans s'"
    and "flow = Failed \<and> one_failure (display_name (tp_table p)) s s1 \<and>
        do_tables_dumped (ds_outcome s1) = do_tables_dumped (ds_outcome s) \<or>
      flow = Completed \<and> same_failures s s1 \<and>
        do_tables_dumped (ds_outcome s1) = Suc (do_tables_dumped (ds_outcome s))"
  shows "accounts s (p # plans) s'"
proof -
  from assms(1) obtain k fs where k: "k \<le> length plans"
    "do_cancelled (ds_outcome s') \<longleftrightarrow> k < length plans"
    "do_failures (ds_outcome s') = do_failures (ds_outcome s1) @ fs"
    "subseq (map tf_table fs) (map (\<lambda>p. display_name (tp_table p)) (take k plans))"
    "do_tables_dumped (ds_outcome s') + length fs = do_tables_dumped (ds_outcome s1) + k"
    unfolding accounts_def by blast
  from assms(2) show ?thesis
  proof (elim disjE conjE)
    assume "one_failure (display_name (tp_table p)) s s1"
      "do_tables_dumped (ds_outcome s1) = do_tables_dumped (ds_outcome s)"
    then show ?thesis using k unfolding accounts_def one_failure_def
      by (intro exI [of _ "Suc k"]) auto
  next
    assume "same_failures s s1" "do_tables_dumped (ds_outcome s1) = Suc (do_tables_dumped (ds_outcome s))"
    then show ?thesis using k unfolding accounts_def same_failures_def
      by (intro exI [of _ "Suc k"]) auto
  qed
qed

lemma dump_tables_ok:
  assumes "\<not> do_cancelled (ds_outcome s)"
    "dump_tables fuel json_text adapter ports dialect n_tables n_rows index plans s = (r, s')"
  shows "(\<exists>new. ds_sink s' = ds_sink s @ new) \<and>
    (case r of Inl h \<Rightarrow> sound_halt ports h | Inr _ \<Rightarrow> accounts s plans s')"
  using assms
proof (induction plans arbitrary: s index)
  case Nil
  then show ?case by (auto simp: accounts_def)
next
  case (Cons p plans)
  define s0 where "s0 = s\<lparr>ds_polls := ds_polls s + 1\<rparr>"
  define s1 where "s1 = dump_report n_tables index n_rows (Some (tp_table p)) s0"
  have s1: "ds_sink s1 = ds_sink s" "ds_outcome s1 = ds_outcome s"
    by (simp_all add: s1_def s0_def dump_report_def)
  show ?case
  proof (cases "cancel_at ports (ds_polls s)")
    case True
    then have "accounts s (p # plans) s'"
      using Cons.prems unfolding accounts_def
      by (intro exI [of _ 0]) (auto simp: dump_is_cancelled_def set_cancelled_def)
    then show ?thesis using True Cons.prems
      by (auto simp: dump_is_cancelled_def set_cancelled_def)
  next
    case False
    obtain r2 s2 where one: "dump_one_table fuel json_text adapter ports dialect (tp_table p) s1 = (r2, s2)"
      by fastforce
    note ok = dump_one_table_ok [of ports s1 fuel json_text adapter dialect "tp_table p", unfolded one]
    from ok have g: "grows s1 s2" by (simp add: step_ok_def)
    have run: "dump_tables fuel json_text adapter ports dialect n_tables n_rows index (p # plans) s =
      (case r2 of Inl h \<Rightarrow> (Inl h, s2)
       | Inr Completed \<Rightarrow> dump_tables fuel json_text adapter ports dialect n_tables n_rows (index + 1) plans (count_dumped s2)
       | Inr Failed \<Rightarrow> dump_tables fuel json_text adapter ports dialect n_tables n_rows (index + 1) plans s2
       | Inr Cancelled \<Rightarrow> (Inr (), set_cancelled s2))"
      using False one
      by (simp add: dump_is_cancelled_def dump_bind_def s0_def s1_def split: sum.split table_flow.split)
    show ?thesis
    proof (cases r2)
      case (Inl h)
      then show ?thesis using run Cons.prems ok g s1
        by (auto simp: step_ok_def grows_def)
    next
      case (Inr flow)
      then have f: "flow_ok (tp_table p) s1 flow s2" using ok by (simp add: step_ok_def)
      show ?thesis
      proof (cases flow)
        case Completed
        have "accounts (count_dumped s2) plans s' \<Longrightarrow> accounts s (p # plans) s'"
          using f g s1 Completed
          by (intro accounts_step [of "count_dumped s2" plans s' Completed])
            (auto simp: flow_ok_def same_failures_def grows_def count_dumped_def)
        then show ?thesis
          using Cons.IH [of "count_dumped s2" "index + 1"] Cons.prems run Inr Completed g s1
          by (auto simp: count_dumped_def grows_def split: sum.splits)
      next
        case Failed
        have "accounts s2 plans s' \<Longrightarrow> accounts s (p # plans) s'"
          using f g s1 Failed
          by (intro accounts_step [of s2 plans s' Failed])
            (auto simp: flow_ok_def one_failure_def grows_def)
        then show ?thesis
          using Cons.IH [of s2 "index + 1"] Cons.prems run Inr Failed g s1
          by (auto simp: grows_def split: sum.splits)
      next
        case Cancelled
        have "accounts s (p # plans) (set_cancelled s2)"
          using f g s1 Cancelled unfolding accounts_def
          by (intro exI [of _ 0]) (auto simp: set_cancelled_def flow_ok_def same_failures_def grows_def)
        then show ?thesis using Cons.prems run Inr Cancelled g s1
          by (auto simp: set_cancelled_def grows_def)
      qed
    qed
  qed
qed

section \<open>Every row of a keyset source\<close>

definition quiet_ports :: dump_ports where
  "quiet_ports = \<lparr>sink_error = (\<lambda>_ _. None), cancel_at = (\<lambda>_. False)\<rparr>"

definition insert_line :: "(json \<Rightarrow> string) \<Rightarrow> table_info \<Rightarrow> string list \<Rightarrow> sql_dialect \<Rightarrow> row list \<Rightarrow> string" where
  "insert_line json_text table columns dialect batch =
     (case build_insert json_text table columns batch dialect of
        Some statement \<Rightarrow> statement @ [NEWLINE] | None \<Rightarrow> [])"

definition insert_text :: "(json \<Rightarrow> string) \<Rightarrow> table_info \<Rightarrow> string list \<Rightarrow> sql_dialect \<Rightarrow> row list \<Rightarrow> string" where
  "insert_text json_text table columns dialect rows =
     concat (map (insert_line json_text table columns dialect) (chunks INSERT_BATCH_ROWS rows))"

text \<open>A quiet step appends text to the sink and counts rows; nothing else of the state moves.\<close>

definition wrote :: "string \<Rightarrow> nat \<Rightarrow> 'd dump_state \<Rightarrow> 'd dump_state \<Rightarrow> bool" where
  "wrote txt n s s' \<longleftrightarrow> concat (ds_sink s') = concat (ds_sink s) @ txt \<and> ds_db s' = ds_db s \<and>
     do_failures (ds_outcome s') = do_failures (ds_outcome s) \<and>
     do_truncations (ds_outcome s') = do_truncations (ds_outcome s) \<and>
     do_tables_dumped (ds_outcome s') = do_tables_dumped (ds_outcome s) \<and>
     do_cancelled (ds_outcome s') = do_cancelled (ds_outcome s) \<and>
     unat (do_rows_written (ds_outcome s')) =
       min (unat (do_rows_written (ds_outcome s)) + n) (2 ^ 64 - 1)"

lemma u64_le: "unat (x :: u64) \<le> 2 ^ 64 - 1"
proof -
  have "unat x < 2 ^ LENGTH(64)" by (rule unsigned_less)
  then show ?thesis by simp
qed

lemma wrote_refl [simp]: "wrote [] 0 s s"
  using u64_le by (simp add: wrote_def min_def)

lemma wrote_trans:
  assumes "wrote t m s s'" "wrote u n s' s''"
  shows "wrote (t @ u) (m + n) s s''"
  using assms by (auto simp: wrote_def min_def split: if_splits)

lemma wrote_trans':
  "wrote t m s s' \<Longrightarrow> wrote u n s' s'' \<Longrightarrow> v = t @ u \<Longrightarrow> k = m + n \<Longrightarrow> wrote v k s s''"
  using wrote_trans by blast

definition runs_to :: "('d, 'a) dump_step \<Rightarrow> 'd dump_state \<Rightarrow> 'a \<Rightarrow> string \<Rightarrow> nat \<Rightarrow> bool" where
  "runs_to m s x txt n \<longleftrightarrow> (\<exists>s'. m s = (Inr x, s') \<and> wrote txt n s s')"

lemma runs_to_bind:
  assumes "runs_to m s x t k" "\<And>s'. wrote t k s s' \<Longrightarrow> runs_to (f x) s' y u n"
  shows "runs_to (dump_bind m f) s y (t @ u) (k + n)"
proof -
  from assms(1) obtain s' where "m s = (Inr x, s')" "wrote t k s s'" by (auto simp: runs_to_def)
  moreover from this assms(2) obtain s'' where "f x s' = (Inr y, s'')" "wrote u n s' s''"
    by (auto simp: runs_to_def)
  ultimately show ?thesis by (auto simp: runs_to_def dump_bind_def intro: wrote_trans)
qed

lemma runs_to_write_str: "runs_to (write_str quiet_ports chunk) s () chunk 0"
  using u64_le by (auto simp: runs_to_def write_str_def quiet_ports_def wrote_def min_def)

lemma runs_to_return: "runs_to (\<lambda>s. (Inr x, s)) s x [] 0"
  by (auto simp: runs_to_def)

lemma runs_to_eq: "runs_to m s x t n \<Longrightarrow> m s = m' s' \<Longrightarrow> wrote [] 0 s' s \<Longrightarrow> runs_to m' s' x t n"
  using wrote_trans [of "[]" 0 s' s t n] by (auto simp: runs_to_def)

lemma runs_to_write_inserts:
  "runs_to (write_inserts json_text quiet_ports table columns dialect batches) s ()
    (concat (map (insert_line json_text table columns dialect) batches)) 0"
proof (induction batches arbitrary: s)
  case Nil
  then show ?case by (simp add: runs_to_def)
next
  case (Cons batch batches)
  show ?case
  proof (cases "build_insert json_text table columns batch dialect")
    case None
    then show ?thesis using Cons [of s] by (simp add: runs_to_def insert_line_def)
  next
    case (Some statement)
    have "runs_to (dump_bind (write_str quiet_ports statement) (\<lambda>_.
        dump_bind (write_str quiet_ports [NEWLINE]) (\<lambda>_.
          write_inserts json_text quiet_ports table columns dialect batches))) s ()
      (statement @ [NEWLINE] @ concat (map (insert_line json_text table columns dialect) batches)) (0 + (0 + 0))"
      by (intro runs_to_bind [where x = "()"] runs_to_write_str Cons)
    moreover have "insert_line json_text table columns dialect batch = statement @ [NEWLINE]"
      using Some by (simp add: insert_line_def)
    ultimately show ?thesis using Some by (simp add: runs_to_def)
  qed
qed

lemma chunks_append:
  "0 < n \<Longrightarrow> n dvd length xs \<Longrightarrow> chunks n (xs @ ys) = chunks n xs @ chunks n ys"
proof (induction n xs rule: chunks.induct)
  case (1 n xs)
  show ?case
  proof (cases "xs = []")
    case False
    with 1 have "n \<le> length xs" by (auto dest: dvd_imp_le)
    moreover have "n dvd length (drop n xs)" using 1 by (simp add: dvd_diff_nat)
    ultimately have "chunks n (drop n xs @ ys) = chunks n (drop n xs) @ chunks n ys"
      using 1 False by blast
    then show ?thesis
      using 1 False \<open>n \<le> length xs\<close> chunks.simps [of n "xs @ ys"] chunks.simps [of n xs] by simp
  qed simp
qed

lemma insert_text_append:
  "length xs = READ_PAGE_ROWS \<Longrightarrow>
    insert_text json_text table columns dialect (xs @ ys) =
    insert_text json_text table columns dialect xs @ insert_text json_text table columns dialect ys"
  unfolding insert_text_def
  by (subst chunks_append) (simp_all add: INSERT_BATCH_ROWS_def READ_PAGE_ROWS_def MAX_RESULT_ROWS_def)

text \<open>One page of a keyset source: the rest of the table, or a full page and the next cursor.\<close>

lemma end_of_page_runs:
  assumes "length (qr_rows result) < 2 ^ 64" "keys \<noteq> []"
    "if length (qr_rows result) < READ_PAGE_ROWS then page = Table_Done Completed
     else \<exists>next. cursor_from_last_row (qr_rows result) (column_names result) keys = Some next \<and>
       page = Next_Page next"
  shows "runs_to (end_of_page table keys result) s page [] (length (qr_rows result))"
proof -
  let ?s = "s\<lparr>ds_outcome := (ds_outcome s)\<lparr>do_rows_written :=
    u64_saturating_add (do_rows_written (ds_outcome s)) (of_nat (length (qr_rows result)))\<rparr>\<rparr>"
  have "wrote [] (length (qr_rows result)) s ?s"
    using assms(1) by (simp add: wrote_def unat_u64_saturating_add unat_of_nat)
  then show ?thesis
    using assms(2,3) by (auto simp: runs_to_def end_of_page_def split: if_splits)
qed

lemma dump_page_keyset:
  fixes s :: "'d dump_state"
  assumes "serves_keyset json_text (ad_query adapter) dialect table keys READ_PAGE_ROWS columns full db"
    "keyed_rows columns keys full" "page_start columns keys full cursor start" "ds_db s = db"
  defines "rows \<equiv> take READ_PAGE_ROWS (drop start full)"
  assumes "if length rows < READ_PAGE_ROWS then page = Table_Done Completed
     else \<exists>next. cursor_from_last_row rows (map col_name columns) keys = Some next \<and> page = Next_Page next"
  shows "runs_to (dump_page json_text adapter quiet_ports dialect table keys cursor) s page
    (insert_text json_text table (map col_name columns) dialect rows) (length rows)"
proof -
  define s1 where "s1 = s\<lparr>ds_polls := ds_polls s + 1, ds_db := db\<rparr>"
  have s1: "wrote [] 0 s s1"
    using assms(4) u64_le by (auto simp: wrote_def s1_def min_def)
  have "ad_query adapter (build_select_page json_text table keys dialect READ_PAGE_ROWS cursor) db
      = (Inr (page_result columns rows), db)"
    unfolding rows_def using assms(1,3) by (rule serves_keyset_page)
  then have dump_page: "dump_page json_text adapter quiet_ports dialect table keys cursor s =
      (if rows = [] then (Inr (Table_Done Completed), s1)
       else dump_bind (write_inserts json_text quiet_ports table (map col_name columns) dialect
          (chunks INSERT_BATCH_ROWS rows)) (\<lambda>_. end_of_page table keys (page_result columns rows)) s1)"
    using assms(4) by (simp add: dump_page_def dump_is_cancelled_def quiet_ports_def s1_def column_names_def)
  show ?thesis
  proof (cases "rows = []")
    case True
    with assms(6) have "page = Table_Done Completed" by (simp add: READ_PAGE_ROWS_def MAX_RESULT_ROWS_def)
    then show ?thesis using True s1 dump_page by (auto simp: runs_to_def insert_text_def)
  next
    case False
    have "length rows < 2 ^ 64" by (simp add: rows_def READ_PAGE_ROWS_def MAX_RESULT_ROWS_def)
    then have "runs_to (end_of_page table keys (page_result columns rows)) s' page [] (length rows)"
      for s' :: "'d dump_state"
      using end_of_page_runs [of "page_result columns rows" keys page table s'] assms(2,6)
      by (simp add: column_names_def keyed_rows_def)
    then have "runs_to (dump_bind (write_inserts json_text quiet_ports table (map col_name columns) dialect
        (chunks INSERT_BATCH_ROWS rows)) (\<lambda>_. end_of_page table keys (page_result columns rows))) s1 page
        (insert_text json_text table (map col_name columns) dialect rows @ []) (0 + length rows)"
      unfolding insert_text_def by (intro runs_to_bind [OF runs_to_write_inserts])
    from runs_to_eq [OF this _ s1] show ?thesis using dump_page False by simp
  qed
qed

lemma dump_table_data_keyset:
  assumes "serves_keyset json_text (ad_query adapter) dialect table keys READ_PAGE_ROWS columns full db"
    "keyed_rows columns keys full"
  shows "page_start columns keys full cursor start \<Longrightarrow> start \<le> length full \<Longrightarrow>
    length full - start < fuel * READ_PAGE_ROWS \<Longrightarrow> ds_db s = db \<Longrightarrow>
    runs_to (dump_table_data fuel json_text adapter quiet_ports dialect table keys cursor) s Completed
      (insert_text json_text table (map col_name columns) dialect (drop start full)) (length full - start)"
proof (induction fuel arbitrary: cursor start s)
  case (Suc fuel)
  define rows where "rows = take READ_PAGE_ROWS (drop start full)"
  let ?text = "insert_text json_text table (map col_name columns) dialect"
  note page = dump_page_keyset [OF assms Suc.prems(1,4), folded rows_def]
  have pos: "0 < READ_PAGE_ROWS" by (simp add: READ_PAGE_ROWS_def MAX_RESULT_ROWS_def)
  have size: "length rows = min (length full - start) READ_PAGE_ROWS" by (simp add: rows_def)
  show ?case
  proof (cases "length rows < READ_PAGE_ROWS")
    case True
    then have rows: "rows = drop start full" "length rows = length full - start"
      using size by (auto simp: rows_def)
    have "runs_to (dump_page json_text adapter quiet_ports dialect table keys cursor) s
        (Table_Done Completed) (?text rows) (length rows)"
      using True by (intro page) simp
    from runs_to_bind [OF this, of _ Completed "[]" 0]
    show ?thesis using rows by (simp add: runs_to_def dump_table_data.simps(2) [abs_def])
  next
    case False
    then have len: "length rows = READ_PAGE_ROWS" and bound: "start + READ_PAGE_ROWS \<le> length full"
      using size pos by (auto simp: min_def split: if_splits)
    obtain cursor' where cursor': "cursor_from_last_row rows (map col_name columns) keys = Some cursor'"
      "page_start columns keys full (Some cursor') (start + READ_PAGE_ROWS)"
      using page_start_next [OF assms(2) pos bound] by (auto simp: rows_def)
    have first: "runs_to (dump_page json_text adapter quiet_ports dialect table keys cursor) s
        (Next_Page cursor') (?text rows) (length rows)"
      using False cursor'(1) by (intro page) simp
    have "length full - (start + READ_PAGE_ROWS) < fuel * READ_PAGE_ROWS"
      using Suc.prems(3) bound by simp
    then have "runs_to (dump_table_data fuel json_text adapter quiet_ports dialect table keys (Some cursor')) s'
        Completed (?text (drop (start + READ_PAGE_ROWS) full)) (length full - (start + READ_PAGE_ROWS))"
      if "wrote t k s s'" for s' t k
      using that Suc.prems(4) by (intro Suc.IH [OF cursor'(2) bound]) (auto simp: wrote_def)
    then have "runs_to (dump_table_data (Suc fuel) json_text adapter quiet_ports dialect table keys cursor) s
        Completed (?text rows @ ?text (drop (start + READ_PAGE_ROWS) full))
        (length rows + (length full - (start + READ_PAGE_ROWS)))"
      unfolding dump_table_data.simps(2) [abs_def] by (intro runs_to_bind [OF first]) simp
    then show ?thesis
      using insert_text_append [OF len, of json_text table "map col_name columns" dialect
          "drop (start + READ_PAGE_ROWS) full"] bound len
      by (simp add: rows_def add.commute del: dump_table_data.simps flip: drop_drop)
  qed
qed simp

section \<open>The whole script\<close>

record table_source =
  src_schema :: table_schema
  src_ddl :: string
  src_columns :: "column list"
  src_rows :: "row list"

text \<open>
  An adapter serves a table when its DDL and its key are readable and its rows are a keyset
  source, none of which moves the database state.
\<close>

definition serves_table ::
    "(json \<Rightarrow> string) \<Rightarrow> 'd adapter \<Rightarrow> sql_dialect \<Rightarrow> 'd \<Rightarrow> table_info \<Rightarrow> table_source \<Rightarrow> bool" where
  "serves_table json_text adapter dialect db table src \<longleftrightarrow>
     ad_table_ddl adapter table db = (Inr (src_ddl src), db) \<and>
     ad_describe_table adapter table db = (Inr (src_schema src), db) \<and>
     keyed_rows (src_columns src) (ts_primary_key (src_schema src)) (src_rows src) \<and>
     serves_keyset json_text (ad_query adapter) dialect table (ts_primary_key (src_schema src))
       READ_PAGE_ROWS (src_columns src) (src_rows src) db"

definition ddl_text :: "table_info \<Rightarrow> string \<Rightarrow> string" where
  "ddl_text table ddl = [NEWLINE] @ ''-- '' @ display_name table @ [NEWLINE] @ ddl @
     (if ends_with_char ddl NEWLINE then [] else [NEWLINE])"

definition table_text :: "(json \<Rightarrow> string) \<Rightarrow> sql_dialect \<Rightarrow> table_info \<Rightarrow> table_source \<Rightarrow> string" where
  "table_text json_text dialect table src = ddl_text table (src_ddl src) @
     insert_text json_text table (map col_name (src_columns src)) dialect (src_rows src)"

lemma runs_to_write_ddl:
  "runs_to (write_ddl quiet_ports (display_name table) ddl) s () (ddl_text table ddl) 0"
proof -
  have "runs_to (\<lambda>s. if \<not> ends_with_char ddl NEWLINE then write_str quiet_ports [NEWLINE] s else (Inr (), s))
      s' () (if ends_with_char ddl NEWLINE then [] else [NEWLINE]) 0" for s' :: "'a dump_state"
    using runs_to_write_str [of "[NEWLINE]" s'] by (simp add: runs_to_def)
  then have "runs_to (write_ddl quiet_ports (display_name table) ddl) s ()
      (([NEWLINE] @ ''-- '' @ display_name table @ [NEWLINE]) @ ddl @
        (if ends_with_char ddl NEWLINE then [] else [NEWLINE])) (0 + (0 + 0))"
    unfolding write_ddl_def by (intro runs_to_bind [where x = "()"] runs_to_write_str)
  then show ?thesis by (simp add: ddl_text_def)
qed

lemma dump_one_table_served:
  fixes s :: "'d dump_state"
  assumes "serves_table json_text adapter dialect (ds_db s) table src"
    "has_table_ddl (ad_capabilities adapter)" "has_describe_table (ad_capabilities adapter)"
    "length (src_rows src) < fuel * READ_PAGE_ROWS"
  shows "runs_to (dump_one_table fuel json_text adapter quiet_ports dialect table) s Completed
    (table_text json_text dialect table src) (length (src_rows src))"
proof -
  let ?keys = "ts_primary_key (src_schema src)"
  have "runs_to (dump_bind (write_ddl quiet_ports (display_name table) (src_ddl src)) (\<lambda>_ s. (Inr True, s)))
      s True (ddl_text table (src_ddl src) @ []) (0 + 0)"
    by (rule runs_to_bind [OF runs_to_write_ddl]) (simp add: runs_to_def)
  then have ddl: "runs_to (dump_table_ddl adapter quiet_ports table) s True (ddl_text table (src_ddl src)) 0"
    using assms(1,2) by (simp add: runs_to_def dump_table_ddl_def serves_table_def)
  have keys: "runs_to (dump_key_columns adapter table) s' (Some ?keys) [] 0"
    if "wrote t k s s'" for s' :: "'d dump_state" and t k
    using that assms(1,3) by (simp add: runs_to_def dump_key_columns_def serves_table_def wrote_def)
  have data: "runs_to (dump_table_data fuel json_text adapter quiet_ports dialect table ?keys None) s'
      Completed (insert_text json_text table (map col_name (src_columns src)) dialect (src_rows src))
      (length (src_rows src))" if "wrote t k s s'" for s' :: "'d dump_state" and t k
    using that assms(1,4) dump_table_data_keyset [of json_text adapter dialect table ?keys "src_columns src"
        "src_rows src" "ds_db s" None 0 fuel s']
    by (simp add: serves_table_def wrote_def page_start_def)
  have "runs_to (dump_one_table fuel json_text adapter quiet_ports dialect table) s Completed
      (ddl_text table (src_ddl src) @ [] @ insert_text json_text table (map col_name (src_columns src)) dialect
        (src_rows src)) (0 + (0 + length (src_rows src)))"
    unfolding dump_one_table_def
  proof (rule runs_to_bind [OF ddl])
    fix s1 :: "'d dump_state" assume s1: "wrote (ddl_text table (src_ddl src)) 0 s s1"
    have "runs_to (dump_bind (dump_key_columns adapter table) (\<lambda>keys s. case keys of None \<Rightarrow> (Inr Failed, s)
          | Some key_columns \<Rightarrow> dump_table_data fuel json_text adapter quiet_ports dialect table key_columns None s))
        s1 Completed ([] @ insert_text json_text table (map col_name (src_columns src)) dialect (src_rows src))
        (0 + length (src_rows src))"
      by (rule runs_to_bind [OF keys [OF s1]]) (simp add: data [OF wrote_trans [OF s1]])
    then show "runs_to (\<lambda>s. if \<not> True then (Inr Failed, s)
        else dump_bind (dump_key_columns adapter table) (\<lambda>keys s. case keys of None \<Rightarrow> (Inr Failed, s)
          | Some key_columns \<Rightarrow> dump_table_data fuel json_text adapter quiet_ports dialect table key_columns None s) s)
        s1 Completed ([] @ insert_text json_text table (map col_name (src_columns src)) dialect (src_rows src))
        (0 + length (src_rows src))"
      by simp
  qed
  then show ?thesis by (simp add: table_text_def)
qed

lemma dump_tables_served:
  fixes s :: "'d dump_state"
  assumes "has_table_ddl (ad_capabilities adapter)" "has_describe_table (ad_capabilities adapter)"
  shows "list_all2 (\<lambda>p src. serves_table json_text adapter dialect (ds_db s) (tp_table p) src \<and>
      length (src_rows src) < fuel * READ_PAGE_ROWS) plans srcs \<Longrightarrow>
    \<exists>s'. dump_tables fuel json_text adapter quiet_ports dialect n_tables n_rows index plans s = (Inr (), s') \<and>
      wrote (concat (map2 (\<lambda>p. table_text json_text dialect (tp_table p)) plans srcs))
        (\<Sum>src\<leftarrow>srcs. length (src_rows src))
        (s\<lparr>ds_outcome := (ds_outcome s)\<lparr>do_tables_dumped := do_tables_dumped (ds_outcome s) + length plans\<rparr>\<rparr>) s'"
proof (induction plans arbitrary: srcs s index)
  case Nil
  then show ?case by simp
next
  case (Cons p plans)
  then obtain src srcs' where srcs: "srcs = src # srcs'" and
    src: "serves_table json_text adapter dialect (ds_db s) (tp_table p) src"
      "length (src_rows src) < fuel * READ_PAGE_ROWS" and
    rest: "list_all2 (\<lambda>p src. serves_table json_text adapter dialect (ds_db s) (tp_table p) src \<and>
      length (src_rows src) < fuel * READ_PAGE_ROWS) plans srcs'"
    by (auto simp: list_all2_Cons1)
  define s1 where "s1 = dump_report n_tables index n_rows (Some (tp_table p)) (s\<lparr>ds_polls := ds_polls s + 1\<rparr>)"
  have s1: "ds_db s1 = ds_db s" "ds_outcome s1 = ds_outcome s" "ds_sink s1 = ds_sink s"
    by (simp_all add: s1_def dump_report_def)
  obtain s2 where s2: "dump_one_table fuel json_text adapter quiet_ports dialect (tp_table p) s1 = (Inr Completed, s2)"
    "wrote (table_text json_text dialect (tp_table p) src) (length (src_rows src)) s1 s2"
    using dump_one_table_served [of json_text adapter dialect s1 "tp_table p" src fuel] src assms s1
    by (auto simp: runs_to_def)
  have db: "ds_db (count_dumped s2) = ds_db s" using s2(2) s1 by (simp add: count_dumped_def wrote_def)
  obtain s' where s': "dump_tables fuel json_text adapter quiet_ports dialect n_tables n_rows (index + 1) plans
      (count_dumped s2) = (Inr (), s')"
    "wrote (concat (map2 (\<lambda>p. table_text json_text dialect (tp_table p)) plans srcs'))
      (\<Sum>src\<leftarrow>srcs'. length (src_rows src)) ((count_dumped s2)\<lparr>ds_outcome := (ds_outcome (count_dumped s2))
        \<lparr>do_tables_dumped := do_tables_dumped (ds_outcome (count_dumped s2)) + length plans\<rparr>\<rparr>) s'"
    using Cons.IH [of "count_dumped s2" srcs' "index + 1"] rest db by auto
  have "dump_tables fuel json_text adapter quiet_ports dialect n_tables n_rows index (p # plans) s = (Inr (), s')"
    using s'(1) s2(1) by (simp add: dump_is_cancelled_def quiet_ports_def dump_bind_def s1_def)
  moreover have "wrote (table_text json_text dialect (tp_table p) src @
      concat (map2 (\<lambda>p. table_text json_text dialect (tp_table p)) plans srcs'))
      (length (src_rows src) + (\<Sum>src\<leftarrow>srcs'. length (src_rows src)))
      (s\<lparr>ds_outcome := (ds_outcome s)\<lparr>do_tables_dumped := do_tables_dumped (ds_outcome s) + length (p # plans)\<rparr>\<rparr>) s'"
    using s'(2) s2(2) s1 by (auto simp: wrote_def count_dumped_def min_def)
  ultimately show ?case by (auto simp: srcs)
qed

lemma run_dump_alt:
  "run_dump fuel json_text adapter ports dialect plan s =
    (case sink_error ports (ds_sink s) (dump_header dialect) of
       Some m \<Rightarrow> (Inl (Dump_Error (Sink m)), s\<lparr>ds_outcome := dump_outcome_default\<rparr>)
     | None \<Rightarrow>
         (case dump_tables fuel json_text adapter ports dialect (length plan) (total_rows plan) 0 plan
             (s\<lparr>ds_outcome := dump_outcome_default, ds_sink := ds_sink s @ [dump_header dialect]\<rparr>) of
            (Inl h, s') \<Rightarrow> (Inl h, s')
          | (Inr _, s') \<Rightarrow> (Inr (ds_outcome s'),
              dump_report (length plan) (length plan) (total_rows plan) None s')))"
  by (auto simp: run_dump_def dump_bind_def write_str_def Let_def dump_report_def
      split: option.split prod.split sum.split)

lemma run_dump_parts:
  assumes "has_table_ddl (ad_capabilities adapter)" "has_describe_table (ad_capabilities adapter)"
    and "list_all2 (\<lambda>p src. serves_table json_text adapter dialect (ds_db s) (tp_table p) src \<and>
      length (src_rows src) < fuel * READ_PAGE_ROWS) plan srcs"
  shows "\<exists>out s'. run_dump fuel json_text adapter quiet_ports dialect plan s = (Inr out, s') \<and>
    concat (ds_sink s') = concat (ds_sink s) @ dump_header dialect @
      concat (map2 (\<lambda>p. table_text json_text dialect (tp_table p)) plan srcs) \<and>
    do_tables_dumped out = length plan \<and> do_failures out = [] \<and> do_truncations out = [] \<and>
    \<not> do_cancelled out \<and>
    unat (do_rows_written out) = min (\<Sum>src\<leftarrow>srcs. length (src_rows src)) (2 ^ 64 - 1)"
proof -
  let ?s = "s\<lparr>ds_outcome := dump_outcome_default, ds_sink := ds_sink s @ [dump_header dialect]\<rparr>"
  have "\<exists>s'. dump_tables fuel json_text adapter quiet_ports dialect (length plan) (total_rows plan) 0
      plan ?s = (Inr (), s') \<and>
    wrote (concat (map2 (\<lambda>p. table_text json_text dialect (tp_table p)) plan srcs))
        (\<Sum>src\<leftarrow>srcs. length (src_rows src)) (?s\<lparr>ds_outcome := (ds_outcome ?s)
          \<lparr>do_tables_dumped := do_tables_dumped (ds_outcome ?s) + length plan\<rparr>\<rparr>) s'"
    using assms(3) by (intro dump_tables_served [OF assms(1,2)]) simp
  then show ?thesis
    by (auto simp: run_dump_alt quiet_ports_def wrote_def dump_outcome_default_def dump_report_def)
qed

section \<open>Properties\<close>

text \<open>
  C3. Whatever the adapter, the sink and the cancel flag do: a dump run keeps what was in the sink
  and writes the header first; it ends with an error only if the sink refused a chunk with that
  error (or the fuel of the paging loop ran out); and if it ends, every table before the point of
  cancellation was either counted as dumped or recorded as failed, exactly once and in plan order,
  where a run that was not cancelled reached every table.
\<close>

theorem run_dump_accounts:
  assumes "run_dump fuel json_text adapter ports dialect plan s = (r, s')"
  shows "case r of
      Inl h \<Rightarrow> h = Out_Of_Fuel \<or> (\<exists>m pre chunk. h = Dump_Error (Sink m) \<and> sink_error ports pre chunk = Some m)
    | Inr out \<Rightarrow>
        (\<exists>rest. ds_sink s' = ds_sink s @ dump_header dialect # rest) \<and>
        (\<exists>k \<le> length plan. (do_cancelled out \<longleftrightarrow> k < length plan) \<and>
          do_tables_dumped out + length (do_failures out) = k \<and>
          subseq (map tf_table (do_failures out)) (map (\<lambda>p. display_name (tp_table p)) (take k plan)))"
proof (cases "sink_error ports (ds_sink s) (dump_header dialect)")
  case (Some m)
  with assms show ?thesis by (clarsimp simp: run_dump_alt) blast
next
  case None
  let ?s = "s\<lparr>ds_outcome := dump_outcome_default, ds_sink := ds_sink s @ [dump_header dialect]\<rparr>"
  obtain r1 s1 where run: "dump_tables fuel json_text adapter ports dialect (length plan) (total_rows plan) 0
      plan ?s = (r1, s1)" by fastforce
  have "\<not> do_cancelled (ds_outcome ?s)" by (simp add: dump_outcome_default_def)
  from dump_tables_ok [OF this run] show ?thesis
    using assms None run
    by (cases r1) (auto simp: run_dump_alt sound_halt_def accounts_def dump_outcome_default_def dump_report_def, blast)
qed

text \<open>
  C2. Against a database that serves every planned table as a keyset source, with a working sink
  and no cancellation, fuel for one page more than the largest table is enough, and the run writes
  the header and then, table by table in plan order, the comment, the DDL and every row exactly
  once in key order, in inserts of at most 500 rows. Nothing is reported failed, truncated or
  cancelled, and the row count is exact up to saturation at the top of \<open>u64\<close>.
\<close>

theorem run_dump_complete:
  assumes "has_table_ddl (ad_capabilities adapter)" "has_describe_table (ad_capabilities adapter)"
    and "list_all2 (\<lambda>p src. serves_table json_text adapter dialect (ds_db s) (tp_table p) src \<and>
      length (src_rows src) < fuel * READ_PAGE_ROWS) plan srcs"
  shows "\<exists>out s'. run_dump fuel json_text adapter quiet_ports dialect plan s = (Inr out, s') \<and>
    concat (ds_sink s') = concat (ds_sink s) @ dump_header dialect @
      concat (map2 (\<lambda>p. table_text json_text dialect (tp_table p)) plan srcs) \<and>
    do_tables_dumped out = length plan \<and> do_failures out = [] \<and> do_truncations out = [] \<and>
    \<not> do_cancelled out \<and>
    unat (do_rows_written out) = min (\<Sum>src\<leftarrow>srcs. length (src_rows src)) (2 ^ 64 - 1)"
  using assms by (rule run_dump_parts)

definition sample_schema :: table_schema where
  "sample_schema = \<lparr>ts_table = table_unqualified ''t'', ts_columns = [], ts_primary_key = [''id'']\<rparr>"

definition sample_dump_adapter :: "unit adapter" where
  "sample_dump_adapter = sample_adapter\<lparr>
     ad_capabilities := capabilities_default\<lparr>has_table_ddl := True, has_describe_table := True\<rparr>,
     ad_table_ddl := \<lambda>t db. (Inr ''CREATE TABLE t (id INTEGER PRIMARY KEY);'', db),
     ad_describe_table := \<lambda>t db. (Inr sample_schema, db)\<rparr>"

definition sample_state :: "unit dump_state" where
  "sample_state = \<lparr>ds_db = (), ds_sink = [], ds_polls = 0, ds_reports = [],
     ds_outcome = dump_outcome_default\<rparr>"

definition sample_plan :: dump_plan where
  "sample_plan = [\<lparr>tp_table = table_unqualified ''t'', tp_row_count = 3\<rparr>]"

theorem run_dump_accounts_witness:
  "\<exists>out s'. run_dump 1 (\<lambda>_. []) sample_dump_adapter (quiet_ports\<lparr>cancel_at := \<lambda>n. n = 0\<rparr>) Sqlite sample_plan
      sample_state = (Inr out, s') \<and> do_tables_dumped out + length (do_failures out) < 1"
proof -
  obtain out s' where run: "run_dump 1 (\<lambda>_. []) sample_dump_adapter (quiet_ports\<lparr>cancel_at := \<lambda>n. n = 0\<rparr>)
      Sqlite sample_plan sample_state = (Inr out, s')" and "do_cancelled out"
    by (simp add: run_dump_alt sample_plan_def sample_state_def quiet_ports_def dump_is_cancelled_def
        set_cancelled_def)
  with run_dump_accounts [OF run] show ?thesis by (auto simp: sample_plan_def)
qed

theorem run_dump_complete_witness:
  "\<exists>out s'. run_dump 1 (\<lambda>_. []) sample_dump_adapter quiet_ports Sqlite sample_plan sample_state = (Inr out, s') \<and>
     do_tables_dumped out = 1 \<and> unat (do_rows_written out) = 3"
proof -
  let ?src = "\<lparr>src_schema = sample_schema, src_ddl = ''CREATE TABLE t (id INTEGER PRIMARY KEY);'',
    src_columns = sample_columns, src_rows = sample_rows\<rparr>"
  have "ad_query sample_dump_adapter = sample_source READ_PAGE_ROWS"
    by (simp add: sample_dump_adapter_def sample_adapter_def adapter_defaults_def)
  then have "serves_keyset (\<lambda>_. []) (ad_query sample_dump_adapter) Sqlite (table_unqualified ''t'') [''id'']
      READ_PAGE_ROWS sample_columns sample_rows ()"
    by (simp add: sample_source_serves)
  then have "serves_table (\<lambda>_. []) sample_dump_adapter Sqlite (ds_db sample_state) (table_unqualified ''t'') ?src"
    by (simp add: serves_table_def sample_dump_adapter_def sample_schema_def keyed_rows_def
        sample_columns_def sample_rows_def)
  then show ?thesis
    using run_dump_complete [of sample_dump_adapter "\<lambda>_. []" Sqlite sample_state 1 sample_plan "[?src]"]
    by (auto simp: sample_plan_def sample_dump_adapter_def sample_rows_def READ_PAGE_ROWS_def MAX_RESULT_ROWS_def)
qed

end
