(* ===== verification/Dump_Script.thy ===== *)
theory Dump_Script
  imports Dump_Proofs
begin

text \<open>
  The dump as a script: what a restore's splitter makes of the text a dump run wrote. The DDL an
  adapter returns is assumed to be terminated statements; the inserts and the comments are the
  dump's own, and are proved to be.
\<close>

section \<open>Texts and the statements they yield\<close>

definition yields :: "string \<Rightarrow> string list \<Rightarrow> bool" where
  "yields txt stmts \<longleftrightarrow> (\<exists>items tail. txt = script items @ tail \<and> glue tail \<and>
     (\<forall>(g, f)\<in>set items. glue g \<and> frag f) \<and> stmts = map snd items)"

text \<open>A statement of the split: an emitted statement, after comments and white space.\<close>

definition preceded :: "string \<Rightarrow> string \<Rightarrow> bool" where
  "preceded z f \<longleftrightarrow> (\<exists>g. glue g \<and> z = trim (g @ f))"

lemma yields_split: "yields txt stmts \<Longrightarrow> list_all2 preceded (split_statements txt) stmts"
proof -
  assume "yields txt stmts"
  then obtain items tail where whole: "txt = script items @ tail" "glue tail" and
    items: "\<And>g f. (g, f) \<in> set items \<Longrightarrow> glue g \<and> frag f" and stmts: "stmts = map snd items"
    by (fastforce simp: yields_def)
  have "list_all2 preceded (map (\<lambda>(g, f). trim (g @ f)) items) (map snd items)"
    using items by (fastforce simp: preceded_def list_all2_map1 list_all2_map2 list_all2_same)
  then show ?thesis using split_script [of items tail] items whole stmts by simp
qed

lemma yields_glue: "glue g \<Longrightarrow> yields g []"
  unfolding yields_def by (rule exI [of _ "[]"]) simp

lemma yields_statement: "frag f \<Longrightarrow> yields (f @ '';'') [f]"
  unfolding yields_def by (rule exI [of _ "[([], f)]"], rule exI [of _ "[]"]) simp

lemma script_append: "script (xs @ ys) = script xs @ script ys"
  by (induction xs rule: script.induct) auto

lemma yields_append: "yields t1 s1 \<Longrightarrow> yields t2 s2 \<Longrightarrow> yields (t1 @ t2) (s1 @ s2)"
proof -
  assume "yields t1 s1" and "yields t2 s2"
  then obtain i1 g1 i2 g2 where 1: "t1 = script i1 @ g1" "glue g1"
    "\<forall>(g, f)\<in>set i1. glue g \<and> frag f" "s1 = map snd i1"
    and 2: "t2 = script i2 @ g2" "glue g2" "\<forall>(g, f)\<in>set i2. glue g \<and> frag f" "s2 = map snd i2"
    unfolding yields_def by blast
  show ?thesis
  proof (cases i2)
    case Nil
    with 1 2 show ?thesis
      unfolding yields_def by (intro exI [of _ i1] exI [of _ "g1 @ g2"]) auto
  next
    case (Cons item rest)
    obtain g f where "item = (g, f)" by (cases item)
    with 1 2 Cons show ?thesis
      unfolding yields_def
      by (intro exI [of _ "i1 @ (g1 @ g, f) # rest"] exI [of _ g2]) (auto simp: script_append)
  qed
qed

lemma yields_concat: "list_all2 yields ts ss \<Longrightarrow> yields (concat ts) (concat ss)"
  by (induction rule: list_all2_induct) (auto intro: yields_append yields_glue)

section \<open>The parts of a dump\<close>

definition insert_statements ::
    "(json \<Rightarrow> string) \<Rightarrow> table_info \<Rightarrow> string list \<Rightarrow> sql_dialect \<Rightarrow> row list \<Rightarrow> string list" where
  "insert_statements json_text table columns dialect rows =
     map (\<lambda>batch. butlast (the (build_insert json_text table columns batch dialect)))
       (chunks INSERT_BATCH_ROWS rows)"

lemma yields_insert_line:
  assumes "columns \<noteq> []" "batch \<noteq> []"
  shows "yields (insert_line json_text table columns dialect batch)
    [butlast (the (build_insert json_text table columns batch dialect))]"
proof -
  obtain sql where sql: "build_insert json_text table columns batch dialect = Some sql"
    using assms by (simp add: build_insert_def Let_def)
  then obtain f where "sql = f @ '';''" "frag f"
    using build_insert_statement [OF sql] by (auto simp: statement_text_def)
  with sql yields_append [OF yields_statement [of f] yields_glue [OF glue_newline]]
  show ?thesis by (simp add: insert_line_def)
qed

lemma yields_insert_text:
  assumes "columns \<noteq> []"
  shows "yields (insert_text json_text table columns dialect rows)
    (insert_statements json_text table columns dialect rows)"
proof -
  have "list_all2 yields (map (insert_line json_text table columns dialect) batches)
      (map (\<lambda>batch. [butlast (the (build_insert json_text table columns batch dialect))]) batches)"
    if "\<forall>b\<in>set batches. b \<noteq> []" for batches
    using that assms yields_insert_line by (induction batches) auto
  from yields_concat [OF this [of "chunks INSERT_BATCH_ROWS rows"]]
  show ?thesis
    using chunks_bounds [of _ INSERT_BATCH_ROWS rows]
    by (simp add: insert_text_def insert_statements_def concat_map_singleton)
qed

lemma yields_header: "yields (dump_header dialect) []"
proof -
  have "NEWLINE \<notin> set ('' dbboard logical dump ('' @ (case dialect of Sqlite \<Rightarrow> ''sqlite''
      | Postgres \<Rightarrow> ''postgres'' | MySql \<Rightarrow> ''mysql'') @ '')'')"
    by (cases dialect) simp_all
  from yields_glue [OF glue_comment [OF this]] show ?thesis by (simp add: dump_header_def)
qed

lemma yields_name_comment:
  "NEWLINE \<notin> set name \<Longrightarrow> yields ([NEWLINE] @ ''-- '' @ name @ [NEWLINE]) []"
  using glue_append [OF glue_newline glue_comment [of "CHR '' '' # name"]]
  by (intro yields_glue) simp

lemma yields_ddl_text:
  assumes "NEWLINE \<notin> set (display_name table)" "yields ddl stmts"
  shows "yields (ddl_text table ddl) stmts"
proof -
  have "yields (if ends_with_char ddl NEWLINE then [] else [NEWLINE]) []"
    by (simp add: yields_glue)
  from yields_append [OF yields_name_comment [OF assms(1)] yields_append [OF assms(2) this]]
  show ?thesis by (simp add: ddl_text_def)
qed

definition table_statements :: "(json \<Rightarrow> string) \<Rightarrow> sql_dialect \<Rightarrow> table_info \<Rightarrow> table_source \<Rightarrow> string list \<Rightarrow> string list" where
  "table_statements json_text dialect table src ddl_statements =
     ddl_statements @ insert_statements json_text table (map col_name (src_columns src)) dialect (src_rows src)"

lemma yields_table_text:
  assumes "NEWLINE \<notin> set (display_name table)" "yields (src_ddl src) stmts" "src_columns src \<noteq> []"
  shows "yields (table_text json_text dialect table src) (table_statements json_text dialect table src stmts)"
  unfolding table_text_def table_statements_def
  using assms by (intro yields_append yields_ddl_text yields_insert_text) simp_all

section \<open>Properties\<close>

text \<open>
  C1. A dump restores what it dumped: under the conditions of a complete run, if no table name has
  a line break and every table's DDL is a sequence of terminated statements, the splitter of the
  restore cuts the dump into exactly the DDL statements and inserts of the tables, in order, each
  at most preceded by comments and white space.
\<close>

theorem dump_splits_back:
  assumes "has_table_ddl (ad_capabilities adapter)" "has_describe_table (ad_capabilities adapter)"
    and "list_all2 (\<lambda>p src. serves_table json_text adapter dialect (ds_db s) (tp_table p) src \<and>
      length (src_rows src) < fuel * READ_PAGE_ROWS) plan srcs"
    and "list_all2 (\<lambda>src stmts. yields (src_ddl src) stmts) srcs ddls"
    and "\<forall>p\<in>set plan. NEWLINE \<notin> set (display_name (tp_table p))" "ds_sink s = []"
  shows "\<exists>out s'. run_dump fuel json_text adapter quiet_ports dialect plan s = (Inr out, s') \<and>
    list_all2 preceded (split_statements (concat (ds_sink s')))
      (concat (map2 (\<lambda>p (src, stmts). table_statements json_text dialect (tp_table p) src stmts)
        plan (zip srcs ddls)))"
proof -
  have "yields (concat (map2 (\<lambda>p. table_text json_text dialect (tp_table p)) plan srcs))
      (concat (map2 (\<lambda>p (src, stmts). table_statements json_text dialect (tp_table p) src stmts)
        plan (zip srcs ddls)))"
    using assms(3,4,5)
  proof (induction plan srcs arbitrary: ddls rule: list_all2_induct)
    case Nil
    then show ?case by (simp add: yields_glue)
  next
    case (Cons p plan src srcs)
    then obtain stmts ddls' where ddls: "ddls = stmts # ddls'" "yields (src_ddl src) stmts"
      by (auto simp: list_all2_Cons1)
    moreover have "src_columns src \<noteq> []"
      using Cons.hyps(1) by (auto simp: serves_table_def keyed_rows_def)
    ultimately show ?case
      using Cons by (auto intro!: yields_append yields_table_text)
  qed
  from yields_split [OF yields_append [OF yields_header this]]
  show ?thesis
    using run_dump_parts [OF assms(1-3)] assms(6) by auto
qed

lemma sample_serves_table:
  "serves_table (\<lambda>_. []) sample_dump_adapter Sqlite () (table_unqualified ''t'')
    \<lparr>src_schema = sample_schema, src_ddl = ''CREATE TABLE t (id INTEGER PRIMARY KEY);'',
     src_columns = sample_columns, src_rows = sample_rows\<rparr>"
proof -
  have "ad_query sample_dump_adapter = sample_source READ_PAGE_ROWS"
    by (simp add: sample_dump_adapter_def sample_adapter_def adapter_defaults_def)
  then show ?thesis
    by (simp add: serves_table_def sample_dump_adapter_def sample_schema_def keyed_rows_def
        sample_source_serves) (simp add: sample_columns_def sample_rows_def)
qed

lemma yields_create: "yields ''CREATE TABLE t (id INTEGER PRIMARY KEY);'' [''CREATE TABLE t (id INTEGER PRIMARY KEY)'']"
proof -
  have "frag ''CREATE TABLE t (id INTEGER PRIMARY KEY)''"
    by (rule frag_number) (simp_all add: is_whitespace_def code_point_def quiet_def)
  from yields_statement [OF this] show ?thesis by simp
qed

theorem dump_splits_back_witness:
  "\<exists>out s'. run_dump 1 (\<lambda>_. []) sample_dump_adapter quiet_ports Sqlite sample_plan sample_state = (Inr out, s') \<and>
     list_all2 preceded (split_statements (concat (ds_sink s')))
       [''CREATE TABLE t (id INTEGER PRIMARY KEY)'',
        ''INSERT INTO '' @ quote_ident ''t'' Sqlite @ '' ('' @ quote_ident ''id'' Sqlite @ '') VALUES (1), (2), (3)'']"
proof -
  let ?src = "\<lparr>src_schema = sample_schema, src_ddl = ''CREATE TABLE t (id INTEGER PRIMARY KEY);'',
    src_columns = sample_columns, src_rows = sample_rows\<rparr>"
  have lits: "show_int 1 = ''1''" "show_int 2 = ''2''" "show_int 3 = ''3''" by code_simp+
  have tuple: "row_tuple (\<lambda>_. []) (Suc 0) [Integer n] Sqlite = ''('' @ show_int (sint n) @ '')''" for n
    by (simp add: row_tuple_def get_def)
  have "table_statements (\<lambda>_. []) Sqlite (table_unqualified ''t'') ?src [''CREATE TABLE t (id INTEGER PRIMARY KEY)'']
      = [''CREATE TABLE t (id INTEGER PRIMARY KEY)'',
        ''INSERT INTO '' @ quote_ident ''t'' Sqlite @ '' ('' @ quote_ident ''id'' Sqlite @ '') VALUES (1), (2), (3)'']"
    by (simp add: table_statements_def insert_statements_def sample_rows_def sample_columns_def
        chunks_short INSERT_BATCH_ROWS_def build_insert_def tuple lits qualified_table_def table_unqualified_def
        butlast_append)
  moreover have "NEWLINE \<notin> set (display_name (table_unqualified ''t''))" by code_simp
  ultimately show ?thesis
    using dump_splits_back [of sample_dump_adapter "\<lambda>_. []" Sqlite sample_state 1 sample_plan "[?src]"
        "[[''CREATE TABLE t (id INTEGER PRIMARY KEY)'']]"] sample_serves_table yields_create
    by (simp add: sample_plan_def sample_state_def sample_dump_adapter_def sample_rows_def
        READ_PAGE_ROWS_def MAX_RESULT_ROWS_def)
qed

text \<open>
  The comment a dump writes above a table carries the table's name unescaped: when the name is
  some text, a line break and an SQL statement with its terminator, the text written for the table
  yields that statement too, ahead of the DDL.
\<close>

theorem table_name_becomes_statement:
  assumes "display_name table = body @ [NEWLINE] @ f @ '';''" "NEWLINE \<notin> set body" "frag f"
    "yields ddl stmts" "ad_table_ddl adapter table (ds_db s) = (Inr ddl, db)"
    "has_table_ddl (ad_capabilities adapter)" "ds_sink s = []"
  shows "list_all2 preceded
    (split_statements (concat (ds_sink (snd (dump_table_ddl adapter quiet_ports table s))))) (f # stmts)"
proof -
  obtain s1 where s1: "write_ddl quiet_ports (display_name table) ddl (s\<lparr>ds_db := db\<rparr>) = (Inr (), s1)"
    "wrote (ddl_text table ddl) 0 (s\<lparr>ds_db := db\<rparr>) s1"
    using runs_to_write_ddl [of table ddl "s\<lparr>ds_db := db\<rparr>"] by (auto simp: runs_to_def)
  then have "concat (ds_sink (snd (dump_table_ddl adapter quiet_ports table s))) = ddl_text table ddl"
    using assms(5-7) by (simp add: dump_table_ddl_def dump_bind_def wrote_def)
  also have "\<dots> = ([NEWLINE] @ ''-- '' @ body @ [NEWLINE]) @ (f @ '';'') @ [NEWLINE] @ ddl @
      (if ends_with_char ddl NEWLINE then [] else [NEWLINE])"
    by (simp add: ddl_text_def assms(1))
  finally show ?thesis
    using yields_append [OF yields_name_comment [OF assms(2)] yields_append [OF yields_statement [OF assms(3)]
        yields_append [OF yields_glue [OF glue_newline] yields_append [OF assms(4) yields_glue
          [of "if ends_with_char ddl NEWLINE then [] else [NEWLINE]"]]]]]
    by (auto intro!: yields_split)
qed

theorem table_name_becomes_statement_witness:
  "list_all2 preceded (split_statements (concat (ds_sink (snd (dump_table_ddl sample_dump_adapter quiet_ports
       (table_unqualified (''a'' @ [NEWLINE] @ ''DROP TABLE users;'')) sample_state)))))
     [''DROP TABLE users'', ''CREATE TABLE t (id INTEGER PRIMARY KEY)'']"
proof (rule table_name_becomes_statement [where body = "''a''"])
  show "frag ''DROP TABLE users''"
    by (rule frag_number) (simp_all add: is_whitespace_def code_point_def quiet_def)
qed (simp_all add: display_name_def table_unqualified_def yields_create sample_dump_adapter_def sample_state_def)

end
