(* ===== verification/Restore_Run.thy ===== *)
theory Restore_Run
  imports Adapter
begin

text \<open>
  The restore orchestrator (\<open>dbboard-core/src/restore/run.rs\<close>): preflight, the empty-target gate,
  the atomic batch and the statement-by-statement run with its error policy. The state of a run is
  the database behind the adapter, the number of cancellation polls and the progress reports.
\<close>

section \<open>Plans, options and outcomes\<close>

record restore_progress =
  rp_statements_total :: nat
  rp_statements_done :: nat
  rp_current_index :: "nat option"

datatype on_error = Stop | Continue

record restore_options =
  ro_confirmed :: bool
  ro_on_error :: on_error

definition restore_options_default :: restore_options where
  "restore_options_default = \<lparr>ro_confirmed = False, ro_on_error = Stop\<rparr>"

record restore_plan =
  pl_statements :: "restore_statement list"
  pl_existing_tables :: "string list"

definition is_target_empty :: "restore_plan \<Rightarrow> bool" where
  "is_target_empty plan \<longleftrightarrow> pl_existing_tables plan = []"

definition runnable :: "restore_plan \<Rightarrow> restore_statement list" where
  "runnable plan = filter (\<lambda>s. rs_kind s \<noteq> Transaction_Control) (pl_statements plan)"

definition runnable_count :: "restore_plan \<Rightarrow> nat" where
  "runnable_count plan = length (runnable plan)"

record statement_failure =
  sf_index :: nat
  sf_message :: string

record restore_outcome =
  out_statements_run :: nat
  out_ddl_run :: nat
  out_data_run :: nat
  out_failures :: "statement_failure list"
  out_cancelled :: bool
  out_atomic :: bool

definition restore_outcome_default :: restore_outcome where
  "restore_outcome_default = \<lparr>out_statements_run = 0, out_ddl_run = 0, out_data_run = 0,
     out_failures = [], out_cancelled = False, out_atomic = False\<rparr>"

datatype restore_error =
    Target_Not_Empty "string list"
  | Unsupported string
  | Transaction string

fun restore_error_display :: "restore_error \<Rightarrow> string" where
  "restore_error_display (Target_Not_Empty existing) =
     ''restore target is not empty ('' @ show_nat (length existing) @ '' existing table(s))''"
| "restore_error_display (Unsupported m) = ''restore is unavailable: '' @ m"
| "restore_error_display (Transaction m) = ''restore transaction failed: '' @ m"

definition db_error_of_restore :: "restore_error \<Rightarrow> db_error" where
  "db_error_of_restore e = Query_Error (restore_error_display e)"

record 'd restore_state =
  st_db :: 'd
  st_polls :: nat
  st_reports :: "restore_progress list"

definition restore_report :: "nat \<Rightarrow> nat \<Rightarrow> nat option \<Rightarrow> 'd restore_state \<Rightarrow> 'd restore_state" where
  "restore_report n_total n_done current s = s\<lparr>st_reports := st_reports s @
     [\<lparr>rp_statements_total = n_total, rp_statements_done = n_done, rp_current_index = current\<rparr>]\<rparr>"

definition restore_is_cancelled :: "(nat \<Rightarrow> bool) \<Rightarrow> 'd restore_state \<Rightarrow> bool \<times> 'd restore_state" where
  "restore_is_cancelled cancel s = (cancel (st_polls s), s\<lparr>st_polls := st_polls s + 1\<rparr>)"

section \<open>Preflight\<close>

definition plan_restore ::
    "'x sql_parser \<Rightarrow> 'd adapter \<Rightarrow> sql_dialect \<Rightarrow> string \<Rightarrow> ('d, restore_plan) db_op" where
  "plan_restore parse_sql adapter dialect script_text db =
     (case ad_list_tables adapter db of
        (Inl e, db) \<Rightarrow> (Inl e, db)
      | (Inr tables, db) \<Rightarrow>
          (Inr \<lparr>pl_statements = classify_script parse_sql script_text dialect,
             pl_existing_tables = map display_name tables\<rparr>, db))"

section \<open>The run\<close>

definition count_kinds :: "restore_statement list \<Rightarrow> nat \<times> nat" where
  "count_kinds statements =
     (length (filter (\<lambda>s. rs_kind s = Ddl) statements),
      length (filter (\<lambda>s. rs_kind s = Data) statements))"

definition run_atomic ::
    "'d adapter \<Rightarrow> (nat \<Rightarrow> bool) \<Rightarrow> restore_statement list \<Rightarrow> nat \<Rightarrow> 'd restore_state \<Rightarrow>
     (restore_error + restore_outcome) \<times> 'd restore_state" where
  "run_atomic adapter cancel statements n_total s =
     (case restore_is_cancelled cancel s of
        (True, s) \<Rightarrow>
          (Inr (restore_outcome_default\<lparr>out_cancelled := True, out_atomic := True\<rparr>),
           restore_report n_total 0 None s)
      | (False, s) \<Rightarrow>
          (let s = restore_report n_total 0 (Some 0) s;
               sqls = map rs_sql statements
           in case ad_execute_in_transaction adapter sqls (st_db s) of
                (Inl e, db) \<Rightarrow> (Inl (Transaction (db_error_message e)), s\<lparr>st_db := db\<rparr>)
              | (Inr _, db) \<Rightarrow>
                  (let (ddl_run, data_run) = count_kinds statements;
                       s = restore_report n_total n_total None (s\<lparr>st_db := db\<rparr>)
                   in (Inr \<lparr>out_statements_run = n_total, out_ddl_run = ddl_run,
                         out_data_run = data_run, out_failures = [], out_cancelled = False,
                         out_atomic = True\<rparr>, s))))"

definition count_run :: "statement_kind \<Rightarrow> restore_outcome \<Rightarrow> restore_outcome" where
  "count_run kind out =
     (let out = out\<lparr>out_statements_run := out_statements_run out + 1\<rparr>
      in case kind of
           Ddl \<Rightarrow> out\<lparr>out_ddl_run := out_ddl_run out + 1\<rparr>
         | Data \<Rightarrow> out\<lparr>out_data_run := out_data_run out + 1\<rparr>
         | _ \<Rightarrow> out)"

definition record_failure :: "nat \<Rightarrow> string \<Rightarrow> restore_outcome \<Rightarrow> restore_outcome" where
  "record_failure index message out =
     out\<lparr>out_failures := out_failures out @ [\<lparr>sf_index = index, sf_message = message\<rparr>]\<rparr>"

fun run_statements ::
    "'d adapter \<Rightarrow> (nat \<Rightarrow> bool) \<Rightarrow> nat \<Rightarrow> on_error \<Rightarrow> nat \<Rightarrow> restore_statement list \<Rightarrow>
     restore_outcome \<Rightarrow> 'd restore_state \<Rightarrow> restore_outcome \<times> 'd restore_state" where
  "run_statements adapter cancel n_total policy index [] out s = (out, s)"
| "run_statements adapter cancel n_total policy index (statement # statements) out s =
     (case restore_is_cancelled cancel s of
        (True, s) \<Rightarrow> (out\<lparr>out_cancelled := True\<rparr>, s)
      | (False, s) \<Rightarrow>
          (let s = restore_report n_total (out_statements_run out) (Some index) s
           in case ad_execute adapter (rs_sql statement) (st_db s) of
                (Inr _, db) \<Rightarrow>
                  run_statements adapter cancel n_total policy (index + 1) statements
                    (count_run (rs_kind statement) out) (s\<lparr>st_db := db\<rparr>)
              | (Inl e, db) \<Rightarrow>
                  (let out = record_failure index (db_error_message e) out; s = s\<lparr>st_db := db\<rparr>
                   in if policy = Stop then (out, s)
                      else run_statements adapter cancel n_total policy (index + 1) statements out s)))"

definition run_per_statement ::
    "'d adapter \<Rightarrow> (nat \<Rightarrow> bool) \<Rightarrow> restore_statement list \<Rightarrow> nat \<Rightarrow> on_error \<Rightarrow> 'd restore_state \<Rightarrow>
     restore_outcome \<times> 'd restore_state" where
  "run_per_statement adapter cancel statements n_total policy s =
     (let (out, s) = run_statements adapter cancel n_total policy 0 statements
            (restore_outcome_default\<lparr>out_atomic := False\<rparr>) s
      in (out, restore_report n_total (out_statements_run out) None s))"

definition run_restore ::
    "'d adapter \<Rightarrow> (nat \<Rightarrow> bool) \<Rightarrow> restore_plan \<Rightarrow> restore_options \<Rightarrow> 'd restore_state \<Rightarrow>
     (restore_error + restore_outcome) \<times> 'd restore_state" where
  "run_restore adapter cancel plan options s =
     (if \<not> is_target_empty plan \<and> \<not> ro_confirmed options
        then (Inl (Target_Not_Empty (pl_existing_tables plan)), s)
      else
        (let caps = ad_capabilities adapter
         in if \<not> has_execute caps
              then (Inl (Unsupported ''this connection cannot execute statements''), s)
            else
              (let statements = runnable plan; n_total = length statements
               in if has_atomic_restore caps then run_atomic adapter cancel statements n_total s
                  else (let (out, s) = run_per_statement adapter cancel statements n_total
                              (ro_on_error options) s
                        in (Inr out, s)))))"

section \<open>What a run executes\<close>

text \<open>The answers and the final state of executing texts one after another.\<close>

fun exec_all :: "'d adapter \<Rightarrow> string list \<Rightarrow> 'd \<Rightarrow> u64 db_result list \<times> 'd" where
  "exec_all adapter [] db = ([], db)"
| "exec_all adapter (sql # sqls) db =
     (let (r, db) = ad_execute adapter sql db; (rs, db) = exec_all adapter sqls db in (r # rs, db))"

lemma exec_all_length: "length (fst (exec_all adapter sqls db)) = length sqls"
  by (induction sqls arbitrary: db) (auto simp: Let_def split: prod.split dest: arg_cong [of _ _ fst], metis fst_conv)

definition failed_at :: "nat \<Rightarrow> u64 db_result list \<Rightarrow> statement_failure list" where
  "failed_at index results = concat (map (\<lambda>(i, r). case r of
      Inl e \<Rightarrow> [\<lparr>sf_index = i, sf_message = db_error_message e\<rparr>] | Inr _ \<Rightarrow> [])
    (enumerate index results))"

lemma failed_at_Nil [simp]: "failed_at index [] = []"
  by (simp add: failed_at_def)

lemma failed_at_Cons [simp]: "failed_at index (r # rs) =
    (case r of Inl e \<Rightarrow> [\<lparr>sf_index = index, sf_message = db_error_message e\<rparr>] | Inr _ \<Rightarrow> []) @
    failed_at (Suc index) rs"
  by (simp add: failed_at_def)

definition succeeded :: "u64 db_result list \<Rightarrow> nat" where
  "succeeded results = length (filter is_ok results)"

definition applied ::
    "'d adapter \<Rightarrow> nat \<Rightarrow> on_error \<Rightarrow> restore_statement list \<Rightarrow> restore_outcome \<Rightarrow> 'd \<Rightarrow> restore_outcome \<Rightarrow> 'd \<Rightarrow> bool" where
  "applied adapter index policy statements out db out' db' \<longleftrightarrow> (\<exists>k results.
     k \<le> length statements \<and> exec_all adapter (map rs_sql (take k statements)) db = (results, db') \<and>
     out_failures out' = out_failures out @ failed_at index results \<and>
     out_statements_run out' = out_statements_run out + succeeded results \<and>
     (policy = Stop \<longrightarrow> (\<forall>r\<in>set (butlast results). is_ok r)) \<and>
     (k < length statements \<longrightarrow>
       out_cancelled out' \<or> policy = Stop \<and> results \<noteq> [] \<and> \<not> is_ok (last results)) \<and>
     (out_cancelled out' \<longrightarrow> out_cancelled out \<or> k < length statements))"

lemma count_run_simps [simp]:
  "out_failures (count_run kind out) = out_failures out"
  "out_statements_run (count_run kind out) = Suc (out_statements_run out)"
  "out_cancelled (count_run kind out) = out_cancelled out"
  by (simp_all add: count_run_def Let_def split: statement_kind.split)

lemma record_failure_simps [simp]:
  "out_failures (record_failure i m out) = out_failures out @ [\<lparr>sf_index = i, sf_message = m\<rparr>]"
  "out_statements_run (record_failure i m out) = out_statements_run out"
  "out_cancelled (record_failure i m out) = out_cancelled out"
  by (simp_all add: record_failure_def)

lemma run_statements_applied:
  "run_statements adapter cancel n_total policy index statements out s = (out', s') \<Longrightarrow>
    applied adapter index policy statements out (st_db s) out' (st_db s')"
proof (induction statements arbitrary: index out s)
  case Nil
  then show ?case by (auto simp: applied_def succeeded_def)
next
  case (Cons st statements)
  obtain r db where ex: "ad_execute adapter (rs_sql st) (st_db s) = (r, db)" by fastforce
  have step: "applied adapter index policy (st # statements) out (st_db s) out' (st_db s')"
    if "applied adapter (Suc index) policy statements out1 db out' (st_db s')"
      "out_failures out1 = out_failures out @ failed_at index [r]"
      "out_statements_run out1 = out_statements_run out + succeeded [r]"
      "out_cancelled out1 = out_cancelled out" "policy = Stop \<longrightarrow> is_ok r" for out1
  proof -
    from that(1) obtain k results where k: "k \<le> length statements"
      "exec_all adapter (map rs_sql (take k statements)) db = (results, st_db s')"
      "out_failures out' = out_failures out1 @ failed_at (Suc index) results"
      "out_statements_run out' = out_statements_run out1 + succeeded results"
      "policy = Stop \<longrightarrow> (\<forall>r\<in>set (butlast results). is_ok r)"
      "k < length statements \<longrightarrow>
       out_cancelled out' \<or> policy = Stop \<and> results \<noteq> [] \<and> \<not> is_ok (last results)"
      "out_cancelled out' \<longrightarrow> out_cancelled out1 \<or> k < length statements"
      unfolding applied_def by blast
    show ?thesis
      unfolding applied_def
      by (rule exI [of _ "Suc k"], rule exI [of _ "r # results"])
        (use k that ex in \<open>auto simp: succeeded_def\<close>)
  qed
  show ?case
  proof (cases "cancel (st_polls s)")
    case True
    with Cons.prems show ?thesis
      unfolding applied_def
      by (intro exI [of _ 0] exI [of _ "[]"]) (auto simp: restore_is_cancelled_def succeeded_def)
  next
    case False
    show ?thesis
    proof (cases r)
      case (Inr n)
      from Cons.prems False ex Inr have
        "run_statements adapter cancel n_total policy (index + 1) statements (count_run (rs_kind st) out)
          ((restore_report n_total (out_statements_run out) (Some index) (s\<lparr>st_polls := st_polls s + 1\<rparr>))
            \<lparr>st_db := db\<rparr>) = (out', s')"
        by (simp add: restore_is_cancelled_def Let_def restore_report_def)
      from Cons.IH [OF this] have "applied adapter (Suc index) policy statements (count_run (rs_kind st) out)
          db out' (st_db s')" by simp
      then show ?thesis by (rule step) (simp_all add: succeeded_def Inr)
    next
      case (Inl e)
      let ?out = "record_failure index (db_error_message e) out"
      let ?s = "(restore_report n_total (out_statements_run out) (Some index) (s\<lparr>st_polls := st_polls s + 1\<rparr>))
            \<lparr>st_db := db\<rparr>"
      have run: "(if policy = Stop then (?out, ?s)
          else run_statements adapter cancel n_total policy (index + 1) statements ?out ?s) = (out', s')"
        using Cons.prems False ex Inl
        by (simp add: restore_is_cancelled_def Let_def restore_report_def split: if_splits)
      show ?thesis
      proof (cases "policy = Stop")
        case True
        with run have "out' = ?out" "st_db s' = db" by auto
        then show ?thesis
          unfolding applied_def
          by (intro exI [of _ "Suc 0"] exI [of _ "[r]"]) (use True ex Inl in \<open>auto simp: succeeded_def\<close>)
      next
        case False
        with run have "run_statements adapter cancel n_total policy (index + 1) statements ?out ?s = (out', s')"
          by simp
        from Cons.IH [OF this] have "applied adapter (Suc index) policy statements ?out db out' (st_db s')"
          by simp
        then show ?thesis by (rule step) (simp_all add: succeeded_def Inl False)
      qed
    qed
  qed
qed

lemma run_restore_statements:
  assumes "is_target_empty plan \<or> ro_confirmed options" "has_execute (ad_capabilities adapter)"
    "\<not> has_atomic_restore (ad_capabilities adapter)"
    "run_restore adapter cancel plan options s = (r, s')"
  shows "\<exists>out. r = Inr out \<and> applied adapter 0 (ro_on_error options) (runnable plan)
    restore_outcome_default (st_db s) out (st_db s')"
proof -
  obtain out s1 where run: "run_statements adapter cancel (length (runnable plan)) (ro_on_error options) 0
      (runnable plan) (restore_outcome_default\<lparr>out_atomic := False\<rparr>) s = (out, s1)" by fastforce
  from run_statements_applied [OF run]
  have "applied adapter 0 (ro_on_error options) (runnable plan) restore_outcome_default (st_db s) out (st_db s1)"
    by (simp add: applied_def restore_outcome_default_def)
  with assms run show ?thesis
    by (auto simp: run_restore_def run_per_statement_def Let_def restore_report_def)
qed

section \<open>Properties\<close>

text \<open>
  C15. The empty-target gate: a run against a target that has tables, without confirmation, and a
  run on an adapter that cannot execute, end in an error and leave the whole state as it was: the
  database untouched, no poll, no report.
\<close>

theorem restore_gate:
  assumes "\<not> is_target_empty plan \<and> \<not> ro_confirmed options \<or> \<not> has_execute (ad_capabilities adapter)"
  shows "\<exists>e. run_restore adapter cancel plan options s = (Inl e, s) \<and>
    (\<not> is_target_empty plan \<and> \<not> ro_confirmed options \<longrightarrow> e = Target_Not_Empty (pl_existing_tables plan))"
  using assms by (auto simp: run_restore_def Let_def)

theorem restore_gate_witness:
  "\<exists>e. run_restore sample_adapter (\<lambda>_. False)
     \<lparr>pl_statements = [\<lparr>rs_sql = ''CREATE TABLE u (a)'', rs_kind = Ddl\<rparr>], pl_existing_tables = [''t'']\<rparr>
     restore_options_default \<lparr>st_db = (), st_polls = 0, st_reports = []\<rparr>
   = (Inl e, \<lparr>st_db = (), st_polls = 0, st_reports = []\<rparr>)"
  using restore_gate [of "\<lparr>pl_statements = [\<lparr>rs_sql = ''CREATE TABLE u (a)'', rs_kind = Ddl\<rparr>],
      pl_existing_tables = [''t'']\<rparr>" restore_options_default sample_adapter "\<lambda>_. False"
      "\<lparr>st_db = (), st_polls = 0, st_reports = []\<rparr>"]
  by (auto simp: is_target_empty_def restore_options_default_def)

text \<open>
  C10. Without an atomic batch, a run that passes the gate executes exactly the first k runnable
  statements of the script, in order and each once; transaction control is never among them. Every
  executed statement is counted as run or recorded as failed under its index, with the database's
  message. Under the Stop policy nothing is executed after a failure; and the run stops before the
  last statement only because it was cancelled or, under Stop, because the last one failed.
\<close>

theorem restore_executes_in_order:
  assumes "is_target_empty plan \<or> ro_confirmed options" "has_execute (ad_capabilities adapter)"
    "\<not> has_atomic_restore (ad_capabilities adapter)"
    "run_restore adapter cancel plan options s = (r, s')"
  shows "\<exists>out k results. r = Inr out \<and> k \<le> runnable_count plan \<and>
    exec_all adapter (map rs_sql (take k (runnable plan))) (st_db s) = (results, st_db s') \<and>
    (\<forall>st\<in>set (runnable plan). st \<in> set (pl_statements plan) \<and> rs_kind st \<noteq> Transaction_Control) \<and>
    out_failures out = failed_at 0 results \<and> out_statements_run out = succeeded results \<and>
    (ro_on_error options = Stop \<longrightarrow> (\<forall>r\<in>set (butlast results). is_ok r)) \<and>
    (k < runnable_count plan \<longrightarrow> out_cancelled out \<or>
      ro_on_error options = Stop \<and> results \<noteq> [] \<and> \<not> is_ok (last results)) \<and>
    (out_cancelled out \<longrightarrow> k < runnable_count plan)"
  using run_restore_statements [OF assms]
  by (auto simp: applied_def restore_outcome_default_def runnable_count_def runnable_def)

definition counting_adapter :: "string list adapter" where
  "counting_adapter = (adapter_defaults (\<lambda>d s. Inl [] :: string + unit statement list) ''d1''
      (capabilities_default\<lparr>has_execute := True\<rparr>) (\<lambda>db. (Inr (), db)) (\<lambda>db. (Inr [], db))
      (\<lambda>sql db. (Inr query_result_empty, db)))
     \<lparr>ad_execute := \<lambda>sql log. if sql = ''bad'' then (Inl (Query_Error ''no''), log) else (Inr 1, log @ [sql])\<rparr>"

theorem restore_executes_in_order_witness:
  "\<exists>out. fst (run_restore counting_adapter (\<lambda>_. False)
      \<lparr>pl_statements = [\<lparr>rs_sql = ''BEGIN'', rs_kind = Transaction_Control\<rparr>,
         \<lparr>rs_sql = ''bad'', rs_kind = Unparsed\<rparr>, \<lparr>rs_sql = ''INSERT'', rs_kind = Data\<rparr>],
       pl_existing_tables = []\<rparr> restore_options_default
      \<lparr>st_db = [], st_polls = 0, st_reports = []\<rparr>) = Inr out \<and>
     length (out_failures out) + out_statements_run out \<le> 1"
proof -
  let ?plan = "\<lparr>pl_statements = [\<lparr>rs_sql = ''BEGIN'', rs_kind = Transaction_Control\<rparr>,
         \<lparr>rs_sql = ''bad'', rs_kind = Unparsed\<rparr>, \<lparr>rs_sql = ''INSERT'', rs_kind = Data\<rparr>],
       pl_existing_tables = []\<rparr>"
  let ?s = "\<lparr>st_db = [], st_polls = 0, st_reports = []\<rparr>"
  obtain r s' where run: "run_restore counting_adapter (\<lambda>_. False) ?plan restore_options_default ?s = (r, s')"
    by fastforce
  have run2: "runnable ?plan = [\<lparr>rs_sql = ''bad'', rs_kind = Unparsed\<rparr>, \<lparr>rs_sql = ''INSERT'', rs_kind = Data\<rparr>]"
    by (simp add: runnable_def)
  have "has_execute (ad_capabilities counting_adapter)" "\<not> has_atomic_restore (ad_capabilities counting_adapter)"
    by (simp_all add: counting_adapter_def adapter_defaults_def capabilities_default_def)
  with restore_executes_in_order [OF _ _ _ run]
  obtain out k results where *: "r = Inr out" "k \<le> runnable_count ?plan"
    "exec_all counting_adapter (map rs_sql (take k (runnable ?plan))) (st_db ?s) = (results, st_db s')"
    "out_failures out = failed_at 0 results" "out_statements_run out = succeeded results"
    "ro_on_error restore_options_default = Stop \<longrightarrow> (\<forall>r\<in>set (butlast results). is_ok r)"
    by (auto simp: is_target_empty_def)
  have exec: "exec_all counting_adapter [''bad''] [] = ([Inl (Query_Error ''no'')], [])"
    "exec_all counting_adapter [''bad'', ''INSERT''] [] = ([Inl (Query_Error ''no''), Inr 1], [''INSERT''])"
    by (simp_all add: counting_adapter_def)
  from *(2) consider "k = 0" | "k = 1" | "k = 2" by (force simp: runnable_count_def run2)
  then have "length (out_failures out) + out_statements_run out \<le> 1"
    by cases (use * exec in \<open>auto simp: run2 succeeded_def restore_options_default_def\<close>)
  with * run show ?thesis by auto
qed

text \<open>
  With an atomic batch, a run that passes the gate hands the adapter the runnable statements of
  the script, all of them, in one call, or, when cancelled before it, none and leaves the database
  alone; a failing batch is an error and reports no statement as run.
\<close>

theorem restore_atomic_batch:
  assumes "is_target_empty plan \<or> ro_confirmed options" "has_execute (ad_capabilities adapter)"
    "has_atomic_restore (ad_capabilities adapter)"
    "run_restore adapter cancel plan options s = (r, s')"
  shows "if cancel (st_polls s)
    then st_db s' = st_db s \<and> (\<exists>out. r = Inr out \<and> out_cancelled out \<and> out_statements_run out = 0)
    else (let batch = ad_execute_in_transaction adapter (map rs_sql (runnable plan)) (st_db s)
      in st_db s' = snd batch \<and>
        (case fst batch of
           Inl e \<Rightarrow> r = Inl (Transaction (db_error_message e))
         | Inr _ \<Rightarrow> (\<exists>out. r = Inr out \<and> out_statements_run out = runnable_count plan \<and>
             out_ddl_run out + out_data_run out \<le> runnable_count plan \<and>
             out_failures out = [] \<and> \<not> out_cancelled out)))"
proof -
  have kinds: "length (filter (\<lambda>s. rs_kind s = Ddl) xs) + length (filter (\<lambda>s. rs_kind s = Data) xs) \<le> length xs"
    for xs by (induction xs) auto
  show ?thesis
    using assms kinds [of "runnable plan"]
    by (cases "ad_execute_in_transaction adapter (map rs_sql (runnable plan)) (st_db s)")
      (auto simp: run_restore_def run_atomic_def Let_def restore_is_cancelled_def restore_report_def
        count_kinds_def runnable_count_def restore_outcome_default_def split: if_splits sum.splits)
qed

definition batch_adapter :: "string list adapter" where
  "batch_adapter = counting_adapter\<lparr>
     ad_capabilities := capabilities_default\<lparr>has_execute := True, has_atomic_restore := True\<rparr>,
     ad_execute_in_transaction := \<lambda>sqls log. (Inr (), log @ sqls)\<rparr>"

theorem restore_atomic_batch_witness:
  "st_db (snd (run_restore batch_adapter (\<lambda>_. False)
      \<lparr>pl_statements = [\<lparr>rs_sql = ''BEGIN'', rs_kind = Transaction_Control\<rparr>,
         \<lparr>rs_sql = ''INSERT'', rs_kind = Data\<rparr>], pl_existing_tables = [''t'']\<rparr>
      \<lparr>ro_confirmed = True, ro_on_error = Stop\<rparr>
      \<lparr>st_db = [], st_polls = 0, st_reports = []\<rparr>)) = [''INSERT'']"
  (is "st_db (snd (run_restore _ _ ?plan ?options ?s)) = _")
proof -
  obtain r s' where run: "run_restore batch_adapter (\<lambda>_. False) ?plan ?options ?s = (r, s')" by fastforce
  from restore_atomic_batch [OF _ _ _ run] show ?thesis
    unfolding run by (simp add: batch_adapter_def runnable_def Let_def)
qed

end
