(* ===== verification/Ordered_Map.thy ===== *)
theory Ordered_Map
  imports Prelude
begin

text \<open>
  \<open>std::collections::BTreeMap\<close>: the pairs in the order of their keys. Lookup is \<open>map_of\<close>, and
  \<open>collect\<close> inserts one pair after the other, so of two pairs with one key the later stays.
\<close>

fun bt_insert :: "'k::linorder \<Rightarrow> 'v \<Rightarrow> ('k \<times> 'v) list \<Rightarrow> ('k \<times> 'v) list" where
  "bt_insert k v [] = [(k, v)]"
| "bt_insert k v ((k', v') # m) =
     (if k < k' then (k, v) # (k', v') # m
      else if k = k' then (k, v) # m
      else (k', v') # bt_insert k v m)"

definition bt_remove :: "'k \<Rightarrow> ('k \<times> 'v) list \<Rightarrow> ('k \<times> 'v) list" where
  "bt_remove k m = filter (\<lambda>(k', _). k' \<noteq> k) m"

definition bt_collect :: "('k::linorder \<times> 'v) list \<Rightarrow> ('k \<times> 'v) list" where
  "bt_collect xs = foldl (\<lambda>m (k, v). bt_insert k v m) [] xs"

definition bt_ordered :: "('k::linorder \<times> 'v) list \<Rightarrow> bool" where
  "bt_ordered m \<longleftrightarrow> sorted_wrt (<) (map fst m)"

lemma map_of_bt_insert [simp]: "map_of (bt_insert k v m) = (map_of m)(k \<mapsto> v)"
  by (induction k v m rule: bt_insert.induct) (auto simp: fun_eq_iff)

lemma keys_bt_insert [simp]: "fst ` set (bt_insert k v m) = insert k (fst ` set m)"
  by (induction k v m rule: bt_insert.induct) auto

lemma bt_ordered_insert: "bt_ordered m \<Longrightarrow> bt_ordered (bt_insert k v m)"
proof (induction k v m rule: bt_insert.induct)
  case (2 k v k' v' m)
  have "fst ` set (bt_insert k v m) = insert k (fst ` set m)" by simp
  then have "\<And>a. a \<in> fst ` set (bt_insert k v m) \<Longrightarrow> a = k \<or> a \<in> fst ` set m" by blast
  with 2 show ?case by (fastforce simp: bt_ordered_def)
qed (simp add: bt_ordered_def)

lemma map_of_bt_remove [simp]: "map_of (bt_remove k m) = (map_of m)(k := None)"
  by (induction m) (auto simp: bt_remove_def fun_eq_iff)

lemma bt_ordered_filter: "bt_ordered m \<Longrightarrow> bt_ordered (filter P m)"
  by (induction m) (auto simp: bt_ordered_def)

lemma bt_ordered_remove: "bt_ordered m \<Longrightarrow> bt_ordered (bt_remove k m)"
  by (simp add: bt_remove_def bt_ordered_filter)

lemma bt_ordered_distinct: "bt_ordered m \<Longrightarrow> distinct (map fst m)"
  by (simp add: bt_ordered_def strict_sorted_iff)

lemma bt_foldl:
  "bt_ordered m \<Longrightarrow> bt_ordered (foldl (\<lambda>m (k, v). bt_insert k v m) m xs) \<and>
    map_of (foldl (\<lambda>m (k, v). bt_insert k v m) m xs) = map_of m ++ map_of (rev xs)"
proof (induction xs arbitrary: m)
  case (Cons x xs)
  then show ?case by (cases x) (auto simp: bt_ordered_insert fun_eq_iff map_add_def split: option.split)
qed (simp add: bt_ordered_def)

lemma bt_ordered_collect [simp]: "bt_ordered (bt_collect xs)"
  using bt_foldl [of "[]" xs] by (simp add: bt_collect_def bt_ordered_def)

lemma map_of_bt_collect: "map_of (bt_collect xs) = map_of (rev xs)"
  using bt_foldl [of "[]" xs] by (simp add: bt_collect_def bt_ordered_def)

lemma bt_collect_member:
  assumes "(k, v) \<in> set (bt_collect xs)" shows "(k, v) \<in> set xs"
proof -
  have "map_of (bt_collect xs) k = Some v"
    using assms bt_ordered_distinct [OF bt_ordered_collect] by (rule map_of_is_SomeI [rotated])
  then show ?thesis by (auto simp: map_of_bt_collect dest: map_of_SomeD)
qed

section \<open>Comparing two keyed collections\<close>

text \<open>
  What is on one side only, in key order, and what differs on both. \<open>differ\<close> says how the two
  elements under one key differ, when they do.
\<close>

definition only_in :: "('k \<times> 'a) list \<Rightarrow> ('k \<times> 'a) list \<Rightarrow> 'a list" where
  "only_in m m' = map snd (filter (\<lambda>(k, _). map_of m' k = None) m)"

definition in_both :: "('a \<Rightarrow> 'a \<Rightarrow> 'c option) \<Rightarrow> ('k \<times> 'a) list \<Rightarrow> ('k \<times> 'a) list \<Rightarrow> 'c list" where
  "in_both differ m m' =
     List.map_filter (\<lambda>(k, l). Option.bind (map_of m' k) (\<lambda>r. differ l r)) m"

definition by_key :: "('a \<Rightarrow> 'k::linorder) \<Rightarrow> 'a list \<Rightarrow> ('k \<times> 'a) list" where
  "by_key key xs = bt_collect (map (\<lambda>x. (key x, x)) xs)"

definition split_by ::
    "('a \<Rightarrow> 'k::linorder) \<Rightarrow> ('a \<Rightarrow> 'a \<Rightarrow> 'c option) \<Rightarrow> 'a list \<Rightarrow> 'a list \<Rightarrow> 'a list \<times> 'a list \<times> 'c list" where
  "split_by key differ left right =
     (let l = by_key key left; r = by_key key right in (only_in l r, only_in r l, in_both differ l r))"

lemma by_key_ordered [simp]: "bt_ordered (by_key key xs)"
  by (simp add: by_key_def)

lemma by_key_member: "(k, x) \<in> set (by_key key xs) \<Longrightarrow> x \<in> set xs \<and> k = key x"
  by (auto simp: by_key_def dest!: bt_collect_member)

lemma by_key_keys: "map key (map snd (by_key key xs)) = map fst (by_key key xs)"
  by (auto dest: by_key_member)

lemma by_key_map_of: "map_of (by_key key xs) k = Some x \<Longrightarrow> x \<in> set xs \<and> key x = k"
  by (auto dest!: map_of_SomeD by_key_member)

lemma by_key_distinct:
  assumes "distinct (map key xs)"
  shows "map_of (by_key key xs) k = Some x \<longleftrightarrow> x \<in> set xs \<and> key x = k"
proof
  assume x: "x \<in> set xs \<and> key x = k"
  have "distinct (map fst (rev (map (\<lambda>x. (key x, x)) xs)))"
    using assms by (simp add: o_def flip: rev_map)
  then have "map_of (rev (map (\<lambda>x. (key x, x)) xs)) k = Some x"
    by (rule map_of_is_SomeI) (use x in auto)
  then show "map_of (by_key key xs) k = Some x"
    by (simp add: by_key_def map_of_bt_collect)
qed (rule by_key_map_of)

lemma only_in_sorted:
  assumes "sorted_wrt (<) (map fst m)" "\<And>k x. (k, x) \<in> set m \<Longrightarrow> k = key x"
  shows "sorted_wrt (<) (map key (only_in m m'))"
  using assms by (induction m) (fastforce simp: only_in_def)+

text \<open>
  The contract of a difference: equal elements do not differ. It is enough for the comparison of
  a collection with itself to be empty, and the three parts are empty together exactly when the
  two maps agree up to \<open>differ\<close>.
\<close>

definition agree :: "('a \<Rightarrow> 'k::linorder) \<Rightarrow> ('a \<Rightarrow> 'a \<Rightarrow> 'c option) \<Rightarrow> 'a list \<Rightarrow> 'a list \<Rightarrow> bool" where
  "agree key differ left right \<longleftrightarrow> (\<forall>k. rel_option (\<lambda>l r. differ l r = None)
     (map_of (by_key key left) k) (map_of (by_key key right) k))"

lemma only_in_empty: "only_in m m' = [] \<longleftrightarrow> (\<forall>k. map_of m k \<noteq> None \<longrightarrow> map_of m' k \<noteq> None)"
  by (force simp: only_in_def filter_empty_conv map_of_eq_None_iff)

lemma in_both_empty:
  "in_both differ m m' = [] \<longleftrightarrow> (\<forall>k l r. (k, l) \<in> set m \<longrightarrow> map_of m' k = Some r \<longrightarrow> differ l r = None)"
proof -
  have "in_both differ m m' = [] \<longleftrightarrow> (\<forall>(k, l)\<in>set m. Option.bind (map_of m' k) (differ l) = None)"
    by (induction m) (auto simp: in_both_def List.map_filter_simps split: option.splits)
  then show ?thesis by (auto simp: Option.bind_eq_None_conv)
qed

lemma split_empty_iff: "split_by key differ left right = ([], [], []) \<longleftrightarrow> agree key differ left right"
proof -
  let ?l = "by_key key left" and ?r = "by_key key right"
  have pair: "(k, x) \<in> set ?l \<longleftrightarrow> map_of ?l k = Some x" for k x
    using bt_ordered_distinct [OF by_key_ordered [of key left]] by simp
  have rel: "rel_option (\<lambda>l r. differ l r = None) a b \<longleftrightarrow> (a \<noteq> None \<longrightarrow> b \<noteq> None) \<and> (b \<noteq> None \<longrightarrow> a \<noteq> None) \<and>
      (\<forall>l r. a = Some l \<longrightarrow> b = Some r \<longrightarrow> differ l r = None)" for a b
    by (cases a; cases b) auto
  show ?thesis
    unfolding split_by_def Let_def agree_def prod.inject only_in_empty in_both_empty pair rel by blast
qed

locale keyed_diff =
  fixes key :: "'a \<Rightarrow> 'k::linorder" and differ :: "'a \<Rightarrow> 'a \<Rightarrow> 'c option"
  assumes differ_same: "differ x x = None"
begin

lemma agree_refl: "agree key differ xs xs"
  by (simp add: agree_def option.rel_refl differ_same)

lemma split_self: "split_by key differ xs xs = ([], [], [])"
  by (simp add: split_empty_iff agree_refl)

end

end
