(* ===== verification/Schema_Diff.thy ===== *)
theory Schema_Diff
  imports Core_Data Ordered_Map
begin

text \<open>
  Structural comparison of two schemas (\<open>dbboard-core/src/schema_diff.rs\<close>): tables by qualified
  name, columns and indexes by name, foreign keys by their local columns. The four comparisons are
  instances of one contract, the locale \<open>keyed_diff\<close>.
\<close>

section \<open>Snapshots and findings\<close>

record table_snapshot =
  sn_schema :: table_schema
  sn_foreign_keys :: "foreign_key list"
  sn_indexes :: "index_info list"

definition schema_only :: "table_schema \<Rightarrow> table_snapshot" where
  "schema_only schema = \<lparr>sn_schema = schema, sn_foreign_keys = [], sn_indexes = []\<rparr>"

datatype column_field = Declared_Type | Nullable | Default | Primary_Key_Flag

record column_diff =
  cd_name :: string
  cd_left :: column_info
  cd_right :: column_info
  cd_fields :: "column_field list"

datatype foreign_key_field = Referenced_Table | Referenced_Columns | Constraint_Name

record foreign_key_diff =
  fd_columns :: "string list"
  fd_left :: foreign_key
  fd_right :: foreign_key
  fd_fields :: "foreign_key_field list"

datatype index_field = Index_Columns | Index_Unique

record index_diff =
  id_name :: string
  id_left :: index_info
  id_right :: index_info
  id_fields :: "index_field list"

record table_diff =
  td_table :: table_info
  td_columns_only_in_left :: "column_info list"
  td_columns_only_in_right :: "column_info list"
  td_columns_changed :: "column_diff list"
  td_primary_key :: "(string list \<times> string list) option"
  td_foreign_keys_only_in_left :: "foreign_key list"
  td_foreign_keys_only_in_right :: "foreign_key list"
  td_foreign_keys_changed :: "foreign_key_diff list"
  td_indexes_only_in_left :: "index_info list"
  td_indexes_only_in_right :: "index_info list"
  td_indexes_changed :: "index_diff list"

record schema_diff =
  sd_tables_only_in_left :: "table_info list"
  sd_tables_only_in_right :: "table_info list"
  sd_tables_changed :: "table_diff list"
  sd_foreign_keys_compared :: bool
  sd_indexes_compared :: bool

definition schema_diff_is_empty :: "schema_diff \<Rightarrow> bool" where
  "schema_diff_is_empty d \<longleftrightarrow> sd_tables_only_in_left d = [] \<and> sd_tables_only_in_right d = [] \<and>
     sd_tables_changed d = []"

section \<open>The comparisons\<close>

definition table_key :: "table_info \<Rightarrow> string" where
  "table_key table =
     (case ti_schema table of
        Some s \<Rightarrow> if s \<noteq> [] then s @ ''.'' @ ti_name table else ti_name table
      | None \<Rightarrow> ti_name table)"

definition differing_fields :: "column_info \<Rightarrow> column_info \<Rightarrow> column_field list" where
  "differing_fields left right =
     (if ci_declared_type left \<noteq> ci_declared_type right then [Declared_Type] else []) @
     (if ci_nullable left \<noteq> ci_nullable right then [Nullable] else []) @
     (if ci_default_value left \<noteq> ci_default_value right then [Default] else []) @
     (if ci_primary_key left \<noteq> ci_primary_key right then [Primary_Key_Flag] else [])"

definition column_differ :: "column_info \<Rightarrow> column_info \<Rightarrow> column_diff option" where
  "column_differ l r =
     (let fields = differing_fields l r
      in if fields \<noteq> []
         then Some \<lparr>cd_name = ci_name l, cd_left = l, cd_right = r, cd_fields = fields\<rparr> else None)"

definition index_differ :: "index_info \<Rightarrow> index_info \<Rightarrow> index_diff option" where
  "index_differ l r =
     (let fields = (if ix_columns l \<noteq> ix_columns r then [Index_Columns] else []) @
            (if ix_unique l \<noteq> ix_unique r then [Index_Unique] else [])
      in if fields \<noteq> []
         then Some \<lparr>id_name = ix_name l, id_left = l, id_right = r, id_fields = fields\<rparr> else None)"

definition diff_indexes ::
    "index_info list \<Rightarrow> index_info list \<Rightarrow> index_info list \<times> index_info list \<times> index_diff list" where
  "diff_indexes left right = split_by ix_name index_differ left right"

definition foreign_key_key :: "foreign_key \<Rightarrow> string" where
  "foreign_key_key k = join [CHR 0x1F] (fk_columns k)"

definition foreign_key_differ :: "foreign_key \<Rightarrow> foreign_key \<Rightarrow> foreign_key_diff option" where
  "foreign_key_differ l r =
     (let fields = (if fk_referenced_table l \<noteq> fk_referenced_table r then [Referenced_Table] else []) @
            (if fk_referenced_columns l \<noteq> fk_referenced_columns r then [Referenced_Columns] else []) @
            (if fk_constraint_name l \<noteq> fk_constraint_name r then [Constraint_Name] else [])
      in if fields \<noteq> []
         then Some \<lparr>fd_columns = fk_columns l, fd_left = l, fd_right = r, fd_fields = fields\<rparr> else None)"

definition diff_foreign_keys ::
    "foreign_key list \<Rightarrow> foreign_key list \<Rightarrow> foreign_key list \<times> foreign_key list \<times> foreign_key_diff list" where
  "diff_foreign_keys left right = split_by foreign_key_key foreign_key_differ left right"

definition diff_table :: "table_snapshot \<Rightarrow> table_snapshot \<Rightarrow> table_diff option" where
  "diff_table left right =
     (let (only_in_left, only_in_right, changed) =
            split_by ci_name column_differ (ts_columns (sn_schema left)) (ts_columns (sn_schema right));
          primary_key = (if ts_primary_key (sn_schema left) \<noteq> ts_primary_key (sn_schema right)
            then Some (ts_primary_key (sn_schema left), ts_primary_key (sn_schema right)) else None);
          (fk_left, fk_right, fk_changed) = diff_foreign_keys (sn_foreign_keys left) (sn_foreign_keys right);
          (ix_left, ix_right, ix_changed) = diff_indexes (sn_indexes left) (sn_indexes right)
      in if only_in_left = [] \<and> only_in_right = [] \<and> changed = [] \<and> primary_key = None \<and>
            fk_left = [] \<and> fk_right = [] \<and> fk_changed = [] \<and>
            ix_left = [] \<and> ix_right = [] \<and> ix_changed = []
         then None
         else Some \<lparr>td_table = ts_table (sn_schema left), td_columns_only_in_left = only_in_left,
           td_columns_only_in_right = only_in_right, td_columns_changed = changed,
           td_primary_key = primary_key, td_foreign_keys_only_in_left = fk_left,
           td_foreign_keys_only_in_right = fk_right, td_foreign_keys_changed = fk_changed,
           td_indexes_only_in_left = ix_left, td_indexes_only_in_right = ix_right,
           td_indexes_changed = ix_changed\<rparr>)"

definition snapshot_key :: "table_snapshot \<Rightarrow> string" where
  "snapshot_key t = table_key (ts_table (sn_schema t))"

definition snapshot_table :: "table_snapshot \<Rightarrow> table_info" where
  "snapshot_table t = ts_table (sn_schema t)"

definition diff_snapshots :: "table_snapshot list \<Rightarrow> table_snapshot list \<Rightarrow> schema_diff" where
  "diff_snapshots left right =
     (let (only_in_left, only_in_right, changed) = split_by snapshot_key diff_table left right;
          any_keys = list_ex (\<lambda>t. sn_foreign_keys t \<noteq> []) (left @ right);
          any_indexes = list_ex (\<lambda>t. sn_indexes t \<noteq> []) (left @ right)
      in \<lparr>sd_tables_only_in_left = map snapshot_table only_in_left,
          sd_tables_only_in_right = map snapshot_table only_in_right,
          sd_tables_changed = changed, sd_foreign_keys_compared = any_keys,
          sd_indexes_compared = any_indexes\<rparr>)"

definition diff_schemas :: "table_schema list \<Rightarrow> table_schema list \<Rightarrow> schema_diff" where
  "diff_schemas left right = diff_snapshots (map schema_only left) (map schema_only right)"

section \<open>The contract, four times\<close>

interpretation column_cmp: keyed_diff ci_name column_differ
  by unfold_locales (simp add: column_differ_def differing_fields_def)

interpretation index_cmp: keyed_diff ix_name index_differ
  by unfold_locales (simp add: index_differ_def)

interpretation foreign_key_cmp: keyed_diff foreign_key_key foreign_key_differ
  by unfold_locales (simp add: foreign_key_differ_def)

interpretation table_cmp: keyed_diff snapshot_key diff_table
  by unfold_locales (simp add: diff_table_def diff_foreign_keys_def diff_indexes_def
      column_cmp.split_self index_cmp.split_self foreign_key_cmp.split_self)

text \<open>When two columns, indexes or foreign keys of one name do not differ.\<close>

definition same_column :: "column_info \<Rightarrow> column_info \<Rightarrow> bool" where
  "same_column l r \<longleftrightarrow> ci_declared_type l = ci_declared_type r \<and> ci_nullable l = ci_nullable r \<and>
     ci_default_value l = ci_default_value r \<and> ci_primary_key l = ci_primary_key r"

definition same_index :: "index_info \<Rightarrow> index_info \<Rightarrow> bool" where
  "same_index l r \<longleftrightarrow> ix_columns l = ix_columns r \<and> ix_unique l = ix_unique r"

definition same_foreign_key :: "foreign_key \<Rightarrow> foreign_key \<Rightarrow> bool" where
  "same_foreign_key l r \<longleftrightarrow> fk_referenced_table l = fk_referenced_table r \<and>
     fk_referenced_columns l = fk_referenced_columns r \<and> fk_constraint_name l = fk_constraint_name r"

lemma differ_iff:
  "column_differ c c' = None \<longleftrightarrow> same_column c c'"
  "index_differ i i' = None \<longleftrightarrow> same_index i i'"
  "foreign_key_differ f f' = None \<longleftrightarrow> same_foreign_key f f'"
  by (auto simp: column_differ_def differing_fields_def same_column_def index_differ_def same_index_def
      foreign_key_differ_def same_foreign_key_def Let_def)

text \<open>Two collections match when each name stands for elements that are the same, or for none.\<close>

definition matches :: "('a \<Rightarrow> string) \<Rightarrow> ('a \<Rightarrow> 'a \<Rightarrow> bool) \<Rightarrow> 'a list \<Rightarrow> 'a list \<Rightarrow> bool" where
  "matches key same left right \<longleftrightarrow>
     (\<forall>k. rel_option same (map_of (by_key key left) k) (map_of (by_key key right) k))"

lemma agree_matches: "(\<And>l r. differ l r = None \<longleftrightarrow> same l r) \<Longrightarrow> agree key differ left right \<longleftrightarrow> matches key same left right"
  by (simp add: agree_def matches_def)

definition same_table :: "table_snapshot \<Rightarrow> table_snapshot \<Rightarrow> bool" where
  "same_table l r \<longleftrightarrow> ts_primary_key (sn_schema l) = ts_primary_key (sn_schema r) \<and>
     matches ci_name same_column (ts_columns (sn_schema l)) (ts_columns (sn_schema r)) \<and>
     matches foreign_key_key same_foreign_key (sn_foreign_keys l) (sn_foreign_keys r) \<and>
     matches ix_name same_index (sn_indexes l) (sn_indexes r)"

lemma diff_table_None: "diff_table l r = None \<longleftrightarrow> same_table l r"
proof -
  note parts = agree_matches [of column_differ same_column ci_name, OF differ_iff(1)]
    agree_matches [of index_differ same_index ix_name, OF differ_iff(2)]
    agree_matches [of foreign_key_differ same_foreign_key foreign_key_key, OF differ_iff(3)]
  show ?thesis
    unfolding same_table_def parts [symmetric] split_empty_iff [symmetric]
    by (auto simp: diff_table_def diff_foreign_keys_def diff_indexes_def Let_def split: prod.split if_splits)
qed

lemma diff_snapshots_empty:
  "schema_diff_is_empty (diff_snapshots left right) \<longleftrightarrow> matches snapshot_key same_table left right"
proof -
  have "schema_diff_is_empty (diff_snapshots left right) \<longleftrightarrow>
      split_by snapshot_key diff_table left right = ([], [], [])"
    by (auto simp: schema_diff_is_empty_def diff_snapshots_def Let_def split: prod.split)
  then show ?thesis
    by (simp add: split_empty_iff agree_matches [of diff_table same_table, OF diff_table_None])
qed

section \<open>Properties\<close>


text \<open>
  A report is in a fixed order whatever order the tables arrived in: the tables on one side
  only are listed by strictly increasing qualified name, so each name is reported once.
\<close>

theorem schema_diff_ordered:
  "sorted_wrt (<) (map table_key (sd_tables_only_in_left (diff_snapshots left right))) \<and>
   sorted_wrt (<) (map table_key (sd_tables_only_in_right (diff_snapshots left right))) \<and>
   set (sd_tables_only_in_left (diff_snapshots left right)) \<inter>
     set (sd_tables_only_in_right (diff_snapshots left right)) = {}"
proof -
  let ?l = "by_key snapshot_key left" and ?r = "by_key snapshot_key right"
  have eq: "sd_tables_only_in_left (diff_snapshots left right) = map snapshot_table (only_in ?l ?r)"
    "sd_tables_only_in_right (diff_snapshots left right) = map snapshot_table (only_in ?r ?l)"
    by (simp_all add: diff_snapshots_def split_by_def Let_def)
  have key: "table_key (snapshot_table t) = snapshot_key t" for t
    by (simp add: snapshot_table_def snapshot_key_def)
  have sorted: "sorted_wrt (<) (map snapshot_key (only_in (by_key snapshot_key xs) m))" for xs m
    by (rule only_in_sorted) (use by_key_ordered [of snapshot_key xs] in \<open>auto simp: bt_ordered_def dest: by_key_member\<close>)
  have keys: "map_of (by_key snapshot_key xs) (snapshot_key t) \<noteq> None \<and> map_of m (snapshot_key t) = None"
    if "t \<in> set (only_in (by_key snapshot_key xs) m)" for t xs m
  proof -
    from that obtain k where k: "(k, t) \<in> set (by_key snapshot_key xs)" "map_of m k = None"
      by (auto simp: only_in_def)
    then have "k = snapshot_key t" by (auto dest: by_key_member)
    with k show ?thesis by (force simp: map_of_eq_None_iff)
  qed
  have "snapshot_table a \<noteq> snapshot_table b" if "a \<in> set (only_in ?l ?r)" "b \<in> set (only_in ?r ?l)" for a b
    using keys [OF that(1)] keys [OF that(2)] by (metis key)
  then show ?thesis using sorted by (auto simp: eq key o_def)
qed

text \<open>
  Foreign keys are matched on their local columns alone, so of two keys on the same columns
  only the last is compared: a key present on one side and missing on the other goes unreported.
\<close>

theorem foreign_key_collision_missed:
  "fk_columns k = fk_columns k' \<Longrightarrow> diff_foreign_keys [k, k'] [k'] = ([], [], [])"
proof -
  assume "fk_columns k = fk_columns k'"
  then have "by_key foreign_key_key [k, k'] = by_key foreign_key_key [k']"
    by (simp add: by_key_def bt_collect_def foreign_key_key_def)
  then have "agree foreign_key_key foreign_key_differ [k, k'] [k']"
    using foreign_key_cmp.agree_refl [of "[k']"] by (simp add: agree_def)
  then show ?thesis by (simp add: diff_foreign_keys_def split_empty_iff)
qed

theorem foreign_key_collision_missed_witness:
  "diff_foreign_keys
     [\<lparr>fk_columns = [''a''], fk_referenced_table = table_unqualified ''p'', fk_referenced_columns = [''id''],
        fk_constraint_name = Some ''one''\<rparr>,
      \<lparr>fk_columns = [''a''], fk_referenced_table = table_unqualified ''q'', fk_referenced_columns = [''id''],
        fk_constraint_name = Some ''two''\<rparr>]
     [\<lparr>fk_columns = [''a''], fk_referenced_table = table_unqualified ''q'', fk_referenced_columns = [''id''],
        fk_constraint_name = Some ''two''\<rparr>] = ([], [], [])"
  by (rule foreign_key_collision_missed) simp

end
