(* ===== verification/Row_History.thy ===== *)
theory Row_History
  imports Core_Data
begin

text \<open>
  \<open>history.rs\<close>: what a versioned database shows of a row's past. Two rows are compared cell by
  cell; the equality of document cells (\<open>serde_json::Value\<close>) is a parameter, \<open>json_eq\<close>.
\<close>

record commit =
  cm_hash :: string
  cm_author :: string
  cm_email :: string
  cm_date :: string
  cm_message :: string

record row_version =
  rv_commit :: commit
  rv_values :: row

record row_history =
  rh_columns :: "column list"
  rh_versions :: "row_version list"

datatype change_kind = Added | Modified | Removed

record row_change =
  rc_kind :: change_kind
  rc_before :: "row option"
  rc_after :: "row option"
  rc_changed_columns :: "nat list"

record commit_diff =
  cd_columns :: "column list"
  cd_changes :: "row_change list"

record blame_entry =
  bl_key :: row
  bl_commit :: commit

fun same_value :: "(json \<Rightarrow> json \<Rightarrow> bool) \<Rightarrow> val \<Rightarrow> val \<Rightarrow> bool" where
  "same_value json_eq (Real x) (Real y) = (x = y \<or> is_nan x \<and> is_nan y)"
| "same_value json_eq (Json a) (Json b) = json_eq a b"
| "same_value json_eq a b = (a = b)"

definition changed_columns :: "(json \<Rightarrow> json \<Rightarrow> bool) \<Rightarrow> row \<Rightarrow> row \<Rightarrow> nat list" where
  "changed_columns json_eq before after =
     filter (\<lambda>i. case (get before i, get after i) of
                   (Some a, Some b) \<Rightarrow> \<not> same_value json_eq a b
                 | _ \<Rightarrow> True)
       [0..<max (length before) (length after)]"

definition between :: "(json \<Rightarrow> json \<Rightarrow> bool) \<Rightarrow> row option \<Rightarrow> row option \<Rightarrow> row_change option" where
  "between json_eq before after =
     (case (before, after) of
        (None, None) \<Rightarrow> None
      | (None, Some b) \<Rightarrow> Some \<lparr>rc_kind = Added, rc_before = before, rc_after = after,
                               rc_changed_columns = [0..<length b]\<rparr>
      | (Some a, None) \<Rightarrow> Some \<lparr>rc_kind = Removed, rc_before = before, rc_after = after,
                               rc_changed_columns = [0..<length a]\<rparr>
      | (Some a, Some b) \<Rightarrow>
          (let changed = changed_columns json_eq a b
           in if changed = [] then None
              else Some \<lparr>rc_kind = Modified, rc_before = before, rc_after = after,
                         rc_changed_columns = changed\<rparr>))"

lemma same_value_refl: "(\<And>t. json_eq t t) \<Longrightarrow> same_value json_eq v v"
  by (cases v) auto

lemma same_value_sym: "(\<And>s t. json_eq s t \<Longrightarrow> json_eq t s) \<Longrightarrow> same_value json_eq v w \<Longrightarrow> same_value json_eq w v"
  by (cases v; cases w) auto

lemma set_changed_columns:
  "i \<in> set (changed_columns json_eq before after) \<longleftrightarrow>
     i < max (length before) (length after) \<and>
     \<not> (i < length before \<and> i < length after \<and> same_value json_eq (before ! i) (after ! i))"
  by (auto simp: changed_columns_def split: option.splits)

lemma sorted_changed_columns: "sorted_wrt (<) (changed_columns json_eq before after)"
  unfolding changed_columns_def by (intro sorted_wrt_filter) simp

lemma changed_columns_empty:
  "changed_columns json_eq before after = [] \<longleftrightarrow> list_all2 (same_value json_eq) before after"
proof (cases "length before = length after")
  case True
  then have "changed_columns json_eq before after =
      filter (\<lambda>i. \<not> same_value json_eq (before ! i) (after ! i)) [0..<length before]"
    by (auto simp: changed_columns_def get_def intro: filter_cong)
  with True show ?thesis by (auto simp: filter_empty_conv list_all2_conv_all_nth)
next
  case False
  then have "min (length before) (length after) \<in> set (changed_columns json_eq before after)"
    by (auto simp: set_changed_columns)
  then have "changed_columns json_eq before after \<noteq> []" by auto
  with False show ?thesis by (simp add: list_all2_conv_all_nth)
qed

text \<open>
  A change is reported exactly when the two sides differ in the presence of the row, in its
  width or in a cell; what is reported names every differing column once, in increasing order,
  keeps both sides, and an added or removed row marks all its columns.
\<close>

theorem between_reports_differences:
  "(between json_eq before after = None \<longleftrightarrow>
      (case (before, after) of (Some a, Some b) \<Rightarrow> list_all2 (same_value json_eq) a b
       | (None, None) \<Rightarrow> True | _ \<Rightarrow> False)) \<and>
   (case between json_eq before after of None \<Rightarrow> True | Some c \<Rightarrow>
      rc_before c = before \<and> rc_after c = after \<and> sorted_wrt (<) (rc_changed_columns c) \<and>
      (rc_kind c = Added \<longleftrightarrow> before = None) \<and> (rc_kind c = Removed \<longleftrightarrow> after = None) \<and>
      (let a = (case before of Some r \<Rightarrow> r | None \<Rightarrow> []);
           b = (case after of Some r \<Rightarrow> r | None \<Rightarrow> [])
       in set (rc_changed_columns c) =
            {i. i < max (length a) (length b) \<and>
                \<not> (i < length a \<and> i < length b \<and> same_value json_eq (a ! i) (b ! i))}))"
  by (cases before; cases after)
    (auto simp: between_def Let_def changed_columns_empty set_changed_columns sorted_changed_columns)

text \<open>
  A cell that was not rewritten never counts as changed, a NaN included, although \<open>f64\<close> compares
  NaN unequal to itself; and a zero that changed sign counts as changed.
\<close>

lemma nan_cell_unchanged: "(\<And>t. json_eq t t) \<Longrightarrow> changed_columns json_eq r r = []"
  by (simp add: changed_columns_empty list_all2_same same_value_refl)

lemma zero_sign_changed: "changed_columns json_eq [Real (F64 0)] [Real (F64 (push_bit 63 1))] = [0]"
  by (simp add: changed_columns_def is_nan_def f64_exponent_def f64_fraction_def)

end
