(* ===== verification/Redis_Command.thy ===== *)
theory Redis_Command
  imports Core_Data
begin

text \<open>
  Crate \<open>dbboard-redis\<close>, \<open>command.rs\<close>: splitting a command line into the words the server would
  receive. The peekable character iterator is the remaining text; a reader returns the word it
  built and the text it left.
\<close>

datatype split_error = Unterminated_Quote | Text_After_Quote

fun split_error_display :: "split_error \<Rightarrow> string" where
  "split_error_display Unterminated_Quote = ''a quote is opened and never closed''"
| "split_error_display Text_After_Quote =
     ''a closing quote must be followed by a space or the end of the line''"

fun bare :: "string \<Rightarrow> string \<Rightarrow> string \<times> string" where
  "bare word [] = (word, [])"
| "bare word (c # chars) =
     (if is_whitespace c then (word, c # chars) else bare (word @ [c]) chars)"

abbreviation (input) quote_char :: char where "quote_char \<equiv> CHR 0x22"
abbreviation (input) backslash :: char where "backslash \<equiv> CHR 0x5C"
abbreviation (input) apostrophe :: char where "apostrophe \<equiv> CHR 0x27"

definition unescape :: "char \<Rightarrow> char" where
  "unescape c =
     (if c = CHR ''n'' then CHR 0x0A else if c = CHR ''r'' then CHR 0x0D
      else if c = CHR ''t'' then CHR 0x09 else c)"

fun double_quoted :: "string \<Rightarrow> string \<Rightarrow> split_error + string \<times> string" where
  "double_quoted word [] = Inl Unterminated_Quote"
| "double_quoted word (c # chars) =
     (if c = quote_char then Inr (word, chars)
      else if c = backslash then
        (case chars of
           [] \<Rightarrow> Inl Unterminated_Quote
         | d # chars' \<Rightarrow> double_quoted (word @ [unescape d]) chars')
      else double_quoted (word @ [c]) chars)"

fun single_quoted :: "string \<Rightarrow> string \<Rightarrow> split_error + string \<times> string" where
  "single_quoted word [] = Inl Unterminated_Quote"
| "single_quoted word (c # chars) =
     (if c = apostrophe then Inr (word, chars) else single_quoted (word @ [c]) chars)"

lemma bare_eq: "bare word chars =
    (word @ takeWhile (\<lambda>c. \<not> is_whitespace c) chars, dropWhile (\<lambda>c. \<not> is_whitespace c) chars)"
  by (induction word chars rule: bare.induct) auto

lemma double_quoted_shorter: "double_quoted word chars = Inr (w, rest) \<Longrightarrow> length rest < length chars"
  by (induction word chars rule: double_quoted.induct) (fastforce split: if_splits list.splits)+

lemma single_quoted_shorter: "single_quoted word chars = Inr (w, rest) \<Longrightarrow> length rest < length chars"
  by (induction word chars rule: single_quoted.induct) (fastforce split: if_splits)+

definition glued :: "char \<Rightarrow> string \<Rightarrow> bool" where
  "glued first chars \<longleftrightarrow> (first = quote_char \<or> first = apostrophe) \<and>
     (case chars of [] \<Rightarrow> False | c # _ \<Rightarrow> \<not> is_whitespace c)"

definition next_word :: "char \<Rightarrow> string \<Rightarrow> split_error + string \<times> string" where
  "next_word first chars =
     (if first = quote_char then double_quoted [] chars
      else if first = apostrophe then single_quoted [] chars
      else Inr (bare [first] chars))"

lemma next_word_shorter: "next_word first chars = Inr (w, rest) \<Longrightarrow> length rest \<le> length chars"
  by (auto simp: next_word_def bare_eq length_dropWhile_le split: if_splits
      dest: double_quoted_shorter single_quoted_shorter)

text \<open>The loop of \<open>split\<close>, from the words found so far; it ends because every word consumes text.\<close>

function split_loop :: "string list \<Rightarrow> string \<Rightarrow> split_error + string list" where
  "split_loop words chars =
     (case dropWhile is_whitespace chars of
        [] \<Rightarrow> Inr words
      | first # chars' \<Rightarrow>
          (case next_word first chars' of
             Inl e \<Rightarrow> Inl e
           | Inr (word, rest) \<Rightarrow>
               if glued first rest then Inl Text_After_Quote
               else split_loop (words @ [word]) rest))"
  by pat_completeness auto
termination
proof (relation "measure (length \<circ> snd)", goal_cases)
  case (2 words chars first chars' p word rest)
  have "length (dropWhile is_whitespace chars) \<le> length chars" by (rule length_dropWhile_le)
  moreover have "length rest \<le> length chars'" using 2 by (auto dest: next_word_shorter)
  ultimately show ?case using 2 by simp
qed simp

declare split_loop.simps [simp del]

definition split_words :: "string \<Rightarrow> split_error + string list" where
  "split_words line = split_loop [] line"

section \<open>Every list of words can be typed\<close>

text \<open>A word as a person would quote it: in double quotes, with a backslash before each special.\<close>

definition quote_word :: "string \<Rightarrow> string" where
  "quote_word w = [quote_char] @
     concat (map (\<lambda>c. if c = quote_char \<or> c = backslash then [backslash, c] else [c]) w) @ [quote_char]"

lemma double_quoted_quote_word:
  "double_quoted word (concat (map (\<lambda>c. if c = quote_char \<or> c = backslash then [backslash, c] else [c]) w)
     @ quote_char # rest) = Inr (word @ w, rest)"
  by (induction w arbitrary: word) (auto simp: unescape_def)

lemma split_loop_quoted:
  assumes "rest = [] \<or> is_whitespace (hd rest)"
  shows "split_loop words (quote_word w @ rest) = split_loop (words @ [w]) rest"
proof -
  have "dropWhile is_whitespace (quote_word w @ rest) = quote_char # tl (quote_word w @ rest)"
    by (simp add: quote_word_def is_whitespace_def code_point_def)
  moreover have "next_word quote_char (tl (quote_word w @ rest)) = Inr (w, rest)"
    using double_quoted_quote_word [of "[]" w rest] by (simp add: next_word_def quote_word_def)
  moreover have "\<not> glued quote_char rest"
    using assms by (auto simp: glued_def split: list.split)
  ultimately show ?thesis by (subst split_loop.simps) simp
qed

lemma split_loop_space: "is_whitespace c \<Longrightarrow> split_loop words (c # rest) = split_loop words rest"
  by (subst (1 2) split_loop.simps) simp

text \<open>
  Any list of words can be typed as one line and reaches the server unchanged, words with
  spaces, quotes, backslashes and line breaks and the empty word included: splitting the line of
  the quoted words gives back the words.
\<close>

theorem split_words_round_trip: "split_words (join '' '' (map quote_word ws)) = Inr ws"
proof -
  have "split_loop words (join '' '' (map quote_word ws)) = Inr (words @ ws)" for words
  proof (induction ws arbitrary: words)
    case Nil
    show ?case by (subst split_loop.simps) simp
  next
    case (Cons w ws)
    show ?case
    proof (cases "ws = []")
      case True
      then show ?thesis using split_loop_quoted [of "[]" words w]
        by (simp, subst split_loop.simps, simp)
    next
      case False
      have space: "is_whitespace (CHR '' '')" by (simp add: is_whitespace_def code_point_def)
      have "split_loop words (join '' '' (map quote_word (w # ws))) =
          split_loop words (quote_word w @ CHR '' '' # join '' '' (map quote_word ws))"
        using False by (simp add: join_Cons)
      also have "\<dots> = split_loop (words @ [w]) (CHR '' '' # join '' '' (map quote_word ws))"
        by (rule split_loop_quoted) (simp add: space)
      also have "\<dots> = Inr (words @ w # ws)"
        using Cons.IH [of "words @ [w]"] by (simp add: split_loop_space [OF space])
      finally show ?thesis .
    qed
  qed
  then show ?thesis by (simp add: split_words_def)
qed

end
