(* ===== verification/Redis_Policy.thy ===== *)
theory Redis_Policy
  imports Redis_Command
begin

text \<open>
  Crate \<open>dbboard-redis\<close>, \<open>read_only.rs\<close>: the allowlist between a typed command and the server.
  Each function of the file is a definition of the same name; \<open>rule\<close> is the table of commands.
\<close>

definition MAX_SCAN_COUNT :: nat where "MAX_SCAN_COUNT = 1000"

datatype reply_shape =
    Value | Values | Field_Values | Member_Scores | Scan_Keys | Scan_Field_Values
  | Scan_Members | Scan_Member_Scores | Entries | Info

record size_guard =
  sg_command :: string
  sg_key :: string

record read_plan =
  rp_words :: "string list"
  rp_shape :: reply_shape
  rp_guard :: "size_guard option"

datatype violation =
    Split split_error
  | Empty
  | Not_Allowed string
  | Keys
  | Wrong_Arguments string
  | Unknown_Option string string
  | Count_Too_Large string nat
  | Count_Required string

fun violation_display :: "violation \<Rightarrow> string" where
  "violation_display (Split e) = ''the command could not be read: '' @ split_error_display e"
| "violation_display Empty = ''there is no command to run''"
| "violation_display (Not_Allowed name) = name @
     '' is not a command dbboard sends: only reads from its allowlist reach the server (ADR-0166)''"
| "violation_display Keys = ''KEYS reads every key in one call and blocks the server while it does: '' @
     ''use SCAN 0 MATCH <pattern> COUNT 100''"
| "violation_display (Wrong_Arguments name) = name @ '' was given the wrong number of arguments''"
| "violation_display (Unknown_Option command opt) =
     command @ '' does not take '' @ opt @ '' here, so it was not sent''"
| "violation_display (Count_Too_Large command n) =
     command @ '' may ask for at most '' @ show_nat n @ '' at a time''"
| "violation_display (Count_Required name) = name @ '' needs COUNT <n> (at most '' @
     show_nat MAX_RESULT_ROWS @ '') so a long stream is not read whole''"

definition violation_db_error :: "violation \<Rightarrow> db_error" where
  "violation_db_error v = Query_Error (violation_display v)"

type_synonym rule_result = "violation + reply_shape \<times> size_guard option"

definition printable_char :: "char \<Rightarrow> bool" where
  "printable_char c \<longleftrightarrow> is_ascii_alphanumeric c \<or> c = CHR ''_'' \<or> c = CHR ''-''"

definition printable :: "string \<Rightarrow> string" where
  "printable word =
     (let clean = to_ascii_uppercase (take 32 (filter printable_char word))
      in if clean = [] then ''that command'' else clean)"

definition unknown :: "string \<Rightarrow> string \<Rightarrow> violation" where
  "unknown command opt = Unknown_Option command (printable opt)"

definition plain :: "reply_shape \<Rightarrow> reply_shape \<times> size_guard option" where
  "plain shape = (shape, None)"

definition arity :: "string \<Rightarrow> string list \<Rightarrow> nat \<Rightarrow> nat \<Rightarrow> violation + unit" where
  "arity name args low high =
     (if low \<le> length args \<and> length args \<le> high then Inr () else Inl (Wrong_Arguments name))"

definition many :: "string \<Rightarrow> string list \<Rightarrow> nat \<Rightarrow> violation + unit" where
  "many name args low = arity name args low MAX_RESULT_ROWS"

definition section_name :: "string \<Rightarrow> bool" where
  "section_name a \<longleftrightarrow> a \<noteq> [] \<and> (\<forall>c\<in>set a. is_ascii_alphanumeric c \<or> c = CHR ''_'')"

definition info :: "string list \<Rightarrow> rule_result" where
  "info args =
     (case find (\<lambda>a. \<not> section_name a) args of
        Some a \<Rightarrow> Inl (unknown ''INFO'' a)
      | None \<Rightarrow> Inr (plain Info))"

definition rank :: "string \<Rightarrow> string list \<Rightarrow> rule_result" where
  "rank name args = rbind (arity name args 2 3) (\<lambda>_.
     case get args 2 of
       Some opt \<Rightarrow>
         if \<not> eq_ignore_ascii_case opt ''WITHSCORE'' then Inl (unknown name opt)
         else Inr (plain Values)
     | None \<Rightarrow> Inr (plain Value))"

definition object :: "string list \<Rightarrow> rule_result" where
  "object args = rbind (arity ''OBJECT'' args 2 2) (\<lambda>_.
     if to_ascii_uppercase (args ! 0) \<in> set [''ENCODING'', ''FREQ'', ''IDLETIME'', ''REFCOUNT'']
     then Inr (plain Value) else Inl (unknown ''OBJECT'' (args ! 0)))"

definition memory_usage :: "string list \<Rightarrow> rule_result" where
  "memory_usage args =
     (if (case args of [] \<Rightarrow> True | s # _ \<Rightarrow> \<not> eq_ignore_ascii_case s ''USAGE'')
      then Inl (Not_Allowed ''MEMORY'')
      else if length args = 2 then Inr (plain Value)
      else if length args = 4 then
        (if eq_ignore_ascii_case (args ! 2) ''SAMPLES'' \<and> parse_u32 (args ! 3) \<noteq> None
         then Inr (plain Value) else Inl (unknown ''MEMORY'' (args ! 2)))
      else Inl (Wrong_Arguments ''MEMORY''))"

definition guard :: "string \<Rightarrow> string \<Rightarrow> size_guard" where
  "guard command key = \<lparr>sg_command = command, sg_key = key\<rparr>"

definition whole :: "string \<Rightarrow> string list \<Rightarrow> string \<Rightarrow> reply_shape \<Rightarrow> rule_result" where
  "whole name args len shape = rbind (arity name args 1 1) (\<lambda>_.
     Inr (shape, Some (guard len (args ! 0))))"

definition indexes :: "string \<Rightarrow> string \<Rightarrow> string \<Rightarrow> violation + int \<times> int" where
  "indexes name start stop =
     (case (parse_i64 start, parse_i64 stop) of
        (Some a, Some b) \<Rightarrow> Inr (a, b)
      | _ \<Rightarrow> Inl (Wrong_Arguments name))"

definition bound :: int where
  "bound = (if int MAX_RESULT_ROWS < 2 ^ 63 then int MAX_RESULT_ROWS else 2 ^ 63 - 1)"

definition range :: "string \<Rightarrow> string list \<Rightarrow> string \<Rightarrow> rule_result" where
  "range name args len = rbind (arity name args 3 3) (\<lambda>_.
     rbind (indexes name (args ! 1) (args ! 2)) (\<lambda>(start, stop).
       let small = start \<ge> 0 \<and> stop \<ge> start \<and> stop - start < bound
       in Inr (Values, if small then None else Some (guard len (args ! 0)))))"

fun zrange_options :: "bool \<Rightarrow> string list \<Rightarrow> violation + bool" where
  "zrange_options scores [] = Inr scores"
| "zrange_options scores (opt # opts) =
     (if to_ascii_uppercase opt = ''WITHSCORES'' \<and> \<not> scores then zrange_options True opts
      else if to_ascii_uppercase opt = ''REV'' then zrange_options scores opts
      else Inl (unknown ''ZRANGE'' opt))"

definition zrange :: "string list \<Rightarrow> rule_result" where
  "zrange args =
     (if length args < 3 then Inl (Wrong_Arguments ''ZRANGE'')
      else rbind (zrange_options False (drop 3 args)) (\<lambda>scores.
        rbind (range ''ZRANGE'' (take 3 args) ''ZCARD'') (\<lambda>(_, sized).
          Inr (if scores then Member_Scores else Values, sized))))"

abbreviation parse_usize :: "string \<Rightarrow> nat option" where
  "parse_usize \<equiv> parse_unsigned (2 ^ 64)"

fun scan_options :: "string \<Rightarrow> bool \<Rightarrow> string list \<Rightarrow> violation + bool" where
  "scan_options name no_values [] = Inr no_values"
| "scan_options name no_values (opt # rest) =
     (if to_ascii_uppercase opt = ''MATCH'' then
        (case rest of
           [] \<Rightarrow> Inl (Wrong_Arguments name)
         | _ # rest' \<Rightarrow> scan_options name no_values rest')
      else if to_ascii_uppercase opt = ''COUNT'' then
        (case rest of
           [] \<Rightarrow> Inl (Wrong_Arguments name)
         | n # rest' \<Rightarrow>
             (case parse_usize n of
                None \<Rightarrow> Inl (Wrong_Arguments name)
              | Some n \<Rightarrow> if n > MAX_SCAN_COUNT then Inl (Count_Too_Large name MAX_SCAN_COUNT)
                          else scan_options name no_values rest'))
      else if to_ascii_uppercase opt = ''TYPE'' \<and> name = ''SCAN'' then
        (case rest of
           [] \<Rightarrow> Inl (Wrong_Arguments name)
         | _ # rest' \<Rightarrow> scan_options name no_values rest')
      else if to_ascii_uppercase opt = ''NOVALUES'' \<and> name = ''HSCAN'' then
        scan_options name True rest
      else Inl (unknown name opt))"

definition scan :: "string \<Rightarrow> string list \<Rightarrow> nat \<Rightarrow> rule_result" where
  "scan name args keys =
     (if length args < keys + 1 \<or> parse_u64 (args ! keys) = None then Inl (Wrong_Arguments name)
      else rbind (scan_options name False (drop (keys + 1) args)) (\<lambda>no_values.
        Inr (plain
          (if name = ''SCAN'' then Scan_Keys
           else if name = ''HSCAN'' \<and> no_values then Scan_Members
           else if name = ''HSCAN'' then Scan_Field_Values
           else if name = ''ZSCAN'' then Scan_Member_Scores
           else Scan_Members))))"

definition xrange :: "string \<Rightarrow> string list \<Rightarrow> rule_result" where
  "xrange name args =
     (if length args = 3 then Inl (Count_Required name)
      else if length args = 5 then
        (if eq_ignore_ascii_case (args ! 3) ''COUNT'' then
           (case parse_usize (args ! 4) of
              None \<Rightarrow> Inl (Wrong_Arguments name)
            | Some n \<Rightarrow> if n > MAX_RESULT_ROWS then Inl (Count_Too_Large name MAX_RESULT_ROWS)
                        else Inr (plain Entries))
         else Inl (unknown name (args ! 3)))
      else Inl (Wrong_Arguments name))"

definition xinfo :: "string list \<Rightarrow> rule_result" where
  "xinfo args =
     (if length args = 2 \<and> eq_ignore_ascii_case (args ! 0) ''STREAM'' then Inr (plain Field_Values)
      else if length args > 2 \<and> eq_ignore_ascii_case (args ! 0) ''STREAM'' then
        Inl (unknown ''XINFO'' (args ! 2))
      else Inl (Not_Allowed ''XINFO''))"

definition rule :: "string \<Rightarrow> string list \<Rightarrow> rule_result" where
  "rule name args =
     (if name = ''PING'' then rmap (\<lambda>_. plain Value) (arity name args 0 1)
      else if name = ''DBSIZE'' then rmap (\<lambda>_. plain Value) (arity name args 0 0)
      else if name = ''INFO'' then info args
      else if name \<in> set [''TYPE'', ''TTL'', ''PTTL'', ''EXPIRETIME'', ''PEXPIRETIME'', ''STRLEN'',
          ''GET'', ''HLEN'', ''LLEN'', ''SCARD'', ''ZCARD'', ''XLEN'']
        then rmap (\<lambda>_. plain Value) (arity name args 1 1)
      else if name \<in> set [''HGET'', ''HEXISTS'', ''HSTRLEN'', ''LINDEX'', ''SISMEMBER'', ''ZSCORE'']
        then rmap (\<lambda>_. plain Value) (arity name args 2 2)
      else if name \<in> set [''GETRANGE'', ''ZCOUNT''] then rmap (\<lambda>_. plain Value) (arity name args 3 3)
      else if name \<in> set [''EXISTS'', ''MGET'']
        then rmap (\<lambda>_. plain (if name = ''MGET'' then Values else Value)) (many name args 1)
      else if name \<in> set [''HMGET'', ''SMISMEMBER''] then rmap (\<lambda>_. plain Values) (many name args 2)
      else if name \<in> set [''ZRANK'', ''ZREVRANK''] then rank name args
      else if name = ''OBJECT'' then object args
      else if name = ''MEMORY'' then memory_usage args
      else if name = ''HGETALL'' then whole name args ''HLEN'' Field_Values
      else if name \<in> set [''HKEYS'', ''HVALS''] then whole name args ''HLEN'' Values
      else if name = ''SMEMBERS'' then whole name args ''SCARD'' Values
      else if name = ''LRANGE'' then range name args ''LLEN''
      else if name = ''ZRANGE'' then zrange args
      else if name = ''SCAN'' then scan name args 0
      else if name \<in> set [''HSCAN'', ''SSCAN'', ''ZSCAN''] then scan name args 1
      else if name \<in> set [''XRANGE'', ''XREVRANGE''] then xrange name args
      else if name = ''XINFO'' then xinfo args
      else if name = ''UMBRA.BRANCHES'' then rmap (\<lambda>_. plain Value) (arity name args 0 0)
      else if name = ''UMBRA.LOG'' then rmap (\<lambda>_. plain Value) (arity name args 1 1)
      else if name \<in> set [''UMBRA.HISTORY'', ''UMBRA.DIFF''] then rmap (\<lambda>_. plain Value) (arity name args 2 2)
      else if name = ''UMBRA.CELLS'' then rmap (\<lambda>_. plain Value) (arity name args 1 2)
      else if name = ''KEYS'' then Inl Keys
      else Inl (Not_Allowed (printable name)))"

definition classify :: "string \<Rightarrow> violation + read_plan" where
  "classify line =
     (case split_words line of
        Inl e \<Rightarrow> Inl (Split e)
      | Inr [] \<Rightarrow> Inl Empty
      | Inr (first # args) \<Rightarrow>
          (let name = to_ascii_uppercase first
           in rbind (rule name args) (\<lambda>(shape, sized).
                Inr \<lparr>rp_words = name # args, rp_shape = shape, rp_guard = sized\<rparr>)))"

end
