(* ===== verification/Redis_Policy_Proofs.thy ===== *)
theory Redis_Policy_Proofs
  imports Redis_Policy
begin

text \<open>
  What the allowlist of \<open>Redis_Policy\<close> guarantees: only reads are approved, approved reads are
  bounded by the row cap, and a refusal repeats nothing of the typed line as it stood.
\<close>

section \<open>What the allowlist lets through\<close>

text \<open>The commands that take a fixed range of arguments, with the reply's shape and the range.\<close>

definition FIXED :: "(string \<times> reply_shape \<times> nat \<times> nat) list" where
  "FIXED = (''PING'', Value, 0, 1) # (''DBSIZE'', Value, 0, 0) #
     map (\<lambda>n. (n, Value, 1, 1)) [''TYPE'', ''TTL'', ''PTTL'', ''EXPIRETIME'', ''PEXPIRETIME'', ''STRLEN'',
        ''GET'', ''HLEN'', ''LLEN'', ''SCARD'', ''ZCARD'', ''XLEN''] @
     map (\<lambda>n. (n, Value, 2, 2)) [''HGET'', ''HEXISTS'', ''HSTRLEN'', ''LINDEX'', ''SISMEMBER'', ''ZSCORE''] @
     map (\<lambda>n. (n, Value, 3, 3)) [''GETRANGE'', ''ZCOUNT''] @
     [(''EXISTS'', Value, 1, MAX_RESULT_ROWS), (''MGET'', Values, 1, MAX_RESULT_ROWS),
      (''HMGET'', Values, 2, MAX_RESULT_ROWS), (''SMISMEMBER'', Values, 2, MAX_RESULT_ROWS),
      (''UMBRA.BRANCHES'', Value, 0, 0), (''UMBRA.LOG'', Value, 1, 1), (''UMBRA.HISTORY'', Value, 2, 2),
      (''UMBRA.DIFF'', Value, 2, 2), (''UMBRA.CELLS'', Value, 1, 2)]"

text \<open>
  The specification of a read: the names of commands that only read, whatever their arguments, and
  the subcommands of the three commands that also have administrative ones.
\<close>

definition READ_COMMANDS :: "string list" where
  "READ_COMMANDS = map fst FIXED @
     [''INFO'', ''ZRANK'', ''ZREVRANK'', ''HGETALL'', ''HKEYS'', ''HVALS'', ''SMEMBERS'', ''LRANGE'', ''ZRANGE'',
      ''SCAN'', ''HSCAN'', ''SSCAN'', ''ZSCAN'', ''XRANGE'', ''XREVRANGE'']"

definition READ_SUBCOMMANDS :: "(string \<times> string list) list" where
  "READ_SUBCOMMANDS = [(''OBJECT'', [''ENCODING'', ''FREQ'', ''IDLETIME'', ''REFCOUNT'']),
     (''MEMORY'', [''USAGE'']), (''XINFO'', [''STREAM''])]"

definition only_reads :: "string list \<Rightarrow> bool" where
  "only_reads words =
     (case words of
        [] \<Rightarrow> False
      | name # args \<Rightarrow>
          (case map_of READ_SUBCOMMANDS name of
             None \<Rightarrow> name \<in> set READ_COMMANDS
           | Some subs \<Rightarrow> (case args of [] \<Rightarrow> False | sub # _ \<Rightarrow> to_ascii_uppercase sub \<in> set subs)))"

lemmas rule_parts = arity_def many_def info_def rank_def object_def memory_usage_def whole_def
  range_def indexes_def zrange_def scan_def xrange_def xinfo_def plain_def Let_def

lemma lower_upper: "ascii_lower (ascii_upper c) = ascii_lower c"
proof (cases "is_ascii_lower c")
  case True
  then have range: "97 \<le> (of_char c :: nat)" "of_char c \<le> (122 :: nat)"
    by (simp_all add: char_class_defs)
  then have "(of_char c - 32) mod 256 = (of_char c - 32 :: nat)" by simp
  moreover have "65 \<le> (of_char c :: nat) - 32" "(of_char c :: nat) - 32 \<le> 90" using range by simp_all
  ultimately show ?thesis using range by (simp add: ascii_lower_def ascii_upper_def char_class_defs)
qed (simp add: ascii_upper_def)

lemma upper_lower: "ascii_upper (ascii_lower c) = ascii_upper c"
proof (cases "is_ascii_upper c")
  case True
  then have "(of_char c :: nat) + 32 < 256" "\<not> is_ascii_lower c" by (simp_all add: char_class_defs)
  with True show ?thesis by (simp add: ascii_lower_def ascii_upper_def char_class_defs)
qed (simp add: ascii_lower_def)

lemma eq_ignore_ascii_case_upper:
  "eq_ignore_ascii_case a b \<longleftrightarrow> to_ascii_uppercase a = to_ascii_uppercase b"
proof -
  have "to_ascii_lowercase (to_ascii_uppercase s) = to_ascii_lowercase s"
    "to_ascii_uppercase (to_ascii_lowercase s) = to_ascii_uppercase s" for s
    by (simp_all add: to_ascii_lowercase_def to_ascii_uppercase_def lower_upper upper_lower)
  then show ?thesis unfolding eq_ignore_ascii_case_def by metis
qed

lemma object_reads: "object args = Inr r \<Longrightarrow> only_reads (''OBJECT'' # args)"
  by (cases args) (auto simp: object_def arity_def only_reads_def READ_SUBCOMMANDS_def split: if_splits)

lemma memory_reads: "memory_usage args = Inr r \<Longrightarrow> only_reads (''MEMORY'' # args)"
  by (cases args) (auto simp: memory_usage_def only_reads_def READ_SUBCOMMANDS_def
    eq_ignore_ascii_case_upper to_ascii_uppercase_def ascii_upper_def char_class_defs split: if_splits)

lemma xinfo_reads: "xinfo args = Inr r \<Longrightarrow> only_reads (''XINFO'' # args)"
  by (cases args) (auto simp: xinfo_def only_reads_def READ_SUBCOMMANDS_def
    eq_ignore_ascii_case_upper to_ascii_uppercase_def ascii_upper_def char_class_defs split: if_splits)

lemma listed_reads: "name \<in> set READ_COMMANDS \<Longrightarrow> only_reads (name # args)"
  by (auto simp: only_reads_def READ_COMMANDS_def READ_SUBCOMMANDS_def FIXED_def)

lemma rule_only_reads: "rule name args = Inr r \<Longrightarrow> only_reads (name # args)"
proof (cases "name \<in> set READ_COMMANDS \<union> {''OBJECT'', ''MEMORY'', ''XINFO''}")
  case True
  assume "rule name args = Inr r"
  then show ?thesis using True object_reads [of args r] memory_reads [of args r] xinfo_reads [of args r]
      listed_reads [of name args]
    by (auto simp: rule_def)
next
  case False
  assume "rule name args = Inr r"
  moreover have "rule name args = (if name = ''KEYS'' then Inl Keys else Inl (Not_Allowed (printable name)))"
    using False by (simp add: rule_def READ_COMMANDS_def FIXED_def)
  ultimately show ?thesis by (simp split: if_splits)
qed

text \<open>
  C34. Only reads reach the server: whatever line is typed, an approved plan sends its words as they
  were split, with the command's name upper-cased, and the command is one of the listed reads, or
  the reading subcommand of OBJECT, MEMORY or XINFO. Anything else, KEYS included, is refused.
\<close>

theorem classify_only_reads:
  "case classify line of
     Inr plan \<Rightarrow> only_reads (rp_words plan) \<and>
       (\<exists>first args. split_words line = Inr (first # args) \<and> rp_words plan = to_ascii_uppercase first # args)
   | Inl _ \<Rightarrow> True"
  by (auto simp: classify_def Let_def dest: rule_only_reads split: sum.splits list.splits)

section \<open>The table of commands by their arguments\<close>

lemma rule_fixed:
  assumes "map_of FIXED name = Some (shape, low, high)"
  shows "rule name args = rmap (\<lambda>_. plain shape) (arity name args low high)"
proof -
  have "\<forall>(name, shape, low, high) \<in> set FIXED.
      rule name args = rmap (\<lambda>_. plain shape) (arity name args low high)"
    unfolding FIXED_def by (simp add: rule_def many_def)
  with map_of_SomeD [OF assms] show ?thesis by fast
qed

definition SIZE_COMMANDS :: "(string \<times> string) list" where
  "SIZE_COMMANDS = [(''HGETALL'', ''HLEN''), (''HKEYS'', ''HLEN''), (''HVALS'', ''HLEN''),
     (''SMEMBERS'', ''SCARD''), (''LRANGE'', ''LLEN''), (''ZRANGE'', ''ZCARD'')]"

lemma rule_helpers:
  "rule ''INFO'' args = info args"
  "rule ''ZRANK'' args = rank ''ZRANK'' args"
  "rule ''ZREVRANK'' args = rank ''ZREVRANK'' args"
  "rule ''OBJECT'' args = object args"
  "rule ''MEMORY'' args = memory_usage args"
  "rule ''HGETALL'' args = whole ''HGETALL'' args ''HLEN'' Field_Values"
  "rule ''HKEYS'' args = whole ''HKEYS'' args ''HLEN'' Values"
  "rule ''HVALS'' args = whole ''HVALS'' args ''HLEN'' Values"
  "rule ''SMEMBERS'' args = whole ''SMEMBERS'' args ''SCARD'' Values"
  "rule ''LRANGE'' args = range ''LRANGE'' args ''LLEN''"
  "rule ''ZRANGE'' args = zrange args"
  "rule ''SCAN'' args = scan ''SCAN'' args 0"
  "rule ''HSCAN'' args = scan ''HSCAN'' args 1"
  "rule ''SSCAN'' args = scan ''SSCAN'' args 1"
  "rule ''ZSCAN'' args = scan ''ZSCAN'' args 1"
  "rule ''XRANGE'' args = xrange ''XRANGE'' args"
  "rule ''XREVRANGE'' args = xrange ''XREVRANGE'' args"
  "rule ''XINFO'' args = xinfo args"
  by (simp_all add: rule_def)

definition COMMANDS :: "string list" where
  "COMMANDS = map fst READ_SUBCOMMANDS @ READ_COMMANDS"

lemma command_cases:
  assumes "name \<in> set COMMANDS"
  obtains (fixed) shape low high where "map_of FIXED name = Some (shape, low, high)"
  | (info) "name = ''INFO''"
  | (rank) "name \<in> {''ZRANK'', ''ZREVRANK''}"
  | (object) "name = ''OBJECT''"
  | (memory) "name = ''MEMORY''"
  | (whole) "name \<in> {''HGETALL'', ''HKEYS'', ''HVALS'', ''SMEMBERS''}"
  | (range) "name = ''LRANGE''"
  | (zrange) "name = ''ZRANGE''"
  | (scan) "name \<in> {''SCAN'', ''HSCAN'', ''SSCAN'', ''ZSCAN''}"
  | (xrange) "name \<in> {''XRANGE'', ''XREVRANGE''}"
  | (xinfo) "name = ''XINFO''"
proof -
  have "name \<in> fst ` set FIXED \<or>
      name = ''INFO'' \<or> name \<in> {''ZRANK'', ''ZREVRANK''} \<or> name = ''OBJECT'' \<or> name = ''MEMORY'' \<or>
      name \<in> {''HGETALL'', ''HKEYS'', ''HVALS'', ''SMEMBERS''} \<or> name = ''LRANGE'' \<or> name = ''ZRANGE'' \<or>
      name \<in> {''SCAN'', ''HSCAN'', ''SSCAN'', ''ZSCAN''} \<or> name \<in> {''XRANGE'', ''XREVRANGE''} \<or> name = ''XINFO''"
    using assms unfolding COMMANDS_def READ_COMMANDS_def READ_SUBCOMMANDS_def
      list.map set_append set_map list.set fst_conv Un_iff insert_iff empty_iff by argo
  then show thesis
  proof (elim disjE)
    assume "name \<in> fst ` set FIXED"
    then obtain r where "map_of FIXED name = Some r" by (metis map_of_eq_None_iff not_Some_eq)
    then show thesis using that(1) by (cases r) auto
  qed (fact that)+
qed

lemma rule_unknown:
  "name \<notin> set COMMANDS \<Longrightarrow>
    rule name args = (if name = ''KEYS'' then Inl Keys else Inl (Not_Allowed (printable name)))"
  by (simp add: rule_def COMMANDS_def READ_COMMANDS_def READ_SUBCOMMANDS_def FIXED_def)

section \<open>How much an approved read returns\<close>

text \<open>
  The server's side, as documented for Redis: a negative index counts from the end of a collection
  of \<open>n\<close> members, and a range is inclusive on both ends.
\<close>

definition range_count :: "int \<Rightarrow> int \<Rightarrow> nat \<Rightarrow> nat" where
  "range_count start stop n =
     (let at = (\<lambda>i. if i < 0 then i + int n else i)
      in length (filter (\<lambda>i. at start \<le> int i \<and> int i \<le> at stop) [0..<n]))"

definition reply_items :: "string list \<Rightarrow> nat \<Rightarrow> nat" where
  "reply_items words n =
     (let name = hd words; args = tl words
      in if name \<in> set [''HGETALL'', ''HKEYS'', ''HVALS'', ''SMEMBERS''] then n
         else if name \<in> set [''LRANGE'', ''ZRANGE'']
           then range_count (the (parse_i64 (args ! 1))) (the (parse_i64 (args ! 2))) n
         else if name = ''MGET'' then length args
         else if name \<in> set [''HMGET'', ''SMISMEMBER''] then length args - 1
         else if name \<in> set [''XRANGE'', ''XREVRANGE''] then the (parse_usize (args ! 4))
         else if name \<in> set [''ZRANK'', ''ZREVRANK''] then 2
         else 1)"

lemma range_count_le: "range_count start stop n \<le> n"
  unfolding range_count_def Let_def by (rule order_trans [OF length_filter_le]) simp

lemma range_count_small:
  assumes "0 \<le> start" "start \<le> stop"
  shows "int (range_count start stop n) \<le> stop - start + 1"
proof -
  have "range_count start stop n = card {i. i < n \<and> start \<le> int i \<and> int i \<le> stop}"
    using assms by (simp add: range_count_def Let_def distinct_length_filter) (rule arg_cong [of _ _ card], auto) 
  also have "\<dots> \<le> card {nat start..nat stop}"
    by (rule card_mono) (use assms in auto)
  finally show ?thesis using assms by simp
qed

lemma range_bounded:
  assumes "range name args len = Inr (shape, sized)" "sized = None \<or> n \<le> MAX_RESULT_ROWS"
  shows "range_count (the (parse_i64 (args ! 1))) (the (parse_i64 (args ! 2))) n \<le> MAX_RESULT_ROWS \<and>
    (\<forall>g. sized = Some g \<longrightarrow> sg_key g = args ! 0 \<and> sg_command g = len) \<and> length args = 3"
proof -
  from assms(1) obtain a b where ab: "parse_i64 (args ! 1) = Some a" "parse_i64 (args ! 2) = Some b"
    and sized: "sized = (if 0 \<le> a \<and> a \<le> b \<and> b - a < bound then None else Some (guard len (args ! 0)))"
    and three: "length args = 3"
    by (auto simp: range_def indexes_def arity_def Let_def split: if_splits option.splits)
  have "range_count a b n \<le> MAX_RESULT_ROWS"
  proof (cases "0 \<le> a \<and> a \<le> b \<and> b - a < bound")
    case True
    then show ?thesis using range_count_small [of a b n] by (simp add: bound_def MAX_RESULT_ROWS_def)
  next
    case False
    then have "sized \<noteq> None" using sized by (simp only: if_False simp_thms) simp
    then have "n \<le> MAX_RESULT_ROWS" using assms(2) by blast
    then show ?thesis using range_count_le [of a b n] by simp
  qed
  then show ?thesis using ab sized three by (auto simp: guard_def)
qed

definition within :: "nat \<Rightarrow> string \<Rightarrow> string list \<Rightarrow> size_guard option \<Rightarrow> bool" where
  "within n name args sized \<longleftrightarrow> reply_items (name # args) n \<le> MAX_RESULT_ROWS \<and>
     (\<forall>g. sized = Some g \<longrightarrow> sg_key g = args ! 0 \<and> map_of SIZE_COMMANDS name = Some (sg_command g))"

lemma within_one:
  "name \<notin> set (map fst SIZE_COMMANDS) \<Longrightarrow> name \<notin> {''MGET'', ''HMGET'', ''SMISMEMBER''} \<Longrightarrow>
    name \<notin> {''XRANGE'', ''XREVRANGE''} \<Longrightarrow> within n name args None"
  by (simp add: within_def reply_items_def SIZE_COMMANDS_def MAX_RESULT_ROWS_def)

lemma fixed_not_sized:
  "map_of FIXED name = Some (shape, low, high) \<Longrightarrow>
     name \<notin> set (map fst SIZE_COMMANDS) \<and> name \<notin> {''XRANGE'', ''XREVRANGE''}"
  by (simp add: FIXED_def SIZE_COMMANDS_def split: if_splits)

lemma fixed_many:
  "map_of FIXED name = Some (shape, low, high) \<Longrightarrow> name \<in> {''MGET'', ''HMGET'', ''SMISMEMBER''} \<Longrightarrow> high = MAX_RESULT_ROWS"
  by (auto simp: FIXED_def)

lemma within_fixed:
  assumes "map_of FIXED name = Some (shape, low, high)" "length args \<le> high"
  shows "within n name args None"
proof (cases "name \<in> {''MGET'', ''HMGET'', ''SMISMEMBER''}")
  case True
  with assms fixed_many have "length args \<le> MAX_RESULT_ROWS" by blast
  then show ?thesis using True
    by (elim insertE emptyE) (simp_all add: within_def reply_items_def)
next
  case False
  show ?thesis
    by (rule within_one [OF conjunct1 [OF fixed_not_sized [OF assms(1)]] False conjunct2 [OF fixed_not_sized [OF assms(1)]]])
qed

lemma rule_within:
  assumes "rule name args = Inr (shape, sized)" "sized = None \<or> n \<le> MAX_RESULT_ROWS"
  shows "within n name args sized"
proof (cases "name \<in> set COMMANDS")
  case False
  then show ?thesis using assms(1) by (simp add: rule_unknown split: if_splits)
next
  case True
  then show ?thesis
  proof (cases name rule: command_cases)
    case (fixed s low high)
    then show ?thesis using assms(1) within_fixed [OF fixed, of args n]
      by (auto simp: rule_fixed [OF fixed] arity_def plain_def split: if_splits)
  next
    case range
    then show ?thesis using assms range_bounded [of name args "''LLEN''" shape sized n]
      by (auto simp: rule_helpers within_def reply_items_def SIZE_COMMANDS_def)
  next
    case zrange
    with assms obtain shape' where
      "range ''ZRANGE'' (take 3 args) ''ZCARD'' = Inr (shape', sized)" "3 \<le> length args"
      by (auto simp: rule_helpers zrange_def split: if_splits)
    then show ?thesis using zrange range_bounded [of "''ZRANGE''" "take 3 args" "''ZCARD''" shape' sized n] assms(2)
      by (auto simp: within_def reply_items_def SIZE_COMMANDS_def)
  next
    case whole
    then show ?thesis using assms
      by (elim insertE emptyE) (auto simp: rule_helpers within_def whole_def guard_def reply_items_def SIZE_COMMANDS_def
          arity_def split: if_splits)
  next
    case xrange
    then show ?thesis using assms
      by (elim insertE emptyE) (auto simp: rule_helpers within_def xrange_def reply_items_def plain_def
          split: if_splits option.splits)
  next
    case info
    then show ?thesis using assms within_one [of name n args]
      by (simp add: rule_helpers info_def plain_def SIZE_COMMANDS_def split: option.splits)
  next
    case rank
    then have "sized = None" using assms by (elim insertE emptyE) (auto simp: rule_helpers rank_def plain_def split: option.splits if_splits)
    then show ?thesis using rank within_one [of name n args] by (elim insertE emptyE) (simp_all add: SIZE_COMMANDS_def)
  next
    case object
    then show ?thesis using assms within_one [of name n args]
      by (auto simp: rule_helpers object_def plain_def SIZE_COMMANDS_def split: if_splits)
  next
    case memory
    then show ?thesis using assms within_one [of name n args]
      by (simp add: rule_helpers memory_usage_def plain_def SIZE_COMMANDS_def split: if_splits)
  next
    case scan
    then have "sized = None" using assms by (elim insertE emptyE) (auto simp: rule_helpers scan_def plain_def split: if_splits)
    then show ?thesis using scan within_one [of name n args] by (elim insertE emptyE) (simp_all add: SIZE_COMMANDS_def)
  next
    case xinfo
    then show ?thesis using assms within_one [of name n args]
      by (simp add: rule_helpers xinfo_def plain_def SIZE_COMMANDS_def split: if_splits)
  qed
qed

text \<open>
  Approved reads are bounded: when the collection named by the plan's guard holds at most the
  row cap, or there is no guard, the reply of an approved command has at most the row cap of items,
  however large the collection is; and a guard asks the size of the very key the command reads,
  with the size command of its type.
\<close>

theorem approved_reads_bounded:
  assumes "classify line = Inr plan" "rp_guard plan = None \<or> n \<le> MAX_RESULT_ROWS"
  shows "reply_items (rp_words plan) n \<le> MAX_RESULT_ROWS \<and>
    (\<forall>g. rp_guard plan = Some g \<longrightarrow> sg_key g = rp_words plan ! 1 \<and>
       map_of SIZE_COMMANDS (hd (rp_words plan)) = Some (sg_command g))"
proof -
  from assms(1) obtain name args shape sized where
    "rule name args = Inr (shape, sized)" "plan = \<lparr>rp_words = name # args, rp_shape = shape, rp_guard = sized\<rparr>"
    by (auto simp: classify_def Let_def split: sum.splits list.splits)
  with assms(2) rule_within [of name args shape sized n] show ?thesis by (auto simp: within_def)
qed

theorem approved_reads_bounded_witness:
  "reply_items [''LRANGE'', ''queue'', ''5'', ''10''] 1000000 \<le> MAX_RESULT_ROWS"
proof -
  have "classify ''lrange queue 5 10'' = Inr \<lparr>rp_words = [''LRANGE'', ''queue'', ''5'', ''10''],
      rp_shape = Values, rp_guard = None\<rparr>" by code_simp
  from approved_reads_bounded [OF this, of 1000000] show ?thesis by simp
qed

section \<open>What a refusal says\<close>

text \<open>The words of a message that came from the typed line.\<close>

fun echoed :: "violation \<Rightarrow> string list" where
  "echoed (Not_Allowed name) = [name]"
| "echoed (Wrong_Arguments name) = [name]"
| "echoed (Unknown_Option command opt) = [command, opt]"
| "echoed (Count_Too_Large command n) = [command]"
| "echoed (Count_Required name) = [name]"
| "echoed _ = []"

definition harmless :: "string \<Rightarrow> bool" where
  "harmless w \<longleftrightarrow> w \<in> set COMMANDS \<or> w = ''that command'' \<or>
     (0 < length w \<and> length w \<le> 32 \<and>
      (\<forall>c\<in>set w. is_ascii_upper c \<or> is_ascii_digit c \<or> c = CHR ''_'' \<or> c = CHR ''-''))"

lemma harmless_printable: "harmless (printable w)"
proof -
  have up: "is_ascii_upper (ascii_upper c) \<or> is_ascii_digit (ascii_upper c) \<or> ascii_upper c = CHR ''_'' \<or> ascii_upper c = CHR ''-''"
    if "printable_char c" for c
    using that ascii_upper_not_lower [of c]
    by (auto simp: printable_char_def is_ascii_alphanumeric_def ascii_upper_def char_class_defs)
  let ?t = "take 32 (filter printable_char w)"
  have "\<forall>c\<in>set (to_ascii_uppercase ?t). is_ascii_upper c \<or> is_ascii_digit c \<or> c = CHR ''_'' \<or> c = CHR ''-''"
  proof
    fix c assume "c \<in> set (to_ascii_uppercase ?t)"
    then obtain d where d: "c = ascii_upper d" "d \<in> set ?t" by (auto simp: to_ascii_uppercase_def)
    from in_set_takeD [OF d(2)] have "printable_char d" by simp
    from up [OF this] show "is_ascii_upper c \<or> is_ascii_digit c \<or> c = CHR ''_'' \<or> c = CHR ''-''"
      unfolding d(1) .
  qed
  moreover have "length (to_ascii_uppercase ?t) \<le> 32" by simp
  ultimately have good: "to_ascii_uppercase ?t \<noteq> [] \<Longrightarrow> harmless (to_ascii_uppercase ?t)"
    unfolding harmless_def length_greater_0_conv by argo
  show ?thesis
  proof (cases "to_ascii_uppercase ?t = []")
    case True
    then show ?thesis unfolding printable_def Let_def harmless_def by (simp only: if_True simp_thms)
  next
    case False
    then show ?thesis using good unfolding printable_def Let_def by (simp only: if_False simp_thms)
  qed
qed

lemma harmless_command: "name \<in> set COMMANDS \<Longrightarrow> harmless name"
  by (simp add: harmless_def)

lemma echoed_unknown [simp]: "echoed (unknown command opt) = [command, printable opt]"
  by (simp add: unknown_def)

lemma zrange_options_echo:
  "zrange_options scores opts = Inl v \<Longrightarrow> \<exists>opt. echoed v = [''ZRANGE'', printable opt]"
  by (induction scores opts rule: zrange_options.induct) (auto split: if_splits)

lemma scan_options_echo:
  "scan_options name nv opts = Inl v \<Longrightarrow> echoed v = [name] \<or> (\<exists>opt. echoed v = [name, printable opt])"
  by (induction name nv opts rule: scan_options.induct) (auto split: if_splits list.splits option.splits)

lemma rule_echo:
  assumes "rule name args = Inl v" "name \<in> set COMMANDS"
  shows "echoed v = [name] \<or> (\<exists>opt. echoed v = [name, printable opt])"
  using assms(2)
proof (cases name rule: command_cases)
  case (fixed s low high)
  then show ?thesis using assms(1) by (auto simp: rule_fixed [OF fixed] arity_def split: if_splits)
next
  case zrange
  then show ?thesis using assms(1)
    by (auto simp: rule_helpers zrange_def range_def indexes_def arity_def rbind_Inl_iff Let_def
        dest: zrange_options_echo split: if_splits option.splits)
next
  case scan
  then show ?thesis using assms(1)
    by (elim insertE emptyE) (auto simp: rule_helpers scan_def rbind_Inl_iff dest: scan_options_echo split: if_splits)
next
  case rank
  then show ?thesis using assms(1)
    by (elim insertE emptyE) (auto simp: rule_helpers rank_def arity_def rbind_Inl_iff split: if_splits option.splits)
next
  case whole
  then show ?thesis using assms(1)
    by (elim insertE emptyE) (auto simp: rule_helpers whole_def arity_def rbind_Inl_iff split: if_splits)
next
  case xrange
  then show ?thesis using assms(1)
    by (elim insertE emptyE) (auto simp: rule_helpers xrange_def split: if_splits option.splits)
qed (use assms(1) in \<open>auto simp: rule_helpers info_def object_def memory_usage_def range_def indexes_def
      xinfo_def arity_def rbind_Inl_iff Let_def split: if_splits option.splits\<close>)

text \<open>
  A refusal never repeats text of the line as it was typed: each word of it that came from the
  line is a command of the allowlist, or at most 32 upper-cased letters, digits, underscores and
  hyphens.
\<close>

theorem refusals_are_harmless:
  "case classify line of Inl v \<Rightarrow> list_all harmless (echoed v) | Inr _ \<Rightarrow> True"
proof -
  have "\<forall>w\<in>set (echoed v). harmless w" if "rule name args = Inl v" for name args v
  proof (cases "name \<in> set COMMANDS")
    case True
    from rule_echo [OF that True] show ?thesis
      using harmless_command [OF True] harmless_printable by fastforce
  next
    case False
    with that show ?thesis by (auto simp: rule_unknown harmless_printable split: if_splits)
  qed
  then show ?thesis
    by (auto simp: classify_def Let_def rbind_Inl_iff list_all_iff split: sum.splits list.splits prod.splits)
qed

text \<open>
  Despite the filter, a key typed where an option is expected is shown in the refusal when it
  looks like a word.
\<close>

theorem pasted_key_is_echoed:
  "rbind (classify ''XINFO STREAM log alice_smith'') (\<lambda>_. Inr ()) = Inl (Unknown_Option ''XINFO'' ''ALICE_SMITH'')"
  by code_simp

end
