(* ===== verification/Rust_Lines.thy ===== *)
theory Rust_Lines
  imports Core_Data "HOL-Library.AList"
begin

text \<open>
  The operations of \<open>str\<close> that cut a text into pieces: \<open>split\<close> on a character, \<open>split_once\<close>,
  \<open>rsplit_once\<close>, \<open>lines\<close> and \<open>split_whitespace\<close>.
\<close>

fun split_on :: "char \<Rightarrow> string \<Rightarrow> string list" where
  "split_on d [] = [[]]"
| "split_on d (c # s) =
     (if c = d then [] # split_on d s
      else case split_on d s of p # ps \<Rightarrow> (c # p) # ps | [] \<Rightarrow> [[c]])"

fun split_once :: "char \<Rightarrow> string \<Rightarrow> (string \<times> string) option" where
  "split_once d [] = None"
| "split_once d (c # s) =
     (if c = d then Some ([], s)
      else map_option (\<lambda>(a, b). (c # a, b)) (split_once d s))"

definition rsplit_once :: "char \<Rightarrow> string \<Rightarrow> (string \<times> string) option" where
  "rsplit_once d s = map_option (\<lambda>(b, a). (rev a, rev b)) (split_once d (rev s))"

definition strip_cr :: "string \<Rightarrow> string" where
  "strip_cr s = (if s \<noteq> [] \<and> last s = CHR 0x0D then butlast s else s)"

definition str_lines :: "string \<Rightarrow> string list" where
  "str_lines s =
     (let ps = split_on (CHR 0x0A) s
      in map strip_cr (butlast ps) @ (if last ps = [] then [] else [last ps]))"

function split_whitespace :: "string \<Rightarrow> string list" where
  "split_whitespace s =
     (case dropWhile is_whitespace s of
        [] \<Rightarrow> []
      | c # r \<Rightarrow> (c # takeWhile (\<lambda>x. \<not> is_whitespace x) r) #
          split_whitespace (dropWhile (\<lambda>x. \<not> is_whitespace x) r))"
  by pat_completeness auto
termination
proof (relation "measure length", goal_cases)
  case (2 s c r)
  have "length (dropWhile is_whitespace s) \<le> length s"
    "length (dropWhile (\<lambda>x. \<not> is_whitespace x) r) \<le> length r" by (rule length_dropWhile_le)+
  then show ?case using 2 by simp
qed simp

declare split_whitespace.simps [simp del]

lemma split_on_nonempty [simp]: "split_on d s \<noteq> []"
  by (induction s) (auto split: list.split)

lemma join_split_on: "join [d] (split_on d s) = s"
  by (induction s) (auto simp: join_Cons split: list.split)

lemma split_once_Some: "split_once d s = Some (a, b) \<Longrightarrow> s = a @ d # b \<and> d \<notin> set a"
  by (induction s arbitrary: a) (auto split: if_splits)

lemma split_once_None: "split_once d s = None \<longleftrightarrow> d \<notin> set s"
  by (induction s) auto

lemma split_once_append: "d \<notin> set a \<Longrightarrow> split_once d (a @ d # b) = Some (a, b)"
  by (induction a) auto

text \<open>A member is put into a JSON object in insertion order; a repeated name replaces the value.\<close>

definition object_of :: "(string \<times> json) list \<Rightarrow> json" where
  "object_of members = JObject (foldl (\<lambda>m (k, v). AList.update k v m) [] members)"

end
