(* ===== verification/Redis_Reply.thy ===== *)
theory Redis_Reply
  imports Redis_Policy Rust_Lines
begin

text \<open>
  Crate \<open>dbboard-redis\<close>, \<open>reply.rs\<close>: a reply of the server as rows and columns. \<open>redis_value\<close> is
  the reply type of the \<open>redis\<close> crate; its remaining kinds, which the code prints with \<open>{:?}\<close>, are
  \<open>Other_Reply\<close> with that text. Text decoding and printing that need more than the code points of
  \<open>char\<close>, or that the crate's code delegates, are the fields of \<open>decoders\<close>.
\<close>

datatype redis_value =
    Nil_Reply
  | Int_Reply i64
  | Double_Reply f64
  | Boolean_Reply bool
  | Okay_Reply
  | Simple_String string
  | Verbatim_String string
  | Bulk_String "8 word list"
  | Array_Reply "redis_value list"
  | Set_Reply "redis_value list"
  | Map_Reply "(redis_value \<times> redis_value) list"
  | Other_Reply string

record decoders =
  from_utf8 :: "8 word list \<Rightarrow> string option"
  from_utf8_lossy :: "8 word list \<Rightarrow> string"
  json_to_string :: "json \<Rightarrow> string"
  debug_cell :: "val option \<Rightarrow> string"

fun json_of_f64 :: "f64 \<Rightarrow> json" where
  "json_of_f64 x = (if is_finite x then JNumber (Num_Float x) else JNull)"

text \<open>\<open>cell\<close>, \<open>json\<close> and \<open>text\<close> call each other; \<open>json\<close> is the only one that descends.\<close>

fun scalar_cell :: "decoders \<Rightarrow> redis_value \<Rightarrow> val" where
  "scalar_cell d Nil_Reply = Null"
| "scalar_cell d (Int_Reply n) = Integer n"
| "scalar_cell d (Double_Reply x) = Real x"
| "scalar_cell d (Boolean_Reply b) = Integer (if b then 1 else 0)"
| "scalar_cell d Okay_Reply = Text ''OK''"
| "scalar_cell d (Simple_String s) = Text s"
| "scalar_cell d (Verbatim_String s) = Text s"
| "scalar_cell d (Bulk_String bytes) =
     (case from_utf8 d bytes of Some s \<Rightarrow> Text s | None \<Rightarrow> Blob bytes)"
| "scalar_cell d (Other_Reply shown) = Text shown"
| "scalar_cell d _ = Null"

fun cell_text :: "decoders \<Rightarrow> val \<Rightarrow> string" where
  "cell_text d (Text s) = s"
| "cell_text d (Integer n) = show_int (sint n)"
| "cell_text d (Real r) = show_f64 r"
| "cell_text d Null = []"
| "cell_text d (Blob b) = from_utf8_lossy d b"
| "cell_text d (Json j) = json_to_string d j"

fun json_of :: "decoders \<Rightarrow> redis_value \<Rightarrow> json" where
  "json_of d Nil_Reply = JNull"
| "json_of d (Int_Reply n) = JNumber (Num_Int (sint n))"
| "json_of d (Double_Reply x) = json_of_f64 x"
| "json_of d (Boolean_Reply b) = JBool b"
| "json_of d (Array_Reply vs) = JArray (map (json_of d) vs)"
| "json_of d (Set_Reply vs) = JArray (map (json_of d) vs)"
| "json_of d (Map_Reply kvs) =
     object_of (map (\<lambda>(k, v).
       (case k of
          Array_Reply _ \<Rightarrow> json_to_string d (json_of d k)
        | Set_Reply _ \<Rightarrow> json_to_string d (json_of d k)
        | Map_Reply _ \<Rightarrow> json_to_string d (json_of d k)
        | _ \<Rightarrow> cell_text d (scalar_cell d k), json_of d v)) kvs)"
| "json_of d v = JString (cell_text d (scalar_cell d v))"

fun cell :: "decoders \<Rightarrow> redis_value \<Rightarrow> val" where
  "cell d (Array_Reply vs) = Json (json_of d (Array_Reply vs))"
| "cell d (Set_Reply vs) = Json (json_of d (Set_Reply vs))"
| "cell d (Map_Reply kvs) = Json (json_of d (Map_Reply kvs))"
| "cell d v = scalar_cell d v"

definition reply_text :: "decoders \<Rightarrow> redis_value \<Rightarrow> string" where
  "reply_text d v = cell_text d (cell d v)"

definition shape_error :: "string \<Rightarrow> db_error" where
  "shape_error what = Type_Conversion_Error (''the server's reply was not '' @ what)"

definition table :: "string list \<Rightarrow> row list \<Rightarrow> query_result" where
  "table names rows = \<lparr>qr_columns = map (\<lambda>n. \<lparr>col_name = n, col_declared_type = None\<rparr>) names,
     qr_rows = rows, qr_rows_affected = 0, qr_has_more = False, qr_next_cursor = None\<rparr>"

fun items :: "redis_value \<Rightarrow> redis_value list db_result" where
  "items (Array_Reply vs) = Inr vs"
| "items (Set_Reply vs) = Inr vs"
| "items Nil_Reply = Inr []"
| "items _ = Inl (shape_error ''a list'')"

fun pair_items :: "redis_value \<Rightarrow> redis_value list option" where
  "pair_items (Array_Reply p) = (if length p = 2 then Some p else None)"
| "pair_items _ = None"

fun pair_up :: "decoders \<Rightarrow> redis_value list \<Rightarrow> row list" where
  "pair_up d [] = []"
| "pair_up d [v] = [[cell d v, Null]]"
| "pair_up d (v # w # vs) = [cell d v, cell d w] # pair_up d vs"

definition pairs_of :: "decoders \<Rightarrow> redis_value list \<Rightarrow> row list" where
  "pairs_of d vs =
     (if (\<forall>v\<in>set vs. pair_items v \<noteq> None) \<and> vs \<noteq> []
      then List.map_filter (\<lambda>v. map_option (map (cell d)) (pair_items v)) vs
      else pair_up d vs)"

fun pairs :: "decoders \<Rightarrow> redis_value \<Rightarrow> row list db_result" where
  "pairs d (Map_Reply kvs) = Inr (map (\<lambda>(k, v). [cell d k, cell d v]) kvs)"
| "pairs d other = rmap (pairs_of d) (items other)"

definition entry_member :: "decoders \<Rightarrow> row \<Rightarrow> string \<times> json" where
  "entry_member d pair =
     (case get pair 0 of Some (Text s) \<Rightarrow> s | other \<Rightarrow> debug_cell d other,
      case get pair 1 of
        Some (Text s) \<Rightarrow> JString s
      | Some (Integer n) \<Rightarrow> JNumber (Num_Int (sint n))
      | _ \<Rightarrow> JNull)"

definition entry_row :: "decoders \<Rightarrow> redis_value \<Rightarrow> row db_result" where
  "entry_row d entry = rbind (items entry) (\<lambda>parts.
     case parts of
       ident # listed # _ \<Rightarrow> rbind (items listed) (\<lambda>members.
         Inr [cell d ident, Json (object_of (map (entry_member d) (pairs_of d members)))])
     | _ \<Rightarrow> Inl (shape_error ''a stream entry''))"

definition entries :: "decoders \<Rightarrow> redis_value \<Rightarrow> query_result db_result" where
  "entries d reply = rbind (items reply) (\<lambda>list.
     rmap (table [''id'', ''fields'']) (rmapM (entry_row d) list))"

fun info_rows :: "string \<Rightarrow> string list \<Rightarrow> row list" where
  "info_rows section_text [] = []"
| "info_rows section_text (line # ls) =
     (let l = trim line
      in if l \<noteq> [] \<and> hd l = CHR ''#'' then info_rows (trim (tl l)) ls
         else case split_once (CHR '':'') l of
           Some (name, value) \<Rightarrow> [Text section_text, Text name, Text value] # info_rows section_text ls
         | None \<Rightarrow> info_rows section_text ls)"

definition info_table :: "string \<Rightarrow> query_result" where
  "info_table body = table [''section'', ''name'', ''value''] (info_rows [] (str_lines body))"

definition to_result :: "decoders \<Rightarrow> reply_shape \<Rightarrow> redis_value \<Rightarrow> query_result db_result" where
  "to_result d shape reply =
     (case shape of
        Value \<Rightarrow> Inr (table [''value''] [[cell d reply]])
      | Values \<Rightarrow> rmap (\<lambda>vs. table [''value''] (map (\<lambda>v. [cell d v]) vs)) (items reply)
      | Field_Values \<Rightarrow> rmap (table [''field'', ''value'']) (pairs d reply)
      | Member_Scores \<Rightarrow> rmap (table [''member'', ''score'']) (pairs d reply)
      | Entries \<Rightarrow> entries d reply
      | Info \<Rightarrow> Inr (info_table (reply_text d reply))
      | _ \<Rightarrow> Inl (Type_Conversion_Error ''a scan reply is read page by page''))"

definition scan_page :: "decoders \<Rightarrow> redis_value \<Rightarrow> (string \<times> redis_value list) db_result" where
  "scan_page d reply = rbind (items reply) (\<lambda>parts.
     case parts of
       [cursor, page] \<Rightarrow> rmap (Pair (reply_text d cursor)) (items page)
     | _ \<Rightarrow> Inl (shape_error ''a scan reply''))"

fun scan_columns :: "reply_shape \<Rightarrow> string list" where
  "scan_columns Scan_Keys = [''key'', ''next_cursor'']"
| "scan_columns Scan_Field_Values = [''field'', ''value'', ''next_cursor'']"
| "scan_columns Scan_Member_Scores = [''member'', ''score'', ''next_cursor'']"
| "scan_columns _ = [''member'', ''next_cursor'']"

definition scan_rows :: "decoders \<Rightarrow> reply_shape \<Rightarrow> redis_value list \<Rightarrow> string \<Rightarrow> row list" where
  "scan_rows d shape collected next_cursor =
     (if shape = Scan_Field_Values \<or> shape = Scan_Member_Scores
      then map (\<lambda>r. r @ [Text next_cursor]) (pairs_of d collected)
      else map (\<lambda>v. [cell d v, Text next_cursor]) collected)"

definition scan_result :: "decoders \<Rightarrow> reply_shape \<Rightarrow> redis_value list \<Rightarrow> string \<Rightarrow> query_result" where
  "scan_result d shape collected next_cursor =
     (let names = scan_columns shape;
          found = scan_rows d shape collected next_cursor;
          shown = (if found = [] \<and> next_cursor \<noteq> ''0''
                   then [replicate (length names - 1) Null @ [Text next_cursor]] else found)
      in table names shown)"

fun reply_integer :: "redis_value \<Rightarrow> i64 db_result" where
  "reply_integer (Int_Reply n) = Inr n"
| "reply_integer _ = Inl (shape_error ''a length'')"

section \<open>Every result is a table\<close>

definition rectangular :: "query_result \<Rightarrow> bool" where
  "rectangular r \<longleftrightarrow> (\<forall>row\<in>set (qr_rows r). length row = length (qr_columns r))"

lemma rectangular_table [simp]:
  "rectangular (table names rows) \<longleftrightarrow> (\<forall>row\<in>set rows. length row = length names)"
  by (simp add: rectangular_def table_def)

lemma pair_items_length: "pair_items v = Some p \<Longrightarrow> length p = 2"
  by (cases v) (auto split: if_splits)

lemma pair_up_width: "row \<in> set (pair_up d vs) \<Longrightarrow> length row = 2"
  by (induction d vs rule: pair_up.induct) auto

lemma pairs_of_width: "row \<in> set (pairs_of d vs) \<Longrightarrow> length row = 2"
  by (fastforce simp: pairs_of_def map_filter_def pair_up_width dest: pair_items_length split: if_splits)

lemma pairs_width: "pairs d reply = Inr rows \<Longrightarrow> row \<in> set rows \<Longrightarrow> length row = 2"
  by (cases reply) (auto simp: pairs_of_width)

lemma info_rows_width: "row \<in> set (info_rows s ls) \<Longrightarrow> length row = 3"
  by (induction s ls rule: info_rows.induct) (auto simp: Let_def split: option.splits if_splits)

lemma entries_width:
  assumes "entries d reply = Inr r"
  shows "rectangular r"
proof -
  from assms obtain list rows where "r = table [''id'', ''fields''] rows" "rmapM (entry_row d) list = Inr rows"
    by (auto simp: entries_def)
  moreover have "length row = 2" if "entry_row d e = Inr row" for e row
  proof -
    from that obtain parts where "(case parts of
         ident # listed # _ \<Rightarrow> rbind (items listed) (\<lambda>members.
           Inr [cell d ident, Json (object_of (map (entry_member d) (pairs_of d members)))])
       | _ \<Rightarrow> Inl (shape_error ''a stream entry'')) = Inr row"
      by (auto simp: entry_row_def)
    then show ?thesis by (cases parts rule: remdups_adj.cases) auto
  qed
  moreover have "\<exists>e. entry_row d e = Inr row" if "row \<in> set rows" for row
    using that calculation(2) by (auto simp: rmapM_Inr_iff list_all2_conv_all_nth in_set_conv_nth)
  ultimately show ?thesis by fastforce
qed

text \<open>
  C35. Every reply becomes a proper table: whatever the server answered, a result has as many cells
  in each row as it has columns, for each shape, and so has a scan with its cursor column.
\<close>

theorem results_are_rectangular:
  "(case to_result d shape reply of Inr r \<Rightarrow> rectangular r | Inl _ \<Rightarrow> True) \<and>
   rectangular (scan_result d shape collected next_cursor)"
proof
  show "case to_result d shape reply of Inr r \<Rightarrow> rectangular r | Inl _ \<Rightarrow> True"
    by (cases shape) (auto simp: to_result_def info_table_def info_rows_width numeral_2_eq_2 [symmetric]
        dest: pairs_width entries_width split: sum.split)
  show "rectangular (scan_result d shape collected next_cursor)"
    by (cases shape) (auto simp: scan_result_def scan_rows_def Let_def pairs_of_width)
qed

end
