(* ===== verification/Redis_Adapter.thy ===== *)
theory Redis_Adapter
  imports Redis_Policy_Proofs Redis_Reply Adapter Ordered_Map "HOL-Library.Sublist"
begin

text \<open>
  Crate \<open>dbboard-redis\<close>, \<open>adapter.rs\<close>: running a typed command. The server is a state \<open>'s\<close>; the
  connection is a record of the calls the adapter makes on it, each returning the reply or the
  \<open>redis\<close> crate's error and the server's next state.
\<close>

record redis_error =
  re_io :: bool
  re_dropped :: bool
  re_timeout :: bool
  re_kind :: string
  re_detail :: "string option"

type_synonym node = "string \<times> nat"

record 's redis_link =
  lk_cluster :: bool
  lk_request :: "string list \<Rightarrow> 's \<Rightarrow> (redis_error + redis_value) \<times> 's"
  lk_route :: "node \<Rightarrow> string list \<Rightarrow> 's \<Rightarrow> (redis_error + redis_value) \<times> 's"
  lk_any_node :: "string list \<Rightarrow> 's \<Rightarrow> (redis_error + redis_value) \<times> 's"

section \<open>Errors of the client\<close>

definition describe :: "redis_error \<Rightarrow> string" where
  "describe e =
     (let detail = (case re_detail e of Some d \<Rightarrow> d | None \<Rightarrow> []); kind = re_kind e
      in if detail = [] \<or> sublist ''://'' detail then kind else kind @ '': '' @ detail)"

definition connection_error :: "redis_error \<Rightarrow> db_error" where
  "connection_error e = Connection_Error (describe e)"

definition query_error :: "redis_error \<Rightarrow> db_error" where
  "query_error e =
     (if re_io e \<or> re_dropped e \<or> re_timeout e then Connection_Error (describe e)
      else Query_Error (describe e))"

definition answered :: "((redis_error + redis_value) \<times> 's) \<Rightarrow> redis_value db_result \<times> 's" where
  "answered r = (case r of (Inl e, s) \<Rightarrow> (Inl (query_error e), s) | (Inr v, s) \<Rightarrow> (Inr v, s))"

definition send :: "'s redis_link \<Rightarrow> string list \<Rightarrow> ('s, redis_value) db_op" where
  "send link words s = answered (lk_request link words s)"

definition send_to :: "'s redis_link \<Rightarrow> node \<Rightarrow> string list \<Rightarrow> ('s, redis_value) db_op" where
  "send_to link address words s =
     (if \<not> lk_cluster link then send link words s else answered (lk_route link address words s))"

section \<open>The cluster's nodes\<close>

definition primary_of :: "string \<Rightarrow> node option" where
  "primary_of line =
     (case split_whitespace line of
        _ # address # flags # _ \<Rightarrow>
          (let fl = split_on (CHR '','') flags
           in if ''master'' \<notin> set fl \<or> (\<exists>f\<in>set fl. starts_with ''fail'' f) then None
              else case rsplit_once (CHR '':'') (hd (split_on (CHR ''@'') address)) of
                None \<Rightarrow> None
              | Some (host, port) \<Rightarrow> map_option (Pair host) (parse_unsigned (2 ^ 16) port))
      | _ \<Rightarrow> None)"

definition primaries_of :: "string \<Rightarrow> node list" where
  "primaries_of body = List.map_filter primary_of (str_lines body)"

definition primaries :: "'s redis_link \<Rightarrow> decoders \<Rightarrow> ('s, node list) db_op" where
  "primaries link d s =
     (if \<not> lk_cluster link then (Inr [], s)
      else io_bind (\<lambda>s. answered (lk_any_node link [''CLUSTER'', ''NODES''] s)) (\<lambda>reply.
        io_of (case cell d reply of
                 Text body \<Rightarrow> Inr (primaries_of body)
               | _ \<Rightarrow> Inl (Type_Conversion_Error ''CLUSTER NODES did not answer text''))) s)"

section \<open>Scans\<close>

definition DEFAULT_SCAN_ROWS :: nat where "DEFAULT_SCAN_ROWS = 100"
definition MAX_SCAN_CALLS :: nat where "MAX_SCAN_CALLS = 200"
definition PREFIX_SAMPLE :: nat where "PREFIX_SAMPLE = 10000"
definition MAX_PREFIXES :: nat where "MAX_PREFIXES = 500"
definition DELIMITER :: char where "DELIMITER = CHR '':''"
definition UMBRACHYX_DELIMITER :: char where "UMBRACHYX_DELIMITER = CHR ''/''"

definition wanted :: "read_plan \<Rightarrow> nat \<Rightarrow> nat" where
  "wanted plan max_rows =
     (let count = (case position (\<lambda>w. eq_ignore_ascii_case w ''COUNT'') (rp_words plan) of
                     None \<Rightarrow> DEFAULT_SCAN_ROWS
                   | Some i \<Rightarrow>
                       (case get (rp_words plan) (i + 1) of
                          None \<Rightarrow> DEFAULT_SCAN_ROWS
                        | Some n \<Rightarrow> (case parse_usize n of Some c \<Rightarrow> c | None \<Rightarrow> DEFAULT_SCAN_ROWS)))
      in max 1 (min count (max max_rows 1)))"

fun follow_loop ::
  "'s redis_link \<Rightarrow> decoders \<Rightarrow> string list \<Rightarrow> nat \<Rightarrow> nat \<Rightarrow> node option \<Rightarrow> nat \<Rightarrow> string \<Rightarrow>
     redis_value list \<Rightarrow> ('s, redis_value list \<times> string) db_op" where
  "follow_loop link d words at want node 0 cursor found = io_of (Inr (found, cursor))"
| "follow_loop link d words at want node (Suc calls) cursor found =
     io_bind (case node of Some address \<Rightarrow> send_to link address (words[at := cursor])
                         | None \<Rightarrow> send link (words[at := cursor])) (\<lambda>reply.
     io_bind (io_of (scan_page d reply)) (\<lambda>(next_cursor, page).
       let found' = found @ page
       in if next_cursor = ''0'' \<or> want \<le> length found' then io_of (Inr (found', next_cursor))
          else follow_loop link d words at want node calls next_cursor found'))"

definition follow ::
  "'s redis_link \<Rightarrow> decoders \<Rightarrow> read_plan \<Rightarrow> nat \<Rightarrow> string \<Rightarrow> nat \<Rightarrow> node option \<Rightarrow>
     ('s, redis_value list \<times> string) db_op" where
  "follow link d plan at cursor want node =
     io_bind (follow_loop link d (rp_words plan) at want node MAX_SCAN_CALLS cursor [])
       (\<lambda>(found, last_cursor). io_of (Inr (take want found, last_cursor)))"

fun scan_nodes ::
  "'s redis_link \<Rightarrow> decoders \<Rightarrow> read_plan \<Rightarrow> nat \<Rightarrow> node list \<Rightarrow> redis_value list \<Rightarrow> bool \<Rightarrow>
     ('s, redis_value list \<times> string) db_op" where
  "scan_nodes link d plan want [] keys complete =
     io_of (Inr (keys, if complete then ''0'' else ''partial''))"
| "scan_nodes link d plan want (node # nodes) keys complete =
     io_bind (follow link d plan 1 ''0'' (want - length keys) (Some node)) (\<lambda>(found, next_cursor).
       let keys' = keys @ found
       in if want \<le> length keys' then io_of (Inr (keys', ''partial''))
          else scan_nodes link d plan want nodes keys' (complete \<and> next_cursor = ''0''))"

definition scan_cluster ::
  "'s redis_link \<Rightarrow> decoders \<Rightarrow> read_plan \<Rightarrow> nat \<Rightarrow> ('s, redis_value list \<times> string) db_op" where
  "scan_cluster link d plan want =
     io_bind (primaries link d) (\<lambda>nodes. scan_nodes link d plan want nodes [] True)"

definition scan_keys :: "'s redis_link \<Rightarrow> decoders \<Rightarrow> read_plan \<Rightarrow> nat \<Rightarrow> ('s, query_result) db_op" where
  "scan_keys link d plan max_rows =
     (let want = wanted plan max_rows; cursor = rp_words plan ! 1
      in io_bind
           (if \<not> lk_cluster link then follow link d plan 1 cursor want None
            else if cursor \<noteq> ''0'' then io_of (Inl (Query_Error
              (''in cluster mode a scan starts from cursor 0: a cursor belongs to one node '' @
               ''and cannot be continued on another'')))
            else scan_cluster link d plan want)
           (\<lambda>(keys, next_cursor). io_of (Inr (scan_result d (rp_shape plan) keys next_cursor))))"

definition scan_collection :: "'s redis_link \<Rightarrow> decoders \<Rightarrow> read_plan \<Rightarrow> nat \<Rightarrow> ('s, query_result) db_op" where
  "scan_collection link d plan max_rows =
     (let want = wanted plan max_rows; per_row = (if rp_shape plan = Scan_Members then 1 else 2)
      in io_bind (follow link d plan 2 (rp_words plan ! 2) (want * per_row) None)
           (\<lambda>(found, next_cursor). io_of (Inr (scan_result d (rp_shape plan) found next_cursor))))"

section \<open>Running a command\<close>

definition check_size :: "'s redis_link \<Rightarrow> size_guard \<Rightarrow> nat \<Rightarrow> string \<Rightarrow> ('s, unit) db_op" where
  "check_size link g max_rows name =
     io_bind (send link [sg_command g, sg_key g]) (\<lambda>reply.
     io_bind (io_of (reply_integer reply)) (\<lambda>n.
       let items_held = (if 0 \<le> sint n then nat (sint n) else 2 ^ 64 - 1)
       in if max_rows < items_held then io_of (Inl (Query_Error
            (name @ '' would return '' @ show_int (sint n) @ '' items, more than the '' @ show_nat max_rows @
             '' a result may hold: read it a page at a time with the SCAN form or a narrower range'')))
          else io_of (Inr ())))"

definition read_once :: "'s redis_link \<Rightarrow> decoders \<Rightarrow> read_plan \<Rightarrow> nat \<Rightarrow> ('s, query_result) db_op" where
  "read_once link d plan max_rows =
     io_bind (send link (rp_words plan)) (\<lambda>reply.
     io_bind (io_of (to_result d (rp_shape plan) reply)) (\<lambda>result.
       if max_rows < length (qr_rows result) then io_of (Inl too_many_rows_error)
       else io_of (Inr result)))"

definition run :: "'s redis_link \<Rightarrow> decoders \<Rightarrow> string \<Rightarrow> nat \<Rightarrow> ('s, query_result) db_op" where
  "run link d line max_rows =
     (case classify line of
        Inl v \<Rightarrow> io_of (Inl (violation_db_error v))
      | Inr plan \<Rightarrow>
          io_bind (case rp_guard plan of
                     Some g \<Rightarrow> check_size link g max_rows (hd (rp_words plan))
                   | None \<Rightarrow> io_of (Inr ())) (\<lambda>_.
            if rp_shape plan = Scan_Keys then scan_keys link d plan max_rows
            else if rp_shape plan \<in> {Scan_Members, Scan_Field_Values, Scan_Member_Scores}
            then scan_collection link d plan max_rows
            else read_once link d plan max_rows))"

definition redis_query_read_only :: "'s redis_link \<Rightarrow> decoders \<Rightarrow> string \<Rightarrow> nat \<Rightarrow> ('s, query_result) db_op" where
  "redis_query_read_only link d sql max_rows = run link d sql max_rows"

definition redis_query :: "'s redis_link \<Rightarrow> decoders \<Rightarrow> string \<Rightarrow> ('s, query_result) db_op" where
  "redis_query link d sql =
     io_bind (run link d sql (MAX_RESULT_ROWS + 1)) (\<lambda>result.
       if MAX_RESULT_ROWS < length (qr_rows result) then io_of (Inl too_many_rows_error)
       else io_of (Inr result))"

definition redis_ping :: "'s redis_link \<Rightarrow> ('s, unit) db_op" where
  "redis_ping link = io_bind (send link [''PING'']) (\<lambda>_. io_of (Inr ()))"

section \<open>The list of key prefixes\<close>

definition escape_glob :: "string \<Rightarrow> string" where
  "escape_glob text = concat (map (\<lambda>c. if c \<in> set [CHR ''*'', CHR ''?'', CHR ''['', CHR '']'', CHR 0x5C]
     then [CHR 0x5C, c] else [c]) text)"

definition key_pattern :: "char \<Rightarrow> string \<Rightarrow> string" where
  "key_pattern delimiter key =
     (case split_once delimiter key of
        Some (head, _) \<Rightarrow> escape_glob head @ [delimiter, CHR ''*'']
      | None \<Rightarrow> escape_glob key)"

text \<open>The ordered set of patterns is a map to unit; the loop stops when it is full.\<close>

fun group_loop :: "char \<Rightarrow> (string \<times> unit) list \<Rightarrow> string list \<Rightarrow> (string \<times> unit) list" where
  "group_loop delimiter patterns [] = patterns"
| "group_loop delimiter patterns (key # keys) =
     (let patterns' = bt_insert (key_pattern delimiter key) () patterns
      in if MAX_PREFIXES \<le> length patterns' then patterns' else group_loop delimiter patterns' keys)"

definition group :: "string list \<Rightarrow> char \<Rightarrow> string list" where
  "group keys delimiter = map fst (group_loop delimiter [] keys)"

definition prefixes :: "'s redis_link \<Rightarrow> decoders \<Rightarrow> bool \<Rightarrow> ('s, table_info list) db_op" where
  "prefixes link d umbrachyx =
     (case classify (''SCAN 0 COUNT '' @ show_nat MAX_SCAN_COUNT) of
        Inl v \<Rightarrow> io_of (Inl (violation_db_error v))
      | Inr plan \<Rightarrow>
          io_bind (if \<not> lk_cluster link then follow link d plan 1 ''0'' PREFIX_SAMPLE None
                   else scan_cluster link d plan PREFIX_SAMPLE) (\<lambda>(keys, _).
            let names = List.map_filter (\<lambda>k. case cell d k of Text s \<Rightarrow> Some s | _ \<Rightarrow> None) keys
            in io_of (Inr (map table_unqualified
                 (group names (if umbrachyx then UMBRACHYX_DELIMITER else DELIMITER))))))"

text \<open>The adapter as the rest of the program sees it; what it does not override is the default.\<close>

definition redis_database_adapter ::
  "'x sql_parser \<Rightarrow> 's redis_link \<Rightarrow> decoders \<Rightarrow> bool \<Rightarrow> 's adapter" where
  "redis_database_adapter parse_sql link d umbrachyx =
     (adapter_defaults parse_sql ''redis'' (capabilities_default\<lparr>has_history := umbrachyx\<rparr>)
        (redis_ping link) (prefixes link d umbrachyx) (redis_query link d))
     \<lparr>ad_query_read_only := redis_query_read_only link d\<rparr>"

end
