(* ===== verification/Umbrachyx.thy ===== *)
theory Umbrachyx
  imports Redis_Adapter Row_History
begin

text \<open>
  Crate \<open>dbboard-redis\<close>, \<open>umbrachyx.rs\<close>: the history of an Umbrachyx server, read through its
  \<open>UMBRA.\<close> commands. The JSON readers \<open>serde\<close> derives for the reply structs are the fields of
  \<open>umbra_readers\<close>; \<open>rfc3339\<close> is the \<open>time\<close> crate's rendering of nanoseconds.
\<close>

section \<open>Text as bytes\<close>

definition utf8_char :: "char \<Rightarrow> 8 word list" where
  "utf8_char c =
     (if code_point c < 128 then [word_of_nat (code_point c)]
      else [word_of_nat (192 + code_point c div 64), word_of_nat (128 + code_point c mod 64)])"

definition as_bytes :: "string \<Rightarrow> 8 word list" where
  "as_bytes s = concat (map utf8_char s)"

text \<open>The order of \<open>str\<close> is the order of its bytes.\<close>

definition str_less :: "string \<Rightarrow> string \<Rightarrow> bool" where
  "str_less a b \<longleftrightarrow> as_bytes a < as_bytes b"

section \<open>The replies\<close>

record commit_reply =
  cr_commit :: string
  cr_time_us :: u64
  cr_who :: string
  cr_why :: string

record change_reply =
  ch_key :: "json option"
  ch_value :: json
  ch_commit :: string
  ch_time_us :: u64
  ch_who :: string
  ch_why :: string

record history_reply =
  hr_key :: json
  hr_changes :: "change_reply list"

record value_change_reply =
  vc_key :: json
  vc_before :: json
  vc_after :: json

record diff_reply =
  dr_changes :: "value_change_reply list"
  dr_more :: bool

record cells_reply =
  cl_cells :: "change_reply list"
  cl_next :: "json option"

record umbra_readers =
  read_branches :: "string \<Rightarrow> string + string"
  read_log :: "string \<Rightarrow> string + commit_reply list"
  read_history :: "string \<Rightarrow> string + history_reply"
  read_diff :: "string \<Rightarrow> string + diff_reply"
  read_cells :: "string \<Rightarrow> string + cells_reply"
  rfc3339 :: "nat \<Rightarrow> string option"

definition parse_reply :: "(string \<Rightarrow> string + 't) \<Rightarrow> string \<Rightarrow> string \<Rightarrow> 't db_result" where
  "parse_reply from_str reply command =
     (case from_str reply of
        Inl e \<Rightarrow> Inl (Type_Conversion_Error (command @ '' answered unreadable JSON: '' @ e))
      | Inr t \<Rightarrow> Inr t)"

definition served_branch :: "umbra_readers \<Rightarrow> string \<Rightarrow> string option" where
  "served_branch p reply = (case read_branches p reply of Inr served \<Rightarrow> Some served | Inl _ \<Rightarrow> None)"

section \<open>Pieces\<close>

definition history_columns :: "column list" where
  "history_columns = map (\<lambda>name. \<lparr>col_name = name, col_declared_type = None\<rparr>) [''key'', ''value'']"

definition umbra_date :: "umbra_readers \<Rightarrow> u64 \<Rightarrow> string" where
  "umbra_date p time_us =
     (case rfc3339 p (unat time_us * 1000) of Some shown \<Rightarrow> shown | None \<Rightarrow> show_nat (unat time_us))"

definition umbra_commit :: "umbra_readers \<Rightarrow> string \<Rightarrow> u64 \<Rightarrow> string \<Rightarrow> string \<Rightarrow> commit" where
  "umbra_commit p ident time_us who why = \<lparr>cm_hash = ident, cm_author = who, cm_email = [],
     cm_date = umbra_date p time_us, cm_message = why\<rparr>"

text \<open>\<open>u8::from_str_radix\<close> on a slice of two bytes; a slice inside a character is no slice at all.\<close>

definition hex_value :: "8 word \<Rightarrow> nat option" where
  "hex_value b =
     (let n = unat b
      in if 48 \<le> n \<and> n \<le> 57 then Some (n - 48)
         else if 97 \<le> n \<and> n \<le> 102 then Some (n - 87)
         else if 65 \<le> n \<and> n \<le> 70 then Some (n - 55)
         else None)"

definition hex_pair :: "8 word \<Rightarrow> 8 word \<Rightarrow> 8 word option" where
  "hex_pair a b =
     (if a = 43 then map_option word_of_nat (hex_value b)
      else case (hex_value a, hex_value b) of
        (Some x, Some y) \<Rightarrow> Some (word_of_nat (16 * x + y))
      | _ \<Rightarrow> None)"

fun hex_decode :: "8 word list \<Rightarrow> 8 word list option" where
  "hex_decode [] = Some []"
| "hex_decode [a] = None"
| "hex_decode (a # b # bs) =
     (case (hex_pair a b, hex_decode bs) of
        (Some x, Some xs) \<Rightarrow> Some (x # xs)
      | _ \<Rightarrow> None)"

fun key_bytes :: "json \<Rightarrow> 8 word list option" where
  "key_bytes (JString text) = Some (as_bytes text)"
| "key_bytes (JObject members) =
     (case map_of members ''hex'' of
        Some (JString hex) \<Rightarrow>
          if length (as_bytes hex) mod 2 \<noteq> 0 then None else hex_decode (as_bytes hex)
      | _ \<Rightarrow> None)"
| "key_bytes _ = None"

fun umbra_value :: "json \<Rightarrow> val" where
  "umbra_value (JString text) = Text text"
| "umbra_value (JObject members) =
     (case key_bytes (JObject members) of Some bytes \<Rightarrow> Blob bytes | None \<Rightarrow> Null)"
| "umbra_value _ = Null"

fun key_of :: "(string \<times> val) list \<Rightarrow> string db_result" where
  "key_of [(_, Text key)] = Inr key"
| "key_of _ = Inl (Query_Error ''an Umbrachyx row is named by one text key'')"

fun umbra_reply_text :: "decoders \<Rightarrow> redis_value \<Rightarrow> string db_result" where
  "umbra_reply_text d (Bulk_String bytes) =
     (case from_utf8 d bytes of Some s \<Rightarrow> Inr s
      | None \<Rightarrow> Inl (Type_Conversion_Error ''the reply is not UTF-8''))"
| "umbra_reply_text d (Simple_String s) = Inr s"
| "umbra_reply_text d _ = Inl (Type_Conversion_Error ''Umbrachyx answered something other than a string'')"

fun literal_prefix :: "string \<Rightarrow> string" where
  "literal_prefix [] = []"
| "literal_prefix (c # chars) =
     (if c = CHR 0x5C then (case chars of e # chars' \<Rightarrow> e # literal_prefix chars' | [] \<Rightarrow> [])
      else if c = CHR ''*'' \<or> c = CHR ''?'' \<or> c = CHR ''['' then []
      else c # literal_prefix chars)"

definition start_before :: "string \<Rightarrow> 8 word list option" where
  "start_before text =
     (let bytes = as_bytes text in if bytes \<noteq> [] then Some (butlast bytes) else None)"

fun matches_from :: "string \<Rightarrow> string \<Rightarrow> bool" where
  "matches_from [] key = (key = [])"
| "matches_from (c # rest) key =
     (if c = CHR ''*'' then list_ex (\<lambda>skip. matches_from rest (drop skip key)) [0..<Suc (length key)]
      else if c = CHR ''?'' then key \<noteq> [] \<and> matches_from rest (tl key)
      else (case rest of
              e # rest' \<Rightarrow>
                if c = CHR 0x5C then get key 0 = Some e \<and> matches_from rest' (tl key)
                else get key 0 = Some c \<and> matches_from rest (tl key)
            | [] \<Rightarrow> get key 0 = Some c \<and> matches_from rest (tl key)))"

definition glob_matches :: "string \<Rightarrow> string \<Rightarrow> bool" where
  "glob_matches pattern key = matches_from pattern key"

section \<open>The views\<close>

definition umbra_commit_log :: "umbra_readers \<Rightarrow> string \<Rightarrow> nat \<Rightarrow> commit list db_result" where
  "umbra_commit_log p reply limit = rmap (\<lambda>commits.
     map (\<lambda>c. umbra_commit p (cr_commit c) (cr_time_us c) (cr_who c) (cr_why c)) (take limit commits))
     (parse_reply (read_log p) reply ''UMBRA.LOG'')"

definition umbra_row_history :: "umbra_readers \<Rightarrow> string \<Rightarrow> nat \<Rightarrow> row_history db_result" where
  "umbra_row_history p reply limit = rmap (\<lambda>history.
     \<lparr>rh_columns = history_columns,
      rh_versions = map (\<lambda>change.
        \<lparr>rv_commit = umbra_commit p (ch_commit change) (ch_time_us change) (ch_who change) (ch_why change),
         rv_values = [umbra_value (hr_key history), umbra_value (ch_value change)]\<rparr>)
        (take limit (hr_changes history))\<rparr>)
     (parse_reply (read_history p) reply ''UMBRA.HISTORY'')"

definition diff_side :: "val \<Rightarrow> json \<Rightarrow> row option" where
  "diff_side key shown = (if shown = JNull then None else Some [key, umbra_value shown])"

definition key_matches :: "string \<Rightarrow> json \<Rightarrow> bool" where
  "key_matches pattern key = (case key of JString k \<Rightarrow> glob_matches pattern k | _ \<Rightarrow> False)"

definition umbra_diff :: "(json \<Rightarrow> json \<Rightarrow> bool) \<Rightarrow> umbra_readers \<Rightarrow> string \<Rightarrow> string \<Rightarrow> commit_diff db_result" where
  "umbra_diff json_eq p reply pattern = rbind (parse_reply (read_diff p) reply ''UMBRA.DIFF'') (\<lambda>diff.
     if dr_more diff then Inl (Query_Error
       (''more keys changed between these commits than Umbrachyx answers at once (1,000), '' @
        ''and part of a diff would read as the whole of it''))
     else Inr \<lparr>cd_columns = history_columns,
       cd_changes = List.map_filter (\<lambda>change.
         let key = umbra_value (vc_key change)
         in between json_eq (diff_side key (vc_before change)) (diff_side key (vc_after change)))
         (filter (\<lambda>change. key_matches pattern (vc_key change)) (dr_changes diff))\<rparr>)"

definition blame_entry_of :: "umbra_readers \<Rightarrow> string \<Rightarrow> change_reply \<Rightarrow> blame_entry" where
  "blame_entry_of p key held = \<lparr>bl_key = [Text key],
     bl_commit = umbra_commit p (ch_commit held) (ch_time_us held) (ch_who held) (ch_why held)\<rparr>"

fun blame_cells ::
  "umbra_readers \<Rightarrow> string \<Rightarrow> 8 word list option \<Rightarrow> change_reply list \<Rightarrow> blame_entry list \<Rightarrow>
     blame_entry list \<times> 8 word list option" where
  "blame_cells p pattern onward [] found = (found, onward)"
| "blame_cells p pattern onward (held # cells) found =
     (case ch_key held of
        Some (JString key) \<Rightarrow>
          if str_less (literal_prefix pattern) key \<and> \<not> starts_with (literal_prefix pattern) key
          then (found, None)
          else blame_cells p pattern onward cells
                 (if glob_matches pattern key then found @ [blame_entry_of p key held] else found)
      | _ \<Rightarrow> blame_cells p pattern onward cells found)"

definition blame_page ::
  "umbra_readers \<Rightarrow> cells_reply \<Rightarrow> string \<Rightarrow> blame_entry list \<times> 8 word list option" where
  "blame_page p page pattern =
     blame_cells p pattern (Option.bind (cl_next page) key_bytes) (cl_cells page) []"

section \<open>The history reader\<close>

text \<open>
  \<open>ask\<close> sends a command with byte arguments and reads the reply as text; \<open>branch\<close> is the branch
  the server serves.
\<close>

type_synonym 's umbra_ask = "string \<Rightarrow> 8 word list list \<Rightarrow> ('s, string) db_op"

definition MAX_CELL_PAGES :: nat where "MAX_CELL_PAGES = 20"

definition history_commit_log :: "umbra_readers \<Rightarrow> 's umbra_ask \<Rightarrow> string \<Rightarrow> nat \<Rightarrow> ('s, commit list) db_op" where
  "history_commit_log p ask branch limit = io_bind (ask ''UMBRA.LOG'' [as_bytes branch])
     (\<lambda>reply. io_of (umbra_commit_log p reply limit))"

definition history_row_history ::
  "umbra_readers \<Rightarrow> 's umbra_ask \<Rightarrow> string \<Rightarrow> (string \<times> val) list \<Rightarrow> nat \<Rightarrow> ('s, row_history) db_op" where
  "history_row_history p ask branch key limit = io_bind (io_of (key_of key)) (\<lambda>key.
     io_bind (ask ''UMBRA.HISTORY'' [as_bytes branch, as_bytes key])
       (\<lambda>reply. io_of (umbra_row_history p reply limit)))"

definition history_diff ::
  "(json \<Rightarrow> json \<Rightarrow> bool) \<Rightarrow> umbra_readers \<Rightarrow> 's umbra_ask \<Rightarrow> table_info \<Rightarrow> string \<Rightarrow> string \<Rightarrow> ('s, commit_diff) db_op" where
  "history_diff json_eq p ask tab from_commit to_commit =
     io_bind (ask ''UMBRA.DIFF'' [as_bytes from_commit, as_bytes to_commit])
       (\<lambda>reply. io_of (umbra_diff json_eq p reply (ti_name tab)))"

fun blame_loop ::
  "umbra_readers \<Rightarrow> 's umbra_ask \<Rightarrow> string \<Rightarrow> string \<Rightarrow> nat \<Rightarrow> 8 word list option \<Rightarrow> blame_entry list \<Rightarrow>
     ('s, blame_entry list) db_op" where
  "blame_loop p ask branch pattern 0 after found = io_of (Inl (Query_Error
     (''more than '' @ show_nat MAX_CELL_PAGES @ '' pages of keys come before the end of '' @ pattern @
      '': pick a narrower prefix'')))"
| "blame_loop p ask branch pattern (Suc pages) after found =
     io_bind (ask ''UMBRA.CELLS'' (as_bytes branch # (case after of Some a \<Rightarrow> [a] | None \<Rightarrow> []))) (\<lambda>reply.
     io_bind (io_of (parse_reply (read_cells p) reply ''UMBRA.CELLS'')) (\<lambda>page.
       let (more, onward) = blame_page p page pattern; found' = found @ more
       in if MAX_RESULT_ROWS < length found' then io_of (Inl too_many_rows_error)
          else case onward of
            None \<Rightarrow> io_of (Inr found')
          | Some next_key \<Rightarrow> blame_loop p ask branch pattern pages (Some next_key) found'))"

definition history_blame ::
  "umbra_readers \<Rightarrow> 's umbra_ask \<Rightarrow> string \<Rightarrow> table_info \<Rightarrow> ('s, blame_entry list) db_op" where
  "history_blame p ask branch tab =
     blame_loop p ask branch (ti_name tab) MAX_CELL_PAGES (start_before (literal_prefix (ti_name tab))) []"

text \<open>Asking the server over the connection, and telling Umbrachyx from any other store.\<close>

definition DETECT :: string where "DETECT = ''UMBRA.BRANCHES''"

definition detect :: "'s redis_link \<Rightarrow> decoders \<Rightarrow> umbra_readers \<Rightarrow> 's \<Rightarrow> string option \<times> 's" where
  "detect link d p s =
     (case send link [DETECT] s of
        (Inl _, s') \<Rightarrow> (None, s')
      | (Inr reply, s') \<Rightarrow>
          (case umbra_reply_text d reply of
             Inl _ \<Rightarrow> (None, s')
           | Inr text \<Rightarrow> (served_branch p text, s')))"

end
