(* ===== verification/Umbrachyx_Proofs.thy ===== *)
theory Umbrachyx_Proofs
  imports Umbrachyx
begin

text \<open>
  What the sidebar's patterns match, and that the blame of a pattern read page by page is the
  blame of every key it matches.
\<close>

section \<open>Bytes and prefixes\<close>

lemma as_bytes_simps [simp]: "as_bytes [] = []" "as_bytes (c # s) = utf8_char c @ as_bytes s"
  "as_bytes (a @ b) = as_bytes a @ as_bytes b"
  by (simp_all add: as_bytes_def)

lemma code_point_bound: "code_point c < 256"
  by (simp add: code_point_def)

lemma code_point_eq: "code_point a = code_point b \<longleftrightarrow> a = b"
  by (simp add: code_point_def)

lemma unat_byte: "n < 256 \<Longrightarrow> unat (word_of_nat n :: 8 word) = n"
  by (simp add: unat_of_nat take_bit_nat_eq_self_iff)

lemma utf8_char_nonempty [simp]: "utf8_char c \<noteq> []"
  by (simp add: utf8_char_def)

lemma utf8_char_inj:
  assumes "utf8_char a @ xs = utf8_char b @ ys"
  shows "a = b \<and> xs = ys"
proof -
  let ?u = "map unat"
  have "map unat (utf8_char a @ xs) = map unat (utf8_char b @ ys)" using assms by simp
  moreover have "map unat (utf8_char c) = (if code_point c < 128 then [code_point c]
      else [192 + code_point c div 64, 128 + code_point c mod 64])" for c
  proof -
    have "192 + code_point c div 64 < 256" "128 + code_point c mod 64 < 256" if "\<not> code_point c < 128"
      using code_point_bound [of c] that by auto
    then show ?thesis using code_point_bound [of c] unfolding utf8_char_def
      by (simp add: unat_byte del: of_nat_add)
  qed
  ultimately have "code_point a = code_point b"
    using code_point_bound [of a] code_point_bound [of b]
    by (auto split: if_splits) (metis mult_div_mod_eq)
  then have "a = b" by (simp add: code_point_eq)
  with assms show ?thesis by simp
qed

lemma prefix_as_bytes: "prefix (as_bytes p) (as_bytes k) \<longleftrightarrow> prefix p k"
proof (induction p arbitrary: k)
  case (Cons c p)
  show ?case
  proof (cases k)
    case Nil
    then show ?thesis by simp
  next
    case (Cons d k')
    then show ?thesis using Cons.IH [of k']
      by (auto simp: prefix_def dest: utf8_char_inj)
  qed
qed simp

lemma list_less_eq_prefix: "prefix (p :: 'a :: linorder list) k \<Longrightarrow> p \<le> k"
proof (induction p arbitrary: k)
  case (Cons x p)
  then show ?case by (cases k) auto
qed simp

lemma butlast_less: "prefix p k \<Longrightarrow> p \<noteq> [] \<Longrightarrow> butlast (p :: 'a :: linorder list) < k"
proof (induction p arbitrary: k)
  case (Cons x p)
  then show ?case by (cases k; cases "p = []") auto
qed simp

text \<open>Past a prefix in the order, no later text starts with it.\<close>

lemma past_prefix:
  "(p :: 'a :: linorder list) < k \<Longrightarrow> \<not> prefix p k \<Longrightarrow> k \<le> k' \<Longrightarrow> \<not> prefix p k'"
proof (induction p arbitrary: k k')
  case (Cons x p)
  then obtain y ys where k: "k = y # ys" by (cases k) auto
  then show ?case using Cons by (cases k') auto
qed simp

section \<open>Patterns\<close>

definition specials :: "char set" where
  "specials = {CHR ''*'', CHR ''?'', CHR ''['', CHR '']'', CHR 0x5C}"

lemma matches_literal:
  "c \<notin> {CHR ''*'', CHR ''?'', CHR 0x5C} \<Longrightarrow>
    matches_from (c # rest) key \<longleftrightarrow> (\<exists>k. key = c # k \<and> matches_from rest k)"
  by (cases key) (auto split: list.split)

lemma matches_escape: "matches_from (CHR 0x5C # e # rest) key \<longleftrightarrow> (\<exists>k. key = e # k \<and> matches_from rest k)"
  by (cases key) auto

declare matches_from.simps(2) [simp del]

lemma matches_escaped:
  "matches_from (escape_glob a @ p) key \<longleftrightarrow> (\<exists>r. key = a @ r \<and> matches_from p r)"
proof (induction a arbitrary: key)
  case (Cons c a)
  show ?case
  proof (cases "c \<in> specials")
    case True
    then have "escape_glob (c # a) @ p = CHR 0x5C # c # escape_glob a @ p"
      by (auto simp: escape_glob_def specials_def)
    then show ?thesis using Cons.IH by (auto simp: matches_escape)
  next
    case False
    then have "escape_glob (c # a) @ p = c # escape_glob a @ p" "c \<noteq> CHR ''*''" "c \<noteq> CHR ''?''" "c \<noteq> CHR 0x5C"
      by (auto simp: escape_glob_def specials_def)
    then show ?thesis using Cons.IH by (auto simp: matches_literal)
  qed
qed (simp add: escape_glob_def)

lemma matches_star: "matches_from ''*'' key"
  by (auto simp: matches_from.simps(2) list_ex_iff intro!: bexI [of _ "length key"])

text \<open>
  The pattern the sidebar makes of a key matches that key, and exactly the keys of its group:
  those with the same first segment, or for a key without a delimiter that key alone, whatever
  characters the key holds.
\<close>

theorem sidebar_pattern_exact:
  "glob_matches (key_pattern UMBRACHYX_DELIMITER k) key \<longleftrightarrow>
     (case split_once UMBRACHYX_DELIMITER k of
        Some (head, _) \<Rightarrow> \<exists>rest. key = head @ UMBRACHYX_DELIMITER # rest
      | None \<Rightarrow> key = k)"
proof (cases "split_once UMBRACHYX_DELIMITER k")
  case None
  then show ?thesis using matches_escaped [of k "[]" key]
    by (simp add: glob_matches_def key_pattern_def)
next
  case (Some ht)
  have "matches_from (CHR ''/'' # ''*'') r \<longleftrightarrow> (\<exists>rest. r = CHR ''/'' # rest)" for r
    by (auto simp: matches_literal matches_star)
  then show ?thesis using Some matches_escaped [of "fst ht" "CHR ''/'' # ''*''" key]
    by (cases ht) (auto simp: glob_matches_def key_pattern_def UMBRACHYX_DELIMITER_def)
qed

lemma literal_prefix_sound: "matches_from pattern key \<Longrightarrow> prefix (literal_prefix pattern) key"
proof (induction pattern arbitrary: key rule: literal_prefix.induct)
  case (2 c chars)
  consider (escape) e chars' where "c = CHR 0x5C" "chars = e # chars'"
    | (wild) "c \<in> {CHR ''*'', CHR ''?'', CHR ''[''} \<or> c = CHR 0x5C \<and> chars = []"
    | (literal) "c \<notin> {CHR ''*'', CHR ''?'', CHR ''['', CHR 0x5C}"
    by (cases chars) auto
  then show ?case
  proof cases
    case escape
    then show ?thesis using 2 by (auto simp: matches_escape)
  next
    case literal
    then show ?thesis using 2 by (auto simp: matches_literal)
  qed auto
qed simp

section \<open>The blame of a pattern, page by page\<close>

text \<open>
  What the server promises: \<open>held\<close> are the branch's cells in the order of their keys, and a page
  asked for after some bytes is the next \<open>size\<close> cells past them, naming the last key as the one to
  go on from exactly when there is more.
\<close>

definition cell_key :: "change_reply \<Rightarrow> string" where
  "cell_key ch = (case ch_key ch of Some (JString k) \<Rightarrow> k | _ \<Rightarrow> [])"

definition past :: "8 word list option \<Rightarrow> change_reply list \<Rightarrow> change_reply list" where
  "past after held = filter (\<lambda>ch. case after of None \<Rightarrow> True | Some a \<Rightarrow> a < as_bytes (cell_key ch)) held"

definition cells_page :: "nat \<Rightarrow> change_reply list \<Rightarrow> cells_reply" where
  "cells_page width rest = \<lparr>cl_cells = take width rest,
     cl_next = (if width < length rest then Some (JString (cell_key (rest ! (width - 1)))) else None)\<rparr>"

definition serves_cells ::
  "umbra_readers \<Rightarrow> 's umbra_ask \<Rightarrow> string \<Rightarrow> nat \<Rightarrow> change_reply list \<Rightarrow> 's \<Rightarrow> bool" where
  "serves_cells p ask branch width held s \<longleftrightarrow>
     (\<forall>after. \<exists>reply. ask ''UMBRA.CELLS'' (as_bytes branch # (case after of Some a \<Rightarrow> [a] | None \<Rightarrow> [])) s
        = (Inr reply, s) \<and> read_cells p reply = Inr (cells_page width (past after held)))"

definition text_keyed :: "change_reply list \<Rightarrow> bool" where
  "text_keyed held \<longleftrightarrow> (\<forall>ch\<in>set held. ch_key ch = Some (JString (cell_key ch))) \<and>
     sorted_wrt (\<lambda>a b. as_bytes (cell_key a) < as_bytes (cell_key b)) held"

definition blame_of :: "umbra_readers \<Rightarrow> string \<Rightarrow> change_reply list \<Rightarrow> blame_entry list" where
  "blame_of p pattern held =
     map (\<lambda>ch. blame_entry_of p (cell_key ch) ch) (filter (\<lambda>ch. glob_matches pattern (cell_key ch)) held)"

lemma past_prefix_key:
  assumes "str_less (literal_prefix pattern) k" "\<not> starts_with (literal_prefix pattern) k"
    "as_bytes k \<le> as_bytes k'"
  shows "\<not> glob_matches pattern k'"
proof
  assume "glob_matches pattern k'"
  then have "prefix (literal_prefix pattern) k'" by (simp add: glob_matches_def literal_prefix_sound)
  moreover have "\<not> prefix (as_bytes (literal_prefix pattern)) (as_bytes k')"
    by (rule past_prefix [of _ "as_bytes k"])
      (use assms in \<open>simp_all add: str_less_def starts_with_def prefix_as_bytes\<close>)
  ultimately show False by (simp add: prefix_as_bytes)
qed

lemma blame_of_Nil: "(\<And>ch. ch \<in> set held \<Longrightarrow> \<not> glob_matches pattern (cell_key ch)) \<Longrightarrow> blame_of p pattern held = []"
  by (simp add: blame_of_def)

lemma blame_of_append: "blame_of p pattern (a @ b) = blame_of p pattern a @ blame_of p pattern b"
  by (simp add: blame_of_def)

lemma blame_cells_complete:
  "text_keyed (cells @ later) \<Longrightarrow> blame_cells p pattern onward cells found = (listed, onward') \<Longrightarrow>
     listed = found @ blame_of p pattern cells \<and>
     (onward' = onward \<or> onward' = None \<and> blame_of p pattern later = [])"
proof (induction cells arbitrary: found)
  case (Cons ch cells)
  have k: "ch_key ch = Some (JString (cell_key ch))" and tk: "text_keyed (cells @ later)" and
    above: "\<And>ch'. ch' \<in> set (cells @ later) \<Longrightarrow> as_bytes (cell_key ch) \<le> as_bytes (cell_key ch')"
    using Cons.prems(1) by (auto simp: text_keyed_def intro: less_imp_le)
  show ?case
  proof (cases "str_less (literal_prefix pattern) (cell_key ch) \<and> \<not> starts_with (literal_prefix pattern) (cell_key ch)")
    case True
    then have "\<not> glob_matches pattern (cell_key ch')" if "ch' = ch \<or> ch' \<in> set (cells @ later)" for ch'
      using that above [of ch'] past_prefix_key [of pattern "cell_key ch" "cell_key ch'"] by auto
    then have "blame_of p pattern (ch # cells) = []" "blame_of p pattern later = []"
      by (auto intro!: blame_of_Nil)
    then show ?thesis using Cons.prems(2) True by (simp add: k)
  next
    case False
    then have "blame_cells p pattern onward cells
        (if glob_matches pattern (cell_key ch) then found @ [blame_entry_of p (cell_key ch) ch] else found)
        = (listed, onward')"
      using Cons.prems(2) by (simp add: k split: if_splits)
    from Cons.IH [OF tk this] show ?thesis by (auto simp: blame_of_def)
  qed
qed (simp add: blame_of_def)

lemma start_before_skips:
  "start_before (literal_prefix pattern) = Some a \<Longrightarrow> glob_matches pattern k \<Longrightarrow> a < as_bytes k"
  by (auto simp: start_before_def Let_def glob_matches_def prefix_as_bytes split: if_splits
      intro!: butlast_less dest: literal_prefix_sound)

lemma filter_after_nth:
  fixes f :: "'a \<Rightarrow> 'b :: linorder"
  assumes "sorted_wrt (\<lambda>a b. f a < f b) xs" "i < length xs"
  shows "filter (\<lambda>x. f (xs ! i) < f x) xs = drop (Suc i) xs"
  using assms
proof (induction xs arbitrary: i)
  case (Cons x xs)
  show ?case
  proof (cases i)
    case 0
    then show ?thesis using Cons.prems by (simp add: filter_id_conv)
  next
    case (Suc j)
    then show ?thesis using Cons.IH [of j] Cons.prems by (auto dest: nth_mem less_asym)
  qed
qed simp

lemma text_keyed_past: "text_keyed held \<Longrightarrow> text_keyed (past after held)"
  by (auto simp: text_keyed_def past_def sorted_wrt_filter)

lemma past_next:
  assumes "text_keyed held" "i < length (past after held)"
  shows "past (Some (as_bytes (cell_key (past after held ! i)))) held = drop (Suc i) (past after held)"
proof -
  let ?rest = "past after held" and ?k = "\<lambda>ch. as_bytes (cell_key ch)"
  have "?rest ! i \<in> set ?rest" using assms(2) by simp
  then have "past (Some (?k (?rest ! i))) held = filter (\<lambda>ch. ?k (?rest ! i) < ?k ch) ?rest"
    by (auto simp: past_def intro!: filter_cong split: option.splits)
  also have "\<dots> = drop (Suc i) ?rest"
    by (rule filter_after_nth) (use assms text_keyed_past [of held after] in \<open>auto simp: text_keyed_def\<close>)
  finally show ?thesis .
qed

lemma blame_loop_complete:
  assumes "serves_cells p ask branch width held s" "text_keyed held" "0 < width"
  shows "0 < pages \<Longrightarrow> length (past after held) \<le> width * pages \<Longrightarrow>
    length found + length (blame_of p pattern (past after held)) \<le> MAX_RESULT_ROWS \<Longrightarrow>
    blame_loop p ask branch pattern pages after found s = (Inr (found @ blame_of p pattern (past after held)), s)"
proof (induction pages arbitrary: after found)
  case (Suc pages)
  let ?rest = "past after held"
  obtain reply where reply: "ask ''UMBRA.CELLS'' (as_bytes branch # (case after of Some a \<Rightarrow> [a] | None \<Rightarrow> [])) s = (Inr reply, s)"
    "read_cells p reply = Inr (cells_page width ?rest)"
    using assms(1) by (auto simp: serves_cells_def)
  let ?onward = "if width < length ?rest then Some (as_bytes (cell_key (?rest ! (width - 1)))) else None"
  have parts: "take width ?rest @ drop width ?rest = ?rest" by simp
  obtain onward where page: "blame_page p (cells_page width ?rest) pattern = (blame_of p pattern (take width ?rest), onward)"
    and onward: "onward = ?onward \<or> onward = None \<and> blame_of p pattern (drop width ?rest) = []"
  proof -
    obtain listed onward' where b: "blame_cells p pattern ?onward (take width ?rest) [] = (listed, onward')" by fastforce
    have "text_keyed (take width ?rest @ drop width ?rest)" using text_keyed_past [OF assms(2)] by simp
    from blame_cells_complete [OF this b] that b show thesis
      by (auto simp: blame_page_def cells_page_def split: if_splits)
  qed
  have whole: "blame_of p pattern ?rest = blame_of p pattern (take width ?rest) @ blame_of p pattern (drop width ?rest)"
    by (metis blame_of_append parts)
  have fits: "\<not> MAX_RESULT_ROWS < length (found @ blame_of p pattern (take width ?rest))"
    using Suc.prems(3) whole by simp
  have step: "blame_loop p ask branch pattern (Suc pages) after found s =
      (case onward of None \<Rightarrow> io_of (Inr (found @ blame_of p pattern (take width ?rest)))
       | Some k \<Rightarrow> blame_loop p ask branch pattern pages (Some k) (found @ blame_of p pattern (take width ?rest))) s"
    using fits by (simp add: io_bind_def io_of_def reply parse_reply_def page Let_def)
  show ?case
  proof (cases onward)
    case None
    then have "blame_of p pattern (drop width ?rest) = []"
      using onward by (auto simp: blame_of_def split: if_splits)
    then show ?thesis using step None whole by (simp add: io_of_def)
  next
    case (Some k)
    then have k: "width < length ?rest" "k = as_bytes (cell_key (?rest ! (width - 1)))"
      using onward by (auto split: if_splits)
    have next_rest: "past (Some k) held = drop width ?rest"
      using past_next [OF assms(2), of "width - 1" after] k assms(3) by simp
    have "0 < pages" using k(1) Suc.prems(2) assms(3) by (cases pages) auto
    moreover have "length (past (Some k) held) \<le> width * pages"
      using Suc.prems(2) by (simp add: next_rest)
    moreover have "length (found @ blame_of p pattern (take width ?rest)) + length (blame_of p pattern (past (Some k) held))
        \<le> MAX_RESULT_ROWS"
      using Suc.prems(3) by (simp add: next_rest whole)
    ultimately show ?thesis using Suc.IH [of "Some k" "found @ blame_of p pattern (take width ?rest)"] step Some
      by (simp add: next_rest whole)
  qed
qed simp

text \<open>
  C37. The blame of a pattern is whole: against a server that pages through cells in key order, it
  starts late, stops early and follows pages, and still returns the entry of every key the pattern
  matches, once and in order, when twenty pages hold the branch and the entries fit the row cap.
\<close>

theorem blame_is_complete:
  assumes "serves_cells p ask branch width held s" "text_keyed held" "0 < width"
    "length held \<le> width * MAX_CELL_PAGES" "length (blame_of p (ti_name tab) held) \<le> MAX_RESULT_ROWS"
  shows "history_blame p ask branch tab s = (Inr (blame_of p (ti_name tab) held), s)"
proof -
  let ?start = "start_before (literal_prefix (ti_name tab))"
  have "blame_of p (ti_name tab) (past ?start held) = blame_of p (ti_name tab) held"
    using start_before_skips [of "ti_name tab"]
    by (auto simp: blame_of_def past_def intro!: arg_cong [of _ _ "map _"] filter_cong split: option.split)
  moreover have "length (past ?start held) \<le> length held" by (simp add: past_def)
  ultimately show ?thesis
    using blame_loop_complete [OF assms(1-3), of MAX_CELL_PAGES ?start "[]" "ti_name tab"] assms(4,5)
    by (simp add: history_blame_def MAX_CELL_PAGES_def)
qed

text \<open>A small branch: two pages of cells, of which the pattern matches the keys of one player.\<close>

definition sample_cell :: "string \<Rightarrow> change_reply" where
  "sample_cell k = \<lparr>ch_key = Some (JString k), ch_value = JNull, ch_commit = ''c'', ch_time_us = 0,
     ch_who = ''w'', ch_why = ''y''\<rparr>"

definition sample_cells :: "change_reply list" where
  "sample_cells = map sample_cell [''a/1'', ''p/1'', ''p/2'', ''q/1'']"

text \<open>The sample server answers with the bytes to go on from, and its reader makes the page of them.\<close>

definition sample_ask :: "unit umbra_ask" where
  "sample_ask name args = (\<lambda>s. (Inr (case args of [_, a] \<Rightarrow> CHR ''+'' # map (\<lambda>b. char_of (unat b)) a | _ \<Rightarrow> []), s))"

definition sample_readers :: umbra_readers where
  "sample_readers = \<lparr>read_branches = (\<lambda>_. Inl []), read_log = (\<lambda>_. Inl []), read_history = (\<lambda>_. Inl []),
     read_diff = (\<lambda>_. Inl []),
     read_cells = (\<lambda>r. Inr (cells_page 3 (past (case r of [] \<Rightarrow> None | _ # a \<Rightarrow>
        Some (map (\<lambda>c. word_of_nat (code_point c)) a)) sample_cells))),
     rfc3339 = (\<lambda>_. None)\<rparr>"

lemma sample_serves: "serves_cells sample_readers sample_ask ''main'' 3 sample_cells ()"
proof -
  have "word_of_nat (code_point (char_of (unat b))) = b" for b :: "8 word"
  proof -
    have "unat b < 2 ^ LENGTH(8)" by (rule unsigned_less)
    then show ?thesis by (simp add: code_point_def)
  qed
  then show ?thesis
    by (auto simp: serves_cells_def sample_ask_def sample_readers_def map_idI split: option.split)
qed

theorem blame_is_complete_witness:
  "\<exists>r. history_blame sample_readers sample_ask ''main'' (table_unqualified ''p/*'') () = (Inr r, ()) \<and>
     map bl_key r = [[Text ''p/1''], [Text ''p/2'']]"
proof -
  have "text_keyed sample_cells" by code_simp
  moreover have "length (blame_of sample_readers ''p/*'' sample_cells) \<le> MAX_RESULT_ROWS"
    by (simp add: blame_of_def sample_cells_def MAX_RESULT_ROWS_def)
  moreover have "map bl_key (blame_of sample_readers ''p/*'' sample_cells) = [[Text ''p/1''], [Text ''p/2'']]"
    by code_simp
  ultimately show ?thesis
    using blame_is_complete [OF sample_serves, of "table_unqualified ''p/*''"]
    by (simp add: sample_cells_def MAX_CELL_PAGES_def table_unqualified_def)
qed

end
