(* ===== verification/Bson_Document.thy ===== *)
theory Bson_Document
  imports Rust_Lines Ordered_Map
begin

text \<open>
  Crate \<open>dbboard-mongodb\<close>, \<open>document.rs\<close> and \<open>sample.rs\<close>: BSON documents as result tables and
  as an inferred schema. \<open>bson\<close> is the value type of the \<open>mongodb\<close> crate; a document keeps its
  fields in order, each name once. Rendering of dates and of the kinds without a plain form is the
  crate's own, the fields of \<open>bson_text\<close>.
\<close>

datatype bson =
    Bson_Double f64
  | Bson_String string
  | Bson_Document "(string \<times> bson) list"
  | Bson_Array "bson list"
  | Bson_Binary "8 word list"
  | Bson_Undefined
  | Bson_ObjectId string
  | Bson_Boolean bool
  | Bson_DateTime i64
  | Bson_Null
  | Bson_Regular_Expression string string
  | Bson_DbPointer string string
  | Bson_JavaScript_Code string
  | Bson_Symbol string
  | Bson_JavaScript_Code_With_Scope string "(string \<times> bson) list"
  | Bson_Int32 "32 word"
  | Bson_Timestamp u32 u32
  | Bson_Int64 i64
  | Bson_Decimal128 string
  | Bson_MinKey
  | Bson_MaxKey

type_synonym bson_doc = "(string \<times> bson) list"

record bson_text =
  try_rfc3339 :: "i64 \<Rightarrow> string option"
  date_display :: "i64 \<Rightarrow> string"
  relaxed_extjson :: "bson \<Rightarrow> json"

definition ID_COLUMN :: string where "ID_COLUMN = ''_id''"

definition REPLY_BOOKKEEPING :: "string list" where
  "REPLY_BOOKKEEPING = [''ok'', ''$clusterTime'', ''operationTime'', ''$db'']"

section \<open>Base64\<close>

definition ALPHABET :: string where
  "ALPHABET = ''ABCDEFGHIJKLMNOPQRSTUVWXYZabcdefghijklmnopqrstuvwxyz0123456789+/''"

definition byte_at :: "8 word list \<Rightarrow> nat \<Rightarrow> 8 word" where
  "byte_at chunk i = (case get chunk i of Some b \<Rightarrow> b | None \<Rightarrow> 0)"

definition pack_chunk :: "8 word list \<Rightarrow> u32" where
  "pack_chunk chunk = or (or (push_bit 16 (ucast (byte_at chunk 0))) (push_bit 8 (ucast (byte_at chunk 1))))
     (ucast (byte_at chunk 2))"

definition base64_chunk :: "8 word list \<Rightarrow> string" where
  "base64_chunk chunk = map (\<lambda>(i, shift).
       if i \<le> length chunk then ALPHABET ! unat (and (drop_bit shift (pack_chunk chunk)) 63)
       else CHR ''='') (enumerate 0 [18, 12, 6, 0])"

definition base64 :: "8 word list \<Rightarrow> string" where
  "base64 bytes = concat (map base64_chunk (chunks 3 bytes))"

section \<open>Cells\<close>

definition bson_timestamp :: "bson_text \<Rightarrow> i64 \<Rightarrow> string" where
  "bson_timestamp t at = (case try_rfc3339 t at of Some s \<Rightarrow> s | None \<Rightarrow> date_display t at)"

fun plain_json :: "bson_text \<Rightarrow> bson \<Rightarrow> json" where
  "plain_json t Bson_Null = JNull"
| "plain_json t (Bson_Boolean b) = JBool b"
| "plain_json t (Bson_Int32 n) = JNumber (Num_Int (sint n))"
| "plain_json t (Bson_Int64 n) = JNumber (Num_Int (sint n))"
| "plain_json t (Bson_Double x) = (if is_finite x then JNumber (Num_Float x) else JNull)"
| "plain_json t (Bson_String s) = JString s"
| "plain_json t (Bson_ObjectId hex) = JString hex"
| "plain_json t (Bson_DateTime at) = JString (bson_timestamp t at)"
| "plain_json t (Bson_Decimal128 shown) = JString shown"
| "plain_json t (Bson_Binary bytes) = JString (base64 bytes)"
| "plain_json t (Bson_Array items) = JArray (map (plain_json t) items)"
| "plain_json t (Bson_Document members) = object_of (map (\<lambda>(key, nested). (key, plain_json t nested)) members)"
| "plain_json t other = relaxed_extjson t other"

fun bson_cell :: "bson_text \<Rightarrow> bson \<Rightarrow> val" where
  "bson_cell t Bson_Null = Json JNull"
| "bson_cell t (Bson_Boolean b) = Json (JBool b)"
| "bson_cell t (Bson_Int32 n) = Integer (scast n)"
| "bson_cell t (Bson_Int64 n) = Integer n"
| "bson_cell t (Bson_Double x) = Real x"
| "bson_cell t (Bson_String s) = Text s"
| "bson_cell t (Bson_ObjectId hex) = Text hex"
| "bson_cell t (Bson_DateTime at) = Text (bson_timestamp t at)"
| "bson_cell t (Bson_Decimal128 shown) = Text shown"
| "bson_cell t (Bson_Binary bytes) = Blob bytes"
| "bson_cell t other = Json (plain_json t other)"

section \<open>Documents as a table\<close>

text \<open>A \<open>BTreeSet\<close> is an ordered map to unit.\<close>

definition btree_set :: "'k::linorder list \<Rightarrow> 'k list" where
  "btree_set ks = map fst (bt_collect (map (\<lambda>k. (k, ())) ks))"

definition field_order :: "bson_doc list \<Rightarrow> string list" where
  "field_order documents = btree_set (filter (\<lambda>k. k \<noteq> ID_COLUMN) (concat (map (map fst) documents)))"

definition field_cell :: "bson_text \<Rightarrow> bson_doc \<Rightarrow> string \<Rightarrow> val" where
  "field_cell t document name = (case map_of document name of Some v \<Rightarrow> bson_cell t v | None \<Rightarrow> Null)"

definition documents_to_result :: "bson_text \<Rightarrow> bson_doc list \<Rightarrow> query_result" where
  "documents_to_result t documents =
     (let order = field_order documents;
          carries_id = list_ex (\<lambda>d. map_of d ID_COLUMN \<noteq> None) documents;
          names = (if carries_id then [ID_COLUMN] else []) @ order
      in query_result_empty\<lparr>
           qr_columns := map (\<lambda>n. \<lparr>col_name = n, col_declared_type = None\<rparr>) names,
           qr_rows := map (\<lambda>d. (if carries_id then [field_cell t d ID_COLUMN] else []) @
             map (field_cell t d) order) documents\<rparr>)"

definition reply_to_result :: "bson_text \<Rightarrow> bson_doc \<Rightarrow> query_result" where
  "reply_to_result t reply =
     documents_to_result t [filter (\<lambda>(key, value). key \<notin> set REPLY_BOOKKEEPING) reply]"

section \<open>The schema a sample suggests\<close>

record observed =
  ob_types :: "string list"
  ob_present :: nat
  ob_explicit_null :: bool

definition observed_default :: observed where
  "observed_default = \<lparr>ob_types = [], ob_present = 0, ob_explicit_null = False\<rparr>"

fun type_name :: "bson \<Rightarrow> string" where
  "type_name (Bson_Double _) = ''double''"
| "type_name (Bson_String _) = ''string''"
| "type_name (Bson_Document _) = ''object''"
| "type_name (Bson_Array _) = ''array''"
| "type_name (Bson_Binary _) = ''binData''"
| "type_name Bson_Undefined = ''undefined''"
| "type_name (Bson_ObjectId _) = ''objectId''"
| "type_name (Bson_Boolean _) = ''bool''"
| "type_name (Bson_DateTime _) = ''date''"
| "type_name Bson_Null = ''null''"
| "type_name (Bson_Regular_Expression _ _) = ''regex''"
| "type_name (Bson_DbPointer _ _) = ''dbPointer''"
| "type_name (Bson_JavaScript_Code _) = ''javascript''"
| "type_name (Bson_Symbol _) = ''symbol''"
| "type_name (Bson_JavaScript_Code_With_Scope _ _) = ''javascriptWithScope''"
| "type_name (Bson_Int32 _) = ''int''"
| "type_name (Bson_Timestamp _ _) = ''timestamp''"
| "type_name (Bson_Int64 _) = ''long''"
| "type_name (Bson_Decimal128 _) = ''decimal''"
| "type_name Bson_MinKey = ''minKey''"
| "type_name Bson_MaxKey = ''maxKey''"

definition observe :: "string \<times> bson \<Rightarrow> (string \<times> observed) list \<Rightarrow> (string \<times> observed) list" where
  "observe field seen =
     (let name = fst field;
          entry = (case map_of seen name of Some e \<Rightarrow> e | None \<Rightarrow> observed_default);
          named = type_name (snd field)
      in bt_insert name \<lparr>ob_types = btree_set (named # ob_types entry),
           ob_present = ob_present entry + 1,
           ob_explicit_null = ob_explicit_null entry \<or> named = ''null''\<rparr> seen)"

definition observe_all :: "bson_doc list \<Rightarrow> (string \<times> observed) list" where
  "observe_all documents = fold observe (concat documents) []"

definition rendered_type :: "observed \<Rightarrow> nat \<Rightarrow> string" where
  "rendered_type seen sampled =
     join ''|'' (ob_types seen) @ '' ('' @ show_nat (ob_present seen) @ ''/'' @ show_nat sampled @ '' sampled)''"

definition sampled_ordinal :: "nat \<Rightarrow> u32" where
  "sampled_ordinal ordinal = (if ordinal < 2 ^ 32 then word_of_nat ordinal else word_of_nat (2 ^ 32 - 1 - 2)) + 2"

definition sampled_column :: "nat \<Rightarrow> nat \<times> string \<times> observed \<Rightarrow> column_info" where
  "sampled_column sampled c = (case c of (ordinal, name, seen) \<Rightarrow>
     \<lparr>ci_name = name, ci_declared_type = Some (rendered_type seen sampled),
      ci_nullable = (ob_present seen < sampled \<or> ob_explicit_null seen), ci_primary_key = False,
      ci_ordinal = sampled_ordinal ordinal, ci_default_value = None\<rparr>)"

definition infer_schema :: "table_info \<Rightarrow> bson_doc list \<Rightarrow> table_schema" where
  "infer_schema tab documents =
     (let sampled = length documents;
          seen = observe_all documents;
          id_column = \<lparr>ci_name = ID_COLUMN,
            ci_declared_type = map_option (\<lambda>s. rendered_type s sampled) (map_of seen ID_COLUMN),
            ci_nullable = False, ci_primary_key = True, ci_ordinal = 1, ci_default_value = None\<rparr>
      in \<lparr>ts_table = tab,
          ts_columns = id_column # map (sampled_column sampled) (enumerate 0 (bt_remove ID_COLUMN seen)),
          ts_primary_key = [ID_COLUMN]\<rparr>)"

end
