(* ===== verification/Mongo_Policy.thy ===== *)
theory Mongo_Policy
  imports Bson_Document
begin

text \<open>
  Crate \<open>dbboard-mongodb\<close>, \<open>read_only.rs\<close> and \<open>command.rs\<close>: which command documents may be sent.
  The JSON parser is a parameter: for a text that is an object it gives the top-level fields in the
  order they were written, a repeated name twice.
\<close>

datatype read_command = Aggregate | Count | Distinct | Find | List_Collections | List_Indexes

definition READ_COMMANDS :: "(string \<times> read_command \<times> string list) list" where
  "READ_COMMANDS =
     [(''aggregate'', Aggregate, [''pipeline'', ''cursor'', ''explain'', ''allowDiskUse'', ''maxTimeMS'',
        ''readConcern'', ''collation'', ''hint'', ''comment'', ''let'']),
      (''count'', Count, [''query'', ''limit'', ''skip'', ''hint'', ''readConcern'', ''collation'',
        ''comment'', ''maxTimeMS'']),
      (''distinct'', Distinct, [''key'', ''query'', ''readConcern'', ''collation'', ''comment'', ''maxTimeMS'']),
      (''find'', Find, [''filter'', ''sort'', ''projection'', ''hint'', ''skip'', ''limit'', ''batchSize'',
        ''singleBatch'', ''comment'', ''maxTimeMS'', ''readConcern'', ''max'', ''min'', ''returnKey'',
        ''showRecordId'', ''tailable'', ''awaitData'', ''noCursorTimeout'', ''allowPartialResults'',
        ''allowDiskUse'', ''collation'', ''let'']),
      (''listCollections'', List_Collections, [''filter'', ''nameOnly'', ''authorizedCollections'', ''cursor'',
        ''comment'']),
      (''listIndexes'', List_Indexes, [''cursor'', ''comment'', ''maxTimeMS''])]"

definition FORBIDDEN_KEYS :: "string list" where
  "FORBIDDEN_KEYS = [''$accumulator'', ''$function'', ''$merge'', ''$out'', ''$where'']"

datatype command_violation = Command_Violation (reason: string)

definition command_violation_display :: "command_violation \<Rightarrow> string" where
  "command_violation_display v = ''not a read-only MongoDB command: '' @ reason v"

definition command_db_error :: "command_violation \<Rightarrow> db_error" where
  "command_db_error v = Query_Error (command_violation_display v)"

fun returns_cursor :: "read_command \<Rightarrow> bool" where
  "returns_cursor Count = False"
| "returns_cursor Distinct = False"
| "returns_cursor _ = True"

definition allows_option :: "read_command \<Rightarrow> string \<Rightarrow> bool" where
  "allows_option command opt =
     (case find (\<lambda>(_, c, _). c = command) READ_COMMANDS of
        Some (_, _, options) \<Rightarrow> opt \<in> set options
      | None \<Rightarrow> False)"

type_synonym command_doc = "(string \<times> json) list"
type_synonym json_parser = "string \<Rightarrow> command_doc option"

definition command_parse :: "json_parser \<Rightarrow> string \<Rightarrow> command_violation + command_doc" where
  "command_parse from_str text =
     (case from_str text of
        Some doc \<Rightarrow> Inr doc
      | None \<Rightarrow> Inl (Command_Violation ''the command is not a JSON document''))"

definition command_name :: "command_doc \<Rightarrow> string option" where
  "command_name doc = (case doc of (name, _) # _ \<Rightarrow> Some name | [] \<Rightarrow> None)"

fun forbidden_key_within :: "json \<Rightarrow> string option" where
  "forbidden_key_within (JObject members) = find_map (\<lambda>(key, nested).
     if key \<in> set FORBIDDEN_KEYS then Some key else forbidden_key_within nested) members"
| "forbidden_key_within (JArray items) = find_map forbidden_key_within items"
| "forbidden_key_within _ = None"

definition refusal_for :: "string \<Rightarrow> command_violation" where
  "refusal_for key = Command_Violation (''`'' @ key @ ''` '' @
     (if key \<in> set [''$out'', ''$merge''] then ''writes a collection''
      else ''runs JavaScript on the server''))"

text \<open>The loop over the fields, from the position of the first of them.\<close>

fun check_fields :: "string \<Rightarrow> string list \<Rightarrow> nat \<Rightarrow> command_doc \<Rightarrow> command_violation + unit" where
  "check_fields name options at_field [] = Inr ()"
| "check_fields name options at_field ((field, value) # doc) =
     (if at_field > 0 \<and> field \<notin> set options
      then Inl (Command_Violation (''the command carries a field that is not a reviewed `'' @ name @
        ''` option; the reviewed ones are '' @ join '', '' options))
      else case forbidden_key_within value of
        Some forbidden \<Rightarrow> Inl (refusal_for forbidden)
      | None \<Rightarrow> check_fields name options (Suc at_field) doc)"

definition classify_command :: "json_parser \<Rightarrow> string \<Rightarrow> command_violation + read_command" where
  "classify_command from_str text = rbind (command_parse from_str text) (\<lambda>doc.
     case command_name doc of
       None \<Rightarrow> Inl (Command_Violation ''the command document has no fields'')
     | Some name \<Rightarrow>
         (case find (\<lambda>(verb, _, _). verb = name) READ_COMMANDS of
            None \<Rightarrow> Inl (Command_Violation
              (''the command is not one this connection may run; the read commands are '' @
               join '', '' (map fst READ_COMMANDS)))
          | Some (_, command, options) \<Rightarrow> rmap (\<lambda>_. command) (check_fields name options 0 doc)))"

definition check_command_read_only :: "json_parser \<Rightarrow> string \<Rightarrow> command_violation + unit" where
  "check_command_read_only from_str text = rmap (\<lambda>_. ()) (classify_command from_str text)"

section \<open>The document on the wire\<close>

definition to_wire :: "(string \<Rightarrow> bson_doc option) \<Rightarrow> string \<Rightarrow> read_command \<Rightarrow> bson_doc db_result" where
  "to_wire bson_from_str text command =
     (case bson_from_str text of
        None \<Rightarrow> Inl (Query_Error ''the command is not a JSON document'')
      | Some document \<Rightarrow>
          Inr (if returns_cursor command \<and> allows_option command ''cursor'' \<and> map_of document ''cursor'' = None
               then document @ [(''cursor'', Bson_Document [])] else document))"

section \<open>What a classified command is\<close>

text \<open>The keys of a value at any depth.\<close>

fun keys_within :: "json \<Rightarrow> string list" where
  "keys_within (JObject members) = concat (map (\<lambda>(key, nested). key # keys_within nested) members)"
| "keys_within (JArray items) = concat (map keys_within items)"
| "keys_within _ = []"

definition harmless_value :: "json \<Rightarrow> bool" where
  "harmless_value v \<longleftrightarrow> set (keys_within v) \<inter> set FORBIDDEN_KEYS = {}"

lemma harmless_object [simp]:
  "harmless_value (JObject members) \<longleftrightarrow>
     (\<forall>(key, nested)\<in>set members. key \<notin> set FORBIDDEN_KEYS \<and> harmless_value nested)"
  by (fastforce simp: harmless_value_def)

lemma harmless_array [simp]: "harmless_value (JArray items) \<longleftrightarrow> (\<forall>v\<in>set items. harmless_value v)"
  by (fastforce simp: harmless_value_def)

lemma harmless_scalar [simp]:
  "harmless_value JNull" "harmless_value (JBool b)" "harmless_value (JNumber n)" "harmless_value (JString s)"
  by (simp_all add: harmless_value_def)

lemma forbidden_key_within_None: "forbidden_key_within v = None \<longleftrightarrow> harmless_value v"
proof (induction v rule: forbidden_key_within.induct)
  case (1 members)
  then show ?case unfolding forbidden_key_within.simps find_map_None harmless_object
    by (intro ball_cong refl) (simp split: prod.split)
next
  case (2 items)
  then show ?case unfolding forbidden_key_within.simps find_map_None harmless_array by simp
qed simp_all

lemma check_fields_ok:
  "check_fields name options at_field doc = Inr () \<longleftrightarrow>
     (\<forall>(field, value)\<in>set doc. harmless_value value) \<and>
     (\<forall>i<length doc. at_field + i > 0 \<longrightarrow> fst (doc ! i) \<in> set options)"
proof (induction name options at_field doc rule: check_fields.induct)
  case (2 name options at_field field v doc)
  have all: "(\<forall>i<length ((field, v) # doc). at_field + i > 0 \<longrightarrow> fst (((field, v) # doc) ! i) \<in> set options) \<longleftrightarrow>
      (at_field > 0 \<longrightarrow> field \<in> set options) \<and> (\<forall>i<length doc. Suc at_field + i > 0 \<longrightarrow> fst (doc ! i) \<in> set options)"
    by (auto simp: less_Suc_eq_0_disj)
  show ?case
  proof (cases "at_field > 0 \<and> field \<notin> set options")
    case True
    then show ?thesis unfolding all by simp
  next
    case False
    then show ?thesis using 2 unfolding all
      by (auto simp: forbidden_key_within_None [symmetric] split: option.splits)
  qed
qed simp

lemma find_by_name:
  "distinct (map fst xs) \<Longrightarrow>
     find (\<lambda>(v, _, _). v = n) xs = Some (m, c, opts) \<longleftrightarrow> m = n \<and> (n, c, opts) \<in> set xs"
  by (induction xs) (auto simp: image_iff)

text \<open>
  C38. A command is accepted exactly when its first field is a reviewed read command, every other
  field is one of that command's reviewed options, and no forbidden key stands in any value at any
  depth, so neither a second command name, nor a stage that writes, nor JavaScript gets through.
\<close>

theorem mongo_read_only_exactly:
  "classify_command from_str text = Inr command \<longleftrightarrow>
     (\<exists>name v rest options. from_str text = Some ((name, v) # rest) \<and>
        (name, command, options) \<in> set READ_COMMANDS \<and>
        set (map fst rest) \<subseteq> set options \<and>
        list_all (\<lambda>field. harmless_value (snd field)) ((name, v) # rest))"
proof -
  have "distinct (map fst READ_COMMANDS)" by (simp add: READ_COMMANDS_def)
  note table = find_by_name [OF this]
  have fields: "check_fields name options 0 ((name, v) # rest) = Inr () \<longleftrightarrow>
      set (map fst rest) \<subseteq> set options \<and> list_all (\<lambda>field. harmless_value (snd field)) ((name, v) # rest)"
    for name options v rest
  proof -
    have "set (map fst rest) \<subseteq> set options \<longleftrightarrow> (\<forall>f\<in>set rest. fst f \<in> set options)" by auto
    also have "\<dots> \<longleftrightarrow> (\<forall>i<length ((name, v) # rest). 0 + i > 0 \<longrightarrow> fst (((name, v) # rest) ! i) \<in> set options)"
      unfolding all_set_conv_all_nth by (auto simp: less_Suc_eq_0_disj)
    finally have "(\<forall>i<length ((name, v) # rest). 0 + i > 0 \<longrightarrow> fst (((name, v) # rest) ! i) \<in> set options) \<longleftrightarrow>
        set (map fst rest) \<subseteq> set options" ..
    then show ?thesis unfolding check_fields_ok by (auto simp: list_all_iff)
  qed
  show ?thesis
  proof (cases "from_str text")
    case None
    then show ?thesis by (simp add: classify_command_def command_parse_def)
  next
    case (Some doc)
    show ?thesis
    proof (cases doc)
      case Nil
      then show ?thesis using Some by (simp add: classify_command_def command_parse_def command_name_def)
    next
      case (Cons f rest)
      obtain name v where f: "f = (name, v)" by (cases f)
      have "classify_command from_str text = Inr command \<longleftrightarrow>
          (\<exists>verb options. find (\<lambda>(verb, _, _). verb = name) READ_COMMANDS = Some (verb, command, options) \<and>
             check_fields name options 0 ((name, v) # rest) = Inr ())"
        using Some Cons f
        by (auto simp: classify_command_def command_parse_def command_name_def split: option.splits)
      then show ?thesis unfolding table fields using Some Cons f by auto
    qed
  qed
qed

text \<open>
  What a classified command sends: the document, with an empty \<open>cursor\<close> option added at its end
  exactly for the commands that stream and take the option but were written without it; so its
  command name and every field written stay as they are, and \<open>find\<close> never gains the option.
\<close>

theorem to_wire_adds_only_cursor:
  "to_wire bson_from_str text command = Inr document \<longleftrightarrow>
     (\<exists>written. bson_from_str text = Some written \<and>
        document = written @ (if command \<in> {Aggregate, List_Collections, List_Indexes} \<and>
            ''cursor'' \<notin> fst ` set written then [(''cursor'', Bson_Document [])] else []))"
proof -
  have "returns_cursor c \<and> allows_option c ''cursor'' \<longleftrightarrow> c \<in> {Aggregate, List_Collections, List_Indexes}" for c
    by (cases c) (simp_all add: allows_option_def READ_COMMANDS_def)
  note takes = this [of command]
  show ?thesis
  proof (cases "bson_from_str text")
    case None
    then show ?thesis by (simp add: to_wire_def)
  next
    case (Some written)
    then have "to_wire bson_from_str text command =
        Inr (if command \<in> {Aggregate, List_Collections, List_Indexes} \<and> ''cursor'' \<notin> fst ` set written
             then written @ [(''cursor'', Bson_Document [])] else written)"
      by (simp add: to_wire_def conj_assoc [symmetric] takes map_of_eq_None_iff)
    with Some show ?thesis by auto
  qed
qed

end
