(* ===== verification/Bson_Proofs.thy ===== *)
theory Bson_Proofs
  imports Bson_Document
begin

text \<open>
  Base64 against a decoder, documents against the table they become, and the schema a sample
  suggests.
\<close>

section \<open>Base64\<close>

lemma push_or: "b < 2 ^ n \<Longrightarrow> or (push_bit n a) b = a * 2 ^ n + (b :: nat)"
proof -
  assume "b < 2 ^ n"
  then have b: "take_bit n b = b" by (simp add: take_bit_nat_eq_self)
  have "and (push_bit n a) (take_bit n b) = 0" by (auto simp: bit_eq_iff bit_simps)
  then have "push_bit n a + b = or (push_bit n a) b" unfolding b by (rule disjunctive_add_eq_or)
  then show ?thesis by (simp add: push_bit_eq_mult)
qed

lemma unat_pack_chunk:
  "unat (pack_chunk chunk) = (unat (byte_at chunk 0) * 256 + unat (byte_at chunk 1)) * 256 + unat (byte_at chunk 2)"
proof -
  have byte: "unat b < 256" for b :: "8 word" using unsigned_less [of b, where 'a = nat] by simp
  have wide: "unat (ucast b :: u32) = unat b" for b :: "8 word"
    using byte [of b] by (simp add: unsigned_ucast_eq take_bit_nat_eq_self)
  have shift: "unat (push_bit k (ucast b :: u32)) = push_bit k (unat b)" if "k \<le> 16" for k and b :: "8 word"
  proof -
    have "(2 :: nat) ^ k \<le> 2 ^ 16" using that by (rule power_increasing) simp
    moreover have "unat b \<le> 255" using byte [of b] by simp
    ultimately have "unat b * 2 ^ k \<le> 255 * 2 ^ 16" by (rule mult_le_mono [rotated])
    then have "unat b * 2 ^ k < 2 ^ 32" by simp
    then show ?thesis unfolding unsigned_push_bit_eq wide by (simp add: push_bit_eq_mult take_bit_nat_eq_self)
  qed
  let ?a = "unat (byte_at chunk 0)" and ?b = "unat (byte_at chunk 1)" and ?c = "unat (byte_at chunk 2)"
  have "unat (pack_chunk chunk) = or (or (push_bit 16 ?a) (push_bit 8 ?b)) ?c"
    by (simp add: pack_chunk_def unsigned_or_eq shift wide)
  also have "\<dots> = or (push_bit 8 (or (push_bit 8 ?a) ?b)) ?c"
    by (simp add: push_bit_or push_bit_push_bit)
  also have "\<dots> = (?a * 256 + ?b) * 256 + ?c"
    using byte by (simp add: push_or)
  finally show ?thesis .
qed

lemma sextet: "unat (and (drop_bit s (w :: u32)) 63) = unat w div 2 ^ s mod 64"
proof -
  have "take_bit 32 (unat w) = unat w" using unsigned_less [of w, where 'a = nat] by (simp add: take_bit_nat_eq_self)
  then have "unat (and (drop_bit s w) 63) = and (drop_bit s (unat w)) (mask 6)"
    by (simp add: unsigned_and_eq unsigned_drop_bit_eq mask_eq_exp_minus_1)
  then show ?thesis by (simp add: take_bit_eq_mask [symmetric] take_bit_eq_mod drop_bit_eq_div)
qed

text \<open>The standard decoding: four digits at a time, the padding telling how many bytes they carry.\<close>

definition digit_value :: "char \<Rightarrow> nat" where
  "digit_value c = (case position (\<lambda>x. x = c) ALPHABET of Some i \<Rightarrow> i | None \<Rightarrow> 0)"

fun base64_decode :: "string \<Rightarrow> 8 word list" where
  "base64_decode (a # b # c # d # rest) =
     (let n = ((digit_value a * 64 + digit_value b) * 64 + digit_value c) * 64 + digit_value d
      in take (if c = CHR ''='' then 1 else if d = CHR ''='' then 2 else 3)
           [word_of_nat (n div 65536), word_of_nat (n div 256), word_of_nat n] @ base64_decode rest)"
| "base64_decode _ = []"

lemma alphabet: "length ALPHABET = 64" "distinct ALPHABET" "CHR ''='' \<notin> set ALPHABET"
  by (simp_all add: ALPHABET_def)

lemma digit_value_nth: "i < 64 \<Longrightarrow> digit_value (ALPHABET ! i) = i"
proof -
  assume i: "i < 64"
  obtain j where j: "position (\<lambda>x. x = ALPHABET ! i) ALPHABET = Some j"
    using i alphabet(1) by (metis (mono_tags, lifting) nth_mem option.exhaust position_None)
  then have "j < 64" "ALPHABET ! j = ALPHABET ! i" using alphabet(1) by (auto dest: position_Some)
  then have "j = i" using i alphabet by (simp add: nth_eq_iff_index_eq)
  with j show ?thesis by (simp add: digit_value_def)
qed

lemma alphabet_no_pad: "i < 64 \<Longrightarrow> ALPHABET ! i \<noteq> CHR ''=''"
  using alphabet by (metis nth_mem)

lemma word_of_nat_mod: "word_of_nat (n mod 256) = (word_of_nat n :: 8 word)"
  by (simp add: word_of_nat_eq_iff take_bit_eq_mod)

lemma digits_join:
  fixes n :: nat
  assumes "n < 16777216"
  shows "((n div 262144 mod 64 * 64 + n div 4096 mod 64) * 64 + n div 64 mod 64) * 64 + n mod 64 = n"
proof -
  define q where "q = n div 64"
  define r where "r = q div 64"
  define t where "t = r div 64"
  have "n div 4096 = r" "n div 262144 = t" by (simp_all add: q_def r_def t_def div_mult2_eq [symmetric])
  moreover have "t < 64" using assms by (simp add: q_def r_def t_def div_mult2_eq [symmetric] div_less_iff_less_mult)
  moreover have "t * 64 + r mod 64 = r" "r * 64 + q mod 64 = q" "q * 64 + n mod 64 = n"
    by (simp_all add: q_def r_def t_def)
  ultimately show ?thesis by (simp add: q_def [symmetric])
qed

lemma decode_four:
  assumes "((digit_value a * 64 + digit_value b) * 64 + digit_value c) * 64 + digit_value d = n"
  shows "base64_decode (a # b # c # d # rest) =
    take (if c = CHR ''='' then 1 else if d = CHR ''='' then 2 else 3)
      [word_of_nat (n div 65536), word_of_nat (n div 256), word_of_nat n] @ base64_decode rest"
  unfolding base64_decode.simps(1) Let_def assms ..

lemma decode_chunk:
  assumes "0 < length chunk" "length chunk \<le> 3"
  shows "base64_decode (base64_chunk chunk @ rest) = chunk @ base64_decode rest"
proof -
  have byte: "unat b < 256" for b :: "8 word" using unsigned_less [of b, where 'a = nat] by simp
  define n where "n = unat (pack_chunk chunk)"
  have n: "n = (unat (byte_at chunk 0) * 256 + unat (byte_at chunk 1)) * 256 + unat (byte_at chunk 2)"
    by (simp add: n_def unat_pack_chunk)
  have "unat b \<le> 255" for b :: "8 word" using byte [of b] by simp
  then have "n \<le> (255 * 256 + 255) * 256 + 255" unfolding n by (intro add_mono mult_le_mono le_refl)
  then have small: "n < 16777216" by simp
  have restored: "word_of_nat (n div 65536) = byte_at chunk 0" "word_of_nat (n div 256) = byte_at chunk 1"
    "word_of_nat n = byte_at chunk 2"
  proof -
    let ?a = "unat (byte_at chunk 0)" and ?b = "unat (byte_at chunk 1)" and ?c = "unat (byte_at chunk 2)"
    have "n div 256 = ?a * 256 + ?b" "n mod 256 = ?c"
      unfolding n using byte [of "byte_at chunk 2"] mod_mult_self3 [of "?a * 256 + ?b" 256 ?c]
      by (simp_all only: div_mult_self3 div_less mod_less add_0_right)
    moreover have "n div 65536 = n div 256 div 256" by (simp add: div_mult2_eq [symmetric])
    ultimately have "n div 65536 = ?a" "n div 256 mod 256 = ?b" "n mod 256 = ?c"
      using byte [of "byte_at chunk 1"] by simp_all
    then show "word_of_nat (n div 65536) = byte_at chunk 0" "word_of_nat (n div 256) = byte_at chunk 1"
      "word_of_nat n = byte_at chunk 2"
      using word_of_nat_mod [of "n div 256"] word_of_nat_mod [of n] by simp_all
  qed
  have digits: "base64_chunk chunk = map (\<lambda>(i, d). if i \<le> length chunk then ALPHABET ! d else CHR ''='')
      [(0, n div 262144 mod 64), (1, n div 4096 mod 64), (2, n div 64 mod 64), (3, n mod 64)]"
    using sextet [of 0 "pack_chunk chunk"] by (simp add: base64_chunk_def sextet n_def)
  have dv: "digit_value (ALPHABET ! (m mod 64)) = m mod 64" "ALPHABET ! (m mod 64) \<noteq> CHR ''=''" for m
    by (simp_all add: digit_value_nth alphabet_no_pad)
  have pad: "digit_value (CHR ''='') = 0" by code_simp
  have whole: "length chunk = 3 \<Longrightarrow> ?thesis"
  proof -
    assume "length chunk = 3"
    then obtain x y z where c: "chunk = [x, y, z]" by (auto simp: length_Suc_conv numeral_3_eq_3)
    have "[word_of_nat (n div 65536), word_of_nat (n div 256), word_of_nat n] = chunk"
      unfolding restored by (simp add: c byte_at_def get_def)
    moreover have "base64_chunk chunk @ rest = ALPHABET ! (n div 262144 mod 64) # ALPHABET ! (n div 4096 mod 64) #
        ALPHABET ! (n div 64 mod 64) # ALPHABET ! (n mod 64) # rest"
      unfolding digits by (simp add: c)
    ultimately show ?thesis by (simp only: decode_four [where n = n] dv digits_join [OF small]) (simp add: c)
  qed
  have two: "length chunk = 2 \<Longrightarrow> ?thesis"
  proof -
    assume "length chunk = 2"
    then obtain x y where c: "chunk = [x, y]" by (auto simp: length_Suc_conv numeral_2_eq_2)
    have "n mod 64 = 0" by (simp add: n c byte_at_def get_def)
    moreover have "[word_of_nat (n div 65536), word_of_nat (n div 256)] = chunk"
      unfolding restored by (simp add: c byte_at_def get_def)
    moreover have "base64_chunk chunk @ rest = ALPHABET ! (n div 262144 mod 64) # ALPHABET ! (n div 4096 mod 64) #
        ALPHABET ! (n div 64 mod 64) # CHR ''='' # rest"
      unfolding digits by (simp add: c)
    moreover have "((n div 262144 mod 64 * 64 + n div 4096 mod 64) * 64 + n div 64 mod 64) * 64 + 0 = n"
      using digits_join [OF small] unfolding calculation(1) .
    ultimately show ?thesis by (simp only: decode_four [where n = n] dv pad) (simp add: c)
  qed
  have one: "length chunk = 1 \<Longrightarrow> ?thesis"
  proof -
    assume "length chunk = 1"
    then obtain x where c: "chunk = [x]" by (auto simp: length_Suc_conv)
    have "n mod 64 = 0" "n div 64 mod 64 = 0" by (simp_all add: n c byte_at_def get_def)
    moreover have "[word_of_nat (n div 65536)] = chunk" unfolding restored by (simp add: c byte_at_def get_def)
    moreover have "base64_chunk chunk @ rest = ALPHABET ! (n div 262144 mod 64) # ALPHABET ! (n div 4096 mod 64) #
        CHR ''='' # CHR ''='' # rest"
      unfolding digits by (simp add: c)
    moreover have "((n div 262144 mod 64 * 64 + n div 4096 mod 64) * 64 + 0) * 64 + 0 = n"
      using digits_join [OF small] unfolding calculation(1,2) .
    ultimately show ?thesis by (simp only: decode_four [where n = n] dv pad) (simp add: c)
  qed
  from assms have "length chunk = 1 \<or> length chunk = 2 \<or> length chunk = 3" by linarith
  with whole two one show ?thesis by blast
qed

text \<open>
  Base64 loses nothing: the text made of any bytes decodes to those bytes, padding included.
\<close>

theorem base64_round_trip: "base64_decode (base64 bytes) = bytes"
proof (induction "length bytes" arbitrary: bytes rule: less_induct)
  case less
  show ?case
  proof (cases "bytes = []")
    case True
    then show ?thesis by (simp add: base64_def)
  next
    case False
    then have "chunks 3 bytes = take 3 bytes # chunks 3 (drop 3 bytes)" by (simp add: chunks.simps)
    then have "base64 bytes = base64_chunk (take 3 bytes) @ base64 (drop 3 bytes)" by (simp add: base64_def)
    moreover have "base64_decode (base64 (drop 3 bytes)) = drop 3 bytes" by (rule less) (use False in simp)
    ultimately show ?thesis using False decode_chunk [of "take 3 bytes"] by (simp del: take_0)
  qed
qed

section \<open>A table of documents\<close>

lemma set_btree_set [simp]: "set (btree_set ks) = set ks"
proof -
  have "fst ` set (bt_collect xs) = fst ` set xs" for xs :: "('a \<times> unit) list"
  proof -
    have "x \<in> fst ` set (bt_collect xs) \<longleftrightarrow> x \<in> fst ` set xs" for x
      using map_of_bt_collect [of xs] map_of_eq_None_iff [of "bt_collect xs" x] map_of_eq_None_iff [of "rev xs" x]
      by simp
    then show ?thesis by blast
  qed
  then show ?thesis by (simp add: btree_set_def image_image)
qed

lemma sorted_btree_set: "sorted_wrt (<) (btree_set ks)"
  using bt_ordered_collect [of "map (\<lambda>k. (k, ())) ks"] by (simp add: btree_set_def bt_ordered_def)

text \<open>
  Documents become a table without loss: the columns are the fields the documents carry, each
  once, the id first and the others in increasing order; there is a row per document, and its cell
  under a column is the document's field of that name, null exactly when it has no such field.
\<close>

theorem documents_table:
  assumes "r = documents_to_result t documents"
  shows "set (column_names r) = set (concat (map (map fst) documents)) \<and>
    sorted_wrt (<) (filter (\<lambda>n. n \<noteq> ID_COLUMN) (column_names r)) \<and>
    (ID_COLUMN \<in> set (column_names r) \<longrightarrow> hd (column_names r) = ID_COLUMN \<and> ID_COLUMN \<notin> set (tl (column_names r))) \<and>
    qr_rows r = map (\<lambda>d. map (field_cell t d) (column_names r)) documents"
proof -
  let ?order = "field_order documents"
  have names: "column_names r = (if list_ex (\<lambda>d. map_of d ID_COLUMN \<noteq> None) documents then [ID_COLUMN] else []) @ ?order"
    by (simp add: assms documents_to_result_def column_names_def Let_def o_def)
  have order: "set ?order = set (concat (map (map fst) documents)) - {ID_COLUMN}" "sorted_wrt (<) ?order"
    by (auto simp: field_order_def sorted_btree_set)
  have carries: "list_ex (\<lambda>d. map_of d ID_COLUMN \<noteq> None) documents \<longleftrightarrow> ID_COLUMN \<in> set (concat (map (map fst) documents))"
    by (auto simp: list_ex_iff map_of_eq_None_iff)
  have filt: "filter (\<lambda>n. n \<noteq> ID_COLUMN) ?order = ?order" using order(1) by (auto simp: filter_id_conv)
  have rows: "qr_rows r = map (\<lambda>d. map (field_cell t d) (column_names r)) documents"
    unfolding names by (simp add: assms documents_to_result_def Let_def)
  have "ID_COLUMN \<notin> set ?order" by (simp add: order(1))
  show ?thesis
  proof (cases "list_ex (\<lambda>d. map_of d ID_COLUMN \<noteq> None) documents")
    case True
    then have "names = ID_COLUMN # ?order \<Longrightarrow> set names = set (concat (map (map fst) documents))" for names
      using carries order(1) by auto
    moreover have "column_names r = ID_COLUMN # ?order" unfolding names using True by simp
    ultimately show ?thesis using order(2) \<open>ID_COLUMN \<notin> set ?order\<close> rows filt by simp
  next
    case False
    then have "set ?order = set (concat (map (map fst) documents))" using carries order(1) by auto
    moreover have "column_names r = ?order" unfolding names using False by simp
    ultimately show ?thesis using order(2) \<open>ID_COLUMN \<notin> set ?order\<close> rows filt by simp
  qed
qed

theorem documents_table_witness:
  "qr_rows (documents_to_result \<lparr>try_rfc3339 = (\<lambda>_. None), date_display = (\<lambda>_. []), relaxed_extjson = (\<lambda>_. JNull)\<rparr>
      [[(''_id'', Bson_Int32 1), (''b'', Bson_Null)], [(''_id'', Bson_Int32 2), (''a'', Bson_String ''x'')]]) =
     [[Integer 1, Null, Json JNull], [Integer 2, Text ''x'', Null]]"
proof -
  let ?t = "\<lparr>try_rfc3339 = (\<lambda>_. None), date_display = (\<lambda>_. []), relaxed_extjson = (\<lambda>_. JNull)\<rparr>"
  let ?docs = "[[(''_id'', Bson_Int32 1), (''b'', Bson_Null)], [(''_id'', Bson_Int32 2), (''a'', Bson_String ''x'')]]"
  have "column_names (documents_to_result ?t ?docs) = [''_id'', ''a'', ''b'']"
    by (simp add: documents_to_result_def column_names_def Let_def field_order_def btree_set_def bt_collect_def
        ID_COLUMN_def)
  with documents_table [OF refl, of ?t ?docs] show ?thesis by (simp add: field_cell_def)
qed

section \<open>The schema of a sample\<close>

lemma type_name_null: "type_name v = ''null'' \<longleftrightarrow> v = Bson_Null"
  by (cases v) simp_all

definition seen_exactly :: "(string \<times> bson) list \<Rightarrow> string \<Rightarrow> observed option \<Rightarrow> bool" where
  "seen_exactly pairs name entry =
     (case entry of
        None \<Rightarrow> name \<notin> fst ` set pairs
      | Some e \<Rightarrow> name \<in> fst ` set pairs \<and> ob_present e = length (filter (\<lambda>f. fst f = name) pairs) \<and>
          (ob_explicit_null e \<longleftrightarrow> (name, Bson_Null) \<in> set pairs))"

lemma seen_exactly_step:
  "seen_exactly pairs name (map_of seen name) \<Longrightarrow> seen_exactly (pairs @ [f]) name (map_of (observe f seen) name)"
  by (cases f; cases "map_of seen name"; cases "fst f = name")
    (auto simp: observe_def Let_def seen_exactly_def observed_default_def type_name_null filter_empty_conv image_iff)

lemma fold_observe:
  "bt_ordered (fold observe pairs []) \<and> seen_exactly pairs name (map_of (fold observe pairs []) name)"
proof (induction pairs rule: rev_induct)
  case Nil
  show ?case by (simp add: bt_ordered_def seen_exactly_def)
next
  case (snoc f pairs)
  have "bt_ordered (observe f seen)" if "bt_ordered seen" for seen
    using that by (simp add: observe_def Let_def bt_ordered_insert)
  then show ?case using snoc seen_exactly_step [of pairs name "fold observe pairs []" f] by simp
qed

lemma filter_shorter: "length (filter P xs) < length xs \<longleftrightarrow> (\<exists>x\<in>set xs. \<not> P x)"
  by (induction xs) (auto simp: less_Suc_eq_le)

lemma count_field:
  "\<forall>d\<in>set documents. distinct (map fst d) \<Longrightarrow>
    length (filter (\<lambda>f. fst f = name) (concat documents)) = length (filter (\<lambda>d. map_of d name \<noteq> None) documents)"
proof (induction documents)
  case (Cons d documents)
  have one: "length (filter (\<lambda>f. fst f = name) d) = (if map_of d name = None then 0 else 1)" if "distinct (map fst d)"
    using that by (induction d) (force simp: map_of_eq_None_iff filter_empty_conv)+
  show ?case
  proof (cases "map_of d name = None")
    case True
    then have "filter (\<lambda>f. fst f = name) d = []" by (auto simp: map_of_eq_None_iff filter_empty_conv)
    then show ?thesis using Cons True by simp
  next
    case False
    then have "length (filter (\<lambda>f. fst f = name) d) = 1" using one Cons.prems by simp
    then show ?thesis using Cons False by simp
  qed
qed simp

text \<open>
  The schema inferred from a sample says what the sample shows: the id comes first; the other
  columns are the other fields, each once and in increasing order, numbered after it; and a column is
  nullable exactly when some document lacks the field or holds an explicit null in it.
\<close>

theorem infer_schema_honest:
  assumes "\<forall>d\<in>set documents. distinct (map fst d)"
    "ts_columns (infer_schema tab documents) = c # cs"
  shows "ci_name c = ID_COLUMN \<and> ci_primary_key c \<and> ci_ordinal c = 1 \<and>
    set (map ci_name cs) = set (concat (map (map fst) documents)) - {ID_COLUMN} \<and>
    sorted_wrt (<) (map ci_name cs) \<and>
    (\<forall>i<length cs. i < 2 ^ 32 \<longrightarrow> ci_ordinal (cs ! i) = word_of_nat (i + 2)) \<and>
    (\<forall>col\<in>set cs. ci_nullable col \<longleftrightarrow>
       (\<exists>d\<in>set documents. map_of d (ci_name col) \<in> {None, Some Bson_Null}))"
proof -
  let ?seen = "observe_all documents" and ?n = "length documents"
  let ?rest = "bt_remove ID_COLUMN ?seen"
  have ord: "bt_ordered ?seen" and exact: "seen_exactly (concat documents) name (map_of ?seen name)" for name
    using fold_observe [of "concat documents"] by (simp_all add: observe_all_def)
  have cs: "cs = map (sampled_column ?n) (enumerate 0 ?rest)"
    and c: "ci_name c = ID_COLUMN" "ci_primary_key c" "ci_ordinal c = 1"
    using assms(2) by (auto simp: infer_schema_def Let_def)
  have names: "map ci_name cs = map fst ?rest"
    by (rule nth_equalityI) (auto simp: cs nth_enumerate_eq sampled_column_def split: prod.split)
  have keys: "name \<in> fst ` set ?rest \<longleftrightarrow> name \<in> set (concat (map (map fst) documents)) \<and> name \<noteq> ID_COLUMN" for name
  proof -
    have "name \<in> fst ` set ?rest \<longleftrightarrow> map_of ?rest name \<noteq> None"
      using map_of_eq_None_iff [of ?rest name] by argo
    also have "\<dots> \<longleftrightarrow> name \<noteq> ID_COLUMN \<and> map_of ?seen name \<noteq> None" by simp
    also have "map_of ?seen name \<noteq> None \<longleftrightarrow> name \<in> set (concat (map (map fst) documents))"
      using exact [of name] by (force simp: seen_exactly_def split: option.splits)
    finally show ?thesis by blast
  qed
  have "set (map ci_name cs) = set (concat (map (map fst) documents)) - {ID_COLUMN}"
    unfolding names set_map using keys by blast
  moreover have "sorted_wrt (<) (map ci_name cs)"
    unfolding names using bt_ordered_remove [OF ord] by (simp add: bt_ordered_def)
  moreover have "\<forall>i<length cs. i < 2 ^ 32 \<longrightarrow> ci_ordinal (cs ! i) = word_of_nat (i + 2)"
    by (auto simp: cs nth_enumerate_eq sampled_column_def sampled_ordinal_def split: prod.split)
  moreover have "ci_nullable col \<longleftrightarrow> (\<exists>d\<in>set documents. map_of d (ci_name col) \<in> {None, Some Bson_Null})"
    if "col \<in> set cs" for col
  proof -
    from that obtain i where i: "i < length ?rest" "col = sampled_column ?n (i, ?rest ! i)"
      by (auto simp: cs in_set_enumerate_eq)
    obtain name e where rest: "?rest ! i = (name, e)" by (cases "?rest ! i")
    then have e: "(name, e) \<in> set ?rest" "ci_name col = name"
      "ci_nullable col \<longleftrightarrow> ob_present e < ?n \<or> ob_explicit_null e"
      using i nth_mem [OF i(1)] by (simp_all add: sampled_column_def)
    have "map_of ?rest name = Some e"
      by (rule map_of_is_SomeI [OF bt_ordered_distinct [OF bt_ordered_remove [OF ord]] e(1)])
    then have "map_of ?seen name = Some e" by (simp split: if_splits)
    with exact [of name] have present: "ob_present e = length (filter (\<lambda>d. map_of d name \<noteq> None) documents)"
      and null: "ob_explicit_null e \<longleftrightarrow> (\<exists>d\<in>set documents. (name, Bson_Null) \<in> set d)"
      using count_field [OF assms(1)] by (auto simp: seen_exactly_def)
    have "ob_present e < ?n \<longleftrightarrow> (\<exists>d\<in>set documents. map_of d name = None)"
      unfolding present filter_shorter by simp
    moreover have "ob_explicit_null e \<longleftrightarrow> (\<exists>d\<in>set documents. map_of d name = Some Bson_Null)"
      unfolding null using assms(1) by (metis map_of_eq_Some_iff)
    ultimately show ?thesis using e by auto
  qed
  ultimately show ?thesis using c by blast
qed

theorem infer_schema_honest_witness:
  "ci_nullable (ts_columns (infer_schema (table_unqualified ''t'')
     [[(''_id'', Bson_Int32 1), (''a'', Bson_Null)], [(''_id'', Bson_Int32 2), (''a'', Bson_Int32 3)]]) ! 1)"
proof -
  let ?docs = "[[(''_id'', Bson_Int32 1), (''a'', Bson_Null)], [(''_id'', Bson_Int32 2), (''a'', Bson_Int32 3)]]"
  obtain c cs where cs: "ts_columns (infer_schema (table_unqualified ''t'') ?docs) = c # cs"
    by (simp add: infer_schema_def Let_def)
  have "set (map ci_name cs) = {''a''}" "\<forall>col\<in>set cs. ci_nullable col \<longleftrightarrow>
       (\<exists>d\<in>set ?docs. map_of d (ci_name col) \<in> {None, Some Bson_Null})"
    using infer_schema_honest [OF _ cs] by (auto simp: ID_COLUMN_def)
  then show ?thesis unfolding cs by (cases cs) auto
qed

end
