(* ===== verification/Mongo_Adapter.thy ===== *)
theory Mongo_Adapter
  imports Mongo_Policy Bson_Proofs Adapter
begin

text \<open>
  Crate \<open>dbboard-mongodb\<close>, \<open>adapter.rs\<close>: running a command document. The driver is a record of the
  calls the adapter makes on it over a server state; an open cursor is a value of type \<open>'c\<close>.
\<close>

datatype error_kind = Command_Kind | Invalid_Argument | Bson_Serialization | Bson_Deserialization | Other_Kind

record mongo_error =
  me_kind :: error_kind
  me_shown :: string

record ('s, 'c) mongo_link =
  mg_run_command :: "bson_doc \<Rightarrow> 's \<Rightarrow> (mongo_error + bson_doc) \<times> 's"
  mg_run_cursor_command :: "bson_doc \<Rightarrow> 's \<Rightarrow> (mongo_error + 'c) \<times> 's"
  mg_try_next :: "'c \<Rightarrow> 's \<Rightarrow> (mongo_error + bson_doc option \<times> 'c) \<times> 's"
  mg_list_collection_names :: "'s \<Rightarrow> (mongo_error + string list) \<times> 's"

text \<open>The readers of command text: the classifier's and the wire's.\<close>

record mongo_readers =
  mr_json :: json_parser
  mr_bson :: "string \<Rightarrow> bson_doc option"
  mr_text :: bson_text

definition SCHEMA_SAMPLE_SIZE :: nat where "SCHEMA_SAMPLE_SIZE = 100"

definition choose_database :: "string option \<Rightarrow> string option \<Rightarrow> string db_result" where
  "choose_database configured uri_default =
     ok_or (Connection_Error (''the connection names no database: add one to the URI path or set it '' @
         ''on the connection''))
       (case configured of
          Some name \<Rightarrow> if name \<noteq> [] then Some name else uri_default
        | None \<Rightarrow> uri_default)"

definition mongo_query_error :: "mongo_error \<Rightarrow> db_error" where
  "mongo_query_error e =
     (if me_kind e \<in> {Command_Kind, Invalid_Argument, Bson_Serialization, Bson_Deserialization}
      then Query_Error (me_shown e) else Connection_Error (me_shown e))"

text \<open>\<open>map_err\<close> on a driver call.\<close>

definition mapped :: "(mongo_error \<Rightarrow> db_error) \<Rightarrow> ('s \<Rightarrow> (mongo_error + 'a) \<times> 's) \<Rightarrow> ('s, 'a) db_op" where
  "mapped on_error call s = (case call s of (Inl e, s') \<Rightarrow> (Inl (on_error e), s') | (Inr x, s') \<Rightarrow> (Inr x, s'))"

fun pull :: "('s, 'c) mongo_link \<Rightarrow> nat \<Rightarrow> 'c \<Rightarrow> bson_doc list \<Rightarrow> ('s, bson_doc list) db_op" where
  "pull link 0 cursor documents = io_of (Inr documents)"
| "pull link (Suc room) cursor documents =
     io_bind (mapped mongo_query_error (mg_try_next link cursor)) (\<lambda>(next_document, cursor').
       case next_document of
         Some document \<Rightarrow> pull link room cursor' (documents @ [document])
       | None \<Rightarrow> io_of (Inr documents))"

definition collect :: "('s, 'c) mongo_link \<Rightarrow> bson_doc \<Rightarrow> nat \<Rightarrow> ('s, bson_doc list) db_op" where
  "collect link command limit =
     io_bind (mapped mongo_query_error (mg_run_cursor_command link command)) (\<lambda>cursor. pull link limit cursor [])"

definition mongo_run :: "('s, 'c) mongo_link \<Rightarrow> mongo_readers \<Rightarrow> string \<Rightarrow> nat \<Rightarrow> ('s, query_result) db_op" where
  "mongo_run link r text max_rows =
     (case classify_command (mr_json r) text of
        Inl v \<Rightarrow> io_of (Inl (command_db_error v))
      | Inr command \<Rightarrow> io_bind (io_of (to_wire (mr_bson r) text command)) (\<lambda>wire.
          if returns_cursor command then
            io_bind (collect link wire max_rows) (\<lambda>documents. io_of (Inr (documents_to_result (mr_text r) documents)))
          else
            io_bind (mapped mongo_query_error (mg_run_command link wire))
              (\<lambda>reply. io_of (Inr (reply_to_result (mr_text r) reply)))))"

definition mongo_query :: "('s, 'c) mongo_link \<Rightarrow> mongo_readers \<Rightarrow> string \<Rightarrow> ('s, query_result) db_op" where
  "mongo_query link r sql =
     io_bind (mongo_run link r sql (MAX_RESULT_ROWS + 1)) (\<lambda>result.
       if MAX_RESULT_ROWS < length (qr_rows result) then io_of (Inl too_many_rows_error)
       else io_of (Inr result))"

definition mongo_ping :: "('s, 'c) mongo_link \<Rightarrow> ('s, unit) db_op" where
  "mongo_ping link = io_bind (mapped (\<lambda>e. Connection_Error (me_shown e))
     (mg_run_command link [(''ping'', Bson_Int32 1)])) (\<lambda>_. io_of (Inr ()))"

definition mongo_list_tables :: "('s, 'c) mongo_link \<Rightarrow> ('s, table_info list) db_op" where
  "mongo_list_tables link = io_bind (mapped (\<lambda>e. Schema_Error (me_shown e)) (mg_list_collection_names link))
     (\<lambda>names. io_of (Inr (map table_unqualified names)))"

definition mongo_describe_table :: "('s, 'c) mongo_link \<Rightarrow> table_info \<Rightarrow> ('s, table_schema) db_op" where
  "mongo_describe_table link tab s =
     (case collect link [(''find'', Bson_String (ti_name tab)), (''limit'', Bson_Int64 (word_of_nat SCHEMA_SAMPLE_SIZE))]
         SCHEMA_SAMPLE_SIZE s of
        (Inl e, s') \<Rightarrow> (Inl (Schema_Error (db_error_display e)), s')
      | (Inr documents, s') \<Rightarrow> (Inr (infer_schema tab documents), s'))"

definition mongo_database_adapter :: "'x sql_parser \<Rightarrow> ('s, 'c) mongo_link \<Rightarrow> mongo_readers \<Rightarrow> 's adapter" where
  "mongo_database_adapter parse_sql link r =
     (adapter_defaults parse_sql ''mongodb'' (capabilities_default\<lparr>has_describe_table := True\<rparr>)
        (mongo_ping link) (mongo_list_tables link) (mongo_query link r))
     \<lparr>ad_query_read_only := mongo_run link r, ad_describe_table := mongo_describe_table link\<rparr>"

section \<open>Guarded and bounded\<close>

lemma pull_bound: "pull link room cursor documents s = (Inr found, s') \<Longrightarrow> length found \<le> length documents + room"
proof (induction room arbitrary: cursor documents s)
  case (Suc room)
  then show ?case by (fastforce simp: io_bind_pair split: prod.splits option.splits)
qed simp

lemma documents_rows: "length (qr_rows (documents_to_result t documents)) = length documents"
  by (simp add: documents_to_result_def Let_def)

lemma mongo_run_bound:
  assumes "mongo_run link r text n s = (Inr q, s')"
  shows "length (qr_rows q) \<le> max 1 n"
proof (cases "classify_command (mr_json r) text")
  case (Inl v)
  with assms show ?thesis by (simp add: mongo_run_def)
next
  case (Inr command)
  show ?thesis
  proof (cases "returns_cursor command")
    case True
    then obtain wire cursor documents s1 s2 where "q = documents_to_result (mr_text r) documents"
      "pull link n cursor [] s1 = (Inr documents, s2)"
      using assms Inr by (auto simp: mongo_run_def collect_def io_bind_pair)
    then show ?thesis using pull_bound [of link n cursor "[]" s1] by (simp add: documents_rows max_def)
  next
    case False
    then show ?thesis using assms Inr
      by (auto simp: mongo_run_def io_bind_pair reply_to_result_def documents_rows)
  qed
qed

text \<open>
  The adapter is guarded and bounded: a text that is not a reviewed read is refused before the
  server hears of it, by a query and by a bounded query; a query yields at most the row cap, and a
  bounded query at most its bound.
\<close>

theorem mongo_guarded_and_bounded:
  assumes "A = mongo_database_adapter parse_sql link r"
  shows "(classify_command (mr_json r) sql = Inl v \<longrightarrow>
      ad_query A sql s = (Inl (command_db_error v), s) \<and>
      ad_query_read_only A sql n s = (Inl (command_db_error v), s)) \<and>
    (fst (ad_query A sql s) = Inr q \<longrightarrow> length (qr_rows q) \<le> MAX_RESULT_ROWS) \<and>
    (fst (ad_query_read_only A sql n s) = Inr q \<and> 1 \<le> n \<longrightarrow> length (qr_rows q) \<le> n)"
proof -
  have "ad_query A = mongo_query link r" "ad_query_read_only A = mongo_run link r"
    by (simp_all add: assms mongo_database_adapter_def adapter_defaults_def)
  moreover have "mongo_run link r sql k s = (Inl (command_db_error v), s)"
    if "classify_command (mr_json r) sql = Inl v" for k
    using that by (simp add: mongo_run_def)
  moreover have "length (qr_rows q) \<le> MAX_RESULT_ROWS" if "fst (mongo_query link r sql s) = Inr q"
    using that by (auto simp: mongo_query_def io_bind_Inr split: if_splits)
  moreover have "length (qr_rows q) \<le> n" if "fst (mongo_run link r sql n s) = Inr q" "1 \<le> n"
    using mongo_run_bound [of link r sql n s q "snd (mongo_run link r sql n s)"] that
    by (simp add: prod_eq_iff max_def)
  ultimately show ?thesis by (auto simp: mongo_query_def io_bind_def)
qed

definition sample_readers :: mongo_readers where
  "sample_readers = \<lparr>mr_json = (\<lambda>_. Some [(''drop'', JString ''c'')]),
     mr_bson = (\<lambda>_. Some [(''drop'', Bson_String ''c'')]),
     mr_text = \<lparr>try_rfc3339 = (\<lambda>_. None), date_display = (\<lambda>_. []), relaxed_extjson = (\<lambda>_. JNull)\<rparr>\<rparr>"

definition sample_link :: "(nat, unit) mongo_link" where
  "sample_link = \<lparr>mg_run_command = (\<lambda>_ s. (Inr [], s + 1)), mg_run_cursor_command = (\<lambda>_ s. (Inr (), s + 1)),
     mg_try_next = (\<lambda>_ s. (Inr (None, ()), s)), mg_list_collection_names = (\<lambda>s. (Inr [], s))\<rparr>"

theorem mongo_guarded_and_bounded_witness:
  "\<exists>v. ad_query (mongo_database_adapter (\<lambda>_ _. Inl []) sample_link sample_readers) ''drop'' 0
         = (Inl (command_db_error v), 0)"
proof -
  have none: "find (\<lambda>(verb, _, _). verb = ''drop'') READ_COMMANDS = None" by (simp add: READ_COMMANDS_def)
  have "classify_command (mr_json sample_readers) ''drop'' = Inl (Command_Violation
      (''the command is not one this connection may run; the read commands are '' @ join '', '' (map fst READ_COMMANDS)))"
    unfolding classify_command_def command_parse_def command_name_def sample_readers_def
    by (simp del: join.simps add: none)
  from mongo_guarded_and_bounded [OF refl, THEN conjunct1, THEN mp, OF this, THEN conjunct1]
  show ?thesis by (rule exI)
qed

end
