(* ===== verification/File_Store.thy ===== *)
theory File_Store
  imports Rust_Text
begin

text \<open>
  The file system as the stores of crate \<open>dbboard-config\<close> use it, and the way they all replace a
  file: a new sibling is written and renamed over the old one. A disk keeps, with its files, the
  faults still to come and every state it went through, which is what a crash could leave behind.
\<close>

section \<open>Paths\<close>

record file_path =
  fp_parent :: "string option"
  fp_name :: "string option"

definition tmp_path_for :: "string \<Rightarrow> file_path \<Rightarrow> file_path" where
  "tmp_path_for fallback path =
     \<lparr>fp_parent = Some (case fp_parent path of Some p \<Rightarrow> p | None \<Rightarrow> []),
      fp_name = Some ((case fp_name path of Some n \<Rightarrow> n | None \<Rightarrow> fallback) @ ''.tmp'')\<rparr>"

lemma tmp_path_differs [simp]: "tmp_path_for fallback path \<noteq> path"
proof
  assume "tmp_path_for fallback path = path"
  then have "fp_name (tmp_path_for fallback path) = fp_name path" by simp
  then show False by (simp add: tmp_path_for_def split: option.splits)
qed

section \<open>The disk\<close>

datatype io_error = Not_Found | Already_Exists | Other_Io string

type_synonym file_map = "file_path \<rightharpoonup> string"

text \<open>What happens to a system call: nothing out of the ordinary, or a failure after some bytes.\<close>

datatype fault = Fine | Fails string nat

record disk =
  dk_files :: file_map
  dk_faults :: "fault list"
  dk_seen :: "file_map list"

type_synonym 'a disk_op = "disk \<Rightarrow> (io_error + 'a) \<times> disk"

definition next_fault :: "disk \<Rightarrow> fault" where
  "next_fault d = (case dk_faults d of f # _ \<Rightarrow> f | [] \<Rightarrow> Fine)"

definition advance :: "file_map list \<Rightarrow> disk \<Rightarrow> disk" where
  "advance states d = d\<lparr>dk_files := last (dk_files d # states), dk_faults := tl (dk_faults d),
     dk_seen := dk_seen d @ states\<rparr>"

text \<open>A call that takes no effect when it fails.\<close>

definition sys_call :: "(file_map \<Rightarrow> io_error + file_map) \<Rightarrow> unit disk_op" where
  "sys_call effect d =
     (case next_fault d of
        Fails e n \<Rightarrow> (Inl (Other_Io e), advance [] d)
      | Fine \<Rightarrow>
          (case effect (dk_files d) of
             Inl e \<Rightarrow> (Inl e, advance [] d)
           | Inr fs \<Rightarrow> (Inr (), advance [fs] d)))"

definition remove_file :: "file_path \<Rightarrow> unit disk_op" where
  "remove_file path = sys_call (\<lambda>fs. if fs path = None then Inl Not_Found else Inr (fs(path := None)))"

definition create_new_user_only :: "file_path \<Rightarrow> unit disk_op" where
  "create_new_user_only path =
     sys_call (\<lambda>fs. if fs path \<noteq> None then Inl Already_Exists else Inr (fs(path \<mapsto> [])))"

definition sync_all :: "unit disk_op" where
  "sync_all = sys_call Inr"

definition create_dir_all :: "string \<Rightarrow> unit disk_op" where
  "create_dir_all parent = sys_call Inr"

definition rename_file :: "file_path \<Rightarrow> file_path \<Rightarrow> unit disk_op" where
  "rename_file old new = sys_call (\<lambda>fs.
     case fs old of None \<Rightarrow> Inl Not_Found | Some text \<Rightarrow> Inr (fs(old := None, new \<mapsto> text)))"

text \<open>A write puts the text down piece by piece and may stop after any of them.\<close>

definition write_all :: "file_path \<Rightarrow> string \<Rightarrow> unit disk_op" where
  "write_all path text d =
     (let upto = (\<lambda>n. map (\<lambda>k. (dk_files d)(path \<mapsto> take k text)) [0..<Suc n])
      in case next_fault d of
           Fails e n \<Rightarrow> (Inl (Other_Io e), advance (upto (min n (length text))) d)
         | Fine \<Rightarrow> (Inr (), advance (upto (length text)) d))"

definition read_to_string :: "file_path \<Rightarrow> string disk_op" where
  "read_to_string path d =
     (case next_fault d of
        Fails e n \<Rightarrow> (Inl (Other_Io e), advance [] d)
      | Fine \<Rightarrow> (ok_or Not_Found (dk_files d path), advance [] d))"

text \<open>\<open>let _ =\<close>: the answer of a call is dropped.\<close>

definition ignoring :: "'a disk_op \<Rightarrow> unit disk_op" where
  "ignoring m d = (case m d of (_, d') \<Rightarrow> (Inr (), d'))"

section \<open>Replacing a file\<close>

definition make_parent :: "file_path \<Rightarrow> unit disk_op" where
  "make_parent path =
     (case fp_parent path of
        Some parent \<Rightarrow> if parent \<noteq> [] then create_dir_all parent else io_of (Inr ())
      | None \<Rightarrow> io_of (Inr ()))"

definition replace_file :: "(file_path \<Rightarrow> string \<Rightarrow> unit disk_op) \<Rightarrow> string \<Rightarrow> file_path \<Rightarrow> string \<Rightarrow> unit disk_op" where
  "replace_file write_new_file fallback path text =
     (let tmp = tmp_path_for fallback path
      in io_bind (make_parent path) (\<lambda>_.
         io_bind (write_new_file tmp text) (\<lambda>_ d.
           case rename_file tmp path d of
             (Inl e, d') \<Rightarrow> io_bind (ignoring (remove_file tmp)) (\<lambda>_. io_of (Inl e)) d'
           | (Inr u, d') \<Rightarrow> (Inr u, d'))))"

section \<open>What a call may change\<close>

text \<open>
  An operation only adds to the states seen, and ends in the last one it added. It keeps to a path
  when all of them agree with the first on every other file: wherever it is cut off, nothing else
  is lost.
\<close>

definition grows :: "'a disk_op \<Rightarrow> (disk \<Rightarrow> file_map \<Rightarrow> bool) \<Rightarrow> bool" where
  "grows m ok \<longleftrightarrow> (\<forall>d. \<exists>states. dk_seen (snd (m d)) = dk_seen d @ states \<and>
     dk_files (snd (m d)) = last (dk_files d # states) \<and> list_all (ok d) states)"

definition keeps_to :: "file_path \<Rightarrow> 'a disk_op \<Rightarrow> bool" where
  "keeps_to path m \<longleftrightarrow> grows m (\<lambda>d fs. \<forall>p. p \<noteq> path \<longrightarrow> fs p = dk_files d p)"

lemma growsE:
  assumes "grows m ok" "m d = (r, d')"
  obtains states where "dk_seen d' = dk_seen d @ states"
    "dk_files d' = last (dk_files d # states)" "list_all (ok d) states"
proof -
  have "\<exists>states. dk_seen (snd (m d)) = dk_seen d @ states \<and>
     dk_files (snd (m d)) = last (dk_files d # states) \<and> list_all (ok d) states"
    using assms(1) by (simp add: grows_def)
  then show ?thesis using assms(2) that by auto
qed

lemma advance_simps [simp]:
  "dk_seen (advance states d) = dk_seen d @ states"
  "dk_files (advance states d) = last (dk_files d # states)"
  "dk_faults (advance states d) = tl (dk_faults d)"
  by (simp_all add: advance_def)

lemma grows_advance:
  assumes "\<And>d. \<exists>r states. m d = (r, advance states d) \<and> list_all (ok d) states"
  shows "grows m ok"
  unfolding grows_def
proof
  fix d
  obtain r states where "m d = (r, advance states d)" "list_all (ok d) states"
    using assms [of d] by blast
  then show "\<exists>states. dk_seen (snd (m d)) = dk_seen d @ states \<and>
      dk_files (snd (m d)) = last (dk_files d # states) \<and> list_all (ok d) states"
    by (intro exI [of _ states]) simp
qed

lemma keeps_to_sys_call:
  assumes "\<And>fs fs' p. effect fs = Inr fs' \<Longrightarrow> p \<noteq> path \<Longrightarrow> fs' p = fs p"
  shows "keeps_to path (sys_call effect)"
  unfolding keeps_to_def
proof (rule grows_advance)
  fix d
  show "\<exists>r states. sys_call effect d = (r, advance states d) \<and>
      list_all (\<lambda>fs. \<forall>p. p \<noteq> path \<longrightarrow> fs p = dk_files d p) states"
  proof (cases "next_fault d")
    case Fine
    then show ?thesis
    proof (cases "effect (dk_files d)")
      case (Inl e)
      then show ?thesis using Fine by (simp add: sys_call_def exI [of _ "[]"])
    next
      case (Inr fs)
      then show ?thesis using Fine assms [OF Inr]
        by (intro exI [of _ "Inr ()"] exI [of _ "[fs]"]) (simp add: sys_call_def)
    qed
  next
    case (Fails e n)
    then show ?thesis by (simp add: sys_call_def exI [of _ "[]"])
  qed
qed

lemma keeps_to_remove_file [intro]: "keeps_to path (remove_file path)"
  unfolding remove_file_def by (rule keeps_to_sys_call) (auto split: if_splits)

lemma keeps_to_create_new [intro]: "keeps_to path (create_new_user_only path)"
  unfolding create_new_user_only_def by (rule keeps_to_sys_call) (auto split: if_splits)

lemma keeps_to_sync_all [intro]: "keeps_to path sync_all"
  unfolding sync_all_def by (rule keeps_to_sys_call) auto

lemma keeps_to_create_dir [intro]: "keeps_to path (create_dir_all parent)"
  unfolding create_dir_all_def by (rule keeps_to_sys_call) auto

lemma keeps_to_write_all [intro]: "keeps_to path (write_all path text)"
  unfolding keeps_to_def
proof (rule grows_advance)
  fix d :: disk
  define upto where "upto n = map (\<lambda>k. (dk_files d)(path \<mapsto> take k text)) [0..<Suc n]" for n
  have ok: "list_all (\<lambda>fs. \<forall>p. p \<noteq> path \<longrightarrow> fs p = dk_files d p) (upto n)" for n
    by (simp add: upto_def list_all_iff)
  have "write_all path text d =
     (case next_fault d of
        Fails e n \<Rightarrow> (Inl (Other_Io e), advance (upto (min n (length text))) d)
      | Fine \<Rightarrow> (Inr (), advance (upto (length text)) d))"
    by (simp only: write_all_def Let_def upto_def)
  then show "\<exists>r states. write_all path text d = (r, advance states d) \<and>
      list_all (\<lambda>fs. \<forall>p. p \<noteq> path \<longrightarrow> fs p = dk_files d p) states"
    using ok by (cases "next_fault d") auto
qed

lemma snd_ignoring [simp]: "snd (ignoring m d) = snd (m d)"
  by (simp add: ignoring_def split: prod.split)

lemma keeps_to_ignoring [intro]: "keeps_to path m \<Longrightarrow> keeps_to path (ignoring m)"
  unfolding keeps_to_def grows_def snd_ignoring .

lemma keeps_to_io_of [intro]: "keeps_to path (io_of r)"
  by (simp add: keeps_to_def grows_def)

lemma keeps_to_bind [intro]:
  assumes "keeps_to path m" "\<And>x. keeps_to path (f x)"
  shows "keeps_to path (io_bind m f)"
  unfolding keeps_to_def grows_def
proof
  fix d
  obtain r d1 where m: "m d = (r, d1)" by (cases "m d")
  obtain states where s: "dk_seen d1 = dk_seen d @ states" "dk_files d1 = last (dk_files d # states)"
    "list_all (\<lambda>fs. \<forall>p. p \<noteq> path \<longrightarrow> fs p = dk_files d p) states"
    using assms(1) [unfolded keeps_to_def] m by (rule growsE)
  show "\<exists>states. dk_seen (snd (io_bind m f d)) = dk_seen d @ states \<and>
      dk_files (snd (io_bind m f d)) = last (dk_files d # states) \<and>
      list_all (\<lambda>fs. \<forall>p. p \<noteq> path \<longrightarrow> fs p = dk_files d p) states"
  proof (cases r)
    case (Inl e)
    then show ?thesis using s m by (intro exI [of _ states]) (simp add: io_bind_def)
  next
    case (Inr x)
    obtain r' d2 where f: "f x d1 = (r', d2)" by (cases "f x d1")
    obtain states' where t: "dk_seen d2 = dk_seen d1 @ states'"
      "dk_files d2 = last (dk_files d1 # states')"
      "list_all (\<lambda>fs. \<forall>p. p \<noteq> path \<longrightarrow> fs p = dk_files d1 p) states'"
      using assms(2) [unfolded keeps_to_def] f by (rule growsE)
    have same: "dk_files d1 p = dk_files d p" if "p \<noteq> path" for p
      using s(2,3) that by (cases "states = []") (auto simp: list_all_iff)
    have "snd (io_bind m f d) = d2" by (simp add: io_bind_def m Inr f)
    moreover have "dk_seen d2 = dk_seen d @ (states @ states')" using s(1) t(1) by simp
    moreover have "dk_files d2 = last (dk_files d # states @ states')"
      using s(2) t(2) by (cases "states' = []") auto
    moreover have "list_all (\<lambda>fs. \<forall>p. p \<noteq> path \<longrightarrow> fs p = dk_files d p) (states @ states')"
      using s(3) t(3) same by (auto simp: list_all_iff)
    ultimately show ?thesis by (intro exI [of _ "states @ states'"]) simp
  qed
qed

section \<open>The replacement is all or nothing\<close>

definition old_or_new :: "file_path \<Rightarrow> file_path \<Rightarrow> string \<Rightarrow> disk \<Rightarrow> file_map \<Rightarrow> bool" where
  "old_or_new tmp path text d fs \<longleftrightarrow>
     (fs path = dk_files d path \<or> fs path = Some text) \<and>
     (\<forall>p. p \<noteq> path \<longrightarrow> p \<noteq> tmp \<longrightarrow> fs p = dk_files d p)"

lemma rename_file_cases:
  "rename_file old new d =
     (case next_fault d of
        Fails e n \<Rightarrow> (Inl (Other_Io e), advance [] d)
      | Fine \<Rightarrow>
          (case dk_files d old of
             None \<Rightarrow> (Inl Not_Found, advance [] d)
           | Some text \<Rightarrow> (Inr (), advance [(dk_files d)(old := None, new \<mapsto> text)] d)))"
  by (simp add: rename_file_def sys_call_def split: fault.split option.split)

text \<open>What the replacement relies on in the code that writes the sibling.\<close>

locale new_file_writer =
  fixes write_new_file :: "file_path \<Rightarrow> string \<Rightarrow> unit disk_op"
  assumes keeps: "keeps_to tmp (write_new_file tmp text)"
    and written: "write_new_file tmp text d = (Inr u, d') \<Longrightarrow> dk_files d' tmp = Some text"
begin

lemma replace_file_cases:
  assumes "replace_file write_new_file fallback path text d = (r, d')"
  obtains (stopped) e where "r = Inl e"
      "io_bind (make_parent path) (\<lambda>_. write_new_file (tmp_path_for fallback path) text) d = (Inl e, d')"
  | (renamed) d1 where "r = Inr ()"
      "io_bind (make_parent path) (\<lambda>_. write_new_file (tmp_path_for fallback path) text) d = (Inr (), d1)"
      "rename_file (tmp_path_for fallback path) path d1 = (Inr (), d')"
  | (refused) e d1 d2 where "r = Inl e"
      "io_bind (make_parent path) (\<lambda>_. write_new_file (tmp_path_for fallback path) text) d = (Inr (), d1)"
      "rename_file (tmp_path_for fallback path) path d1 = (Inl e, d2)"
      "d' = snd (remove_file (tmp_path_for fallback path) d2)"
proof -
  define tmp where "tmp = tmp_path_for fallback path"
  define prefix where "prefix = io_bind (make_parent path) (\<lambda>_. write_new_file tmp text)"
  have whole: "replace_file write_new_file fallback path text d =
      (case prefix d of
         (Inl e, d1) \<Rightarrow> (Inl e, d1)
       | (Inr _, d1) \<Rightarrow>
           (case rename_file tmp path d1 of
              (Inl e, d2) \<Rightarrow> (Inl e, snd (remove_file tmp d2))
            | (Inr u, d2) \<Rightarrow> (Inr u, d2)))"
    by (auto simp: replace_file_def prefix_def tmp_def [symmetric] Let_def io_bind_def ignoring_def
        split: prod.splits sum.splits)
  obtain a d1 where p: "prefix d = (a, d1)" by (cases "prefix d")
  show ?thesis
  proof (cases a)
    case (Inl e)
    then show ?thesis using stopped assms whole p by (simp add: prefix_def tmp_def)
  next
    case (Inr u)
    obtain b d2 where q: "rename_file tmp path d1 = (b, d2)" by (cases "rename_file tmp path d1")
    show ?thesis
    proof (cases b)
      case (Inl e)
      then show ?thesis
        using refused [of e d1 d2] assms whole p q Inr by (simp add: prefix_def tmp_def)
    next
      case (Inr u')
      then show ?thesis
        using renamed [of d1] assms whole p q \<open>a = Inr u\<close> by (simp add: prefix_def tmp_def)
    qed
  qed
qed

lemma prefix_keeps:
  "keeps_to tmp (io_bind (make_parent path) (\<lambda>_. write_new_file tmp text))"
  by (rule keeps_to_bind) (auto simp: make_parent_def keeps split: option.split)

lemma prefix_writes:
  "io_bind (make_parent path) (\<lambda>_. write_new_file tmp text) d = (Inr u, d') \<Longrightarrow>
     dk_files d' tmp = Some text"
  by (auto simp: io_bind_pair dest: written)

lemma replace_file_run:
  assumes "replace_file write_new_file fallback path text d = (r, d')"
  obtains states where "dk_seen d' = dk_seen d @ states"
    "dk_files d' = last (dk_files d # states)"
    "list_all (old_or_new (tmp_path_for fallback path) path text d) states"
    "r = Inr () \<longrightarrow> dk_files d' path = Some text \<and> dk_files d' (tmp_path_for fallback path) = None"
    "r \<noteq> Inr () \<longrightarrow> list_all (\<lambda>fs. fs path = dk_files d path) (dk_files d' # states)"
proof -
  define tmp where "tmp = tmp_path_for fallback path"
  have tmp: "tmp \<noteq> path" "path \<noteq> tmp" by (simp_all add: tmp_def tmp_path_differs [symmetric])
  let ?same = "\<lambda>d fs. \<forall>p. p \<noteq> tmp \<longrightarrow> fs p = dk_files d p"
  have keeps_rm: "keeps_to tmp (remove_file tmp)" ..
  show ?thesis
    using assms
  proof (cases rule: replace_file_cases)
    case (stopped e)
    obtain states where s: "dk_seen d' = dk_seen d @ states"
        "dk_files d' = last (dk_files d # states)" "list_all (?same d) states"
      using prefix_keeps [unfolded keeps_to_def] stopped(2) unfolding tmp_def by (rule growsE)
    have "dk_files d' path = dk_files d path"
      using s(2,3) tmp by (cases "states = []") (auto simp: list_all_iff)
    moreover have "list_all (old_or_new tmp path text d) states" "list_all (\<lambda>fs. fs path = dk_files d path) states"
      using s(3) tmp by (auto simp: list_all_iff old_or_new_def)
    ultimately show ?thesis using that s stopped(1) by (simp add: tmp_def)
  next
    case (renamed d1)
    obtain states where s: "dk_seen d1 = dk_seen d @ states"
        "dk_files d1 = last (dk_files d # states)" "list_all (?same d) states"
      using prefix_keeps [unfolded keeps_to_def] renamed(2) unfolding tmp_def by (rule growsE)
    have unchanged: "?same d (dk_files d1)"
      using s(2,3) by (cases "states = []") (auto simp: list_all_iff)
    have content: "dk_files d1 tmp = Some text"
      using prefix_writes renamed(2) by (simp add: tmp_def)
    let ?last = "(dk_files d1)(tmp := None, path \<mapsto> text)"
    have d': "d' = advance [?last] d1"
      using renamed(3) content by (simp add: rename_file_cases tmp_def split: fault.splits)
    have "list_all (old_or_new tmp path text d) (states @ [?last])"
      using s(3) unchanged tmp by (auto simp: list_all_iff old_or_new_def)
    then show ?thesis
      using that [of "states @ [?last]"] s(1) d' renamed(1) tmp by (simp add: tmp_def)
  next
    case (refused e d1 d2)
    obtain states where s: "dk_seen d1 = dk_seen d @ states"
        "dk_files d1 = last (dk_files d # states)" "list_all (?same d) states"
      using prefix_keeps [unfolded keeps_to_def] refused(2) unfolding tmp_def by (rule growsE)
    have unchanged: "?same d (dk_files d1)"
      using s(2,3) by (cases "states = []") (auto simp: list_all_iff)
    have d2: "d2 = advance [] d1"
      using refused(3) by (auto simp: rename_file_cases split: fault.splits option.splits)
    obtain w where w: "remove_file tmp d2 = (w, d')"
      using refused(4) by (metis prod.collapse tmp_def)
    obtain states' where t: "dk_seen d' = dk_seen d2 @ states'"
        "dk_files d' = last (dk_files d2 # states')" "list_all (?same d2) states'"
      using keeps_rm [unfolded keeps_to_def] w by (rule growsE)
    have "dk_files d' path = dk_files d path"
      using t(2,3) d2 unchanged tmp by (cases "states' = []") (auto simp: list_all_iff)
    moreover have "list_all (old_or_new tmp path text d) (states @ states')"
        "list_all (\<lambda>fs. fs path = dk_files d path) (states @ states')"
      using s(3) t(3) unchanged d2 tmp by (auto simp: list_all_iff old_or_new_def)
    moreover have "dk_files d' = last (dk_files d # states @ states')"
      using t(2) s(2) d2 by (cases "states' = []") auto
    ultimately show ?thesis
      using that [of "states @ states'"] s(1) t(1) d2 refused(1) by (simp add: tmp_def)
  qed
qed

lemma replace_file_written:
  assumes "replace_file write_new_file fallback path text d = (Inr u, d')"
  shows "dk_files d' path = Some text"
proof -
  obtain states where "Inr u = (Inr () :: io_error + unit) \<longrightarrow>
      dk_files d' path = Some text \<and> dk_files d' (tmp_path_for fallback path) = None"
    by (rule replace_file_run [OF assms])
  then show ?thesis by simp
qed

lemma replace_file_failed:
  assumes "replace_file write_new_file fallback path text d = (Inl e, d')"
  shows "dk_files d' path = dk_files d path"
proof -
  obtain states where "(Inl e :: io_error + unit) \<noteq> Inr () \<longrightarrow>
      list_all (\<lambda>fs. fs path = dk_files d path) (dk_files d' # states)"
    by (rule replace_file_run [OF assms])
  then show ?thesis by simp
qed

end

section \<open>A store in memory and its file\<close>

text \<open>
  An admin owns the path and the contents of one file; TOML reading and printing are parameters.
  Every change is written first and only then taken over in memory.
\<close>

record 'f file_admin =
  ad_path :: file_path
  ad_file :: 'f

record 'f codec =
  to_text :: "'f \<Rightarrow> string + string"
  of_text :: "string \<Rightarrow> string + 'f"

definition faithful_codec :: "'f codec \<Rightarrow> bool" where
  "faithful_codec toml \<longleftrightarrow> (\<forall>file text. to_text toml file = Inr text \<longrightarrow> of_text toml text = Inr file)"

definition io_map_err :: "('e \<Rightarrow> 'e') \<Rightarrow> ('d \<Rightarrow> ('e + 'a) \<times> 'd) \<Rightarrow> 'd \<Rightarrow> ('e' + 'a) \<times> 'd" where
  "io_map_err f m d = (case m d of (Inl e, d') \<Rightarrow> (Inl (f e), d') | (Inr x, d') \<Rightarrow> (Inr x, d'))"

definition commit ::
  "(file_path \<Rightarrow> 'f \<Rightarrow> disk \<Rightarrow> ('e + unit) \<times> disk) \<Rightarrow> 'f \<Rightarrow> 'a \<Rightarrow> 'f file_admin \<times> disk \<Rightarrow>
     ('e + 'a) \<times> 'f file_admin \<times> disk" where
  "commit save_atomic new answer s =
     (case s of (admin, d) \<Rightarrow>
        (case save_atomic (ad_path admin) new d of
           (Inl e, d') \<Rightarrow> (Inl e, admin, d')
         | (Inr _, d') \<Rightarrow> (Inr answer, admin\<lparr>ad_file := new\<rparr>, d')))"

lemma commit_cases:
  assumes "commit save new answer (admin, d) = (r, admin', d')"
  obtains (failed) e where "r = Inl e" "admin' = admin" "save (ad_path admin) new d = (Inl e, d')"
  | (saved) "r = Inr answer" "admin' = admin\<lparr>ad_file := new\<rparr>" "save (ad_path admin) new d = (Inr (), d')"
  using assms by (auto simp: commit_def split: prod.splits sum.splits)

text \<open>Starting again after a crash that left these files.\<close>

definition restart :: "file_map \<Rightarrow> disk" where
  "restart fs = \<lparr>dk_files = fs, dk_faults = [], dk_seen = []\<rparr>"

text \<open>The same operation again and again until it succeeds, at most \<open>n\<close> more times.\<close>

primrec attempts :: "nat \<Rightarrow> ('s \<Rightarrow> ('e + 'a) \<times> 's) \<Rightarrow> 's \<Rightarrow> ('e + 'a) \<times> 's" where
  "attempts 0 m s = m s"
| "attempts (Suc n) m s = (case m s of (Inl e, s') \<Rightarrow> attempts n m s' | (Inr x, s') \<Rightarrow> (Inr x, s'))"

section \<open>Faults are used up\<close>

definition spends :: "nat \<Rightarrow> 'a disk_op \<Rightarrow> bool" where
  "spends n m \<longleftrightarrow> (\<forall>d. length (dk_faults (snd (m d))) \<le> length (dk_faults d) - n)"

lemma spends_weaken: "spends (Suc 0) m \<Longrightarrow> spends 0 m"
  unfolding spends_def by (auto intro: le_trans [OF _ diff_le_self])

lemma spends_sys_call: "spends (Suc 0) (sys_call effect)"
  by (auto simp: spends_def sys_call_def split: fault.split sum.split)

lemma spends_ops [intro]:
  "spends (Suc 0) (remove_file path)" "spends (Suc 0) (create_new_user_only path)"
  "spends (Suc 0) sync_all" "spends (Suc 0) (create_dir_all parent)"
  "spends (Suc 0) (rename_file old new)"
  unfolding remove_file_def create_new_user_only_def sync_all_def create_dir_all_def rename_file_def
  by (rule spends_sys_call)+

lemma spends_write_all [intro]: "spends (Suc 0) (write_all path text)"
  by (auto simp: spends_def write_all_def Let_def split: fault.split)

lemma spends_io_of [intro]: "spends 0 (io_of r)"
  by (simp add: spends_def)

lemma spends_ignoring [intro]: "spends n m \<Longrightarrow> spends n (ignoring m)"
  by (simp add: spends_def)

lemma spends_bind [intro]:
  assumes "spends n m" "\<And>x. spends 0 (f x)"
  shows "spends n (io_bind m f)"
  unfolding spends_def
proof
  fix d
  obtain r d1 where m: "m d = (r, d1)" by (cases "m d")
  have "length (dk_faults d1) \<le> length (dk_faults d) - n"
    using assms(1) m by (metis snd_conv spends_def)
  moreover have "length (dk_faults (snd (f x d1))) \<le> length (dk_faults d1)" for x
    using assms(2) [of x] by (simp add: spends_def)
  ultimately show "length (dk_faults (snd (io_bind m f d))) \<le> length (dk_faults d) - n"
    using m by (cases r) (auto simp: io_bind_def intro: le_trans)
qed

lemma spends_replace_file:
  assumes "\<And>tmp text. spends (Suc 0) (write_new_file tmp text)"
  shows "spends (Suc 0) (replace_file write_new_file fallback path text)"
proof -
  define final :: "unit disk_op" where "final = (\<lambda>d. case rename_file (tmp_path_for fallback path) path d of
      (Inl e, d') \<Rightarrow> io_bind (ignoring (remove_file (tmp_path_for fallback path))) (\<lambda>_. io_of (Inl e)) d'
    | (Inr u, d') \<Rightarrow> (Inr u, d'))"
  have final: "spends 0 final"
    unfolding spends_def
  proof
    fix d
    obtain r d1 where r: "rename_file (tmp_path_for fallback path) path d = (r, d1)"
      by (cases "rename_file (tmp_path_for fallback path) path d")
    have "length (dk_faults d1) \<le> length (dk_faults d)"
      using spends_ops(5) [THEN spends_weaken, of "tmp_path_for fallback path" path] r
      by (metis snd_conv spends_def minus_nat.diff_0)
    moreover have "length (dk_faults (snd (remove_file (tmp_path_for fallback path) d1))) \<le> length (dk_faults d1)"
      using spends_ops(1) [THEN spends_weaken] by (simp add: spends_def)
    ultimately show "length (dk_faults (snd (final d))) \<le> length (dk_faults d) - 0"
      using r by (cases r) (auto simp: final_def io_bind_def ignoring_def split: prod.split)
  qed
  have body: "spends (Suc 0) (io_bind (write_new_file (tmp_path_for fallback path) text) (\<lambda>_. final))"
    by (rule spends_bind) (rule assms final)+
  have whole: "replace_file write_new_file fallback path text =
      io_bind (make_parent path) (\<lambda>_. io_bind (write_new_file (tmp_path_for fallback path) text) (\<lambda>_. final))"
    by (simp add: replace_file_def Let_def final_def)
  have "spends (Suc 0) (io_bind (make_parent path)
      (\<lambda>_. io_bind (write_new_file (tmp_path_for fallback path) text) (\<lambda>_. final)))"
  proof (cases "\<exists>parent. make_parent path = create_dir_all parent")
    case True
    then obtain parent where "make_parent path = create_dir_all parent" ..
    moreover have "spends (Suc 0) (io_bind (create_dir_all parent)
        (\<lambda>_. io_bind (write_new_file (tmp_path_for fallback path) text) (\<lambda>_. final)))"
      by (rule spends_bind [OF spends_ops(4) spends_weaken [OF body]])
    ultimately show ?thesis by simp
  next
    case False
    then have "make_parent path = io_of (Inr ())"
      by (auto simp: make_parent_def split: option.splits if_splits)
    then show ?thesis using body by (simp add: io_bind_def [abs_def] io_of_def)
  qed
  then show ?thesis by (simp only: whole)
qed

section \<open>Without faults\<close>

lemma no_fault [simp]: "dk_faults d = [] \<Longrightarrow> next_fault d = Fine"
  by (simp add: next_fault_def)

lemma make_parent_fine:
  "dk_faults d = [] \<Longrightarrow> \<exists>d'. make_parent path d = (Inr (), d') \<and> dk_faults d' = [] \<and> dk_files d' = dk_files d"
  by (auto simp: make_parent_def create_dir_all_def sys_call_def split: option.split)

lemma replace_file_fine:
  assumes "dk_faults d = []"
    and "\<And>d1. dk_faults d1 = [] \<Longrightarrow> dk_files d1 = dk_files d \<Longrightarrow>
      \<exists>d2. write_new_file (tmp_path_for fallback path) text d1 = (Inr (), d2) \<and> dk_faults d2 = [] \<and>
        dk_files d2 (tmp_path_for fallback path) = Some text"
  shows "fst (replace_file write_new_file fallback path text d) = Inr ()"
proof -
  obtain d1 where d1: "make_parent path d = (Inr (), d1)" "dk_faults d1 = []" "dk_files d1 = dk_files d"
    using make_parent_fine [OF assms(1)] by blast
  obtain d2 where "write_new_file (tmp_path_for fallback path) text d1 = (Inr (), d2)"
      "dk_faults d2 = []" "dk_files d2 (tmp_path_for fallback path) = Some text"
    using assms(2) [OF d1(2,3)] by blast
  then show ?thesis
    using d1(1) by (simp add: replace_file_def Let_def io_bind_def rename_file_cases)
qed

lemma write_all_written: "write_all path text d = (Inr u, d') \<Longrightarrow> dk_files d' path = Some text"
  by (auto simp: write_all_def Let_def split: fault.splits)

lemma sync_all_files: "sync_all d = (r, d') \<Longrightarrow> dk_files d' = dk_files d"
  by (auto simp: sync_all_def sys_call_def split: fault.splits)

end
