(* ===== verification/Keyed_List.thy ===== *)
theory Keyed_List
  imports Prelude
begin

text \<open>
  Vectors of structs addressed by one of their fields, as the config files keep them: the first
  entry with a key is found, changed in place or, when there is none, pushed.
\<close>

definition keyed :: "('a \<Rightarrow> 'k) \<Rightarrow> 'k \<Rightarrow> 'a list \<Rightarrow> 'a option" where
  "keyed key k xs = find (\<lambda>x. key x = k) xs"

fun update_keyed :: "('a \<Rightarrow> 'k) \<Rightarrow> 'k \<Rightarrow> ('a \<Rightarrow> 'a) \<Rightarrow> 'a list \<Rightarrow> 'a list" where
  "update_keyed key k f [] = []"
| "update_keyed key k f (x # xs) = (if key x = k then f x # xs else x # update_keyed key k f xs)"

definition ensure_keyed :: "('a \<Rightarrow> 'k) \<Rightarrow> 'k \<Rightarrow> 'a \<Rightarrow> 'a list \<Rightarrow> 'a list" where
  "ensure_keyed key k fresh xs = (if list_ex (\<lambda>x. key x = k) xs then xs else xs @ [fresh])"

lemma keyed_simps [simp]:
  "keyed key k [] = None"
  "keyed key k (x # xs) = (if key x = k then Some x else keyed key k xs)"
  by (simp_all add: keyed_def)

lemma keyed_None: "keyed key k xs = None \<longleftrightarrow> k \<notin> key ` set xs"
  by (induction xs) auto

lemma keyed_Some: "keyed key k xs = Some x \<Longrightarrow> x \<in> set xs \<and> key x = k"
  by (induction xs) (auto split: if_splits)

lemma list_ex_keyed: "list_ex (\<lambda>x. key x = k) xs \<longleftrightarrow> keyed key k xs \<noteq> None"
  by (induction xs) auto

lemma keyed_append: "keyed key k (xs @ ys) = (case keyed key k xs of Some x \<Rightarrow> Some x | None \<Rightarrow> keyed key k ys)"
  by (induction xs) auto

lemma keyed_update:
  "(\<And>x. key (f x) = key x) \<Longrightarrow> keyed key k (update_keyed key k' f xs) =
     (if k = k' then map_option f (keyed key k xs) else keyed key k xs)"
  by (induction xs) auto

lemma keys_update: "(\<And>x. key (f x) = key x) \<Longrightarrow> map key (update_keyed key k f xs) = map key xs"
  by (induction xs) auto

lemma keyed_ensure:
  "key fresh = k' \<Longrightarrow> keyed key k (ensure_keyed key k' fresh xs) =
     (if k = k' then Some (case keyed key k xs of Some x \<Rightarrow> x | None \<Rightarrow> fresh) else keyed key k xs)"
  by (auto simp: ensure_keyed_def list_ex_keyed keyed_append split: option.split)

lemma keys_ensure:
  "key fresh = k \<Longrightarrow> map key (ensure_keyed key k fresh xs) =
     (if k \<in> key ` set xs then map key xs else map key xs @ [k])"
  by (simp add: ensure_keyed_def list_ex_keyed keyed_None)

lemma distinct_ensure:
  "key fresh = k \<Longrightarrow> distinct (map key xs) \<Longrightarrow> distinct (map key (ensure_keyed key k fresh xs))"
  by (auto simp: keys_ensure)

lemma keyed_filter_key:
  "keyed key k (filter (\<lambda>x. key x \<noteq> k') xs) = (if k = k' then None else keyed key k xs)"
  by (induction xs) auto

lemma keyed_filter:
  "distinct (map key xs) \<Longrightarrow> keyed key k (filter P xs) =
     (case keyed key k xs of Some x \<Rightarrow> if P x then Some x else None | None \<Rightarrow> None)"
proof (induction xs)
  case (Cons x xs)
  then have "key x = k \<Longrightarrow> keyed key k xs = None" by (auto simp: keyed_None)
  with Cons show ?case by auto
qed simp

lemma distinct_keys_filter: "distinct (map key xs) \<Longrightarrow> distinct (map key (filter P xs))"
  by (simp add: distinct_map_filter)

lemma list_all_update:
  "list_all P xs \<Longrightarrow> (\<And>x. P x \<Longrightarrow> P (f x)) \<Longrightarrow> list_all P (update_keyed key k f xs)"
  by (induction xs) auto

lemma list_all_ensure: "list_all P xs \<Longrightarrow> P fresh \<Longrightarrow> list_all P (ensure_keyed key k fresh xs)"
  by (simp add: ensure_keyed_def)

end
