(* ===== verification/Saved_Queries.thy ===== *)
theory Saved_Queries
  imports Rust_Text File_Store Keyed_List
begin

text \<open>
  The saved queries of crate \<open>dbboard-config\<close> (\<open>saved_queries.rs\<close>): the file, its validation, the
  atomic save and the admin that edits it. TOML is the parameter \<open>codec\<close>.
\<close>

section \<open>The file\<close>

definition SAVED_QUERIES_VERSION :: "32 word" where "SAVED_QUERIES_VERSION = 1"

record saved_query =
  sq_name :: string
  sq_sql :: string
  sq_saved_at :: "64 word"

record connection_queries =
  cq_id :: string
  cq_queries :: "saved_query list"

record saved_queries_file =
  sqf_version :: "32 word"
  sqf_connections :: "connection_queries list"

datatype saved_query_error =
    Sq_Parse string
  | Sq_Unsupported_Version "32 word"
  | Sq_Duplicate_Connection_Id string
  | Sq_Duplicate_Name string string
  | Sq_Empty_Name
  | Sq_Empty_Sql
  | Sq_Io io_error
  | Sq_Serialize string
  | Sq_No_Config_Dir

fun saved_query_error_display :: "(io_error \<Rightarrow> string) \<Rightarrow> saved_query_error \<Rightarrow> string" where
  "saved_query_error_display io (Sq_Parse e) = ''saved queries parse failed: '' @ e"
| "saved_query_error_display io (Sq_Unsupported_Version v) =
     ''unsupported saved queries version: '' @ show_nat (unat v) @ '' (only version '' @
       show_nat (unat SAVED_QUERIES_VERSION) @ '' is supported)''"
| "saved_query_error_display io (Sq_Duplicate_Connection_Id c) =
     ''duplicate saved queries connection id: '' @ c"
| "saved_query_error_display io (Sq_Duplicate_Name connection name) =
     ''a saved query named '' @ name @ '' already exists for connection '' @ connection"
| "saved_query_error_display io Sq_Empty_Name = ''a saved query needs a name''"
| "saved_query_error_display io Sq_Empty_Sql = ''a saved query needs a statement''"
| "saved_query_error_display io (Sq_Io e) = ''saved queries io failed: '' @ io e"
| "saved_query_error_display io (Sq_Serialize e) = ''saved queries serialize failed: '' @ e"
| "saved_query_error_display io Sq_No_Config_Dir =
     ''could not resolve a per-user config directory''"

fun check_query_names :: "string \<Rightarrow> string set \<Rightarrow> saved_query list \<Rightarrow> saved_query_error + unit" where
  "check_query_names connection seen [] = Inr ()"
| "check_query_names connection seen (query # queries) =
     (if sq_name query \<in> seen then Inl (Sq_Duplicate_Name connection (sq_name query))
      else check_query_names connection (insert (sq_name query) seen) queries)"

fun check_query_connections :: "string set \<Rightarrow> connection_queries list \<Rightarrow> saved_query_error + unit" where
  "check_query_connections seen [] = Inr ()"
| "check_query_connections seen (conn # conns) =
     (if cq_id conn \<in> seen then Inl (Sq_Duplicate_Connection_Id (cq_id conn))
      else case check_query_names (cq_id conn) {} (cq_queries conn) of
        Inl e \<Rightarrow> Inl e
      | Inr _ \<Rightarrow> check_query_connections (insert (cq_id conn) seen) conns)"

definition saved_queries_parse ::
  "saved_queries_file codec \<Rightarrow> string \<Rightarrow> saved_query_error + saved_queries_file" where
  "saved_queries_parse toml input =
     (case of_text toml input of
        Inl e \<Rightarrow> Inl (Sq_Parse e)
      | Inr file \<Rightarrow>
          if sqf_version file \<noteq> SAVED_QUERIES_VERSION then Inl (Sq_Unsupported_Version (sqf_version file))
          else case check_query_connections {} (sqf_connections file) of
            Inl e \<Rightarrow> Inl e
          | Inr _ \<Rightarrow> Inr file)"

definition saved_queries_empty :: saved_queries_file where
  "saved_queries_empty = \<lparr>sqf_version = SAVED_QUERIES_VERSION, sqf_connections = []\<rparr>"

section \<open>Reading and writing\<close>

definition saved_queries_load ::
  "saved_queries_file codec \<Rightarrow> file_path \<Rightarrow> disk \<Rightarrow> (saved_query_error + saved_queries_file) \<times> disk" where
  "saved_queries_load toml path d =
     (case read_to_string path d of
        (Inr contents, d') \<Rightarrow> (saved_queries_parse toml contents, d')
      | (Inl Not_Found, d') \<Rightarrow> (Inr saved_queries_empty, d')
      | (Inl e, d') \<Rightarrow> (Inl (Sq_Io e), d'))"

definition sq_write_new_file :: "file_path \<Rightarrow> string \<Rightarrow> unit disk_op" where
  "sq_write_new_file path text =
     io_bind (ignoring (remove_file path)) (\<lambda>_.
     io_bind (create_new_user_only path) (\<lambda>_.
     io_bind (write_all path text) (\<lambda>_. sync_all)))"

definition saved_queries_save ::
  "saved_queries_file codec \<Rightarrow> file_path \<Rightarrow> saved_queries_file \<Rightarrow> disk \<Rightarrow> (saved_query_error + unit) \<times> disk" where
  "saved_queries_save toml path file =
     (case to_text toml file of
        Inl e \<Rightarrow> io_of (Inl (Sq_Serialize e))
      | Inr text \<Rightarrow> io_map_err Sq_Io (replace_file sq_write_new_file ''.saved-queries.toml'' path text))"

section \<open>The admin\<close>

type_synonym saved_query_admin = "saved_queries_file file_admin"
type_synonym 'a saved_query_op = "saved_query_admin \<times> disk \<Rightarrow> (saved_query_error + 'a) \<times> saved_query_admin \<times> disk"

definition saved_query_admin_new ::
  "saved_queries_file codec \<Rightarrow> file_path \<Rightarrow> disk \<Rightarrow> (saved_query_error + saved_query_admin) \<times> disk" where
  "saved_query_admin_new toml path =
     io_bind (saved_queries_load toml path) (\<lambda>file. io_of (Inr \<lparr>ad_path = path, ad_file = file\<rparr>))"

definition queries :: "saved_queries_file \<Rightarrow> string \<Rightarrow> saved_query list" where
  "queries file connection =
     (case keyed cq_id connection (sqf_connections file) of Some c \<Rightarrow> cq_queries c | None \<Rightarrow> [])"

definition validated :: "string \<Rightarrow> string \<Rightarrow> saved_query_error + string \<times> string" where
  "validated name sql =
     (let name = trim name; sql = trim sql
      in if name = [] then Inl Sq_Empty_Name
         else if sql = [] then Inl Sq_Empty_Sql
         else Inr (name, sql))"

definition put_query :: "saved_query \<Rightarrow> saved_query list \<Rightarrow> saved_query list" where
  "put_query query qs =
     (case keyed sq_name (sq_name query) qs of
        Some _ \<Rightarrow> update_keyed sq_name (sq_name query) (\<lambda>_. query) qs
      | None \<Rightarrow> qs @ [query])"

definition with_query :: "string \<Rightarrow> saved_query \<Rightarrow> saved_queries_file \<Rightarrow> saved_queries_file" where
  "with_query connection query file =
     file\<lparr>sqf_connections :=
       update_keyed cq_id connection (\<lambda>c. c\<lparr>cq_queries := put_query query (cq_queries c)\<rparr>)
         (ensure_keyed cq_id connection \<lparr>cq_id = connection, cq_queries = []\<rparr> (sqf_connections file))\<rparr>"

definition write_query ::
  "saved_queries_file codec \<Rightarrow> string \<Rightarrow> string \<Rightarrow> string \<Rightarrow> 64 word \<Rightarrow> unit saved_query_op" where
  "write_query toml connection name sql at s =
     commit (saved_queries_save toml)
       (with_query connection \<lparr>sq_name = name, sq_sql = sql, sq_saved_at = at\<rparr> (ad_file (fst s))) () s"

definition query_add ::
  "saved_queries_file codec \<Rightarrow> string \<Rightarrow> string \<Rightarrow> string \<Rightarrow> 64 word \<Rightarrow> unit saved_query_op" where
  "query_add toml connection name sql at s =
     (case validated name sql of
        Inl e \<Rightarrow> (Inl e, s)
      | Inr (name, sql) \<Rightarrow>
          if list_ex (\<lambda>q. sq_name q = name) (queries (ad_file (fst s)) connection)
          then (Inl (Sq_Duplicate_Name connection name), s)
          else write_query toml connection name sql at s)"

definition query_replace ::
  "saved_queries_file codec \<Rightarrow> string \<Rightarrow> string \<Rightarrow> string \<Rightarrow> 64 word \<Rightarrow> unit saved_query_op" where
  "query_replace toml connection name sql at s =
     (case validated name sql of
        Inl e \<Rightarrow> (Inl e, s)
      | Inr (name, sql) \<Rightarrow> write_query toml connection name sql at s)"

definition without_query :: "string \<Rightarrow> string \<Rightarrow> saved_queries_file \<Rightarrow> saved_queries_file" where
  "without_query connection name file =
     file\<lparr>sqf_connections :=
       filter (\<lambda>c. cq_queries c \<noteq> [])
         (update_keyed cq_id connection
           (\<lambda>c. c\<lparr>cq_queries := filter (\<lambda>q. sq_name q \<noteq> name) (cq_queries c)\<rparr>) (sqf_connections file))\<rparr>"

definition query_remove :: "saved_queries_file codec \<Rightarrow> string \<Rightarrow> string \<Rightarrow> bool saved_query_op" where
  "query_remove toml connection name s =
     (case keyed cq_id connection (sqf_connections (ad_file (fst s))) of
        None \<Rightarrow> (Inr False, s)
      | Some entry \<Rightarrow>
          if length (filter (\<lambda>q. sq_name q \<noteq> name) (cq_queries entry)) = length (cq_queries entry)
          then (Inr False, s)
          else commit (saved_queries_save toml) (without_query connection name (ad_file (fst s))) True s)"

end
