(* ===== verification/Saved_Queries_Proofs.thy ===== *)
theory Saved_Queries_Proofs
  imports Saved_Queries
begin

text \<open>
  What the saved-query store promises: well-formed files, an abstract map behind the operations,
  a file that survives any interruption, and a save that succeeds once the disk stops failing.
\<close>

section \<open>Well-formed files\<close>

definition queries_well_formed :: "saved_queries_file \<Rightarrow> bool" where
  "queries_well_formed file \<longleftrightarrow>
     sqf_version file = SAVED_QUERIES_VERSION \<and> distinct (map cq_id (sqf_connections file)) \<and>
     list_all (\<lambda>c. distinct (map sq_name (cq_queries c))) (sqf_connections file)"

lemma check_query_names_ok:
  "check_query_names c seen qs = Inr () \<longleftrightarrow>
     distinct (map sq_name qs) \<and> set (map sq_name qs) \<inter> seen = {}"
  by (induction qs arbitrary: seen) auto

lemma check_query_connections_ok:
  "check_query_connections seen cs = Inr () \<longleftrightarrow>
     distinct (map cq_id cs) \<and> set (map cq_id cs) \<inter> seen = {} \<and>
     list_all (\<lambda>c. distinct (map sq_name (cq_queries c))) cs"
proof (induction cs arbitrary: seen)
  case (Cons c cs)
  have "check_query_names (cq_id c) {} (cq_queries c) = Inr () \<longleftrightarrow> distinct (map sq_name (cq_queries c))"
    by (simp add: check_query_names_ok)
  with Cons show ?case
    by (cases "check_query_names (cq_id c) {} (cq_queries c)") auto
qed simp

lemma saved_queries_parse_ok:
  "saved_queries_parse toml input = Inr file \<longleftrightarrow>
     of_text toml input = Inr file \<and> queries_well_formed file"
proof (cases "of_text toml input")
  case (Inr g)
  then show ?thesis
    using check_query_connections_ok [of "{}" "sqf_connections g"]
    by (cases "check_query_connections {} (sqf_connections g)")
      (auto simp: saved_queries_parse_def queries_well_formed_def)
qed (simp add: saved_queries_parse_def)

lemma put_query_names:
  "map sq_name (put_query q qs) =
     (if sq_name q \<in> sq_name ` set qs then map sq_name qs else map sq_name qs @ [sq_name q])"
proof (cases "keyed sq_name (sq_name q) qs")
  case (Some p)
  have "map sq_name (update_keyed sq_name (sq_name q) (\<lambda>_. q) qs) = map sq_name qs"
    by (induction qs) auto
  moreover have "sq_name q \<in> sq_name ` set qs"
    using Some keyed_None [of sq_name "sq_name q" qs] by simp
  ultimately show ?thesis using Some by (simp add: put_query_def)
next
  case None
  then have "sq_name q \<notin> sq_name ` set qs" by (simp add: keyed_None)
  with None show ?thesis by (simp add: put_query_def)
qed

lemma keyed_put_query:
  "keyed sq_name n (put_query q qs) = (if n = sq_name q then Some q else keyed sq_name n qs)"
proof (cases "keyed sq_name (sq_name q) qs")
  case (Some p)
  have "p \<in> set qs \<and> sq_name p = sq_name q" using Some by (rule keyed_Some)
  then have "keyed sq_name n (update_keyed sq_name (sq_name q) (\<lambda>_. q) qs) =
      (if n = sq_name q then Some q else keyed sq_name n qs)"
    by (induction qs) auto
  with Some show ?thesis by (simp add: put_query_def)
qed (auto simp: put_query_def keyed_append split: option.split)

lemma queries_with_query:
  "queries (with_query c q file) c' =
     (if c' = c then put_query q (queries file c) else queries file c')"
  by (auto simp: queries_def with_query_def keyed_update keyed_ensure split: option.split)

lemma well_formed_with_query:
  "queries_well_formed file \<Longrightarrow> queries_well_formed (with_query c q file)"
  by (auto simp: queries_well_formed_def with_query_def keys_update put_query_names
      intro!: distinct_ensure list_all_update list_all_ensure)

lemma queries_without_query:
  assumes "distinct (map cq_id (sqf_connections file))"
  shows "queries (without_query c n file) c' =
     (if c' = c then filter (\<lambda>q. sq_name q \<noteq> n) (queries file c) else queries file c')"
proof -
  let ?f = "\<lambda>c. c\<lparr>cq_queries := filter (\<lambda>q. sq_name q \<noteq> n) (cq_queries c)\<rparr>"
  let ?cs = "update_keyed cq_id c ?f (sqf_connections file)"
  have "distinct (map cq_id ?cs)" using assms by (simp add: keys_update)
  then show ?thesis
    by (auto simp: queries_def without_query_def keyed_filter keyed_update split: option.split)
qed

lemma well_formed_without_query:
  assumes "queries_well_formed file"
  shows "queries_well_formed (without_query c n file)"
proof -
  let ?f = "\<lambda>c. c\<lparr>cq_queries := filter (\<lambda>q. sq_name q \<noteq> n) (cq_queries c)\<rparr>"
  let ?cs = "update_keyed cq_id c ?f (sqf_connections file)"
  have ids: "distinct (map cq_id ?cs)"
    using assms by (simp add: keys_update queries_well_formed_def)
  have names: "list_all (\<lambda>c. distinct (map sq_name (cq_queries c))) ?cs"
    using assms by (intro list_all_update) (simp_all add: queries_well_formed_def distinct_keys_filter)
  have "sqf_connections (without_query c n file) = filter (\<lambda>c. cq_queries c \<noteq> []) ?cs"
    by (simp add: without_query_def)
  moreover have "sqf_version (without_query c n file) = SAVED_QUERIES_VERSION"
    using assms by (simp add: without_query_def queries_well_formed_def)
  ultimately show ?thesis
    using distinct_keys_filter [OF ids] names by (simp add: queries_well_formed_def list_all_iff)
qed

section \<open>The operations as requests\<close>

datatype query_call =
    Add string string string "64 word"
  | Replace string string string "64 word"
  | Remove string string

fun apply_call :: "saved_queries_file codec \<Rightarrow> query_call \<Rightarrow> bool saved_query_op" where
  "apply_call toml (Add c n s at) = io_bind (query_add toml c n s at) (\<lambda>_. io_of (Inr True))"
| "apply_call toml (Replace c n s at) = io_bind (query_replace toml c n s at) (\<lambda>_. io_of (Inr True))"
| "apply_call toml (Remove c n) = query_remove toml c n"

text \<open>The file an accepted request writes, or the answer when it writes none.\<close>

definition next_file :: "query_call \<Rightarrow> saved_queries_file \<Rightarrow> (saved_query_error + bool) + saved_queries_file" where
  "next_file call file =
     (case call of
        Add c n s at \<Rightarrow>
          (case validated n s of
             Inl e \<Rightarrow> Inl (Inl e)
           | Inr (n, s) \<Rightarrow>
               if keyed sq_name n (queries file c) \<noteq> None then Inl (Inl (Sq_Duplicate_Name c n))
               else Inr (with_query c \<lparr>sq_name = n, sq_sql = s, sq_saved_at = at\<rparr> file))
      | Replace c n s at \<Rightarrow>
          (case validated n s of
             Inl e \<Rightarrow> Inl (Inl e)
           | Inr (n, s) \<Rightarrow> Inr (with_query c \<lparr>sq_name = n, sq_sql = s, sq_saved_at = at\<rparr> file))
      | Remove c n \<Rightarrow>
          if keyed sq_name n (queries file c) = None then Inl (Inr False)
          else Inr (without_query c n file))"

lemma filter_length_same: "length (filter P xs) = length xs \<longleftrightarrow> list_all P xs"
  by (metis filter_True filter_id_conv length_filter_less list_all_iff order_less_irrefl)

lemma removes_nothing:
  "length (filter (\<lambda>q. sq_name q \<noteq> n) qs) = length qs \<longleftrightarrow> keyed sq_name n qs = None"
  by (auto simp: filter_length_same list_all_iff keyed_None)

lemma apply_call_next_file:
  "apply_call toml call s =
     (case next_file call (ad_file (fst s)) of
        Inl answer \<Rightarrow> (answer, s)
      | Inr new \<Rightarrow> commit (saved_queries_save toml) new True s)"
proof (cases call)
  case (Add c n sql at)
  then show ?thesis
    by (auto simp: query_add_def write_query_def next_file_def list_ex_keyed io_bind_def io_of_def commit_def
        split: sum.split prod.split)
next
  case (Replace c n sql at)
  then show ?thesis
    by (auto simp: query_replace_def write_query_def next_file_def io_bind_def io_of_def commit_def
        split: sum.split prod.split)
next
  case (Remove c n)
  then show ?thesis
    by (auto simp: query_remove_def next_file_def removes_nothing queries_def split: option.split)
qed

lemma next_file_well_formed:
  "queries_well_formed file \<Longrightarrow> next_file call file = Inr new \<Longrightarrow> queries_well_formed new"
  by (auto simp: next_file_def well_formed_with_query well_formed_without_query
      split: query_call.splits sum.splits if_splits)

section \<open>The abstract map\<close>

type_synonym saved_map = "string \<times> string \<rightharpoonup> string \<times> 64 word"

definition saved_map :: "saved_queries_file \<Rightarrow> saved_map" where
  "saved_map file = (\<lambda>(c, n). map_option (\<lambda>q. (sq_sql q, sq_saved_at q)) (keyed sq_name n (queries file c)))"

definition spec_write :: "string \<Rightarrow> string \<Rightarrow> string \<Rightarrow> 64 word \<Rightarrow> bool \<Rightarrow> saved_map \<Rightarrow> (saved_query_error + bool) \<times> saved_map" where
  "spec_write c n sql at fresh m =
     (if trim n = [] then (Inl Sq_Empty_Name, m)
      else if trim sql = [] then (Inl Sq_Empty_Sql, m)
      else if fresh \<and> m (c, trim n) \<noteq> None then (Inl (Sq_Duplicate_Name c (trim n)), m)
      else (Inr True, m((c, trim n) \<mapsto> (trim sql, at))))"

fun spec_call :: "query_call \<Rightarrow> saved_map \<Rightarrow> (saved_query_error + bool) \<times> saved_map" where
  "spec_call (Add c n sql at) m = spec_write c n sql at True m"
| "spec_call (Replace c n sql at) m = spec_write c n sql at False m"
| "spec_call (Remove c n) m = (Inr (m (c, n) \<noteq> None), m((c, n) := None))"

lemma saved_map_with_query:
  "saved_map (with_query c q file) = (saved_map file)((c, sq_name q) \<mapsto> (sq_sql q, sq_saved_at q))"
  by (auto simp: saved_map_def queries_with_query keyed_put_query)

lemma saved_map_without_query:
  "queries_well_formed file \<Longrightarrow> saved_map (without_query c n file) = (saved_map file)((c, n) := None)"
  by (auto simp: saved_map_def queries_without_query queries_well_formed_def keyed_filter_key)

lemma next_file_refines:
  assumes "queries_well_formed file"
  shows "spec_call call (saved_map file) =
    (case next_file call file of Inl answer \<Rightarrow> (answer, saved_map file) | Inr new \<Rightarrow> (Inr True, saved_map new))"
proof (cases call)
  case (Add c n sql at)
  then show ?thesis
    by (auto simp: next_file_def validated_def spec_write_def saved_map_with_query Let_def)
      (auto simp: saved_map_def)
next
  case (Replace c n sql at)
  then show ?thesis
    by (auto simp: next_file_def validated_def spec_write_def saved_map_with_query Let_def)
next
  case (Remove c n)
  have "saved_map file (c, n) = None \<longleftrightarrow> keyed sq_name n (queries file c) = None"
    by (simp add: saved_map_def)
  then show ?thesis
    using Remove assms by (auto simp: next_file_def saved_map_without_query)
qed

lemma saved_queries_save_error:
  "saved_queries_save toml path file d = (Inl e, d') \<Longrightarrow> (\<exists>io. e = Sq_Io io) \<or> (\<exists>m. e = Sq_Serialize m)"
  by (auto simp: saved_queries_save_def io_map_err_def io_of_def split: sum.splits prod.splits)

text \<open>
  C39. The store implements a map from connection and name to statement and time. On a well-formed
  file every request answers and changes what the map says - names and statements are trimmed and
  must not be blank, a name is taken at most once per connection, removing says whether it was
  there - and leaves the file well-formed; only a failed save ends otherwise, and then nothing in
  memory has changed.
\<close>

theorem saved_queries_implement_map:
  assumes "queries_well_formed (ad_file admin)"
    and "apply_call toml call (admin, d) = (answer, admin', d')"
  shows "queries_well_formed (ad_file admin') \<and> ad_path admin' = ad_path admin \<and>
    ((answer, saved_map (ad_file admin')) = spec_call call (saved_map (ad_file admin)) \<or>
     admin' = admin \<and> ((\<exists>io. answer = Inl (Sq_Io io)) \<or> (\<exists>m. answer = Inl (Sq_Serialize m))))"
proof (cases "next_file call (ad_file admin)")
  case (Inl r)
  then show ?thesis
    using assms next_file_refines [OF assms(1), of call] by (simp add: apply_call_next_file)
next
  case (Inr new)
  then have "commit (saved_queries_save toml) new True (admin, d) = (answer, admin', d')"
    using assms(2) by (simp add: apply_call_next_file)
  then show ?thesis
  proof (cases rule: commit_cases)
    case (failed e)
    then show ?thesis using assms(1) saved_queries_save_error [OF failed(3)] by auto
  next
    case saved
    then show ?thesis
      using next_file_refines [OF assms(1), of call] next_file_well_formed [OF assms(1) Inr] Inr by simp
  qed
qed

section \<open>Interruptions\<close>

interpretation saved_queries_writer: new_file_writer sq_write_new_file
proof
  show "keeps_to tmp (sq_write_new_file tmp contents)" for tmp contents
    unfolding sq_write_new_file_def by (intro keeps_to_bind keeps_to_ignoring) auto
  show "dk_files d' tmp = Some contents" if "sq_write_new_file tmp contents d = (Inr u, d')" for tmp contents d u d'
    using that by (auto simp: sq_write_new_file_def io_bind_pair dest!: sync_all_files write_all_written)
qed

definition reload :: "saved_queries_file codec \<Rightarrow> file_path \<Rightarrow> file_map \<Rightarrow> saved_query_error + saved_queries_file" where
  "reload toml path fs = fst (saved_queries_load toml path (restart fs))"

lemma reload_cases:
  "reload toml path fs =
     (case fs path of None \<Rightarrow> Inr saved_queries_empty | Some contents \<Rightarrow> saved_queries_parse toml contents)"
  by (simp add: reload_def saved_queries_load_def restart_def read_to_string_def next_fault_def
      split: option.split)

lemma reload_cong: "fs path = fs' path \<Longrightarrow> reload toml path fs = reload toml path fs'"
  by (simp add: reload_cases)

lemma saved_queries_save_run:
  assumes "saved_queries_save toml path file d = (r, d')"
    and "faithful_codec toml" and "queries_well_formed file"
  obtains states where "dk_seen d' = dk_seen d @ states"
    "list_all (\<lambda>fs. reload toml path fs \<in> {reload toml path (dk_files d), Inr file}) states"
    "r = Inr () \<Longrightarrow> reload toml path (dk_files d') = Inr file"
    "r \<noteq> Inr () \<Longrightarrow> list_all (\<lambda>fs. reload toml path fs = reload toml path (dk_files d)) (dk_files d' # states)"
proof (cases "to_text toml file")
  case (Inl e)
  then show ?thesis using assms(1) that [of "[]"] by (auto simp: saved_queries_save_def io_of_def)
next
  case (Inr contents)
  have load: "reload toml path fs = Inr file" if "fs path = Some contents" for fs
    using that assms(2,3) Inr by (simp add: reload_cases saved_queries_parse_ok faithful_codec_def)
  obtain q where q: "replace_file sq_write_new_file ''.saved-queries.toml'' path contents d = (q, d')"
      "r = Inr () \<longleftrightarrow> q = Inr ()"
    using assms(1) Inr by (auto simp: saved_queries_save_def io_map_err_def split: prod.splits sum.splits)
  obtain states where run: "dk_seen d' = dk_seen d @ states" "dk_files d' = last (dk_files d # states)"
      "list_all (old_or_new (tmp_path_for ''.saved-queries.toml'' path) path contents d) states"
      "q = Inr () \<longrightarrow> dk_files d' path = Some contents \<and>
         dk_files d' (tmp_path_for ''.saved-queries.toml'' path) = None"
      "q \<noteq> Inr () \<longrightarrow> list_all (\<lambda>fs. fs path = dk_files d path) (dk_files d' # states)"
    by (rule saved_queries_writer.replace_file_run [OF q(1)])
  show ?thesis
  proof (rule that)
    show "dk_seen d' = dk_seen d @ states" by (rule run(1))
    show "list_all (\<lambda>fs. reload toml path fs \<in> {reload toml path (dk_files d), Inr file}) states"
      using run(3)
    proof (rule list.pred_mono_strong)
      fix fs
      assume "old_or_new (tmp_path_for ''.saved-queries.toml'' path) path contents d fs"
      then have "fs path = dk_files d path \<or> fs path = Some contents" by (simp add: old_or_new_def)
      then show "reload toml path fs \<in> {reload toml path (dk_files d), Inr file}"
      proof
        assume "fs path = dk_files d path"
        then have "reload toml path fs = reload toml path (dk_files d)" by (rule reload_cong)
        then show ?thesis by simp
      qed (simp add: load)
    qed
    show "reload toml path (dk_files d') = Inr file" if "r = Inr ()"
      using that q(2) run(4) load by simp
    show "list_all (\<lambda>fs. reload toml path fs = reload toml path (dk_files d)) (dk_files d' # states)"
      if "r \<noteq> Inr ()"
    proof -
      have "list_all (\<lambda>fs. fs path = dk_files d path) (dk_files d' # states)"
        using run(5) that q(2) by simp
      then show ?thesis by (rule list.pred_mono_strong) (rule reload_cong)
    qed
  qed
qed

text \<open>A run of requests, and the files the admin holds along it.\<close>

primrec run_calls :: "saved_queries_file codec \<Rightarrow> query_call list \<Rightarrow> saved_query_admin \<times> disk \<Rightarrow> saved_query_admin \<times> disk" where
  "run_calls toml [] s = s"
| "run_calls toml (call # calls) s = run_calls toml calls (snd (apply_call toml call s))"

primrec files_held :: "saved_queries_file codec \<Rightarrow> query_call list \<Rightarrow> saved_query_admin \<times> disk \<Rightarrow> saved_queries_file list" where
  "files_held toml [] s = [ad_file (fst s)]"
| "files_held toml (call # calls) s = ad_file (fst s) # files_held toml calls (snd (apply_call toml call s))"

definition synced :: "saved_queries_file codec \<Rightarrow> saved_query_admin \<times> disk \<Rightarrow> bool" where
  "synced toml s \<longleftrightarrow> queries_well_formed (ad_file (fst s)) \<and>
     reload toml (ad_path (fst s)) (dk_files (snd s)) = Inr (ad_file (fst s))"

lemma apply_call_synced:
  assumes "faithful_codec toml" "synced toml (admin, d)"
    and call: "apply_call toml call (admin, d) = (answer, admin', d')"
  obtains states where "dk_seen d' = dk_seen d @ states" "synced toml (admin', d')"
    "ad_path admin' = ad_path admin"
    "list_all (\<lambda>fs. reload toml (ad_path admin) fs \<in> {Inr (ad_file admin), Inr (ad_file admin')}) states"
proof (cases "next_file call (ad_file admin)")
  case (Inl r)
  then show ?thesis using assms that [of "[]"] by (simp add: apply_call_next_file)
next
  case (Inr new)
  have wf: "queries_well_formed new"
    using assms(2) Inr by (auto simp: synced_def intro: next_file_well_formed)
  have old: "reload toml (ad_path admin) (dk_files d) = Inr (ad_file admin)"
    using assms(2) by (simp add: synced_def)
  from call Inr have "commit (saved_queries_save toml) new True (admin, d) = (answer, admin', d')"
    by (simp add: apply_call_next_file)
  then show ?thesis
  proof (cases rule: commit_cases)
    case (failed e)
    obtain states where "dk_seen d' = dk_seen d @ states"
        "list_all (\<lambda>fs. reload toml (ad_path admin) fs = Inr (ad_file admin)) (dk_files d' # states)"
      using saved_queries_save_run [OF failed(3) assms(1) wf] old by auto
    then show ?thesis using that [of states] failed(2) assms(2) by (simp add: synced_def list_all_iff)
  next
    case saved
    obtain states where run: "dk_seen d' = dk_seen d @ states"
        "reload toml (ad_path admin) (dk_files d') = Inr new"
        "list_all (\<lambda>fs. reload toml (ad_path admin) fs \<in> {Inr (ad_file admin), Inr new}) states"
      using saved_queries_save_run [OF saved(3) assms(1) wf] old by auto
    then show ?thesis using that [of states] saved(2) wf by (simp add: synced_def)
  qed
qed

text \<open>
  No interruption loses a query. While the admin and the file agree, however many requests run,
  whichever system calls fail and wherever the process stops, the file on disk reads back as one of
  the files the admin held along the way; and after the last request it is the one it holds now.
\<close>

theorem saved_queries_survive_interruptions:
  assumes "faithful_codec toml" and "synced toml (admin, d)"
    and "run_calls toml calls (admin, d) = (admin', d')"
  shows "synced toml (admin', d') \<and> (\<exists>states. dk_seen d' = dk_seen d @ states \<and>
    list_all (\<lambda>fs. reload toml (ad_path admin) fs \<in> Inr ` set (files_held toml calls (admin, d))) states)"
  using assms(2,3)
proof (induction calls arbitrary: admin d)
  case Nil
  then show ?case by simp
next
  case (Cons call calls)
  obtain answer admin1 d1 where call: "apply_call toml call (admin, d) = (answer, admin1, d1)"
    by (metis prod.exhaust)
  obtain states where one: "dk_seen d1 = dk_seen d @ states" "synced toml (admin1, d1)"
      "ad_path admin1 = ad_path admin"
      "list_all (\<lambda>fs. reload toml (ad_path admin) fs \<in> {Inr (ad_file admin), Inr (ad_file admin1)}) states"
    by (rule apply_call_synced [OF assms(1) Cons.prems(1) call])
  have "run_calls toml calls (admin1, d1) = (admin', d')" using Cons.prems(2) call by simp
  with Cons.IH [OF one(2)] obtain states' where rest: "synced toml (admin', d')"
      "dk_seen d' = dk_seen d1 @ states'"
      "list_all (\<lambda>fs. reload toml (ad_path admin) fs \<in> Inr ` set (files_held toml calls (admin1, d1))) states'"
    using one(3) by auto
  have held: "files_held toml (call # calls) (admin, d) = ad_file admin # files_held toml calls (admin1, d1)"
    using call by simp
  have first: "ad_file admin1 \<in> set (files_held toml calls (admin1, d1))"
    by (cases calls) simp_all
  have "list_all (\<lambda>fs. reload toml (ad_path admin) fs \<in> Inr ` set (files_held toml (call # calls) (admin, d))) (states @ states')"
    using one(4) rest(3) first unfolding held by (auto simp: list_all_iff)
  then show ?case using one(1) rest(1,2) by (intro conjI exI [of _ "states @ states'"]) simp_all
qed

section \<open>Retrying\<close>

lemma saved_queries_save_fine:
  assumes "to_text toml file = Inr contents" "dk_faults d = []"
  shows "fst (saved_queries_save toml path file d) = Inr ()"
proof -
  have "\<exists>d2. sq_write_new_file tmp contents d1 = (Inr (), d2) \<and> dk_faults d2 = [] \<and> dk_files d2 tmp = Some contents"
    if "dk_faults d1 = []" for tmp d1
    using that
    by (simp add: sq_write_new_file_def io_bind_def ignoring_def remove_file_def sys_call_def
        create_new_user_only_def write_all_def sync_all_def Let_def split: if_splits)
  then have "fst (replace_file sq_write_new_file ''.saved-queries.toml'' path contents d) = Inr ()"
    using replace_file_fine [OF assms(2)] by blast
  then show ?thesis
    using assms(1) by (auto simp: saved_queries_save_def io_map_err_def split: prod.split sum.split)
qed

lemma saved_queries_save_spends:
  assumes "to_text toml file = Inr contents" "saved_queries_save toml path file d = (Inl e, d')"
  shows "length (dk_faults d') < length (dk_faults d)"
proof -
  have "spends (Suc 0) (sq_write_new_file tmp contents)" for tmp contents
    unfolding sq_write_new_file_def
    by (intro spends_bind spends_ignoring spends_ops spends_write_all spends_weaken)
  then have "spends (Suc 0) (replace_file sq_write_new_file ''.saved-queries.toml'' path contents)"
    by (rule spends_replace_file)
  moreover have "snd (replace_file sq_write_new_file ''.saved-queries.toml'' path contents d) = d'"
    using assms by (auto simp: saved_queries_save_def io_map_err_def split: prod.splits sum.splits)
  ultimately have "length (dk_faults d') \<le> length (dk_faults d) - Suc 0"
    by (metis spends_def)
  moreover have "dk_faults d \<noteq> []"
    using saved_queries_save_fine [OF assms(1), of d path] assms(2) by auto
  ultimately show ?thesis by (cases "dk_faults d") auto
qed


section \<open>Witnesses\<close>

definition sample_queries :: saved_queries_file where
  "sample_queries = with_query ''c'' \<lparr>sq_name = ''q'', sq_sql = ''SELECT 1'', sq_saved_at = 7\<rparr> saved_queries_empty"

definition sample_toml :: "saved_queries_file codec" where
  "sample_toml = \<lparr>to_text = (\<lambda>file. if file = sample_queries then Inr ''1'' else Inl []),
     of_text = (\<lambda>_. Inr sample_queries)\<rparr>"

definition sample_admin :: saved_query_admin where
  "sample_admin = \<lparr>ad_path = \<lparr>fp_parent = Some ''d'', fp_name = Some ''s''\<rparr>, ad_file = saved_queries_empty\<rparr>"

text \<open>A disk with a temporary file left over, on which two calls will fail.\<close>

definition sample_disk :: disk where
  "sample_disk = \<lparr>dk_files = [\<lparr>fp_parent = Some ''d'', fp_name = Some ''s.tmp''\<rparr> \<mapsto> ''x''],
     dk_faults = [Fine, Fine, Fine, Fails ''full'' 1, Fine, Fine, Fails ''io'' 0], dk_seen = []\<rparr>"

abbreviation sample_call :: query_call where
  "sample_call \<equiv> Add ''c'' '' q'' ''SELECT 1 '' 7"

lemma sample_trim: "trim '' q'' = ''q''" "trim ''SELECT 1 '' = ''SELECT 1''"
  by (simp_all add: trim_def trim_start_def trim_end_def is_whitespace_def code_point_def)

lemma sample_next: "next_file sample_call (ad_file sample_admin) = Inr sample_queries"
  by (simp add: next_file_def validated_def sample_trim sample_admin_def queries_def saved_queries_empty_def
      sample_queries_def)

lemma sample_well_formed: "queries_well_formed (ad_file sample_admin)"
  by (simp add: sample_admin_def queries_well_formed_def saved_queries_empty_def)

lemma sample_synced: "synced sample_toml (sample_admin, sample_disk)"
  using sample_well_formed
  by (simp add: synced_def reload_cases sample_disk_def sample_admin_def)

lemma sample_faithful: "faithful_codec sample_toml"
  by (simp add: faithful_codec_def sample_toml_def)

theorem saved_queries_implement_map_witness:
  "queries_well_formed (ad_file (fst (snd (apply_call sample_toml sample_call (sample_admin, sample_disk)))))"
proof -
  obtain answer admin' d' where "apply_call sample_toml sample_call (sample_admin, sample_disk) = (answer, admin', d')"
    by (metis prod.exhaust)
  from saved_queries_implement_map [OF sample_well_formed this] this show ?thesis by simp
qed

theorem saved_queries_survive_interruptions_witness:
  "synced sample_toml (run_calls sample_toml [sample_call, Remove ''c'' ''q''] (sample_admin, sample_disk))"
proof -
  obtain admin' d' where "run_calls sample_toml [sample_call, Remove ''c'' ''q''] (sample_admin, sample_disk) = (admin', d')"
    by (rule prod.exhaust)
  from saved_queries_survive_interruptions [OF sample_faithful sample_synced this] this
  show ?thesis by simp
qed


end
