(* ===== verification/Annotations.thy ===== *)
theory Annotations
  imports Rust_Text File_Store Keyed_List
begin

text \<open>
  The table and column notes of crate \<open>dbboard-config\<close> (\<open>annotations.rs\<close>). The file is saved like the
  other stores, but the code that writes the temporary file does not remove one left behind.
\<close>

section \<open>The file\<close>

definition ANNOTATIONS_VERSION :: "32 word" where "ANNOTATIONS_VERSION = 1"

record column_annotation =
  ca_name :: string
  ca_note :: string

record table_annotations =
  ta_key :: string
  ta_note :: "string option"
  ta_columns :: "column_annotation list"

record connection_annotations =
  cn_id :: string
  cn_tables :: "table_annotations list"

record annotations_file =
  an_version :: "32 word"
  an_connections :: "connection_annotations list"

datatype annotations_error =
    An_Parse string
  | An_Unsupported_Version "32 word"
  | An_Duplicate_Connection_Id string
  | An_Duplicate_Table_Key string string
  | An_Io io_error
  | An_Serialize string
  | An_No_Config_Dir

fun annotations_error_display :: "(io_error \<Rightarrow> string) \<Rightarrow> annotations_error \<Rightarrow> string" where
  "annotations_error_display io (An_Parse e) = ''annotations parse failed: '' @ e"
| "annotations_error_display io (An_Unsupported_Version v) =
     ''unsupported annotations version: '' @ show_nat (unat v) @ '' (only version '' @
       show_nat (unat ANNOTATIONS_VERSION) @ '' is supported)''"
| "annotations_error_display io (An_Duplicate_Connection_Id c) =
     ''duplicate annotations connection id: '' @ c"
| "annotations_error_display io (An_Duplicate_Table_Key connection k) =
     ''duplicate annotations table key '' @ k @ '' in connection '' @ connection"
| "annotations_error_display io (An_Io e) = ''annotations io failed: '' @ io e"
| "annotations_error_display io (An_Serialize e) = ''annotations serialize failed: '' @ e"
| "annotations_error_display io An_No_Config_Dir =
     ''could not resolve a per-user config directory''"

definition table_key :: "string option \<Rightarrow> string \<Rightarrow> string" where
  "table_key schema name =
     (case schema of Some s \<Rightarrow> if s \<noteq> [] then s @ ''.'' @ name else name | None \<Rightarrow> name)"

fun check_table_keys :: "string \<Rightarrow> string set \<Rightarrow> table_annotations list \<Rightarrow> annotations_error + unit" where
  "check_table_keys connection seen [] = Inr ()"
| "check_table_keys connection seen (tbl # tbls) =
     (if ta_key tbl \<in> seen then Inl (An_Duplicate_Table_Key connection (ta_key tbl))
      else check_table_keys connection (insert (ta_key tbl) seen) tbls)"

fun check_annotations :: "string set \<Rightarrow> connection_annotations list \<Rightarrow> annotations_error + unit" where
  "check_annotations seen [] = Inr ()"
| "check_annotations seen (conn # conns) =
     (if cn_id conn \<in> seen then Inl (An_Duplicate_Connection_Id (cn_id conn))
      else case check_table_keys (cn_id conn) {} (cn_tables conn) of
        Inl e \<Rightarrow> Inl e
      | Inr _ \<Rightarrow> check_annotations (insert (cn_id conn) seen) conns)"

definition annotations_parse :: "annotations_file codec \<Rightarrow> string \<Rightarrow> annotations_error + annotations_file" where
  "annotations_parse toml input =
     (case of_text toml input of
        Inl e \<Rightarrow> Inl (An_Parse e)
      | Inr file \<Rightarrow>
          if an_version file \<noteq> ANNOTATIONS_VERSION then Inl (An_Unsupported_Version (an_version file))
          else case check_annotations {} (an_connections file) of
            Inl e \<Rightarrow> Inl e
          | Inr _ \<Rightarrow> Inr file)"

definition annotations_empty :: annotations_file where
  "annotations_empty = \<lparr>an_version = ANNOTATIONS_VERSION, an_connections = []\<rparr>"

section \<open>Reading and writing\<close>

definition annotations_load ::
  "annotations_file codec \<Rightarrow> file_path \<Rightarrow> disk \<Rightarrow> (annotations_error + annotations_file) \<times> disk" where
  "annotations_load toml path d =
     (case read_to_string path d of
        (Inr contents, d') \<Rightarrow> (annotations_parse toml contents, d')
      | (Inl Not_Found, d') \<Rightarrow> (Inr annotations_empty, d')
      | (Inl e, d') \<Rightarrow> (Inl (An_Io e), d'))"

definition an_write_new_file :: "file_path \<Rightarrow> string \<Rightarrow> unit disk_op" where
  "an_write_new_file path contents =
     io_bind (create_new_user_only path) (\<lambda>_. io_bind (write_all path contents) (\<lambda>_. sync_all))"

definition annotations_save ::
  "annotations_file codec \<Rightarrow> file_path \<Rightarrow> annotations_file \<Rightarrow> disk \<Rightarrow> (annotations_error + unit) \<times> disk" where
  "annotations_save toml path file =
     (case to_text toml file of
        Inl e \<Rightarrow> io_of (Inl (An_Serialize e))
      | Inr contents \<Rightarrow> io_map_err An_Io (replace_file an_write_new_file ''.annotations.toml'' path contents))"

section \<open>The admin\<close>

type_synonym annotations_admin = "annotations_file file_admin"
type_synonym 'a annotations_op =
  "annotations_admin \<times> disk \<Rightarrow> (annotations_error + 'a) \<times> annotations_admin \<times> disk"

definition annotations_admin_new ::
  "annotations_file codec \<Rightarrow> file_path \<Rightarrow> disk \<Rightarrow> (annotations_error + annotations_admin) \<times> disk" where
  "annotations_admin_new toml path =
     io_bind (annotations_load toml path) (\<lambda>file. io_of (Inr \<lparr>ad_path = path, ad_file = file\<rparr>))"

definition noted_table :: "annotations_file \<Rightarrow> string \<Rightarrow> string \<Rightarrow> table_annotations option" where
  "noted_table file connection tbl =
     Option.bind (keyed cn_id connection (an_connections file)) (\<lambda>c. keyed ta_key tbl (cn_tables c))"

definition column_note :: "annotations_file \<Rightarrow> string \<Rightarrow> string \<Rightarrow> string \<Rightarrow> string option" where
  "column_note file connection tbl col =
     map_option ca_note (Option.bind (noted_table file connection tbl) (\<lambda>t. keyed ca_name col (ta_columns t)))"

definition table_note :: "annotations_file \<Rightarrow> string \<Rightarrow> string \<Rightarrow> string option" where
  "table_note file connection tbl = Option.bind (noted_table file connection tbl) ta_note"

text \<open>\<open>table_entry_mut\<close> followed by a change of the entry it gives.\<close>

definition with_table :: "string \<Rightarrow> string \<Rightarrow> (table_annotations \<Rightarrow> table_annotations) \<Rightarrow>
    annotations_file \<Rightarrow> annotations_file" where
  "with_table connection tbl change file =
     file\<lparr>an_connections :=
       update_keyed cn_id connection
         (\<lambda>c. c\<lparr>cn_tables := update_keyed ta_key tbl change
            (ensure_keyed ta_key tbl \<lparr>ta_key = tbl, ta_note = None, ta_columns = []\<rparr> (cn_tables c))\<rparr>)
         (ensure_keyed cn_id connection \<lparr>cn_id = connection, cn_tables = []\<rparr> (an_connections file))\<rparr>"

definition annotations_prune :: "annotations_file \<Rightarrow> annotations_file" where
  "annotations_prune file =
     file\<lparr>an_connections := filter (\<lambda>c. cn_tables c \<noteq> [])
       (map (\<lambda>c. c\<lparr>cn_tables := filter (\<lambda>t. ta_note t \<noteq> None \<or> ta_columns t \<noteq> []) (cn_tables c)\<rparr>)
         (an_connections file))\<rparr>"

definition column_change :: "string \<Rightarrow> string \<Rightarrow> table_annotations \<Rightarrow> table_annotations" where
  "column_change col trimmed tbl =
     (case keyed ca_name col (ta_columns tbl) of
        Some existing \<Rightarrow>
          if trimmed \<noteq> []
          then tbl\<lparr>ta_columns := update_keyed ca_name col (\<lambda>c. c\<lparr>ca_note := trimmed\<rparr>) (ta_columns tbl)\<rparr>
          else tbl\<lparr>ta_columns := filter (\<lambda>c. ca_name c \<noteq> col) (ta_columns tbl)\<rparr>
      | None \<Rightarrow>
          if trimmed \<noteq> []
          then tbl\<lparr>ta_columns := ta_columns tbl @ [\<lparr>ca_name = col, ca_note = trimmed\<rparr>]\<rparr>
          else tbl)"

definition persist :: "annotations_file codec \<Rightarrow> annotations_file \<Rightarrow> unit annotations_op" where
  "persist toml new = commit (annotations_save toml) new ()"

definition set_column_note ::
  "annotations_file codec \<Rightarrow> string \<Rightarrow> string \<Rightarrow> string \<Rightarrow> string \<Rightarrow> unit annotations_op" where
  "set_column_note toml connection tbl col note s =
     persist toml (annotations_prune (with_table connection tbl (column_change col (trim note)) (ad_file (fst s)))) s"

definition set_table_note ::
  "annotations_file codec \<Rightarrow> string \<Rightarrow> string \<Rightarrow> string \<Rightarrow> unit annotations_op" where
  "set_table_note toml connection tbl note s =
     (let trimmed = trim note
      in persist toml (annotations_prune (with_table connection tbl
           (\<lambda>t. t\<lparr>ta_note := if trimmed = [] then None else Some trimmed\<rparr>) (ad_file (fst s)))) s)"

end
