(* ===== verification/Annotations_Proofs.thy ===== *)
theory Annotations_Proofs
  imports Annotations
begin

text \<open>
  The notes as an abstract map, and what happens after a write of them has failed half-way.
\<close>

section \<open>Well-formed files\<close>

definition annotations_well_formed :: "annotations_file \<Rightarrow> bool" where
  "annotations_well_formed file \<longleftrightarrow>
     an_version file = ANNOTATIONS_VERSION \<and> distinct (map cn_id (an_connections file)) \<and>
     list_all (\<lambda>c. distinct (map ta_key (cn_tables c))) (an_connections file)"

lemma check_table_keys_ok:
  "check_table_keys c seen ts = Inr () \<longleftrightarrow>
     distinct (map ta_key ts) \<and> set (map ta_key ts) \<inter> seen = {}"
  by (induction ts arbitrary: seen) auto

lemma check_annotations_ok:
  "check_annotations seen cs = Inr () \<longleftrightarrow>
     distinct (map cn_id cs) \<and> set (map cn_id cs) \<inter> seen = {} \<and>
     list_all (\<lambda>c. distinct (map ta_key (cn_tables c))) cs"
proof (induction cs arbitrary: seen)
  case (Cons c cs)
  have "check_table_keys (cn_id c) {} (cn_tables c) = Inr () \<longleftrightarrow> distinct (map ta_key (cn_tables c))"
    by (simp add: check_table_keys_ok)
  with Cons show ?case
    by (cases "check_table_keys (cn_id c) {} (cn_tables c)") auto
qed simp

lemma annotations_parse_ok:
  "annotations_parse toml input = Inr file \<longleftrightarrow>
     of_text toml input = Inr file \<and> annotations_well_formed file"
proof (cases "of_text toml input")
  case (Inr g)
  then show ?thesis
    using check_annotations_ok [of "{}" "an_connections g"]
    by (cases "check_annotations {} (an_connections g)")
      (auto simp: annotations_parse_def annotations_well_formed_def)
qed (simp add: annotations_parse_def)

lemma well_formed_with_table:
  assumes "annotations_well_formed file" "\<And>t. ta_key (f t) = ta_key t"
  shows "annotations_well_formed (with_table c tbl f file)"
  using assms
  by (auto simp: annotations_well_formed_def with_table_def keys_update
      intro!: distinct_ensure list_all_update list_all_ensure)

lemma well_formed_prune:
  assumes "annotations_well_formed file"
  shows "annotations_well_formed (annotations_prune file)"
proof -
  let ?g = "\<lambda>c. c\<lparr>cn_tables := filter (\<lambda>t. ta_note t \<noteq> None \<or> ta_columns t \<noteq> []) (cn_tables c)\<rparr>"
  have "map cn_id (map ?g (an_connections file)) = map cn_id (an_connections file)" by simp
  then have "distinct (map cn_id (map ?g (an_connections file)))"
    using assms by (simp only: annotations_well_formed_def)
  from distinct_keys_filter [OF this]
  have "distinct (map cn_id (an_connections (annotations_prune file)))"
    by (simp add: annotations_prune_def)
  moreover have "list_all (\<lambda>c. distinct (map ta_key (cn_tables c))) (an_connections (annotations_prune file))"
    using assms by (auto simp: annotations_well_formed_def annotations_prune_def list_all_iff distinct_keys_filter)
  moreover have "an_version (annotations_prune file) = ANNOTATIONS_VERSION"
    using assms by (simp add: annotations_well_formed_def annotations_prune_def)
  ultimately show ?thesis unfolding annotations_well_formed_def by blast
qed

section \<open>The notes of a file\<close>

datatype note_place = Table_Note string string | Column_Note string string string

primrec note_at :: "annotations_file \<Rightarrow> note_place \<Rightarrow> string option" where
  "note_at file (Table_Note c t) = table_note file c t"
| "note_at file (Column_Note c t col) = column_note file c t col"

primrec set_note :: "annotations_file codec \<Rightarrow> note_place \<Rightarrow> string \<Rightarrow> unit annotations_op" where
  "set_note toml (Table_Note c t) note = set_table_note toml c t note"
| "set_note toml (Column_Note c t col) note = set_column_note toml c t col note"

lemma keyed_map: "(\<And>x. key (g x) = key x) \<Longrightarrow> keyed key k (map g xs) = map_option g (keyed key k xs)"
  by (induction xs) auto

lemma noted_table_prune:
  assumes "annotations_well_formed file"
  shows "noted_table (annotations_prune file) c t =
    (case noted_table file c t of
       Some tbl \<Rightarrow> if ta_note tbl \<noteq> None \<or> ta_columns tbl \<noteq> [] then Some tbl else None
     | None \<Rightarrow> None)"
proof -
  let ?g = "\<lambda>c. c\<lparr>cn_tables := filter (\<lambda>t. ta_note t \<noteq> None \<or> ta_columns t \<noteq> []) (cn_tables c)\<rparr>"
  have "distinct (map cn_id (map ?g (an_connections file)))"
    using assms by (simp add: annotations_well_formed_def o_def)
  then have conn: "keyed cn_id c (an_connections (annotations_prune file)) =
      (case keyed cn_id c (an_connections file) of
         Some conn \<Rightarrow> if cn_tables (?g conn) \<noteq> [] then Some (?g conn) else None
       | None \<Rightarrow> None)"
    by (simp add: annotations_prune_def keyed_filter keyed_map split: option.split)
  show ?thesis
  proof (cases "keyed cn_id c (an_connections file)")
    case None
    then show ?thesis using conn by (simp add: noted_table_def)
  next
    case (Some d)
    then have "distinct (map ta_key (cn_tables d))"
      using assms keyed_Some [OF Some] by (auto simp: annotations_well_formed_def list_all_iff)
    then have "keyed ta_key t (cn_tables (?g d)) =
        (case keyed ta_key t (cn_tables d) of
           Some tbl \<Rightarrow> if ta_note tbl \<noteq> None \<or> ta_columns tbl \<noteq> [] then Some tbl else None
         | None \<Rightarrow> None)"
      by (simp add: keyed_filter split: option.split)
    then show ?thesis using conn Some by (auto simp: noted_table_def split: option.splits)
  qed
qed

lemma note_at_prune: "annotations_well_formed file \<Longrightarrow> note_at (annotations_prune file) place = note_at file place"
  by (cases place) (auto simp: table_note_def column_note_def noted_table_prune split: option.split)

lemma noted_table_with_table:
  assumes "\<And>t. ta_key (f t) = ta_key t"
  shows "noted_table (with_table c t f file) c' t' =
    (if c' = c \<and> t' = t
     then Some (f (case noted_table file c t of Some tbl \<Rightarrow> tbl
                   | None \<Rightarrow> \<lparr>ta_key = t, ta_note = None, ta_columns = []\<rparr>))
     else noted_table file c' t')"
  using assms
  by (auto simp: noted_table_def with_table_def keyed_update keyed_ensure split: option.split)

lemma ta_simps_column_change [simp]:
  "ta_key (column_change col note t) = ta_key t" "ta_note (column_change col note t) = ta_note t"
  by (auto simp: column_change_def split: option.split)

lemma keyed_column_change:
  "map_option ca_note (keyed ca_name col' (ta_columns (column_change col note t))) =
     (if col' = col then if note = [] then None else Some note
      else map_option ca_note (keyed ca_name col' (ta_columns t)))"
  by (auto simp: column_change_def keyed_update keyed_filter_key keyed_append split: option.split)

lemma note_at_set_column:
  "note_at (with_table c t (column_change col note) file) place =
     (if place = Column_Note c t col then if note = [] then None else Some note else note_at file place)"
  by (cases place) (auto simp: table_note_def column_note_def noted_table_with_table keyed_column_change
      split: option.split)

lemma note_at_set_table:
  "note_at (with_table c t (\<lambda>tbl. tbl\<lparr>ta_note := note\<rparr>) file) place =
     (if place = Table_Note c t then note else note_at file place)"
  by (cases place) (auto simp: table_note_def column_note_def noted_table_with_table split: option.split)

definition noted_file :: "note_place \<Rightarrow> string \<Rightarrow> annotations_file \<Rightarrow> annotations_file" where
  "noted_file place note file =
     annotations_prune (case place of
       Table_Note c t \<Rightarrow> with_table c t (\<lambda>t. t\<lparr>ta_note := if trim note = [] then None else Some (trim note)\<rparr>) file
     | Column_Note c t col \<Rightarrow> with_table c t (column_change col (trim note)) file)"

lemma set_note_eq: "set_note toml place note s = commit (annotations_save toml) (noted_file place note (ad_file (fst s))) () s"
  by (cases place)
    (simp_all add: set_table_note_def set_column_note_def persist_def noted_file_def Let_def)

lemma noted_file_ok:
  assumes "annotations_well_formed file"
  shows "annotations_well_formed (noted_file place note file)"
    and "note_at (noted_file place note file) = (note_at file)(place := if trim note = [] then None else Some (trim note))"
  using assms
  by (cases place; auto simp: noted_file_def note_at_prune note_at_set_table note_at_set_column
      well_formed_prune well_formed_with_table)+

lemma annotations_save_error:
  "annotations_save toml path file d = (Inl e, d') \<Longrightarrow> (\<exists>io. e = An_Io io) \<or> (\<exists>m. e = An_Serialize m)"
  by (auto simp: annotations_save_def io_map_err_def io_of_def split: sum.splits prod.splits)

text \<open>
  Setting a note changes that note and no other: it becomes the trimmed text, or is removed when
  the text is blank, and the file stays well-formed; a failed save leaves memory as it was.
\<close>

theorem notes_implement_map:
  assumes "annotations_well_formed (ad_file admin)"
    and "set_note toml place note (admin, d) = (answer, admin', d')"
  shows "annotations_well_formed (ad_file admin') \<and>
    (answer = Inr () \<and> note_at (ad_file admin') =
       (note_at (ad_file admin))(place := if trim note = [] then None else Some (trim note)) \<or>
     admin' = admin \<and> ((\<exists>io. answer = Inl (An_Io io)) \<or> (\<exists>m. answer = Inl (An_Serialize m))))"
proof -
  have "commit (annotations_save toml) (noted_file place note (ad_file admin)) () (admin, d) = (answer, admin', d')"
    using assms(2) by (simp add: set_note_eq)
  then show ?thesis
  proof (cases rule: commit_cases)
    case (failed e)
    then show ?thesis using assms(1) annotations_save_error [OF failed(3)] by auto
  next
    case saved
    then show ?thesis using noted_file_ok [OF assms(1)] by simp
  qed
qed

section \<open>A temporary file left behind\<close>

interpretation annotations_writer: new_file_writer an_write_new_file
proof
  show "keeps_to tmp (an_write_new_file tmp contents)" for tmp contents
    unfolding an_write_new_file_def by (intro keeps_to_bind) auto
  show "dk_files d' tmp = Some contents" if "an_write_new_file tmp contents d = (Inr u, d')" for tmp contents d u d'
    using that by (auto simp: an_write_new_file_def io_bind_pair dest!: sync_all_files write_all_written)
qed

abbreviation notes_tmp :: "file_path \<Rightarrow> file_path" where
  "notes_tmp \<equiv> tmp_path_for ''.annotations.toml''"

lemma make_parent_files: "make_parent path d = (r, d') \<Longrightarrow> dk_files d' = dk_files d"
  by (auto simp: make_parent_def create_dir_all_def sys_call_def split: option.splits if_splits fault.splits)

lemma write_new_file_blocked:
  assumes "dk_files d tmp \<noteq> None"
  shows "\<exists>e d'. an_write_new_file tmp contents d = (Inl e, d') \<and> dk_files d' = dk_files d"
  using assms by (auto simp: an_write_new_file_def create_new_user_only_def sys_call_def io_bind_def split: fault.split)

lemma annotations_save_blocked:
  assumes "dk_files d (notes_tmp path) \<noteq> None"
  shows "\<exists>e d'. annotations_save toml path file d = (Inl e, d') \<and> dk_files d' = dk_files d"
proof (cases "to_text toml file")
  case (Inl e)
  then show ?thesis by (simp add: annotations_save_def io_of_def)
next
  case (Inr contents)
  obtain r d1 where p: "make_parent path d = (r, d1)" "dk_files d1 = dk_files d"
    using make_parent_files by (metis prod.exhaust)
  obtain e d2 where w: "an_write_new_file (notes_tmp path) contents d1 = (Inl e, d2)" "dk_files d2 = dk_files d1"
    using write_new_file_blocked [of d1 "notes_tmp path" contents] assms p(2) by auto
  show ?thesis
    using Inr p w by (cases r) (simp_all add: annotations_save_def replace_file_def Let_def io_bind_def io_map_err_def)
qed

lemma attempts_blocked:
  assumes "dk_files d (notes_tmp (ad_path admin)) \<noteq> None"
  shows "\<exists>e d'. attempts n (set_note toml place note) (admin, d) = (Inl e, admin, d') \<and> dk_files d' = dk_files d"
  using assms
proof (induction n arbitrary: d)
  case 0
  then show ?case
    using annotations_save_blocked [OF 0, of toml "noted_file place note (ad_file admin)"]
    by (auto simp: set_note_eq commit_def)
next
  case (Suc n)
  obtain e d' where "set_note toml place note (admin, d) = (Inl e, admin, d')" "dk_files d' = dk_files d"
    using annotations_save_blocked [OF Suc.prems, of toml "noted_file place note (ad_file admin)"]
    by (auto simp: set_note_eq commit_def)
  then show ?case using Suc.IH [of d'] Suc.prems by auto
qed

text \<open>
  A note whose write failed half-way blocks every later note: the temporary file it leaves is never
  removed, so each further attempt, for this or another note, fails and changes neither memory nor
  the file, however often it is tried and although no other call fails.
\<close>

theorem failed_write_blocks_notes:
  assumes "fp_parent (ad_path admin) = Some (c # parent)"
    and "dk_files d (notes_tmp (ad_path admin)) = None"
    and "dk_faults d = [Fine, Fine, Fails full written]"
    and "to_text toml (noted_file place note (ad_file admin)) = Inr contents"
    and "set_note toml place note (admin, d) = (answer, admin', d')"
  shows "answer = Inl (An_Io (Other_Io full)) \<and> dk_faults d' = [] \<and>
    (\<exists>e d''. attempts n (set_note toml place' note') (admin', d') = (Inl e, admin, d'') \<and>
       dk_files d'' (ad_path admin) = dk_files d (ad_path admin))"
proof -
  let ?tmp = "notes_tmp (ad_path admin)"
  have tmp: "?tmp \<noteq> ad_path admin" by (rule tmp_path_differs)
  have save: "\<exists>d'. annotations_save toml (ad_path admin) (noted_file place note (ad_file admin)) d =
      (Inl (An_Io (Other_Io full)), d') \<and> dk_faults d' = [] \<and>
      dk_files d' = (dk_files d)(?tmp \<mapsto> take (min written (length contents)) contents)"
    using assms(1-4)
    by (simp add: annotations_save_def replace_file_def Let_def io_bind_def io_map_err_def make_parent_def
        create_dir_all_def sys_call_def next_fault_def an_write_new_file_def create_new_user_only_def write_all_def)
  then have run: "answer = Inl (An_Io (Other_Io full))" "admin' = admin" "dk_faults d' = []"
      "dk_files d' = (dk_files d)(?tmp \<mapsto> take (min written (length contents)) contents)"
    using assms(5) by (auto simp: set_note_eq commit_def)
  then obtain e d'' where "attempts n (set_note toml place' note') (admin', d') = (Inl e, admin, d'')"
      "dk_files d'' = dk_files d'"
    using attempts_blocked [of d' admin n toml place' note'] by auto
  then show ?thesis using run tmp tmp [symmetric] by auto
qed

section \<open>Witnesses\<close>

definition sample_notes_toml :: "annotations_file codec" where
  "sample_notes_toml = \<lparr>to_text = (\<lambda>_. Inr ''1''), of_text = (\<lambda>_. Inr annotations_empty)\<rparr>"

definition sample_notes_admin :: annotations_admin where
  "sample_notes_admin = \<lparr>ad_path = \<lparr>fp_parent = Some ''d'', fp_name = Some ''a''\<rparr>, ad_file = annotations_empty\<rparr>"

definition full_disk :: disk where
  "full_disk = \<lparr>dk_files = Map.empty, dk_faults = [Fine, Fine, Fails ''full'' 0], dk_seen = []\<rparr>"

theorem notes_implement_map_witness:
  "annotations_well_formed (ad_file (fst (snd
     (set_note sample_notes_toml (Column_Note ''c'' ''t'' ''x'') '' n '' (sample_notes_admin, full_disk)))))"
proof -
  have "annotations_well_formed (ad_file sample_notes_admin)"
    by (simp add: sample_notes_admin_def annotations_well_formed_def annotations_empty_def)
  moreover obtain answer admin' d' where
    "set_note sample_notes_toml (Column_Note ''c'' ''t'' ''x'') '' n '' (sample_notes_admin, full_disk) = (answer, admin', d')"
    by (metis prod.exhaust)
  ultimately show ?thesis using notes_implement_map by fastforce
qed

theorem failed_write_blocks_notes_witness:
  "fst (set_note sample_notes_toml (Table_Note ''c'' ''t'') ''n'' (sample_notes_admin, full_disk)) =
     Inl (An_Io (Other_Io ''full''))"
proof -
  obtain answer admin' d' where
    run: "set_note sample_notes_toml (Table_Note ''c'' ''t'') ''n'' (sample_notes_admin, full_disk) = (answer, admin', d')"
    by (metis prod.exhaust)
  have "fp_parent (ad_path sample_notes_admin) = Some (CHR ''d'' # [])" by (simp add: sample_notes_admin_def)
  moreover have "dk_files full_disk (notes_tmp (ad_path sample_notes_admin)) = None" by (simp add: full_disk_def)
  moreover have "dk_faults full_disk = [Fine, Fine, Fails ''full'' 0]" by (simp add: full_disk_def)
  moreover have "to_text sample_notes_toml (noted_file (Table_Note ''c'' ''t'') ''n'' (ad_file sample_notes_admin)) = Inr ''1''"
    by (simp add: sample_notes_toml_def)
  ultimately have "answer = Inl (An_Io (Other_Io ''full''))"
    using run by (rule failed_write_blocks_notes [THEN conjunct1])
  then show ?thesis using run by simp
qed

end
