(* ===== verification/Update_Attempt.thy ===== *)
theory Update_Attempt
  imports Rust_Text File_Store
begin

text \<open>
  The breadcrumb of an update that was started (\<open>update_attempt.rs\<close> of crate \<open>dbboard-config\<close>): written
  before the installer runs, read and removed at the next launch.
\<close>

definition UPDATE_ATTEMPT_VERSION :: "32 word" where "UPDATE_ATTEMPT_VERSION = 1"

record attempt_file =
  at_version :: "32 word"
  at_from :: string
  at_to :: string

record stalled_update =
  su_from :: string
  su_to :: string

datatype config_failure = Attempt_Serialize string | Attempt_Io io_error

text \<open>\<open>Path::exists\<close> answers false when the file cannot be looked at.\<close>

definition path_exists :: "file_path \<Rightarrow> disk \<Rightarrow> bool \<times> disk" where
  "path_exists path d =
     (case next_fault d of Fine \<Rightarrow> dk_files d path \<noteq> None | Fails _ _ \<Rightarrow> False, advance [] d)"

definition ua_write_new_file :: "file_path \<Rightarrow> string \<Rightarrow> unit disk_op" where
  "ua_write_new_file path contents d =
     (case path_exists path d of (found, d) \<Rightarrow>
        io_bind (if found then remove_file path else io_of (Inr ())) (\<lambda>_.
        io_bind (create_new_user_only path) (\<lambda>_.
        io_bind (write_all path contents) (\<lambda>_. sync_all))) d)"

definition record_attempt ::
  "attempt_file codec \<Rightarrow> file_path \<Rightarrow> string \<Rightarrow> string \<Rightarrow> disk \<Rightarrow> (config_failure + unit) \<times> disk" where
  "record_attempt toml path old new =
     (case to_text toml \<lparr>at_version = UPDATE_ATTEMPT_VERSION, at_from = old, at_to = new\<rparr> of
        Inl e \<Rightarrow> io_of (Inl (Attempt_Serialize e))
      | Inr contents \<Rightarrow>
          io_map_err Attempt_Io (replace_file ua_write_new_file ''.update-attempt.toml'' path contents))"

definition normalize_version :: "string \<Rightarrow> string" where
  "normalize_version raw =
     (case trim raw of
        c # rest \<Rightarrow> if c = CHR ''v'' \<or> c = CHR ''V'' then rest else c # rest
      | [] \<Rightarrow> [])"

definition same_version :: "string \<Rightarrow> string \<Rightarrow> bool" where
  "same_version a b \<longleftrightarrow> normalize_version a = normalize_version b"

definition take_attempt :: "attempt_file codec \<Rightarrow> file_path \<Rightarrow> string \<Rightarrow> disk \<Rightarrow> stalled_update option \<times> disk" where
  "take_attempt toml path running d =
     (case read_to_string path d of
        (Inl _, d) \<Rightarrow> (None, d)
      | (Inr raw, d) \<Rightarrow>
          (case ignoring (remove_file path) d of (_, d) \<Rightarrow>
            ((case of_text toml raw of
                Inl _ \<Rightarrow> None
              | Inr attempt \<Rightarrow>
                  if at_version attempt \<noteq> UPDATE_ATTEMPT_VERSION then None
                  else if \<not> same_version (at_from attempt) running then None
                  else Some \<lparr>su_from = at_from attempt, su_to = at_to attempt\<rparr>), d)))"

section \<open>Properties\<close>

lemma grows_keeps_to_path_exists:
  "keeps_to path (\<lambda>d. case path_exists path d of (found, d') \<Rightarrow> (Inr found, d'))"
  unfolding keeps_to_def
  by (rule grows_advance) (auto simp: path_exists_def split: fault.split intro!: exI [of _ "[]"])

lemma ua_write_new_file_bind:
  "ua_write_new_file path contents =
     io_bind (\<lambda>d. case path_exists path d of (found, d') \<Rightarrow> (Inr found, d')) (\<lambda>found.
     io_bind (if found then remove_file path else io_of (Inr ())) (\<lambda>_.
     io_bind (create_new_user_only path) (\<lambda>_.
     io_bind (write_all path contents) (\<lambda>_. sync_all))))"
  by (rule ext) (simp add: ua_write_new_file_def io_bind_def split: prod.split)

interpretation attempt_writer: new_file_writer ua_write_new_file
proof
  show "keeps_to tmp (ua_write_new_file tmp contents)" for tmp contents
    unfolding ua_write_new_file_bind
    by (intro keeps_to_bind grows_keeps_to_path_exists) auto
  show "dk_files d' tmp = Some contents" if "ua_write_new_file tmp contents d = (Inr u, d')" for tmp contents d u d'
    using that unfolding ua_write_new_file_bind
    by (auto simp: io_bind_pair dest!: sync_all_files write_all_written)
qed

lemma record_attempt_Inr:
  assumes "record_attempt toml path old new d = (Inr u, d')"
  shows "\<exists>contents. to_text toml \<lparr>at_version = UPDATE_ATTEMPT_VERSION, at_from = old, at_to = new\<rparr> = Inr contents \<and>
    dk_files d' path = Some contents"
proof (cases "to_text toml \<lparr>at_version = UPDATE_ATTEMPT_VERSION, at_from = old, at_to = new\<rparr>")
  case (Inl e)
  then show ?thesis using assms by (simp add: record_attempt_def io_of_def)
next
  case (Inr contents)
  then have "replace_file ua_write_new_file ''.update-attempt.toml'' path contents d = (Inr u, d')"
    using assms by (auto simp: record_attempt_def io_map_err_def split: prod.splits sum.splits)
  then have "dk_files d' path = Some contents" by (rule attempt_writer.replace_file_written)
  then show ?thesis using Inr by blast
qed

lemma take_attempt_fine:
  assumes "dk_faults d = []"
  shows "fst (take_attempt toml path running d) =
      (case dk_files d path of
         None \<Rightarrow> None
       | Some raw \<Rightarrow>
           (case of_text toml raw of
              Inl _ \<Rightarrow> None
            | Inr attempt \<Rightarrow>
                if at_version attempt = UPDATE_ATTEMPT_VERSION \<and> same_version (at_from attempt) running
                then Some \<lparr>su_from = at_from attempt, su_to = at_to attempt\<rparr> else None))"
    and "dk_files (snd (take_attempt toml path running d)) = (dk_files d)(path := None)"
    and "dk_faults (snd (take_attempt toml path running d)) = []"
  using assms
  by (cases "dk_files d path"; simp add: take_attempt_def read_to_string_def ignoring_def remove_file_def
      sys_call_def fun_upd_idem split: sum.split)+

text \<open>
  A stalled update is reported once and only when it stalled: after an update from one version to
  another was recorded, the next launch reports it exactly when the running version is still the old
  one, up to surrounding space and one leading v; the launch after that reports nothing.
\<close>

theorem stalled_update_reported_once:
  assumes "faithful_codec toml"
    and "record_attempt toml path old new d = (Inr u, d')"
    and "dk_faults d' = []"
    and "take_attempt toml path running d' = (report, d'')"
  shows "report = (if same_version old running then Some \<lparr>su_from = old, su_to = new\<rparr> else None) \<and>
    fst (take_attempt toml path running' d'') = None"
proof -
  obtain contents where
      "of_text toml contents = Inr \<lparr>at_version = UPDATE_ATTEMPT_VERSION, at_from = old, at_to = new\<rparr>"
      "dk_files d' path = Some contents"
    using record_attempt_Inr [OF assms(2)] assms(1) unfolding faithful_codec_def by blast
  moreover have "report = fst (take_attempt toml path running d')" "d'' = snd (take_attempt toml path running d')"
    using assms(4) by simp_all
  ultimately show ?thesis
    using take_attempt_fine [OF assms(3), of toml path running]
      take_attempt_fine(1) [of d'' toml path running'] by simp
qed

definition sample_attempt_toml :: "attempt_file codec" where
  "sample_attempt_toml =
     \<lparr>to_text = (\<lambda>a. if a = \<lparr>at_version = 1, at_from = ''1.0'', at_to = ''1.1''\<rparr> then Inr ''x'' else Inl []),
      of_text = (\<lambda>_. Inr \<lparr>at_version = 1, at_from = ''1.0'', at_to = ''1.1''\<rparr>)\<rparr>"

definition sample_attempt_path :: file_path where
  "sample_attempt_path = \<lparr>fp_parent = Some [], fp_name = Some ''u''\<rparr>"

theorem stalled_update_reported_once_witness:
  "fst (take_attempt sample_attempt_toml sample_attempt_path '' v1.0''
     (snd (record_attempt sample_attempt_toml sample_attempt_path ''1.0'' ''1.1'' (restart Map.empty)))) =
   Some \<lparr>su_from = ''1.0'', su_to = ''1.1''\<rparr>"
proof -
  have faithful: "faithful_codec sample_attempt_toml"
    by (simp add: faithful_codec_def sample_attempt_toml_def)
  obtain d' where run: "record_attempt sample_attempt_toml sample_attempt_path ''1.0'' ''1.1'' (restart Map.empty) = (Inr (), d')"
      and fine: "dk_faults d' = []"
    by (simp add: record_attempt_def sample_attempt_toml_def UPDATE_ATTEMPT_VERSION_def io_map_err_def replace_file_def
        io_bind_def make_parent_def sample_attempt_path_def ua_write_new_file_def path_exists_def remove_file_def
        create_new_user_only_def write_all_def sync_all_def sys_call_def restart_def rename_file_def Let_def
        next_fault_def tmp_path_for_def io_of_def)
  have same: "same_version ''1.0'' '' v1.0''"
    by (simp add: same_version_def normalize_version_def trim_def trim_start_def trim_end_def is_whitespace_def code_point_def)
  obtain report d'' where taken: "take_attempt sample_attempt_toml sample_attempt_path '' v1.0'' d' = (report, d'')"
    by (rule prod.exhaust)
  have "report = Some \<lparr>su_from = ''1.0'', su_to = ''1.1''\<rparr>"
    using stalled_update_reported_once [OF faithful run fine taken, THEN conjunct1] same by simp
  then show ?thesis using run taken by simp
qed

end
