(* ===== verification/Connection_Store.thy ===== *)
theory Connection_Store
  imports Rust_Lines File_Store Keyed_List
begin

text \<open>
  The connection store of crate \<open>dbboard-config\<close>: the entries of \<open>connections.toml\<close>, their
  validation, loading and saving (\<open>store.rs\<close>), the marks (\<open>mark.rs\<close>) and the errors (\<open>error.rs\<close>).
\<close>

section \<open>Entries\<close>

definition CONFIG_VERSION :: "32 word" where "CONFIG_VERSION = 1"

datatype redis_service = Redis_Plain | Valkey | Memory_Db | Elasti_Cache | Upstash

fun redis_service_label :: "redis_service \<Rightarrow> string" where
  "redis_service_label Redis_Plain = ''Redis''"
| "redis_service_label Valkey = ''Valkey''"
| "redis_service_label Memory_Db = ''Amazon MemoryDB''"
| "redis_service_label Elasti_Cache = ''Amazon ElastiCache''"
| "redis_service_label Upstash = ''Upstash''"

text \<open>The fields of a kind stand in the order of the source; a slot of the keyring is the last one.\<close>

datatype connection_kind =
    Turso string
  | Turso_Remote string string
  | D1 string string "string option" string
  | Postgres string
  | My_Sql string
  | Neon string
  | Supabase string
  | Aurora_Dsql string
  | Aurora_Dsql_Iam string string string string string string
  | Firestore string "string option" "string option" "string option"
  | Mongo_Db string "string option"
  | Redis string bool redis_service

fun adapter_label :: "connection_kind \<Rightarrow> string" where
  "adapter_label (Turso _) = ''Turso''"
| "adapter_label (Turso_Remote _ _) = ''Turso Cloud''"
| "adapter_label (D1 _ _ _ _) = ''Cloudflare D1''"
| "adapter_label (Postgres _) = ''Postgres''"
| "adapter_label (My_Sql _) = ''MySQL''"
| "adapter_label (Neon _) = ''Neon''"
| "adapter_label (Supabase _) = ''Supabase''"
| "adapter_label (Aurora_Dsql _) = ''Aurora DSQL''"
| "adapter_label (Aurora_Dsql_Iam _ _ _ _ _ _) = ''Aurora DSQL (IAM)''"
| "adapter_label (Firestore _ _ _ _) = ''Firestore''"
| "adapter_label (Mongo_Db _ _) = ''MongoDB''"
| "adapter_label (Redis _ _ service) = redis_service_label service"

fun supports_ssh_tunnel :: "connection_kind \<Rightarrow> bool" where
  "supports_ssh_tunnel (Postgres _) = True"
| "supports_ssh_tunnel (My_Sql _) = True"
| "supports_ssh_tunnel (Neon _) = True"
| "supports_ssh_tunnel (Supabase _) = True"
| "supports_ssh_tunnel (Aurora_Dsql _) = True"
| "supports_ssh_tunnel (Redis _ _ _) = True"
| "supports_ssh_tunnel _ = False"

record ssh_tunnel_toml =
  st_host :: string
  st_port :: "16 word"
  st_user :: string
  st_key_path :: "string option"
  st_passphrase_ref :: "string option"
  st_password_ref :: "string option"
  st_fingerprint :: "string option"
  st_known_hosts :: "string option"

definition ssh_validate :: "ssh_tunnel_toml \<Rightarrow> string + unit" where
  "ssh_validate t =
     (if st_key_path t \<noteq> None \<and> st_password_ref t \<noteq> None
        then Inl ''specify either key_path or keyring_password_ref, not both''
      else if st_key_path t = None \<and> st_password_ref t = None
        then Inl ''needs an auth method: key_path or keyring_password_ref''
      else if st_passphrase_ref t \<noteq> None \<and> st_key_path t = None
        then Inl ''keyring_passphrase_ref is only valid together with key_path''
      else if st_fingerprint t \<noteq> None \<and> st_known_hosts t \<noteq> None
        then Inl ''specify either fingerprint or known_hosts, not both''
      else if st_fingerprint t = None \<and> st_known_hosts t = None
        then Inl ''needs a host-key policy: fingerprint or known_hosts''
      else Inr ())"

definition opt_list :: "'a option \<Rightarrow> 'a list" where
  "opt_list x = (case x of Some y \<Rightarrow> [y] | None \<Rightarrow> [])"

lemma set_opt_list [simp]: "set (opt_list x) = set_option x"
  by (cases x) (simp_all add: opt_list_def)

definition ssh_keyring_refs :: "ssh_tunnel_toml \<Rightarrow> string list" where
  "ssh_keyring_refs t = opt_list (st_passphrase_ref t) @ opt_list (st_password_ref t)"

record connection_entry =
  ce_id :: string
  ce_name :: string
  ce_kind :: connection_kind
  ce_mcp_write :: bool
  ce_mcp_alias :: "string option"
  ce_color :: "string option"
  ce_tag :: "string option"
  ce_ssh :: "ssh_tunnel_toml option"

record connection_file =
  cf_version :: "32 word"
  cf_mcp_export :: "string option"
  cf_connections :: "connection_entry list"

fun keyring_refs_in :: "connection_kind \<Rightarrow> string list" where
  "keyring_refs_in (Turso _) = []"
| "keyring_refs_in (Turso_Remote _ r) = [r]"
| "keyring_refs_in (D1 _ _ _ r) = [r]"
| "keyring_refs_in (Postgres r) = [r]"
| "keyring_refs_in (My_Sql r) = [r]"
| "keyring_refs_in (Neon r) = [r]"
| "keyring_refs_in (Supabase r) = [r]"
| "keyring_refs_in (Aurora_Dsql r) = [r]"
| "keyring_refs_in (Aurora_Dsql_Iam _ _ _ _ _ r) = [r]"
| "keyring_refs_in (Firestore _ _ _ r) = opt_list r"
| "keyring_refs_in (Mongo_Db r _) = [r]"
| "keyring_refs_in (Redis r _ _) = [r]"

definition entry_keyring_refs :: "connection_entry \<Rightarrow> string list" where
  "entry_keyring_refs entry =
     keyring_refs_in (ce_kind entry) @ (case ce_ssh entry of Some ssh \<Rightarrow> ssh_keyring_refs ssh | None \<Rightarrow> [])"

definition keyring_ref :: "string \<Rightarrow> string \<Rightarrow> string" where
  "keyring_ref id' field = ''dbboard.'' @ id' @ ''.'' @ field"

definition split_ref :: "string \<Rightarrow> (string \<times> string) option" where
  "split_ref key_ref =
     (if starts_with ''dbboard.'' key_ref
      then case rsplit_once (CHR ''.'') (drop (length ''dbboard.'') key_ref) of
        Some (owner, field) \<Rightarrow> if owner \<noteq> [] \<and> field \<noteq> [] then Some (owner, field) else None
      | None \<Rightarrow> None
      else None)"

definition ref_owner :: "string \<Rightarrow> string option" where
  "ref_owner key_ref = map_option fst (split_ref key_ref)"

section \<open>Marks\<close>

definition CONNECTION_COLORS :: "string list" where
  "CONNECTION_COLORS = [''red'', ''orange'', ''yellow'', ''green'', ''teal'', ''blue'', ''purple'', ''pink'']"

definition is_connection_color :: "string \<Rightarrow> bool" where
  "is_connection_color name \<longleftrightarrow> name \<in> set CONNECTION_COLORS"

definition CONNECTION_TAG_MAX_CHARS :: nat where "CONNECTION_TAG_MAX_CHARS = 12"

definition is_connection_tag :: "string \<Rightarrow> bool" where
  "is_connection_tag tag \<longleftrightarrow> length tag \<le> CONNECTION_TAG_MAX_CHARS"

section \<open>Errors\<close>

datatype secret_error = Secret_Not_Found string | Secret_Backend string string

datatype corrupt_stage = Header | File_Key | Body

datatype bundle_error =
    Weak_Passphrase
  | Bundle_Serialize string
  | Incorrect_Passphrase
  | Corrupt corrupt_stage string
  | Unsupported_Bundle_Version "32 word"
  | Bundle_Parse string
  | Bundle_Io string

datatype config_error =
    Config_Parse string
  | Unsupported_Version "32 word"
  | Duplicate_Id string
  | Duplicate_Alias string
  | Config_Io io_error
  | Config_Serialize string
  | No_Config_Dir
  | Config_Secret secret_error
  | No_Such_Connection string
  | Index_Out_Of_Range nat nat
  | Unknown_Color string
  | Tag_Too_Long string nat
  | Kind_Mismatch string
  | Ssh_Unsupported_Kind string string
  | Ssh_Invalid string string
  | Tls_Required string string string
  | Dsn_Unparseable string
  | Config_Bundle bundle_error
  | Unusable_Source_Ref string string
  | Ref_Not_On_Entry string string
  | Nothing_To_Repair string string
  | Empty_Selection

fun secret_error_display :: "secret_error \<Rightarrow> string" where
  "secret_error_display (Secret_Not_Found r) = ''no secret stored for reference: '' @ r"
| "secret_error_display (Secret_Backend r source) = ''secret backend error for '' @ r @ '': '' @ source"

fun corrupt_stage_display :: "corrupt_stage \<Rightarrow> string" where
  "corrupt_stage_display Header = ''header''"
| "corrupt_stage_display File_Key = ''file key''"
| "corrupt_stage_display Body = ''body''"

definition MIN_PASSPHRASE_LEN :: nat where "MIN_PASSPHRASE_LEN = 8"

fun bundle_error_display :: "bundle_error \<Rightarrow> string" where
  "bundle_error_display Weak_Passphrase =
     ''passphrase must be at least '' @ show_nat MIN_PASSPHRASE_LEN @ '' characters''"
| "bundle_error_display (Bundle_Serialize e) = ''failed to serialize bundle payload: '' @ e"
| "bundle_error_display Incorrect_Passphrase = ''incorrect passphrase''"
| "bundle_error_display (Corrupt stage reason) =
     ''bundle is corrupt or was not produced by dbboard ('' @ corrupt_stage_display stage @ '' stage: '' @
       reason @ '')''"
| "bundle_error_display (Unsupported_Bundle_Version v) =
     ''unsupported bundle version: '' @ show_nat (unat v)"
| "bundle_error_display (Bundle_Parse e) = ''bundle contents are not a valid dbboard payload: '' @ e"
| "bundle_error_display (Bundle_Io e) = ''bundle I/O error: '' @ e"

fun config_error_display :: "(io_error \<Rightarrow> string) \<Rightarrow> config_error \<Rightarrow> string" where
  "config_error_display io (Config_Parse e) = ''config parse failed: '' @ e"
| "config_error_display io (Unsupported_Version v) =
     ''unsupported config version: '' @ show_nat (unat v) @ '' (only version '' @
       show_nat (unat CONFIG_VERSION) @ '' is supported)''"
| "config_error_display io (Duplicate_Id i) = ''duplicate connection id: '' @ i"
| "config_error_display io (Duplicate_Alias a) = ''connection alias already in use: '' @ a"
| "config_error_display io (Config_Io e) = ''config io failed: '' @ io e"
| "config_error_display io (Config_Serialize e) = ''config serialize failed: '' @ e"
| "config_error_display io No_Config_Dir = ''could not resolve a per-user config directory''"
| "config_error_display io (Config_Secret e) = ''config secret failed: '' @ secret_error_display e"
| "config_error_display io (No_Such_Connection i) = ''no connection entry with id: '' @ i"
| "config_error_display io (Index_Out_Of_Range index len) =
     ''connection order index '' @ show_nat index @ '' is out of range (the store holds '' @
       show_nat len @ '')''"
| "config_error_display io (Unknown_Color name) = name @ '' is not one of dbboard's connection colours''"
| "config_error_display io (Tag_Too_Long tag limit) =
     tag @ '' is longer than '' @ show_nat limit @ '' characters''"
| "config_error_display io (Kind_Mismatch i) = ''connection '' @ i @ '' kind cannot change on update''"
| "config_error_display io (Ssh_Unsupported_Kind i kind) =
     ''connection '' @ i @ '': an ssh tunnel is not supported for a '' @ kind @ '' connection''"
| "config_error_display io (Ssh_Invalid i why) = ''connection '' @ i @ '': invalid ssh tunnel: '' @ why"
| "config_error_display io (Tls_Required i service scheme) =
     ''connection '' @ i @ '': '' @ service @ '' only accepts TLS, so its URL must start with '' @ scheme"
| "config_error_display io (Dsn_Unparseable i) =
     ''connection '' @ i @ '': the stored connection url could not be parsed''"
| "config_error_display io (Config_Bundle e) = ''config bundle failed: '' @ bundle_error_display e"
| "config_error_display io (Unusable_Source_Ref i r) =
     ''connection '' @ i @ '': cannot duplicate while it points at the keyring slot '' @ r @
       ''; repair it first''"
| "config_error_display io (Ref_Not_On_Entry i r) =
     ''connection '' @ i @ '' does not point at the keyring slot '' @ r"
| "config_error_display io (Nothing_To_Repair i r) =
     ''connection '' @ i @ '': the keyring slot '' @ r @ '' is not another connection's to repair''"
| "config_error_display io Empty_Selection = ''select at least one connection to export''"

section \<open>The file\<close>

fun check_entries :: "string set \<Rightarrow> connection_entry list \<Rightarrow> config_error + unit" where
  "check_entries seen [] = Inr ()"
| "check_entries seen (entry # rest) =
     (if ce_id entry \<in> seen then Inl (Duplicate_Id (ce_id entry))
      else case ce_ssh entry of
        None \<Rightarrow> check_entries (insert (ce_id entry) seen) rest
      | Some ssh \<Rightarrow>
          if \<not> supports_ssh_tunnel (ce_kind entry)
          then Inl (Ssh_Unsupported_Kind (ce_id entry) (adapter_label (ce_kind entry)))
          else case ssh_validate ssh of
            Inl why \<Rightarrow> Inl (Ssh_Invalid (ce_id entry) why)
          | Inr _ \<Rightarrow> check_entries (insert (ce_id entry) seen) rest)"

definition connections_parse :: "connection_file codec \<Rightarrow> string \<Rightarrow> config_error + connection_file" where
  "connections_parse toml input =
     (case of_text toml input of
        Inl e \<Rightarrow> Inl (Config_Parse e)
      | Inr file \<Rightarrow>
          if cf_version file \<noteq> CONFIG_VERSION then Inl (Unsupported_Version (cf_version file))
          else case check_entries {} (cf_connections file) of Inl e \<Rightarrow> Inl e | Inr _ \<Rightarrow> Inr file)"

definition connections_empty :: connection_file where
  "connections_empty = \<lparr>cf_version = CONFIG_VERSION, cf_mcp_export = None, cf_connections = []\<rparr>"

definition config_dir_from :: "string option \<Rightarrow> string option \<Rightarrow> config_error + string" where
  "config_dir_from platform configured =
     (case configured of
        Some raw \<Rightarrow> if trim raw \<noteq> [] then Inr (trim raw) else ok_or No_Config_Dir platform
      | None \<Rightarrow> ok_or No_Config_Dir platform)"

definition connections_load ::
  "connection_file codec \<Rightarrow> file_path \<Rightarrow> disk \<Rightarrow> (config_error + connection_file) \<times> disk" where
  "connections_load toml path d =
     (case read_to_string path d of
        (Inr contents, d') \<Rightarrow> (connections_parse toml contents, d')
      | (Inl Not_Found, d') \<Rightarrow> (Inr connections_empty, d')
      | (Inl e, d') \<Rightarrow> (Inl (Config_Io e), d'))"

definition cs_write_new_file :: "file_path \<Rightarrow> string \<Rightarrow> unit disk_op" where
  "cs_write_new_file path contents =
     io_bind (create_new_user_only path) (\<lambda>_. io_bind (write_all path contents) (\<lambda>_. sync_all))"

definition connections_save ::
  "connection_file codec \<Rightarrow> file_path \<Rightarrow> connection_file \<Rightarrow> disk \<Rightarrow> (config_error + unit) \<times> disk" where
  "connections_save toml path file =
     (case to_text toml file of
        Inl e \<Rightarrow> io_of (Inl (Config_Serialize e))
      | Inr contents \<Rightarrow> io_map_err Config_Io (replace_file cs_write_new_file ''.connections.toml'' path contents))"

text \<open>The copy kept from before a version ran; a name splits at its last dot unless that starts it.\<close>

definition stem_and_extension :: "string \<Rightarrow> string \<times> string option" where
  "stem_and_extension name =
     (case rsplit_once (CHR ''.'') name of
        Some (stem, ext) \<Rightarrow> if stem = [] then (name, None) else (stem, Some ext)
      | None \<Rightarrow> (name, None))"

definition snapshot_path_for :: "file_path \<Rightarrow> string \<Rightarrow> file_path" where
  "snapshot_path_for path version =
     (let (stem, ext) = (case fp_name path of Some name \<Rightarrow> stem_and_extension name | None \<Rightarrow> (''connections'', None));
          name = (case ext of
            Some ext \<Rightarrow> stem @ ''.pre-'' @ version @ ''.'' @ ext
          | None \<Rightarrow> stem @ ''.pre-'' @ version)
      in path\<lparr>fp_name := Some name\<rparr>)"

definition snapshot_before_version ::
  "file_path \<Rightarrow> string \<Rightarrow> disk \<Rightarrow> (config_error + file_path option) \<times> disk" where
  "snapshot_before_version path version d =
     (if version = [] \<or> CHR ''/'' \<in> set version \<or> CHR 0x5C \<in> set version then (Inr None, d)
      else case read_to_string path d of
        (Inl Not_Found, d) \<Rightarrow> (Inr None, d)
      | (Inl e, d) \<Rightarrow> (Inl (Config_Io e), d)
      | (Inr contents, d) \<Rightarrow>
          (case cs_write_new_file (snapshot_path_for path version) contents d of
             (Inr _, d) \<Rightarrow> (Inr (Some (snapshot_path_for path version)), d)
           | (Inl Already_Exists, d) \<Rightarrow> (Inr None, d)
           | (Inl e, d) \<Rightarrow> (Inl (Config_Io e), d)))"

end
