(* ===== verification/Connection_Admin.thy ===== *)
theory Connection_Admin
  imports Connection_Store
begin

text \<open>
  The connection admin of crate \<open>dbboard-config\<close> (\<open>admin.rs\<close>): two stores that must not drift, the
  file of entries and the keyring with their secrets. The admin carries the disk and the keyring it
  works on; each keyring call may fail, as the list of failures to come says.
\<close>

section \<open>The admin and the keyring\<close>

record connection_admin =
  ca_path :: file_path
  ca_file :: connection_file
  ca_tracks_disk :: bool
  ca_disk :: disk
  ca_keys :: "string \<rightharpoonup> string"
  ca_key_faults :: "string option list"

type_synonym 'a admin_op = "connection_admin \<Rightarrow> (config_error + 'a) \<times> connection_admin"
type_synonym 'a key_op = "connection_admin \<Rightarrow> (secret_error + 'a) \<times> connection_admin"

definition key_call ::
  "string \<Rightarrow> ((string \<rightharpoonup> string) \<Rightarrow> (secret_error + 'a) \<times> (string \<rightharpoonup> string)) \<Rightarrow> 'a key_op" where
  "key_call key_ref effect s =
     (case ca_key_faults s of
        Some source # faults \<Rightarrow> (Inl (Secret_Backend key_ref source), s\<lparr>ca_key_faults := faults\<rparr>)
      | faults \<Rightarrow>
          (case effect (ca_keys s) of
             (r, keys) \<Rightarrow> (r, s\<lparr>ca_keys := keys, ca_key_faults := tl faults\<rparr>)))"

definition key_get :: "string \<Rightarrow> string key_op" where
  "key_get key_ref = key_call key_ref (\<lambda>keys. (ok_or (Secret_Not_Found key_ref) (keys key_ref), keys))"

definition key_set :: "string \<Rightarrow> string \<Rightarrow> unit key_op" where
  "key_set key_ref value = key_call key_ref (\<lambda>keys. (Inr (), keys(key_ref \<mapsto> value)))"

definition key_delete :: "string \<Rightarrow> unit key_op" where
  "key_delete key_ref = key_call key_ref (\<lambda>keys.
     if keys key_ref = None then (Inl (Secret_Not_Found key_ref), keys) else (Inr (), keys(key_ref := None)))"

definition file_save :: "connection_file codec \<Rightarrow> connection_file \<Rightarrow> unit admin_op" where
  "file_save toml file s =
     (case connections_save toml (ca_path s) file (ca_disk s) of (r, d) \<Rightarrow> (r, s\<lparr>ca_disk := d\<rparr>))"

section \<open>Drafts\<close>

datatype ssh_host_key_draft = Fingerprint string | Known_Hosts string
datatype ssh_auth_draft = Key_Auth string "string option" | Password_Auth string

record ssh_tunnel_draft =
  td_host :: string
  td_port :: "16 word"
  td_user :: string
  td_auth :: ssh_auth_draft
  td_host_key :: ssh_host_key_draft

datatype connection_kind_draft =
    Draft_Turso string
  | Draft_Turso_Remote string string
  | Draft_D1 string string "string option" string
  | Draft_Postgres string
  | Draft_My_Sql string
  | Draft_Neon string
  | Draft_Supabase string
  | Draft_Aurora_Dsql string
  | Draft_Aurora_Dsql_Iam string string string string string string
  | Draft_Firestore string "string option" "string option" "string option"
  | Draft_Mongo_Db string "string option"
  | Draft_Redis string bool redis_service

record connection_draft =
  cd_id :: string
  cd_name :: string
  cd_kind :: connection_kind_draft
  cd_ssh :: "ssh_tunnel_draft option"
  cd_mcp_write :: bool
  cd_mcp_alias :: "string option"
  cd_color :: "string option"
  cd_tag :: "string option"

datatype secret_field = Keep_Secret | Set_Secret string
datatype ssh_passphrase_field = Keep_Passphrase | Set_Passphrase string | Unencrypted
datatype firestore_credential_field = Keep_Credential | Set_Credential string | Emulator
datatype ssh_auth_edit_draft = Edit_Key string ssh_passphrase_field | Edit_Password secret_field

record ssh_tunnel_edit_draft =
  te_host :: string
  te_port :: "16 word"
  te_user :: string
  te_auth :: ssh_auth_edit_draft
  te_host_key :: ssh_host_key_draft

datatype ssh_edit_field = Keep_Ssh | Disable_Ssh | is_Set_Ssh: Set_Ssh ssh_tunnel_edit_draft

datatype connection_kind_edit_draft =
    Edit_Turso string
  | Edit_Turso_Remote string secret_field
  | Edit_D1 string string "string option" secret_field
  | Edit_Postgres secret_field
  | Edit_My_Sql secret_field
  | Edit_Neon secret_field
  | Edit_Supabase secret_field
  | Edit_Aurora_Dsql secret_field
  | Edit_Aurora_Dsql_Iam string string string string string secret_field
  | Edit_Firestore string "string option" "string option" firestore_credential_field
  | Edit_Mongo_Db secret_field "string option"
  | Edit_Redis secret_field bool redis_service

record connection_edit_draft =
  ed_name :: string
  ed_kind :: connection_kind_edit_draft
  ed_ssh :: ssh_edit_field
  ed_mcp_write :: "bool option"
  ed_mcp_alias :: "string option"
  ed_color :: "string option"
  ed_tag :: "string option"

section \<open>Handles and marks\<close>

definition find_index :: "connection_file \<Rightarrow> string \<Rightarrow> nat option" where
  "find_index file id' = position (\<lambda>e. ce_id e = id') (cf_connections file)"

definition ensure_handle_is_free :: "connection_file \<Rightarrow> string \<Rightarrow> string \<Rightarrow> config_error + unit" where
  "ensure_handle_is_free file candidate owner =
     (if list_ex (\<lambda>e. ce_id e \<noteq> owner \<and> (ce_id e = candidate \<or> ce_mcp_alias e = Some candidate))
           (cf_connections file)
      then Inl (Duplicate_Alias candidate) else Inr ())"

definition trimmed_option :: "string option \<Rightarrow> string option" where
  "trimmed_option raw =
     (case raw of Some a \<Rightarrow> if trim a \<noteq> [] then Some (trim a) else None | None \<Rightarrow> None)"

definition normalize_alias :: "string option \<Rightarrow> string option" where
  "normalize_alias raw = trimmed_option raw"

definition normalize_color :: "string option \<Rightarrow> config_error + string option" where
  "normalize_color raw =
     (case trimmed_option raw of
        None \<Rightarrow> Inr None
      | Some name \<Rightarrow> if is_connection_color name then Inr (Some name) else Inl (Unknown_Color name))"

definition normalize_tag :: "string option \<Rightarrow> config_error + string option" where
  "normalize_tag raw =
     (case trimmed_option raw of
        None \<Rightarrow> Inr None
      | Some tag \<Rightarrow>
          if is_connection_tag tag then Inr (Some tag) else Inl (Tag_Too_Long tag CONNECTION_TAG_MAX_CHARS))"

definition SSH_PASSPHRASE_FIELD :: string where "SSH_PASSPHRASE_FIELD = ''ssh_passphrase''"
definition SSH_PASSWORD_FIELD :: string where "SSH_PASSWORD_FIELD = ''ssh_password''"
definition FIRESTORE_SERVICE_ACCOUNT_FIELD :: string where
  "FIRESTORE_SERVICE_ACCOUNT_FIELD = ''service_account''"
definition AURORA_DSQL_IAM_SECRET_KEY_FIELD :: string where
  "AURORA_DSQL_IAM_SECRET_KEY_FIELD = ''secret_key''"

section \<open>What a draft becomes\<close>

type_synonym secret_write = "string \<times> string"

definition secret_backed_add :: "string \<Rightarrow> string \<Rightarrow> string \<Rightarrow> (string \<Rightarrow> connection_kind) \<Rightarrow>
    connection_kind \<times> secret_write list" where
  "secret_backed_add id' field secret build =
     (let key_ref = keyring_ref id' field in (build key_ref, [(key_ref, secret)]))"

definition url_backed_add :: "string \<Rightarrow> string \<Rightarrow> (string \<Rightarrow> connection_kind) \<Rightarrow>
    connection_kind \<times> secret_write list" where
  "url_backed_add id' url build = secret_backed_add id' ''url'' url build"

fun build_kind_for_add :: "string \<Rightarrow> connection_kind_draft \<Rightarrow> connection_kind \<times> secret_write list" where
  "build_kind_for_add i (Draft_Turso path) = (Turso path, [])"
| "build_kind_for_add i (Draft_Turso_Remote url token) = secret_backed_add i ''token'' token (Turso_Remote url)"
| "build_kind_for_add i (Draft_D1 account database base token) =
     secret_backed_add i ''token'' token (D1 account database base)"
| "build_kind_for_add i (Draft_Postgres url) = url_backed_add i url Postgres"
| "build_kind_for_add i (Draft_My_Sql url) = url_backed_add i url My_Sql"
| "build_kind_for_add i (Draft_Neon url) = url_backed_add i url Neon"
| "build_kind_for_add i (Draft_Supabase url) = url_backed_add i url Supabase"
| "build_kind_for_add i (Draft_Aurora_Dsql url) = url_backed_add i url Aurora_Dsql"
| "build_kind_for_add i (Draft_Aurora_Dsql_Iam endpoint region database user access secret) =
     secret_backed_add i AURORA_DSQL_IAM_SECRET_KEY_FIELD secret
       (Aurora_Dsql_Iam endpoint region database user access)"
| "build_kind_for_add i (Draft_Firestore project database base account) =
     (let key_ref = keyring_ref i FIRESTORE_SERVICE_ACCOUNT_FIELD
      in (Firestore project database base (map_option (\<lambda>_. key_ref) account),
          opt_list (map_option (\<lambda>secret. (key_ref, secret)) account)))"
| "build_kind_for_add i (Draft_Mongo_Db uri database) = url_backed_add i uri (\<lambda>r. Mongo_Db r database)"
| "build_kind_for_add i (Draft_Redis url cluster service) =
     url_backed_add i url (\<lambda>r. Redis r cluster service)"

fun split_host_key :: "ssh_host_key_draft \<Rightarrow> string option \<times> string option" where
  "split_host_key (Fingerprint f) = (Some f, None)"
| "split_host_key (Known_Hosts path) = (None, Some path)"

definition build_ssh_for_add :: "string \<Rightarrow> ssh_tunnel_draft \<Rightarrow> ssh_tunnel_toml \<times> secret_write list" where
  "build_ssh_for_add i draft =
     (let ((key_path, pass_ref, password_ref), writes) =
            (case td_auth draft of
               Key_Auth path passphrase \<Rightarrow>
                 let key_ref = keyring_ref i SSH_PASSPHRASE_FIELD
                 in ((Some path, map_option (\<lambda>_. key_ref) passphrase, None),
                     opt_list (map_option (\<lambda>secret. (key_ref, secret)) passphrase))
             | Password_Auth secret \<Rightarrow>
                 let key_ref = keyring_ref i SSH_PASSWORD_FIELD
                 in ((None, None, Some key_ref), [(key_ref, secret)]))
      in (\<lparr>st_host = td_host draft, st_port = td_port draft, st_user = td_user draft,
           st_key_path = key_path, st_passphrase_ref = pass_ref, st_password_ref = password_ref,
           st_fingerprint = fst (split_host_key (td_host_key draft)),
           st_known_hosts = snd (split_host_key (td_host_key draft))\<rparr>, writes))"

section \<open>Opening and reading again\<close>

definition admin_sync :: "connection_file codec \<Rightarrow> unit admin_op" where
  "admin_sync toml s =
     (if ca_tracks_disk s
      then case connections_load toml (ca_path s) (ca_disk s) of
        (Inl e, d) \<Rightarrow> (Inl e, s\<lparr>ca_disk := d\<rparr>)
      | (Inr file, d) \<Rightarrow> (Inr (), s\<lparr>ca_disk := d, ca_file := file\<rparr>)
      else (Inr (), s))"

section \<open>Adding\<close>

text \<open>The checks of \<open>add\<close> and the entry and secrets it is to write, before anything is written.\<close>

definition plan_add :: "connection_file \<Rightarrow> connection_draft \<Rightarrow> config_error + connection_entry \<times> secret_write list" where
  "plan_add file draft =
     (if find_index file (cd_id draft) \<noteq> None then Inl (Duplicate_Id (cd_id draft))
      else
        let alias = normalize_alias (cd_mcp_alias draft)
        in rbind (ensure_handle_is_free file (cd_id draft) (cd_id draft)) (\<lambda>_.
           rbind (case alias of Some a \<Rightarrow> ensure_handle_is_free file a (cd_id draft) | None \<Rightarrow> Inr ()) (\<lambda>_.
           rbind (normalize_color (cd_color draft)) (\<lambda>color.
           rbind (normalize_tag (cd_tag draft)) (\<lambda>tag.
             let (kind, writes) = build_kind_for_add (cd_id draft) (cd_kind draft)
             in rbind
               (case cd_ssh draft of
                  None \<Rightarrow> Inr (None, writes)
                | Some ssh \<Rightarrow>
                    if \<not> supports_ssh_tunnel kind
                    then Inl (Ssh_Unsupported_Kind (cd_id draft) (adapter_label kind))
                    else let (tunnel, extra) = build_ssh_for_add (cd_id draft) ssh
                      in Inr (Some tunnel, writes @ extra))
               (\<lambda>(ssh, writes). Inr (\<lparr>ce_id = cd_id draft, ce_name = cd_name draft, ce_kind = kind,
                  ce_mcp_write = cd_mcp_write draft, ce_mcp_alias = alias, ce_color = color,
                  ce_tag = tag, ce_ssh = ssh\<rparr>, writes)))))))"

fun delete_keys :: "string list \<Rightarrow> connection_admin \<Rightarrow> connection_admin" where
  "delete_keys [] s = s"
| "delete_keys (r # rs) s = delete_keys rs (snd (key_delete r s))"

fun write_secrets :: "secret_write list \<Rightarrow> string list \<Rightarrow> unit admin_op" where
  "write_secrets [] written s = (Inr (), s)"
| "write_secrets ((key_ref, secret) # writes) written s =
     (case key_set key_ref secret s of
        (Inl e, s) \<Rightarrow> (Inl (Config_Secret e), delete_keys written s)
      | (Inr _, s) \<Rightarrow> write_secrets writes (written @ [key_ref]) s)"

text \<open>Secrets first, then the file; a failed save deletes the secrets again.\<close>

definition commit_entry ::
  "connection_file codec \<Rightarrow> connection_entry \<Rightarrow> secret_write list \<Rightarrow> connection_entry admin_op" where
  "commit_entry toml entry writes =
     io_bind (write_secrets writes []) (\<lambda>_ s.
       let new_file = (ca_file s)\<lparr>cf_connections := cf_connections (ca_file s) @ [entry]\<rparr>
       in case file_save toml new_file s of
            (Inl e, s) \<Rightarrow> (Inl e, delete_keys (map fst writes) s)
          | (Inr _, s) \<Rightarrow> (Inr entry, s\<lparr>ca_file := new_file\<rparr>))"

definition admin_add :: "connection_file codec \<Rightarrow> connection_draft \<Rightarrow> connection_entry admin_op" where
  "admin_add toml draft =
     io_bind (admin_sync toml) (\<lambda>_ s.
       case plan_add (ca_file s) draft of
         Inl e \<Rightarrow> (Inl e, s)
       | Inr (entry, writes) \<Rightarrow> commit_entry toml entry writes s)"

section \<open>Updating\<close>

type_synonym applied_write = "string \<times> string option"

definition apply_secret_write :: "string \<Rightarrow> string \<Rightarrow> applied_write admin_op" where
  "apply_secret_write key_ref secret s =
     (case key_get key_ref s of
        (Inl (Secret_Backend r source), s) \<Rightarrow> (Inl (Config_Secret (Secret_Backend r source)), s)
      | (got, s) \<Rightarrow>
          (case key_set key_ref secret s of
             (Inl e, s) \<Rightarrow> (Inl (Config_Secret e), s)
           | (Inr _, s) \<Rightarrow> (Inr (key_ref, (case got of Inr old \<Rightarrow> Some old | Inl _ \<Rightarrow> None)), s)))"

definition apply_optional_write :: "secret_write option \<Rightarrow> applied_write list admin_op" where
  "apply_optional_write write' =
     (case write' of
        None \<Rightarrow> io_of (Inr [])
      | Some (key_ref, secret) \<Rightarrow> io_bind (apply_secret_write key_ref secret) (\<lambda>a. io_of (Inr [a])))"

fun restore_applied :: "applied_write list \<Rightarrow> connection_admin \<Rightarrow> connection_admin" where
  "restore_applied [] s = s"
| "restore_applied ((key_ref, old) # applied) s =
     restore_applied applied
       (case old of Some secret \<Rightarrow> snd (key_set key_ref secret s) | None \<Rightarrow> snd (key_delete key_ref s))"

fun secret_edit :: "string \<Rightarrow> secret_field \<Rightarrow> secret_write option" where
  "secret_edit key_ref Keep_Secret = None"
| "secret_edit key_ref (Set_Secret secret) = Some (key_ref, secret)"

fun firestore_edit :: "string \<Rightarrow> string option \<Rightarrow> firestore_credential_field \<Rightarrow> string option \<times> secret_write option" where
  "firestore_edit i existing Keep_Credential = (existing, None)"
| "firestore_edit i existing (Set_Credential secret) =
     (let key_ref = (case existing of Some r \<Rightarrow> r | None \<Rightarrow> keyring_ref i FIRESTORE_SERVICE_ACCOUNT_FIELD)
      in (Some key_ref, Some (key_ref, secret)))"
| "firestore_edit i existing Emulator = (None, None)"

text \<open>
  The arms of \<open>apply_update_kind\<close>: the new kind and the one secret it writes, if any. Every arm
  reuses the reference the entry has.
\<close>

fun plan_kind_edit ::
  "string \<Rightarrow> connection_kind \<Rightarrow> connection_kind_edit_draft \<Rightarrow> config_error + connection_kind \<times> secret_write option" where
  "plan_kind_edit i (Turso _) draft =
     (case draft of Edit_Turso path \<Rightarrow> Inr (Turso path, None) | _ \<Rightarrow> Inl (Kind_Mismatch i))"
| "plan_kind_edit i (Turso_Remote _ r) draft =
     (case draft of Edit_Turso_Remote url token \<Rightarrow> Inr (Turso_Remote url r, secret_edit r token)
      | _ \<Rightarrow> Inl (Kind_Mismatch i))"
| "plan_kind_edit i (D1 _ _ _ r) draft =
     (case draft of Edit_D1 account database base token \<Rightarrow>
        Inr (D1 account database base r, secret_edit r token)
      | _ \<Rightarrow> Inl (Kind_Mismatch i))"
| "plan_kind_edit i (Postgres r) draft =
     (case draft of Edit_Postgres url \<Rightarrow> Inr (Postgres r, secret_edit r url) | _ \<Rightarrow> Inl (Kind_Mismatch i))"
| "plan_kind_edit i (My_Sql r) draft =
     (case draft of Edit_My_Sql url \<Rightarrow> Inr (My_Sql r, secret_edit r url) | _ \<Rightarrow> Inl (Kind_Mismatch i))"
| "plan_kind_edit i (Neon r) draft =
     (case draft of Edit_Neon url \<Rightarrow> Inr (Neon r, secret_edit r url) | _ \<Rightarrow> Inl (Kind_Mismatch i))"
| "plan_kind_edit i (Supabase r) draft =
     (case draft of Edit_Supabase url \<Rightarrow> Inr (Supabase r, secret_edit r url) | _ \<Rightarrow> Inl (Kind_Mismatch i))"
| "plan_kind_edit i (Aurora_Dsql r) draft =
     (case draft of Edit_Aurora_Dsql url \<Rightarrow> Inr (Aurora_Dsql r, secret_edit r url)
      | _ \<Rightarrow> Inl (Kind_Mismatch i))"
| "plan_kind_edit i (Aurora_Dsql_Iam _ _ _ _ _ r) draft =
     (case draft of Edit_Aurora_Dsql_Iam endpoint region database user access secret \<Rightarrow>
        Inr (Aurora_Dsql_Iam endpoint region database user access r, secret_edit r secret)
      | _ \<Rightarrow> Inl (Kind_Mismatch i))"
| "plan_kind_edit i (Firestore _ _ _ r) draft =
     (case draft of Edit_Firestore project database base account \<Rightarrow>
        (case firestore_edit i r account of (r', w) \<Rightarrow> Inr (Firestore project database base r', w))
      | _ \<Rightarrow> Inl (Kind_Mismatch i))"
| "plan_kind_edit i (Mongo_Db r _) draft =
     (case draft of Edit_Mongo_Db uri database \<Rightarrow> Inr (Mongo_Db r database, secret_edit r uri)
      | _ \<Rightarrow> Inl (Kind_Mismatch i))"
| "plan_kind_edit i (Redis r _ _) draft =
     (case draft of Edit_Redis url cluster service \<Rightarrow> Inr (Redis r cluster service, secret_edit r url)
      | _ \<Rightarrow> Inl (Kind_Mismatch i))"

definition apply_update_kind ::
  "string \<Rightarrow> connection_kind \<Rightarrow> connection_kind_edit_draft \<Rightarrow> (connection_kind \<times> applied_write list) admin_op" where
  "apply_update_kind i existing draft =
     (case plan_kind_edit i existing draft of
        Inl e \<Rightarrow> io_of (Inl e)
      | Inr (kind, write') \<Rightarrow> io_bind (apply_optional_write write') (\<lambda>applied. io_of (Inr (kind, applied))))"

text \<open>The authentication of a tunnel to be set: path, passphrase reference, password reference, write.\<close>

fun plan_ssh_auth :: "string \<Rightarrow> ssh_auth_edit_draft \<Rightarrow> ssh_tunnel_toml option \<Rightarrow>
    config_error + (string option \<times> string option \<times> string option) \<times> secret_write option" where
  "plan_ssh_auth i (Edit_Key path Unencrypted) existing = Inr ((Some path, None, None), None)"
| "plan_ssh_auth i (Edit_Key path Keep_Passphrase) existing =
     (case Option.bind existing st_passphrase_ref of
        Some r \<Rightarrow> Inr ((Some path, Some r, None), None)
      | None \<Rightarrow> Inl (Ssh_Invalid i (''the SSH key is marked encrypted but no passphrase was provided '' @
          ''and none is stored to keep'')))"
| "plan_ssh_auth i (Edit_Key path (Set_Passphrase secret)) existing =
     (let r = keyring_ref i SSH_PASSPHRASE_FIELD in Inr ((Some path, Some r, None), Some (r, secret)))"
| "plan_ssh_auth i (Edit_Password (Set_Secret secret)) existing =
     (let r = keyring_ref i SSH_PASSWORD_FIELD in Inr ((None, None, Some r), Some (r, secret)))"
| "plan_ssh_auth i (Edit_Password Keep_Secret) existing =
     (case Option.bind existing st_password_ref of
        Some r \<Rightarrow> Inr ((None, None, Some r), None)
      | None \<Rightarrow> Inl (Ssh_Invalid i ''switching to SSH password auth requires a password''))"

definition tunnel_of :: "ssh_tunnel_edit_draft \<Rightarrow> string option \<times> string option \<times> string option \<Rightarrow> ssh_tunnel_toml" where
  "tunnel_of draft = (\<lambda>(key_path, pass_ref, password_ref).
     \<lparr>st_host = te_host draft, st_port = te_port draft, st_user = te_user draft,
      st_key_path = key_path, st_passphrase_ref = pass_ref, st_password_ref = password_ref,
      st_fingerprint = fst (split_host_key (te_host_key draft)),
      st_known_hosts = snd (split_host_key (te_host_key draft))\<rparr>)"

text \<open>With the error of a failed tunnel come the writes already applied.\<close>

definition apply_update_ssh ::
  "string \<Rightarrow> ssh_edit_field \<Rightarrow> ssh_tunnel_toml option \<Rightarrow> applied_write list \<Rightarrow>
     connection_admin \<Rightarrow> ((config_error + ssh_tunnel_toml option) \<times> applied_write list) \<times> connection_admin" where
  "apply_update_ssh i field existing applied s =
     (case field of
        Keep_Ssh \<Rightarrow> ((Inr existing, applied), s)
      | Disable_Ssh \<Rightarrow> ((Inr None, applied), s)
      | Set_Ssh draft \<Rightarrow>
          (case plan_ssh_auth i (te_auth draft) existing of
             Inl e \<Rightarrow> ((Inl e, applied), s)
           | Inr (auth, write') \<Rightarrow>
               (case apply_optional_write write' s of
                  (Inl e, s) \<Rightarrow> ((Inl e, applied), s)
                | (Inr extra, s) \<Rightarrow>
                    (case ssh_validate (tunnel_of draft auth) of
                       Inl why \<Rightarrow> ((Inl (Ssh_Invalid i why), applied @ extra), s)
                     | Inr _ \<Rightarrow> ((Inr (Some (tunnel_of draft auth)), applied @ extra), s)))))"

definition purge_orphaned_secrets :: "connection_entry \<Rightarrow> connection_entry \<Rightarrow> connection_admin \<Rightarrow> connection_admin" where
  "purge_orphaned_secrets old new s =
     delete_keys (filter (\<lambda>r. r \<notin> set (entry_keyring_refs new)) (entry_keyring_refs old)) s"

text \<open>What \<open>update\<close> settles before it writes: alias, colour and tag.\<close>

definition plan_update :: "connection_file \<Rightarrow> string \<Rightarrow> connection_entry \<Rightarrow> connection_edit_draft \<Rightarrow>
    config_error + string option \<times> string option \<times> string option" where
  "plan_update file i existing draft =
     (let alias = (case ed_mcp_alias draft of None \<Rightarrow> ce_mcp_alias existing | Some raw \<Rightarrow> normalize_alias (Some raw))
      in rbind (case alias of Some a \<Rightarrow> ensure_handle_is_free file a i | None \<Rightarrow> Inr ()) (\<lambda>_.
         rbind (case ed_color draft of None \<Rightarrow> Inr (ce_color existing) | Some raw \<Rightarrow> normalize_color (Some raw)) (\<lambda>color.
         rbind (case ed_tag draft of None \<Rightarrow> Inr (ce_tag existing) | Some raw \<Rightarrow> normalize_tag (Some raw)) (\<lambda>tag.
         Inr (alias, color, tag)))))"

definition admin_update :: "connection_file codec \<Rightarrow> string \<Rightarrow> connection_edit_draft \<Rightarrow> connection_entry admin_op" where
  "admin_update toml i draft =
     io_bind (admin_sync toml) (\<lambda>_ s.
       case find_index (ca_file s) i of
         None \<Rightarrow> (Inl (No_Such_Connection i), s)
       | Some idx \<Rightarrow>
           (let existing = cf_connections (ca_file s) ! idx
            in case plan_update (ca_file s) i existing draft of
                 Inl e \<Rightarrow> (Inl e, s)
               | Inr (alias, color, tag) \<Rightarrow>
                   io_bind (apply_update_kind i (ce_kind existing) (ed_kind draft)) (\<lambda>(kind, applied) s.
                     if is_Set_Ssh (ed_ssh draft) \<and> \<not> supports_ssh_tunnel kind
                     then (Inl (Ssh_Unsupported_Kind i (adapter_label kind)), restore_applied applied s)
                     else case apply_update_ssh i (ed_ssh draft) (ce_ssh existing) applied s of
                       ((Inl e, applied), s) \<Rightarrow> (Inl e, restore_applied applied s)
                     | ((Inr ssh, applied), s) \<Rightarrow>
                         (let new_entry = \<lparr>ce_id = i, ce_name = ed_name draft, ce_kind = kind,
                                ce_mcp_write = (case ed_mcp_write draft of Some w \<Rightarrow> w | None \<Rightarrow> ce_mcp_write existing),
                                ce_mcp_alias = alias, ce_color = color, ce_tag = tag, ce_ssh = ssh\<rparr>;
                              new_file = (ca_file s)\<lparr>cf_connections := (cf_connections (ca_file s))[idx := new_entry]\<rparr>
                          in case file_save toml new_file s of
                               (Inl e, s) \<Rightarrow> (Inl e, restore_applied applied s)
                             | (Inr _, s) \<Rightarrow>
                                 (Inr new_entry, purge_orphaned_secrets existing new_entry (s\<lparr>ca_file := new_file\<rparr>)))) s))"

section \<open>Deleting, moving, marking\<close>

definition remove_nth :: "nat \<Rightarrow> 'a list \<Rightarrow> 'a list" where
  "remove_nth n xs = take n xs @ drop (Suc n) xs"

definition insert_nth :: "nat \<Rightarrow> 'a \<Rightarrow> 'a list \<Rightarrow> 'a list" where
  "insert_nth n x xs = take n xs @ x # drop n xs"

definition save_file_as :: "connection_file codec \<Rightarrow> connection_file \<Rightarrow> unit admin_op" where
  "save_file_as toml new_file = io_bind (file_save toml new_file) (\<lambda>_ s. (Inr (), s\<lparr>ca_file := new_file\<rparr>))"

definition admin_delete :: "connection_file codec \<Rightarrow> string \<Rightarrow> unit admin_op" where
  "admin_delete toml i =
     io_bind (admin_sync toml) (\<lambda>_ s.
       case find_index (ca_file s) i of
         None \<Rightarrow> (Inl (No_Such_Connection i), s)
       | Some idx \<Rightarrow>
           (let removed = cf_connections (ca_file s) ! idx;
                new_file = (ca_file s)\<lparr>cf_connections := remove_nth idx (cf_connections (ca_file s))\<rparr>
            in io_bind (save_file_as toml new_file)
                 (\<lambda>_ s. (Inr (), delete_keys (entry_keyring_refs removed) s)) s))"

definition admin_move_to :: "connection_file codec \<Rightarrow> string \<Rightarrow> nat \<Rightarrow> unit admin_op" where
  "admin_move_to toml i index =
     io_bind (admin_sync toml) (\<lambda>_ s.
       case find_index (ca_file s) i of
         None \<Rightarrow> (Inl (No_Such_Connection i), s)
       | Some from_index \<Rightarrow>
           (let entries = cf_connections (ca_file s); len = length entries
            in if index \<ge> len then (Inl (Index_Out_Of_Range index len), s)
               else if from_index = index then (Inr (), s)
               else save_file_as toml ((ca_file s)\<lparr>cf_connections :=
                      insert_nth index (entries ! from_index) (remove_nth from_index entries)\<rparr>) s))"

definition admin_set_mark :: "connection_file codec \<Rightarrow> string \<Rightarrow> string option \<Rightarrow> string option \<Rightarrow> unit admin_op" where
  "admin_set_mark toml i color tag =
     io_bind (admin_sync toml) (\<lambda>_ s.
       case find_index (ca_file s) i of
         None \<Rightarrow> (Inl (No_Such_Connection i), s)
       | Some idx \<Rightarrow>
           (case rbind (normalize_color color) (\<lambda>color. rbind (normalize_tag tag) (\<lambda>tag. Inr (color, tag))) of
              Inl e \<Rightarrow> (Inl e, s)
            | Inr (color, tag) \<Rightarrow>
                (let entry = cf_connections (ca_file s) ! idx
                 in if ce_color entry = color \<and> ce_tag entry = tag then (Inr (), s)
                    else save_file_as toml ((ca_file s)\<lparr>cf_connections :=
                      (cf_connections (ca_file s))[idx := entry\<lparr>ce_color := color, ce_tag := tag\<rparr>]\<rparr>) s)))"

end
