(* ===== verification/Connection_Bundle.thy ===== *)
theory Connection_Bundle
  imports Connection_Admin Ordered_Map
begin

text \<open>
  Duplicating and repairing connections (\<open>admin/repair.rs\<close>), and exporting and importing bundles
  (\<open>admin.rs\<close>, \<open>bundle.rs\<close>). Encryption and the JSON form of a payload are parameters.
\<close>

section \<open>Slots of an entry\<close>

fun map_kind_refs :: "(string \<Rightarrow> string) \<Rightarrow> connection_kind \<Rightarrow> connection_kind" where
  "map_kind_refs f (Turso path) = Turso path"
| "map_kind_refs f (Turso_Remote url r) = Turso_Remote url (f r)"
| "map_kind_refs f (D1 account database base r) = D1 account database base (f r)"
| "map_kind_refs f (Postgres r) = Postgres (f r)"
| "map_kind_refs f (My_Sql r) = My_Sql (f r)"
| "map_kind_refs f (Neon r) = Neon (f r)"
| "map_kind_refs f (Supabase r) = Supabase (f r)"
| "map_kind_refs f (Aurora_Dsql r) = Aurora_Dsql (f r)"
| "map_kind_refs f (Aurora_Dsql_Iam endpoint region database user access r) =
     Aurora_Dsql_Iam endpoint region database user access (f r)"
| "map_kind_refs f (Firestore project database base r) = Firestore project database base (map_option f r)"
| "map_kind_refs f (Mongo_Db r database) = Mongo_Db (f r) database"
| "map_kind_refs f (Redis r cluster service) = Redis (f r) cluster service"

definition map_entry_refs :: "(string \<Rightarrow> string) \<Rightarrow> connection_entry \<Rightarrow> connection_entry" where
  "map_entry_refs f entry = entry\<lparr>ce_kind := map_kind_refs f (ce_kind entry),
     ce_ssh := map_option (\<lambda>t. t\<lparr>st_passphrase_ref := map_option f (st_passphrase_ref t),
       st_password_ref := map_option f (st_password_ref t)\<rparr>) (ce_ssh entry)\<rparr>"

section \<open>Duplicating\<close>

text \<open>The new reference of a slot the source owns.\<close>

definition remint :: "string \<Rightarrow> string \<Rightarrow> string \<Rightarrow> config_error + string" where
  "remint owner new_id key_ref =
     (case split_ref key_ref of
        Some (owner', field) \<Rightarrow>
          if owner' = owner then Inr (keyring_ref new_id field) else Inl (Unusable_Source_Ref owner key_ref)
      | None \<Rightarrow> Inl (Unusable_Source_Ref owner key_ref))"

definition reminted :: "string \<Rightarrow> string \<Rightarrow> string \<Rightarrow> string" where
  "reminted owner new_id key_ref = (case remint owner new_id key_ref of Inr r \<Rightarrow> r | Inl _ \<Rightarrow> key_ref)"

fun read_secrets :: "(string \<times> string) list \<Rightarrow> secret_write list \<Rightarrow> secret_write list admin_op" where
  "read_secrets [] found s = (Inr found, s)"
| "read_secrets ((old_ref, new_ref) # remints) found s =
     (case key_get old_ref s of
        (Inl e, s) \<Rightarrow> (Inl (Config_Secret e), s)
      | (Inr secret, s) \<Rightarrow> read_secrets remints (found @ [(new_ref, secret)]) s)"

definition admin_duplicate ::
  "connection_file codec \<Rightarrow> string \<Rightarrow> string \<Rightarrow> string \<Rightarrow> connection_entry admin_op" where
  "admin_duplicate toml i new_id new_name =
     io_bind (admin_sync toml) (\<lambda>_ s.
       case find_index (ca_file s) i of
         None \<Rightarrow> (Inl (No_Such_Connection i), s)
       | Some idx \<Rightarrow>
           if find_index (ca_file s) new_id \<noteq> None then (Inl (Duplicate_Id new_id), s)
           else case ensure_handle_is_free (ca_file s) new_id new_id of
             Inl e \<Rightarrow> (Inl e, s)
           | Inr _ \<Rightarrow>
               (let source = cf_connections (ca_file s) ! idx;
                    refs = entry_keyring_refs source
                in case rmapM (remint (ce_id source) new_id) refs of
                     Inl e \<Rightarrow> (Inl e, s)
                   | Inr new_refs \<Rightarrow>
                       io_bind (read_secrets (zip refs new_refs) [])
                         (commit_entry toml ((map_entry_refs (reminted (ce_id source) new_id) source)
                            \<lparr>ce_id := new_id, ce_name := new_name, ce_mcp_alias := None, ce_color := None,
                             ce_tag := None, ce_mcp_write := False\<rparr>)) s))"

section \<open>Repairing\<close>

definition admin_repair_foreign_ref ::
  "connection_file codec \<Rightarrow> string \<Rightarrow> string \<Rightarrow> string \<Rightarrow> unit admin_op" where
  "admin_repair_foreign_ref toml i key_ref secret =
     io_bind (admin_sync toml) (\<lambda>_ s.
       case find_index (ca_file s) i of
         None \<Rightarrow> (Inl (No_Such_Connection i), s)
       | Some idx \<Rightarrow>
           (let entry = cf_connections (ca_file s) ! idx
            in if key_ref \<notin> set (entry_keyring_refs entry) then (Inl (Ref_Not_On_Entry i key_ref), s)
               else case split_ref key_ref of
                 None \<Rightarrow> (Inl (Nothing_To_Repair i key_ref), s)
               | Some (owner, field) \<Rightarrow>
                   if owner = i then (Inl (Nothing_To_Repair i key_ref), s)
                   else
                     (let own_ref = keyring_ref i field;
                          entry = map_entry_refs (\<lambda>r. if r = key_ref then own_ref else r) entry
                      in case key_set own_ref secret s of
                           (Inl e, s) \<Rightarrow> (Inl (Config_Secret e), s)
                         | (Inr _, s) \<Rightarrow>
                             (let new_file = (ca_file s)\<lparr>cf_connections := (cf_connections (ca_file s))[idx := entry]\<rparr>
                              in case file_save toml new_file s of
                                   (Inl e, s) \<Rightarrow> (Inl e, snd (key_delete own_ref s))
                                 | (Inr _, s) \<Rightarrow> (Inr (), s\<lparr>ca_file := new_file\<rparr>)))))"

section \<open>Bundles\<close>

definition BUNDLE_VERSION :: "32 word" where "BUNDLE_VERSION = 1"

record bundle_payload =
  bp_version :: "32 word"
  bp_connections :: connection_file
  bp_secrets :: "(string \<times> string) list"

definition bundle_payload_new :: "connection_file \<Rightarrow> (string \<times> string) list \<Rightarrow> bundle_payload" where
  "bundle_payload_new file secrets =
     \<lparr>bp_version = BUNDLE_VERSION, bp_connections = file, bp_secrets = secrets\<rparr>"

text \<open>Sealing and opening with \<open>age\<close>; opening gives the payload the JSON text reads as.\<close>

record crypto =
  seal :: "bundle_payload \<Rightarrow> string \<Rightarrow> bundle_error + 8 word list"
  unseal :: "8 word list \<Rightarrow> string \<Rightarrow> bundle_error + bundle_payload"

definition byte_len :: "string \<Rightarrow> nat" where
  "byte_len s = sum_list (map (\<lambda>c. if code_point c < 128 then 1 else 2) s)"

definition validate_passphrase :: "string \<Rightarrow> bundle_error + unit" where
  "validate_passphrase passphrase =
     (if byte_len passphrase < MIN_PASSPHRASE_LEN then Inl Weak_Passphrase else Inr ())"

definition encrypt_bundle :: "crypto \<Rightarrow> bundle_payload \<Rightarrow> string \<Rightarrow> bundle_error + 8 word list" where
  "encrypt_bundle age payload passphrase =
     (if byte_len passphrase < MIN_PASSPHRASE_LEN then Inl Weak_Passphrase else seal age payload passphrase)"

definition parse_payload :: "bundle_payload \<Rightarrow> bundle_error + bundle_payload" where
  "parse_payload payload =
     (if bp_version payload \<noteq> BUNDLE_VERSION then Inl (Unsupported_Bundle_Version (bp_version payload))
      else Inr payload)"

definition decrypt_bundle :: "crypto \<Rightarrow> 8 word list \<Rightarrow> string \<Rightarrow> bundle_error + bundle_payload" where
  "decrypt_bundle age blob passphrase = rbind (unseal age blob passphrase) parse_payload"

section \<open>Exporting\<close>

record foreign_ref =
  fr_id :: string
  fr_key_ref :: string
  fr_owner :: string

definition foreign_refs_in :: "connection_entry list \<Rightarrow> foreign_ref list" where
  "foreign_refs_in entries = concat (map (\<lambda>entry. concat (map (\<lambda>key_ref.
     case ref_owner key_ref of
       None \<Rightarrow> []
     | Some owner \<Rightarrow>
         if owner \<noteq> ce_id entry
         then [\<lparr>fr_id = ce_id entry, fr_key_ref = key_ref, fr_owner = owner\<rparr>] else [])
     (entry_keyring_refs entry))) entries)"

definition admin_foreign_refs :: "connection_admin \<Rightarrow> foreign_ref list" where
  "admin_foreign_refs s = foreign_refs_in (cf_connections (ca_file s))"

fun unknown_id :: "connection_file \<Rightarrow> string list \<Rightarrow> string option" where
  "unknown_id file [] = None"
| "unknown_id file (i # ids) = (if find_index file i = None then Some i else unknown_id file ids)"

definition selection :: "connection_file \<Rightarrow> string list \<Rightarrow> config_error + connection_entry list" where
  "selection file ids =
     (case unknown_id file ids of
        Some i \<Rightarrow> Inl (No_Such_Connection i)
      | None \<Rightarrow> Inr (filter (\<lambda>e. ce_id e \<in> set ids) (cf_connections file)))"

definition admin_foreign_refs_of :: "string list \<Rightarrow> connection_admin \<Rightarrow> config_error + foreign_ref list" where
  "admin_foreign_refs_of ids s = rbind (selection (ca_file s) ids) (\<lambda>es. Inr (foreign_refs_in es))"

fun gather_secrets :: "string list \<Rightarrow> (string \<times> string) list \<Rightarrow> (string \<times> string) list admin_op" where
  "gather_secrets [] found s = (Inr found, s)"
| "gather_secrets (r # refs) found s =
     (case key_get r s of
        (Inl e, s) \<Rightarrow> (Inl (Config_Secret e), s)
      | (Inr secret, s) \<Rightarrow> gather_secrets refs (bt_insert r secret found) s)"

definition encrypt_selection ::
  "crypto \<Rightarrow> connection_entry list \<Rightarrow> string \<Rightarrow> (8 word list) admin_op" where
  "encrypt_selection age entries passphrase s =
     (case validate_passphrase passphrase of
        Inl e \<Rightarrow> (Inl (Config_Bundle e), s)
      | Inr _ \<Rightarrow>
          io_bind (gather_secrets (concat (map entry_keyring_refs entries)) [])
            (\<lambda>secrets s.
               let file = connections_empty\<lparr>cf_version := cf_version (ca_file s), cf_connections := entries\<rparr>
               in case encrypt_bundle age (bundle_payload_new file secrets) passphrase of
                    Inl e \<Rightarrow> (Inl (Config_Bundle e), s)
                  | Inr blob \<Rightarrow> (Inr blob, s)) s)"

definition admin_export_bundle :: "crypto \<Rightarrow> string \<Rightarrow> (8 word list) admin_op" where
  "admin_export_bundle age passphrase s = encrypt_selection age (cf_connections (ca_file s)) passphrase s"

definition admin_export_bundle_of :: "crypto \<Rightarrow> string list \<Rightarrow> string \<Rightarrow> (8 word list) admin_op" where
  "admin_export_bundle_of age ids passphrase s =
     (if ids = [] then (Inl Empty_Selection, s)
      else case selection (ca_file s) ids of
        Inl e \<Rightarrow> (Inl e, s)
      | Inr entries \<Rightarrow> encrypt_selection age entries passphrase s)"

section \<open>Importing\<close>

datatype import_mode = Skip | Overwrite

record refused_entry =
  re_id :: string
  re_key_ref :: string
  re_owner :: string

record import_report =
  ir_imported :: "string list"
  ir_overwritten :: "string list"
  ir_skipped_existing :: "string list"
  ir_duplicate_in_bundle :: "string list"
  ir_refused :: "refused_entry list"

definition import_report_default :: import_report where
  "import_report_default = \<lparr>ir_imported = [], ir_overwritten = [], ir_skipped_existing = [],
     ir_duplicate_in_bundle = [], ir_refused = []\<rparr>"

text \<open>The state of the loop over the incoming entries.\<close>

record import_plan =
  ip_accepted :: "string list"
  ip_owners :: "string \<rightharpoonup> string"
  ip_report :: import_report
  ip_apply :: "(nat option \<times> connection_entry) list"
  ip_writes :: "secret_write list"

definition owners_of :: "connection_entry list \<Rightarrow> string \<rightharpoonup> string" where
  "owners_of entries =
     map_of (rev (concat (map (\<lambda>e. map (\<lambda>r. (r, ce_id e)) (entry_keyring_refs e)) entries)))"

definition import_collision :: "(string \<rightharpoonup> string) \<Rightarrow> connection_entry \<Rightarrow> (string \<times> string) option" where
  "import_collision owners entry =
     find_map (\<lambda>r. case owners r of
         Some owner \<Rightarrow> if owner \<noteq> ce_id entry then Some (r, owner) else None
       | None \<Rightarrow> None) (entry_keyring_refs entry)"

definition import_entry ::
  "connection_file \<Rightarrow> import_mode \<Rightarrow> (string \<times> string) list \<Rightarrow> import_plan \<Rightarrow> connection_entry \<Rightarrow> import_plan" where
  "import_entry file mode secrets plan entry =
     (let report = ip_report plan; i = ce_id entry; slot = find_index file i
      in if i \<in> set (ip_accepted plan)
         then plan\<lparr>ip_report := report\<lparr>ir_duplicate_in_bundle := ir_duplicate_in_bundle report @ [i]\<rparr>\<rparr>
         else if slot \<noteq> None \<and> mode = Skip
         then plan\<lparr>ip_report := report\<lparr>ir_skipped_existing := ir_skipped_existing report @ [i]\<rparr>\<rparr>
         else case import_collision (ip_owners plan) entry of
           Some (key_ref, owner) \<Rightarrow>
             plan\<lparr>ip_report := report\<lparr>ir_refused := ir_refused report @
               [\<lparr>re_id = i, re_key_ref = key_ref, re_owner = owner\<rparr>]\<rparr>\<rparr>
         | None \<Rightarrow>
             plan\<lparr>ip_accepted := ip_accepted plan @ [i],
               ip_owners := (\<lambda>r. if r \<in> set (entry_keyring_refs entry) then Some i else ip_owners plan r),
               ip_report := (if slot \<noteq> None
                 then report\<lparr>ir_overwritten := ir_overwritten report @ [i]\<rparr>
                 else report\<lparr>ir_imported := ir_imported report @ [i]\<rparr>),
               ip_apply := ip_apply plan @ [(slot, entry)],
               ip_writes := ip_writes plan @
                 concat (map (\<lambda>r. opt_list (map_option (\<lambda>v. (r, v)) (map_of secrets r)))
                   (entry_keyring_refs entry))\<rparr>)"

definition plan_import ::
  "connection_file \<Rightarrow> import_mode \<Rightarrow> (string \<times> string) list \<Rightarrow> connection_entry list \<Rightarrow> import_plan" where
  "plan_import file mode secrets incoming =
     foldl (import_entry file mode secrets)
       \<lparr>ip_accepted = [], ip_owners = owners_of (cf_connections file), ip_report = import_report_default,
        ip_apply = [], ip_writes = []\<rparr> incoming"

definition rollback_secret_writes :: "applied_write list \<Rightarrow> connection_admin \<Rightarrow> connection_admin" where
  "rollback_secret_writes undo s = restore_applied undo s"

fun import_secrets :: "secret_write list \<Rightarrow> applied_write list \<Rightarrow> applied_write list admin_op" where
  "import_secrets [] undo s = (Inr undo, s)"
| "import_secrets ((key_ref, secret) # writes) undo s =
     (case key_get key_ref s of (got, s) \<Rightarrow>
       (case key_set key_ref secret s of
          (Inl e, s) \<Rightarrow> (Inl (Config_Secret e), rollback_secret_writes undo s)
        | (Inr _, s) \<Rightarrow>
            import_secrets writes
              (undo @ [(key_ref, (case got of Inr old \<Rightarrow> Some old | Inl _ \<Rightarrow> None))]) s))"

fun apply_slots :: "(nat option \<times> connection_entry) list \<Rightarrow> connection_entry list \<Rightarrow> (nat \<times> connection_entry) list \<Rightarrow>
    connection_entry list \<times> (nat \<times> connection_entry) list" where
  "apply_slots [] entries replaced = (entries, replaced)"
| "apply_slots ((Some idx, entry) # rest) entries replaced =
     apply_slots rest (entries[idx := entry]) (replaced @ [(idx, entries ! idx)])"
| "apply_slots ((None, entry) # rest) entries replaced = apply_slots rest (entries @ [entry]) replaced"

fun purge_replaced :: "connection_file \<Rightarrow> (nat \<times> connection_entry) list \<Rightarrow> connection_admin \<Rightarrow> connection_admin" where
  "purge_replaced file [] s = s"
| "purge_replaced file ((idx, old) # replaced) s =
     purge_replaced file replaced (purge_orphaned_secrets old (cf_connections file ! idx) s)"

definition admin_import_bundle ::
  "connection_file codec \<Rightarrow> crypto \<Rightarrow> 8 word list \<Rightarrow> string \<Rightarrow> import_mode \<Rightarrow> import_report admin_op" where
  "admin_import_bundle toml age blob passphrase mode =
     io_bind (admin_sync toml) (\<lambda>_ s.
       case decrypt_bundle age blob passphrase of
         Inl e \<Rightarrow> (Inl (Config_Bundle e), s)
       | Inr payload \<Rightarrow>
           (let plan = plan_import (ca_file s) mode (bp_secrets payload)
                         (cf_connections (bp_connections payload))
            in if ip_apply plan = [] then (Inr (ip_report plan), s)
               else io_bind (import_secrets (ip_writes plan) []) (\<lambda>undo s.
                 let (entries, replaced) = apply_slots (ip_apply plan) (cf_connections (ca_file s)) [];
                     new_file = (ca_file s)\<lparr>cf_connections := entries\<rparr>
                 in case file_save toml new_file s of
                      (Inl e, s) \<Rightarrow> (Inl e, rollback_secret_writes undo s)
                    | (Inr _, s) \<Rightarrow>
                        (Inr (ip_report plan), purge_replaced new_file replaced (s\<lparr>ca_file := new_file\<rparr>))) s))"

end
