(* ===== verification/Connection_Proofs.thy ===== *)
theory Connection_Proofs
  imports Connection_Bundle
begin

text \<open>
  What each operation of the connection admin may change: the slots of the keyring it writes, the
  file and the disk. The properties of the admin rest on these facts.
\<close>

section \<open>Slots belong to one connection\<close>

definition SECRET_FIELDS :: "string list" where
  "SECRET_FIELDS = [''url'', ''token'', AURORA_DSQL_IAM_SECRET_KEY_FIELD, FIRESTORE_SERVICE_ACCOUNT_FIELD,
     SSH_PASSPHRASE_FIELD, SSH_PASSWORD_FIELD]"

lemmas field_defs = SECRET_FIELDS_def AURORA_DSQL_IAM_SECRET_KEY_FIELD_def FIRESTORE_SERVICE_ACCOUNT_FIELD_def
  SSH_PASSPHRASE_FIELD_def SSH_PASSWORD_FIELD_def

definition slots :: "string \<Rightarrow> string set" where
  "slots i = keyring_ref i ` set SECRET_FIELDS"

lemma fields_without_dot: "f \<in> set SECRET_FIELDS \<Longrightarrow> CHR ''.'' \<notin> set f"
  by (auto simp: field_defs)

lemma append_sep_inj:
  "a @ d # x = b @ d # y \<Longrightarrow> d \<notin> set x \<Longrightarrow> d \<notin> set y \<Longrightarrow> a = b \<and> x = y"
proof -
  have after: "rev (takeWhile (\<lambda>c. c \<noteq> d) (rev (l @ d # r))) = r" if "d \<notin> set r" for l r
    using that by (auto simp: takeWhile_append)
  assume eq: "a @ d # x = b @ d # y" and "d \<notin> set x" "d \<notin> set y"
  then have "x = y" using after [of x a] after [of y b] by metis
  with eq show ?thesis by simp
qed

lemma keyring_ref_inj:
  "keyring_ref i f = keyring_ref j g \<Longrightarrow> CHR ''.'' \<notin> set f \<Longrightarrow> CHR ''.'' \<notin> set g \<Longrightarrow> i = j \<and> f = g"
  unfolding keyring_ref_def by (auto dest!: append_sep_inj)

lemma slots_disjoint: "k \<in> slots i \<Longrightarrow> k \<in> slots j \<Longrightarrow> i = j"
  by (auto simp: slots_def dest: keyring_ref_inj fields_without_dot)

lemma split_ref_keyring_ref:
  assumes "i \<noteq> []" "f \<noteq> []" "CHR ''.'' \<notin> set f"
  shows "split_ref (keyring_ref i f) = Some (i, f)"
proof -
  have "split_once (CHR ''.'') (rev f @ CHR ''.'' # rev i) = Some (rev f, rev i)"
    using assms(3) by (intro split_once_append) simp
  then show ?thesis using assms(1,2)
    by (simp add: split_ref_def keyring_ref_def rsplit_once_def starts_with_def)
qed

lemma split_ref_Some:
  "split_ref k = Some (owner, field) \<Longrightarrow> k = keyring_ref owner field \<and> CHR ''.'' \<notin> set field \<and> owner \<noteq> []"
  by (auto simp: split_ref_def keyring_ref_def rsplit_once_def starts_with_def prefix_def
      split: if_splits option.splits dest!: split_once_Some)
    (metis append.assoc append_Cons append_Nil rev.simps(2) rev_append rev_rev_ident)+

text \<open>A well-made entry points only at the slots \<open>add\<close> would give it.\<close>

fun kind_field :: "connection_kind \<Rightarrow> string" where
  "kind_field (Turso_Remote _ _) = ''token''"
| "kind_field (D1 _ _ _ _) = ''token''"
| "kind_field (Aurora_Dsql_Iam _ _ _ _ _ _) = AURORA_DSQL_IAM_SECRET_KEY_FIELD"
| "kind_field (Firestore _ _ _ _) = FIRESTORE_SERVICE_ACCOUNT_FIELD"
| "kind_field _ = ''url''"

definition minted_ssh :: "string \<Rightarrow> ssh_tunnel_toml \<Rightarrow> bool" where
  "minted_ssh i t \<longleftrightarrow> set_option (st_passphrase_ref t) \<subseteq> {keyring_ref i SSH_PASSPHRASE_FIELD} \<and>
     set_option (st_password_ref t) \<subseteq> {keyring_ref i SSH_PASSWORD_FIELD}"

definition minted_kind :: "string \<Rightarrow> connection_kind \<Rightarrow> bool" where
  "minted_kind i kind \<longleftrightarrow> set (keyring_refs_in kind) \<subseteq> {keyring_ref i (kind_field kind)}"

definition minted_entry :: "connection_entry \<Rightarrow> bool" where
  "minted_entry e \<longleftrightarrow> minted_kind (ce_id e) (ce_kind e) \<and> pred_option (minted_ssh (ce_id e)) (ce_ssh e)"

definition minted :: "connection_file \<Rightarrow> bool" where
  "minted file \<longleftrightarrow> list_all minted_entry (cf_connections file)"

lemma kind_field_secret: "kind_field kind \<in> set SECRET_FIELDS"
  by (cases kind) (simp_all add: field_defs)

lemma kind_field_not_ssh:
  "kind_field kind \<noteq> SSH_PASSPHRASE_FIELD" "kind_field kind \<noteq> SSH_PASSWORD_FIELD"
  by (cases kind; simp add: field_defs)+

lemma ssh_fields_secret: "SSH_PASSPHRASE_FIELD \<in> set SECRET_FIELDS" "SSH_PASSWORD_FIELD \<in> set SECRET_FIELDS"
  by (simp_all add: SECRET_FIELDS_def)

lemma entry_refs_cases:
  "k \<in> set (entry_keyring_refs e) \<longleftrightarrow> k \<in> set (keyring_refs_in (ce_kind e)) \<or>
     (\<exists>t. ce_ssh e = Some t \<and> (st_passphrase_ref t = Some k \<or> st_password_ref t = Some k))"
  by (auto simp: entry_keyring_refs_def ssh_keyring_refs_def split: option.split)

lemma minted_entry_slots:
  assumes "minted_entry e"
  shows "set (entry_keyring_refs e) \<subseteq> slots (ce_id e)"
proof
  fix k
  assume "k \<in> set (entry_keyring_refs e)"
  then consider "k \<in> set (keyring_refs_in (ce_kind e))"
    | t where "ce_ssh e = Some t" "st_passphrase_ref t = Some k \<or> st_password_ref t = Some k"
    by (auto simp: entry_refs_cases)
  then have "\<exists>f\<in>set SECRET_FIELDS. k = keyring_ref (ce_id e) f"
  proof cases
    case 1
    then have "k = keyring_ref (ce_id e) (kind_field (ce_kind e))"
      using assms by (auto simp: minted_entry_def minted_kind_def)
    then show ?thesis using kind_field_secret by blast
  next
    case 2
    then have "k = keyring_ref (ce_id e) SSH_PASSPHRASE_FIELD \<or> k = keyring_ref (ce_id e) SSH_PASSWORD_FIELD"
      using assms by (auto simp: minted_entry_def minted_ssh_def)
    then show ?thesis using ssh_fields_secret by blast
  qed
  then show "k \<in> slots (ce_id e)" by (auto simp: slots_def)
qed

section \<open>The keyring alone\<close>

text \<open>A step that touches the keyring only, and there only the slots of a set.\<close>

definition keys_step :: "string set \<Rightarrow> connection_admin \<Rightarrow> connection_admin \<Rightarrow> bool" where
  "keys_step K s s' \<longleftrightarrow> ca_path s' = ca_path s \<and> ca_file s' = ca_file s \<and>
     ca_tracks_disk s' = ca_tracks_disk s \<and> ca_disk s' = ca_disk s \<and>
     (\<forall>k. k \<notin> K \<longrightarrow> ca_keys s' k = ca_keys s k) \<and> (ca_key_faults s = [] \<longrightarrow> ca_key_faults s' = [])"

lemma keys_step_refl [simp, intro]: "keys_step K s s"
  by (simp add: keys_step_def)

lemma keys_step_trans: "keys_step K s s' \<Longrightarrow> keys_step L s' s'' \<Longrightarrow> keys_step (K \<union> L) s s''"
  by (simp add: keys_step_def)

lemma keys_step_mono: "keys_step K s s' \<Longrightarrow> K \<subseteq> L \<Longrightarrow> keys_step L s s'"
  by (auto simp: keys_step_def)

lemma key_call_cases:
  assumes "key_call r effect s = (a, s')"
  obtains (broken) source faults where "a = Inl (Secret_Backend r source)" "ca_key_faults s = Some source # faults"
      "s' = s\<lparr>ca_key_faults := faults\<rparr>"
  | (called) keys faults where "effect (ca_keys s) = (a, keys)" "faults = tl (ca_key_faults s)"
      "s' = s\<lparr>ca_keys := keys, ca_key_faults := faults\<rparr>"
proof (cases "ca_key_faults s")
  case Nil
  then show ?thesis using assms called by (auto simp: key_call_def split: prod.splits)
next
  case (Cons f fs)
  then show ?thesis using assms called broken
    by (cases f) (auto simp: key_call_def split: prod.splits)
qed

lemma key_get_step:
  assumes "key_get r s = (a, s')"
  shows "keys_step {} s s'" "ca_keys s' = ca_keys s"
    "a = Inr v \<Longrightarrow> ca_keys s r = Some v" "a = Inl (Secret_Not_Found q) \<Longrightarrow> ca_keys s r = None"
    "ca_key_faults s = [] \<Longrightarrow> a = ok_or (Secret_Not_Found r) (ca_keys s r)"
  using assms unfolding key_get_def
  by (auto elim!: key_call_cases simp: keys_step_def) (cases "ca_keys s r"; simp)+

lemma key_set_step:
  assumes "key_set r v s = (a, s')"
  shows "keys_step {r} s s'" "a = Inr u \<Longrightarrow> ca_keys s' = (ca_keys s)(r \<mapsto> v)"
    "a = Inl e \<Longrightarrow> ca_keys s' = ca_keys s" "ca_key_faults s = [] \<Longrightarrow> a = Inr ()"
  using assms unfolding key_set_def
  by (auto elim!: key_call_cases simp: keys_step_def)

lemma key_delete_step:
  assumes "key_delete r s = (a, s')"
  shows "keys_step {r} s s'" "ca_keys s' = ca_keys s \<or> ca_keys s' = (ca_keys s)(r := None)"
    "ca_key_faults s = [] \<Longrightarrow> ca_keys s' = (ca_keys s)(r := None)"
  using assms unfolding key_delete_def
  by (auto elim!: key_call_cases simp: keys_step_def fun_upd_idem split: if_splits)

lemma delete_keys_step: "keys_step (set rs) s (delete_keys rs s)"
proof (induction rs arbitrary: s)
  case (Cons r rs)
  obtain a s1 where d: "key_delete r s = (a, s1)" by (cases "key_delete r s")
  then show ?case using keys_step_trans [OF key_delete_step(1) [OF d] Cons [of s1]] by simp
qed simp

lemma delete_keys_fine:
  "ca_key_faults s = [] \<Longrightarrow> ca_keys (delete_keys rs s) = (\<lambda>k. if k \<in> set rs then None else ca_keys s k)"
proof (induction rs arbitrary: s)
  case (Cons r rs)
  obtain a s1 where d: "key_delete r s = (a, s1)" by (cases "key_delete r s")
  then have "ca_key_faults s1 = []" using key_delete_step(1) Cons.prems by (auto simp: keys_step_def)
  then show ?case using Cons.IH [of s1] key_delete_step(3) [OF d Cons.prems] d by auto
qed simp

lemma write_secrets_step:
  "write_secrets ws written s = (a, s') \<Longrightarrow> keys_step (fst ` set ws \<union> set written) s s'"
proof (induction ws arbitrary: written s)
  case (Cons w ws)
  obtain r v where w: "w = (r, v)" by (cases w)
  obtain b s1 where p: "key_set r v s = (b, s1)" by (cases "key_set r v s")
  note step = key_set_step(1) [OF p]
  show ?case
  proof (cases b)
    case (Inl e)
    then have "s' = delete_keys written s1" using Cons.prems w p by simp
    then show ?thesis
      using keys_step_trans [OF step delete_keys_step [of written s1]]
      by (auto intro: keys_step_mono simp: w)
  next
    case (Inr u)
    then have "write_secrets ws (written @ [r]) s1 = (a, s')" using Cons.prems w p by simp
    from keys_step_trans [OF step Cons.IH [OF this]] show ?thesis
      by (auto intro: keys_step_mono simp: w)
  qed
qed simp

lemma write_secrets_all:
  "write_secrets ws written s = (Inr u, s') \<Longrightarrow>
     ca_keys s' = (\<lambda>k. case map_of (rev ws) k of Some v \<Rightarrow> Some v | None \<Rightarrow> ca_keys s k)"
proof (induction ws arbitrary: written s)
  case (Cons w ws)
  obtain r v where w: "w = (r, v)" by (cases w)
  obtain b s1 where p: "key_set r v s = (b, s1)" by (cases "key_set r v s")
  obtain u' where b: "b = Inr u'" and run: "write_secrets ws (written @ [r]) s1 = (Inr u, s')"
    using Cons.prems w p by (cases b) auto
  from Cons.IH [OF run] key_set_step(2) [OF p b] show ?case
    by (auto simp: w map_of_append map_add_def split: option.split)
qed simp

lemma write_secrets_fine:
  "ca_key_faults s = [] \<Longrightarrow> fst (write_secrets ws written s) = Inr ()"
proof (induction ws arbitrary: written s)
  case (Cons w ws)
  obtain r v where w: "w = (r, v)" by (cases w)
  obtain b s1 where p: "key_set r v s = (b, s1)" by (cases "key_set r v s")
  then have "b = Inr ()" "ca_key_faults s1 = []"
    using key_set_step(1,4) [OF p] Cons.prems by (simp_all add: keys_step_def)
  then show ?case using Cons.IH [of s1] w p by simp
qed simp

end
