(* ===== verification/Connection_Steps.thy ===== *)
theory Connection_Steps
  imports Connection_Proofs
begin

text \<open>
  The steps of the connection admin: entries that fit together, writes that can be taken back, the
  file that is saved or not. The last section puts them together for every operation.
\<close>

section \<open>Entries that fit together\<close>

definition entry_valid :: "connection_entry \<Rightarrow> bool" where
  "entry_valid e \<longleftrightarrow>
     pred_option (\<lambda>t. supports_ssh_tunnel (ce_kind e) \<and> ssh_validate t = Inr ()) (ce_ssh e)"

definition connections_valid :: "connection_file \<Rightarrow> bool" where
  "connections_valid file \<longleftrightarrow> cf_version file = CONFIG_VERSION \<and>
     distinct (map ce_id (cf_connections file)) \<and> list_all entry_valid (cf_connections file)"

lemma check_entries_ok:
  "check_entries seen es = Inr () \<longleftrightarrow>
     distinct (map ce_id es) \<and> set (map ce_id es) \<inter> seen = {} \<and> list_all entry_valid es"
proof (induction es arbitrary: seen)
  case (Cons e es)
  show ?case
  proof (cases "ce_ssh e")
    case None
    then show ?thesis using Cons by (auto simp: entry_valid_def)
  next
    case (Some t)
    then show ?thesis using Cons by (cases "ssh_validate t") (auto simp: entry_valid_def)
  qed
qed simp

lemma connections_parse_ok:
  "connections_parse toml input = Inr file \<longleftrightarrow> of_text toml input = Inr file \<and> connections_valid file"
proof (cases "of_text toml input")
  case (Inr g)
  then show ?thesis
    using check_entries_ok [of "{}" "cf_connections g"]
    by (cases "check_entries {} (cf_connections g)")
      (auto simp: connections_parse_def connections_valid_def)
qed (simp add: connections_parse_def)

text \<open>No connection answers to the id or the alias of another.\<close>

definition handles_free :: "connection_entry list \<Rightarrow> bool" where
  "handles_free es \<longleftrightarrow> (\<forall>e\<in>set es. \<forall>e'\<in>set es. ce_id e \<noteq> ce_id e' \<longrightarrow>
     ce_mcp_alias e' \<noteq> Some (ce_id e) \<and> (ce_mcp_alias e \<noteq> None \<longrightarrow> ce_mcp_alias e \<noteq> ce_mcp_alias e'))"

definition entries_ok :: "connection_entry list \<Rightarrow> bool" where
  "entries_ok es \<longleftrightarrow> distinct (map ce_id es) \<and> list_all entry_valid es \<and> list_all minted_entry es \<and> handles_free es"

definition file_ok :: "connection_file \<Rightarrow> bool" where
  "file_ok file \<longleftrightarrow> cf_version file = CONFIG_VERSION \<and> entries_ok (cf_connections file)"

lemma file_ok_valid: "file_ok file \<Longrightarrow> connections_valid file"
  by (simp add: file_ok_def entries_ok_def connections_valid_def)

lemma file_ok_minted: "file_ok file \<Longrightarrow> list_all minted_entry (cf_connections file)"
  by (simp add: file_ok_def entries_ok_def)

lemma file_ok_with: "file_ok file \<Longrightarrow> entries_ok es \<Longrightarrow> file_ok (file\<lparr>cf_connections := es\<rparr>)"
  by (simp add: file_ok_def)

lemma entries_ok_sub:
  "entries_ok es \<Longrightarrow> set es' \<subseteq> set es \<Longrightarrow> distinct (map ce_id es') \<Longrightarrow> entries_ok es'"
  unfolding entries_ok_def handles_free_def list_all_iff by blast

definition alias_free :: "connection_entry \<Rightarrow> connection_entry list \<Rightarrow> bool" where
  "alias_free e es \<longleftrightarrow> (\<forall>a\<in>set_option (ce_mcp_alias e). \<forall>x\<in>set es. ce_id x \<noteq> ce_id e \<longrightarrow>
     ce_id x \<noteq> a \<and> ce_mcp_alias x \<noteq> Some a)"

definition id_free :: "string \<Rightarrow> connection_entry list \<Rightarrow> bool" where
  "id_free i es \<longleftrightarrow> (\<forall>x\<in>set es. ce_id x \<noteq> i \<longrightarrow> ce_mcp_alias x \<noteq> Some i)"

lemma handles_free_insert:
  assumes "handles_free es" "set es' \<subseteq> insert e (set es)" "alias_free e es" "id_free (ce_id e) es"
  shows "handles_free es'"
  unfolding handles_free_def
proof (intro ballI impI)
  fix x y
  assume xy: "x \<in> set es'" "y \<in> set es'" "ce_id x \<noteq> ce_id y"
  have es: "x = e \<or> x \<in> set es" "y = e \<or> y \<in> set es" using xy assms(2) by auto
  show "ce_mcp_alias y \<noteq> Some (ce_id x) \<and> (ce_mcp_alias x \<noteq> None \<longrightarrow> ce_mcp_alias x \<noteq> ce_mcp_alias y)"
  proof (cases "x = e")
    case True
    then have "y \<in> set es" using es xy by auto
    with True xy show ?thesis using assms(3,4) by (auto simp: alias_free_def id_free_def)
  next
    case False
    then have x: "x \<in> set es" using es by simp
    show ?thesis
    proof (cases "y = e")
      case True
      with x xy show ?thesis using assms(3) by (cases "ce_mcp_alias e") (auto simp: alias_free_def)
    next
      case False
      then have "y \<in> set es" using es by simp
      with x xy show ?thesis using assms(1) by (simp add: handles_free_def)
    qed
  qed
qed

lemma entries_ok_append:
  assumes "entries_ok es" "ce_id e \<notin> ce_id ` set es" "entry_valid e" "minted_entry e"
    "alias_free e es" "id_free (ce_id e) es"
  shows "entries_ok (es @ [e])"
  using assms handles_free_insert [of es "es @ [e]" e]
  by (auto simp: entries_ok_def)

lemma entries_ok_update:
  assumes "entries_ok es" "idx < length es" "ce_id e = ce_id (es ! idx)" "entry_valid e" "minted_entry e"
    "alias_free e es"
  shows "entries_ok (es[idx := e])"
proof -
  have sub: "set (es[idx := e]) \<subseteq> insert e (set es)" by (rule set_update_subset_insert)
  have ids: "map ce_id (es[idx := e]) = map ce_id es"
    using assms(2,3) by (simp add: map_update list_update_same_conv)
  have "id_free (ce_id e) es"
    unfolding id_free_def
  proof (intro ballI impI)
    fix x
    assume "x \<in> set es" "ce_id x \<noteq> ce_id e"
    moreover have "es ! idx \<in> set es" using assms(2) by simp
    ultimately show "ce_mcp_alias x \<noteq> Some (ce_id e)"
      using assms(1,3) by (auto simp: entries_ok_def handles_free_def)
  qed
  then have "handles_free (es[idx := e])"
    using handles_free_insert [OF _ sub assms(6)] assms(1) by (simp add: entries_ok_def)
  moreover have "list_all entry_valid (es[idx := e])" "list_all minted_entry (es[idx := e])"
    using sub assms(1,4,5) by (auto simp: entries_ok_def list_all_iff)
  ultimately show ?thesis using assms(1) ids by (simp add: entries_ok_def)
qed

lemma ensure_handle_free:
  "ensure_handle_is_free file a owner = Inr u \<longleftrightarrow>
     (\<forall>x\<in>set (cf_connections file). ce_id x \<noteq> owner \<longrightarrow> ce_id x \<noteq> a \<and> ce_mcp_alias x \<noteq> Some a)"
  by (auto simp: ensure_handle_is_free_def list_ex_iff)

lemma find_index_Some:
  "find_index file i = Some idx \<Longrightarrow> idx < length (cf_connections file) \<and> ce_id (cf_connections file ! idx) = i"
  by (auto simp: find_index_def dest: position_Some)

lemma find_index_None: "find_index file i = None \<longleftrightarrow> i \<notin> ce_id ` set (cf_connections file)"
  by (auto simp: find_index_def position_None)

section \<open>Saving\<close>

interpretation connections_writer: new_file_writer cs_write_new_file
proof
  show "keeps_to tmp (cs_write_new_file tmp contents)" for tmp contents
    unfolding cs_write_new_file_def by (intro keeps_to_bind) auto
  show "dk_files d' tmp = Some contents" if "cs_write_new_file tmp contents d = (Inr u, d')" for tmp contents d u d'
    using that by (auto simp: cs_write_new_file_def io_bind_pair dest!: sync_all_files write_all_written)
qed

definition stored :: "connection_file codec \<Rightarrow> connection_admin \<Rightarrow> config_error + connection_file" where
  "stored toml s = fst (connections_load toml (ca_path s) (restart (dk_files (ca_disk s))))"

lemma stored_cases:
  "stored toml s =
     (case dk_files (ca_disk s) (ca_path s) of
        None \<Rightarrow> Inr connections_empty | Some contents \<Rightarrow> connections_parse toml contents)"
  by (simp add: stored_def connections_load_def restart_def read_to_string_def next_fault_def split: option.split)

definition disk_step :: "connection_admin \<Rightarrow> connection_admin \<Rightarrow> bool" where
  "disk_step s s' \<longleftrightarrow> ca_path s' = ca_path s \<and> ca_file s' = ca_file s \<and> ca_tracks_disk s' = ca_tracks_disk s \<and>
     ca_keys s' = ca_keys s \<and> ca_key_faults s' = ca_key_faults s"

lemma file_save_step:
  assumes "file_save toml file s = (r, s')"
  shows "disk_step s s'" "r = Inl e \<Longrightarrow> stored toml s' = stored toml s"
    "r = Inr u \<Longrightarrow> faithful_codec toml \<Longrightarrow> connections_valid file \<Longrightarrow> stored toml s' = Inr file"
proof -
  obtain d where d: "connections_save toml (ca_path s) file (ca_disk s) = (r, d)" "s' = s\<lparr>ca_disk := d\<rparr>"
    using assms by (auto simp: file_save_def split: prod.splits)
  show "disk_step s s'" using d(2) by (simp add: disk_step_def)
  show "stored toml s' = stored toml s" if err: "r = Inl e"
  proof (cases "to_text toml file")
    case (Inl m)
    then show ?thesis using d by (auto simp: connections_save_def io_of_def)
  next
    case (Inr contents)
    then obtain e' where
        "replace_file cs_write_new_file ''.connections.toml'' (ca_path s) contents (ca_disk s) = (Inl e', d)"
      using d(1) err by (auto simp: connections_save_def io_map_err_def split: prod.splits sum.splits)
    then have "dk_files d (ca_path s) = dk_files (ca_disk s) (ca_path s)"
      by (rule connections_writer.replace_file_failed)
    then show ?thesis using d(2) by (simp add: stored_cases)
  qed
  show "stored toml s' = Inr file" if "r = Inr u" "faithful_codec toml" "connections_valid file"
  proof (cases "to_text toml file")
    case (Inl m)
    then show ?thesis using d that by (simp add: connections_save_def io_of_def)
  next
    case (Inr contents)
    then have
        "replace_file cs_write_new_file ''.connections.toml'' (ca_path s) contents (ca_disk s) = (Inr (), d)"
      using d(1) that(1) by (auto simp: connections_save_def io_map_err_def split: prod.splits sum.splits)
    then have "dk_files d (ca_path s) = Some contents"
      by (rule connections_writer.replace_file_written)
    then show ?thesis using d(2) Inr that(2,3)
      by (simp add: stored_cases connections_parse_ok faithful_codec_def)
  qed
qed

section \<open>Writes that can be taken back\<close>

definition recorded :: "connection_admin \<Rightarrow> applied_write list \<Rightarrow> connection_admin \<Rightarrow> bool" where
  "recorded s0 applied s \<longleftrightarrow> keys_step (fst ` set applied) s0 s \<and> distinct (map fst applied) \<and>
     list_all (\<lambda>(k, old). old = ca_keys s0 k \<and> ca_keys s k \<noteq> None) applied"

lemma recorded_Nil [simp]: "recorded s [] s"
  by (simp add: recorded_def)

lemma apply_secret_write_Inr:
  assumes "apply_secret_write r v s = (Inr a, s')"
  shows "keys_step {r} s s'" "a = (r, ca_keys s r)" "ca_keys s' = (ca_keys s)(r \<mapsto> v)"
proof -
  obtain g s1 where g: "key_get r s = (g, s1)" by (cases "key_get r s")
  obtain b s2 where p: "key_set r v s1 = (b, s2)" by (cases "key_set r v s1")
  note get = key_get_step [OF g] and set = key_set_step [OF p]
  have b: "b = Inr ()" "s' = s2" "a = (r, (case g of Inr old \<Rightarrow> Some old | Inl _ \<Rightarrow> None))"
    and ng: "\<nexists>q m. g = Inl (Secret_Backend q m)"
    using assms g p by (auto simp: apply_secret_write_def split: sum.splits secret_error.splits prod.splits)
  show "keys_step {r} s s'" using keys_step_trans [OF get(1) set(1)] b by simp
  show "ca_keys s' = (ca_keys s)(r \<mapsto> v)" using set(2) b get(2) by simp
  show "a = (r, ca_keys s r)"
  proof (cases g)
    case (Inl e)
    then show ?thesis using b ng get(4) by (cases e) auto
  next
    case (Inr old)
    then show ?thesis using b get(3) by simp
  qed
qed

lemma apply_secret_write_Inl:
  assumes "apply_secret_write r v s = (Inl e, s')"
  shows "keys_step {} s s'" "ca_key_faults s \<noteq> []"
proof -
  obtain g s1 where g: "key_get r s = (g, s1)" by (cases "key_get r s")
  obtain b s2 where p: "key_set r v s1 = (b, s2)" by (cases "key_set r v s1")
  note get = key_get_step [OF g] and set = key_set_step [OF p]
  show "keys_step {} s s'"
  proof (cases "\<exists>q m. g = Inl (Secret_Backend q m)")
    case True
    then show ?thesis using assms g get(1) by (auto simp: apply_secret_write_def)
  next
    case False
    then have "b \<noteq> Inr ()" "s' = s2"
      using assms g p by (auto simp: apply_secret_write_def split: sum.splits secret_error.splits prod.splits)
    then obtain e' where "b = Inl e'" by (cases b) auto
    then show ?thesis using set(1,3) get \<open>s' = s2\<close> by (auto simp: keys_step_def)
  qed
  show "ca_key_faults s \<noteq> []"
  proof
    assume fine: "ca_key_faults s = []"
    then have "b = Inr ()" "\<nexists>q m. g = Inl (Secret_Backend q m)"
      using get(1,5) set(4) by (cases "ca_keys s r"; simp add: keys_step_def)+
    then show False using assms g p by (auto simp: apply_secret_write_def split: sum.splits secret_error.splits)
  qed
qed

lemma recorded_write:
  assumes "recorded s0 applied s" "apply_secret_write r v s = (Inr a, s')" "r \<notin> fst ` set applied"
  shows "recorded s0 (applied @ [a]) s'"
proof -
  note w = apply_secret_write_Inr [OF assms(2)]
  have "ca_keys s r = ca_keys s0 r" using assms(1,3) by (simp add: recorded_def keys_step_def)
  then show ?thesis
    using assms w keys_step_trans [of "fst ` set applied" s0 s "{r}" s']
    by (auto simp: recorded_def list_all_iff)
qed

lemma restore_applied_step: "keys_step (fst ` set applied) s (restore_applied applied s)"
proof (induction applied arbitrary: s)
  case (Cons a applied)
  obtain k old where a: "a = (k, old)" by (cases a)
  define s1 where "s1 = (case old of Some secret \<Rightarrow> snd (key_set k secret s) | None \<Rightarrow> snd (key_delete k s))"
  have "keys_step {k} s s1"
    unfolding s1_def by (cases old) (simp_all add: key_set_step(1) key_delete_step(1) prod_eq_iff
      flip: surjective_pairing)
  from keys_step_trans [OF this Cons [of s1]] show ?case by (simp add: a s1_def)
qed simp

lemma restore_applied_held:
  "ca_keys s k \<noteq> None \<Longrightarrow> (k, None) \<notin> set applied \<Longrightarrow> ca_keys (restore_applied applied s) k \<noteq> None"
proof (induction applied arbitrary: s)
  case (Cons a applied)
  obtain r old where a: "a = (r, old)" by (cases a)
  define s1 where "s1 = (case old of Some secret \<Rightarrow> snd (key_set r secret s) | None \<Rightarrow> snd (key_delete r s))"
  have "ca_keys s1 k \<noteq> None"
  proof (cases old)
    case None
    then have "r \<noteq> k" using Cons.prems(2) a by auto
    then show ?thesis
      using None Cons.prems(1) key_delete_step(1) [of r s "fst (key_delete r s)" s1]
      by (simp add: s1_def keys_step_def)
  next
    case (Some secret)
    then have s1: "s1 = snd (key_set r secret s)" by (simp add: s1_def)
    obtain b where "key_set r secret s = (b, s1)" by (metis s1 prod.collapse)
    then show ?thesis
      using key_set_step(2,3) [of r secret s b s1] Cons.prems(1) by (cases b) auto
  qed
  then show ?case using Cons.IH [of s1] Cons.prems(2) by (simp add: a s1_def)
qed simp

lemma restore_applied_fine:
  "ca_key_faults s = [] \<Longrightarrow> distinct (map fst applied) \<Longrightarrow>
     ca_keys (restore_applied applied s) k = (case map_of applied k of Some old \<Rightarrow> old | None \<Rightarrow> ca_keys s k)"
proof (induction applied arbitrary: s)
  case (Cons a applied)
  obtain r old where a: "a = (r, old)" by (cases a)
  define s1 where "s1 = (case old of Some secret \<Rightarrow> snd (key_set r secret s) | None \<Rightarrow> snd (key_delete r s))"
  have s1: "ca_keys s1 = (ca_keys s)(r := old)" "ca_key_faults s1 = []"
  proof -
    have "ca_keys s1 = (ca_keys s)(r := old) \<and> ca_key_faults s1 = []"
    proof (cases old)
      case None
      then show ?thesis
        using key_delete_step [of r s "fst (key_delete r s)" s1] Cons.prems(1) by (simp add: s1_def keys_step_def)
    next
      case (Some secret)
      then show ?thesis
        using key_set_step [of r secret s "fst (key_set r secret s)" s1] Cons.prems(1)
        by (simp add: s1_def keys_step_def)
    qed
    then show "ca_keys s1 = (ca_keys s)(r := old)" "ca_key_faults s1 = []" by simp_all
  qed
  have "r \<notin> fst ` set applied" using Cons.prems(2) a by simp
  then have "map_of applied r = None" by (simp add: map_of_eq_None_iff)
  then show ?case using Cons.IH [OF s1(2)] Cons.prems(2) s1(1)
    by (auto simp: a s1_def [symmetric] split: option.split)
qed simp

lemma restored:
  assumes "recorded s0 applied s"
  shows "keys_step (fst ` set applied) s0 (restore_applied applied s)"
    "ca_keys s0 k \<noteq> None \<Longrightarrow> ca_keys (restore_applied applied s) k \<noteq> None"
    "ca_key_faults s0 = [] \<Longrightarrow> ca_keys (restore_applied applied s) = ca_keys s0"
proof -
  show "keys_step (fst ` set applied) s0 (restore_applied applied s)"
    using keys_step_trans [of "fst ` set applied" s0 s, OF _ restore_applied_step [of applied s]] assms
    by (simp add: recorded_def)
  show "ca_keys (restore_applied applied s) k \<noteq> None" if "ca_keys s0 k \<noteq> None"
  proof (rule restore_applied_held)
    show "ca_keys s k \<noteq> None"
      using assms that by (cases "k \<in> fst ` set applied") (auto simp: recorded_def keys_step_def list_all_iff)
    show "(k, None) \<notin> set applied" using assms that by (auto simp: recorded_def list_all_iff)
  qed
  show "ca_keys (restore_applied applied s) = ca_keys s0" if "ca_key_faults s0 = []"
  proof
    fix k
    have "ca_key_faults s = []" using assms that by (simp add: recorded_def keys_step_def)
    from restore_applied_fine [OF this] show "ca_keys (restore_applied applied s) k = ca_keys s0 k"
      using assms by (auto simp: recorded_def keys_step_def list_all_iff map_of_eq_None_iff
          split: option.split dest: map_of_SomeD)
  qed
qed

end
