(* ===== verification/Connection_Sound.thy ===== *)
theory Connection_Sound
  imports Connection_Steps
begin

text \<open>
  Every operation of the connection admin is sound: it keeps the invariant, touches the keyring only
  in the slots of one connection, and takes back what it did when it fails.
\<close>

section \<open>The invariant\<close>

definition backed :: "connection_admin \<Rightarrow> bool" where
  "backed s \<longleftrightarrow> list_all (\<lambda>e. list_all (\<lambda>k. ca_keys s k \<noteq> None) (entry_keyring_refs e)) (cf_connections (ca_file s))"

definition in_step :: "connection_file codec \<Rightarrow> connection_admin \<Rightarrow> bool" where
  "in_step toml s \<longleftrightarrow> (ca_tracks_disk s \<longrightarrow> stored toml s = Inr (ca_file s))"

definition admin_ok :: "connection_file codec \<Rightarrow> connection_admin \<Rightarrow> bool" where
  "admin_ok toml s \<longleftrightarrow> file_ok (ca_file s) \<and> in_step toml s \<and> backed s"

definition fresh_slots :: "string \<Rightarrow> connection_admin \<Rightarrow> bool" where
  "fresh_slots i s \<longleftrightarrow> (\<forall>k\<in>slots i. ca_keys s k = None)"

definition sound :: "connection_file codec \<Rightarrow> string \<Rightarrow> bool \<Rightarrow> connection_admin \<Rightarrow>
    config_error + 'a \<Rightarrow> connection_admin \<Rightarrow> bool" where
  "sound toml i clean s r s' \<longleftrightarrow>
     ca_path s' = ca_path s \<and> ca_tracks_disk s' = ca_tracks_disk s \<and>
     (\<forall>k. k \<notin> slots i \<longrightarrow> ca_keys s' k = ca_keys s k) \<and> admin_ok toml s' \<and>
     (\<forall>e. r = Inl e \<longrightarrow> ca_file s' = ca_file s \<and>
        (clean \<longrightarrow> ca_key_faults s = [] \<longrightarrow> ca_keys s' = ca_keys s))"

lemma sound_same: "admin_ok toml s \<Longrightarrow> sound toml i c s r s"
  by (simp add: sound_def)

lemma stored_cong: "ca_path s' = ca_path s \<Longrightarrow> ca_disk s' = ca_disk s \<Longrightarrow> stored toml s' = stored toml s"
  by (simp add: stored_def)

lemma keys_step_stored: "keys_step K s s' \<Longrightarrow> stored toml s' = stored toml s"
  by (rule stored_cong) (simp_all add: keys_step_def)

lemma keys_step_in_step: "keys_step K s s' \<Longrightarrow> in_step toml s' = in_step toml s"
  using keys_step_stored [of K s s' toml] by (simp add: in_step_def keys_step_def)

lemma backed_keep:
  "backed s \<Longrightarrow> cf_connections (ca_file s') = cf_connections (ca_file s) \<Longrightarrow>
     (\<And>k. ca_keys s k \<noteq> None \<Longrightarrow> ca_keys s' k \<noteq> None) \<Longrightarrow> backed s'"
  by (simp add: backed_def list_all_iff)

lemma entry_slots: "file_ok file \<Longrightarrow> e \<in> set (cf_connections file) \<Longrightarrow> k \<in> set (entry_keyring_refs e) \<Longrightarrow> k \<in> slots (ce_id e)"
  using minted_entry_slots file_ok_minted by (fastforce simp: list_all_iff)

lemma same_id_same_entry:
  "distinct (map ce_id es) \<Longrightarrow> idx < length es \<Longrightarrow> e \<in> set es \<Longrightarrow> ce_id e = ce_id (es ! idx) \<Longrightarrow> e = es ! idx"
  by (metis distinct_map inj_on_def nth_mem)

section \<open>Reading again\<close>

lemma connections_load_step:
  assumes "connections_load toml path d = (r, d')"
  shows "dk_files d' = dk_files d"
    "r = Inr new \<Longrightarrow> fst (connections_load toml path (restart (dk_files d))) = Inr new"
  using assms
  by (auto simp: connections_load_def read_to_string_def restart_def next_fault_def
      split: fault.splits sum.splits io_error.splits list.splits)

lemma admin_sync_step:
  assumes "admin_sync toml s = (r, s')" "in_step toml s"
  shows "disk_step s s'" "stored toml s' = stored toml s"
proof -
  have "disk_step s s' \<and> dk_files (ca_disk s') = dk_files (ca_disk s)"
  proof (cases "ca_tracks_disk s")
    case True
    obtain q d where q: "connections_load toml (ca_path s) (ca_disk s) = (q, d)"
      by (cases "connections_load toml (ca_path s) (ca_disk s)")
    have "q = Inr read_back \<Longrightarrow> read_back = ca_file s" for read_back
      using connections_load_step(2) [OF q] assms(2) True by (simp add: in_step_def stored_def)
    then show ?thesis
      using assms(1) True q connections_load_step(1) [OF q]
      by (cases q) (auto simp: admin_sync_def disk_step_def)
  next
    case False
    then show ?thesis using assms(1) by (simp add: admin_sync_def disk_step_def)
  qed
  then show "disk_step s s'" "stored toml s' = stored toml s"
    by (simp_all add: stored_cases disk_step_def)
qed

lemma sync_sound:
  assumes "admin_ok toml s"
    and "\<And>s1 r s'. admin_ok toml s1 \<Longrightarrow> ca_file s1 = ca_file s \<Longrightarrow> ca_keys s1 = ca_keys s \<Longrightarrow>
      f () s1 = (r, s') \<Longrightarrow> sound toml i c s1 r s'"
    and "io_bind (admin_sync toml) f s = (r, s')"
  shows "sound toml i c s r s'"
proof -
  obtain q s1 where q: "admin_sync toml s = (q, s1)" by (cases "admin_sync toml s")
  have step: "disk_step s s1" "stored toml s1 = stored toml s"
    using admin_sync_step [OF q] assms(1) by (simp_all add: admin_ok_def)
  have ok: "admin_ok toml s1"
    using assms(1) step by (simp add: admin_ok_def in_step_def backed_def disk_step_def)
  show ?thesis
  proof (cases q)
    case (Inl e)
    then have "s' = s1" "r = Inl e" using assms(3) q by (simp_all add: io_bind_def)
    then show ?thesis using ok step(1) by (simp add: sound_def disk_step_def)
  next
    case (Inr u)
    then have "f () s1 = (r, s')" using assms(3) q by (simp add: io_bind_def)
    then have "sound toml i c s1 r s'" using assms(2) ok step(1) by (simp add: disk_step_def)
    then show ?thesis using step(1) by (simp add: sound_def disk_step_def)
  qed
qed

section \<open>Saving a changed file\<close>

lemma save_failed:
  assumes "file_save toml new s = (Inl e, s')" "in_step toml s"
  shows "disk_step s s'" "in_step toml s'"
  using file_save_step(1,2) [OF assms(1)] assms(2) by (simp_all add: in_step_def disk_step_def)

lemma save_done:
  assumes "file_save toml new s = (Inr u, s')" "faithful_codec toml" "file_ok new"
  shows "disk_step s s'" "in_step toml (s'\<lparr>ca_file := new\<rparr>)"
proof -
  show "disk_step s s'" by (rule file_save_step(1) [OF assms(1)])
  have "stored toml s' = Inr new"
    using file_save_step(3) [OF assms(1) refl assms(2)] file_ok_valid [OF assms(3)] by simp
  then show "in_step toml (s'\<lparr>ca_file := new\<rparr>)" by (simp add: in_step_def stored_def)
qed

lemma save_file_as_sound:
  assumes "save_file_as toml new s = (r, s')" "admin_ok toml s" "faithful_codec toml" "file_ok new"
    and "\<And>e k. e \<in> set (cf_connections new) \<Longrightarrow> k \<in> set (entry_keyring_refs e) \<Longrightarrow> ca_keys s k \<noteq> None"
  shows "sound toml i c s r s'" "ca_keys s' = ca_keys s" "r = Inr u \<Longrightarrow> ca_file s' = new"
    "ca_key_faults s' = ca_key_faults s"
proof -
  obtain q s1 where q: "file_save toml new s = (q, s1)" by (cases "file_save toml new s")
  have "sound toml i c s r s' \<and> ca_keys s' = ca_keys s \<and> (\<forall>u. r = Inr u \<longrightarrow> ca_file s' = new) \<and>
      ca_key_faults s' = ca_key_faults s"
  proof (cases q)
    case (Inl e)
    then have "r = Inl e" "s' = s1" using assms(1) q by (simp_all add: save_file_as_def io_bind_def)
    then show ?thesis
      using save_failed [OF q [unfolded Inl]] assms(2)
      by (simp add: sound_def admin_ok_def disk_step_def backed_def)
  next
    case (Inr u)
    then have "r = Inr ()" "s' = s1\<lparr>ca_file := new\<rparr>"
      using assms(1) q by (simp_all add: save_file_as_def io_bind_def)
    then show ?thesis
      using save_done [OF q [unfolded Inr] assms(3,4)] assms(4,5)
      by (simp add: sound_def admin_ok_def disk_step_def backed_def list_all_iff)
  qed
  then show "sound toml i c s r s'" "ca_keys s' = ca_keys s" "r = Inr u \<Longrightarrow> ca_file s' = new"
    "ca_key_faults s' = ca_key_faults s" by simp_all
qed

section \<open>A new entry\<close>

lemma backed_others:
  assumes "file_ok (ca_file s)" "backed s" "i \<notin> ce_id ` set (cf_connections (ca_file s))"
    "ca_file s' = ca_file s" "\<forall>k. k \<notin> slots i \<longrightarrow> ca_keys s' k = ca_keys s k"
  shows "backed s'"
  unfolding backed_def list_all_iff
proof (intro ballI)
  fix e k
  assume e: "e \<in> set (cf_connections (ca_file s'))" and k: "k \<in> set (entry_keyring_refs e)"
  then have "k \<in> slots (ce_id e)" "ce_id e \<noteq> i"
    using entry_slots [OF assms(1)] assms(3,4) by auto
  then have "k \<notin> slots i" using slots_disjoint by blast
  then show "ca_keys s' k \<noteq> None" using assms(2,4,5) e k by (simp add: backed_def list_all_iff)
qed

definition fits :: "connection_file \<Rightarrow> connection_entry \<Rightarrow> secret_write list \<Rightarrow> bool" where
  "fits file e ws \<longleftrightarrow> ce_id e \<notin> ce_id ` set (cf_connections file) \<and> entry_valid e \<and> minted_entry e \<and>
     alias_free e (cf_connections file) \<and> id_free (ce_id e) (cf_connections file) \<and>
     set (entry_keyring_refs e) \<subseteq> fst ` set ws \<and> fst ` set ws \<subseteq> slots (ce_id e)"

lemma commit_entry_sound:
  assumes "admin_ok toml s" "faithful_codec toml" "fits (ca_file s) e ws"
    and "commit_entry toml e ws s = (r, s')" and "c \<longrightarrow> fresh_slots (ce_id e) s"
  shows "sound toml (ce_id e) c s r s'"
proof -
  let ?K = "slots (ce_id e)"
  define new where "new = (ca_file s)\<lparr>cf_connections := cf_connections (ca_file s) @ [e]\<rparr>"
  have ws: "fst ` set ws \<subseteq> ?K" and id': "ce_id e \<notin> ce_id ` set (cf_connections (ca_file s))"
    using assms(3) by (simp_all add: fits_def)
  have new: "file_ok new"
    using assms(1,3) entries_ok_append [of "cf_connections (ca_file s)" e]
    by (simp add: new_def admin_ok_def file_ok_def fits_def)
  obtain a s1 where w: "write_secrets ws [] s = (a, s1)" by (cases "write_secrets ws [] s")
  have step: "keys_step ?K s s1"
    using write_secrets_step [OF w] ws by (auto intro: keys_step_mono)
  have same: "ca_file s1 = ca_file s" "in_step toml s1"
    using step assms(1) keys_step_in_step [OF step] by (simp_all add: keys_step_def admin_ok_def)
  show ?thesis
  proof (cases a)
    case (Inl x)
    then have r: "s' = s1" "r = Inl x" using assms(4) w by (simp_all add: commit_entry_def io_bind_def)
    have "backed s1"
      using backed_others [of s "ce_id e" s1] assms(1) id' same step by (simp add: admin_ok_def keys_step_def)
    moreover have "ca_key_faults s \<noteq> []" using write_secrets_fine [of s ws "[]"] w Inl by auto
    ultimately show ?thesis using r step same assms(1) by (auto simp: sound_def admin_ok_def keys_step_def)
  next
    case (Inr u)
    obtain b s2 where q: "file_save toml new s1 = (b, s2)" by (cases "file_save toml new s1")
    have run: "(r, s') = (case b of Inl x \<Rightarrow> (Inl x, delete_keys (map fst ws) s2) | Inr _ \<Rightarrow> (Inr e, s2\<lparr>ca_file := new\<rparr>))"
      using assms(4) w Inr q same(1)
      by (auto simp: commit_entry_def io_bind_def new_def split: sum.splits)
    show ?thesis
    proof (cases b)
      case (Inl x)
      then have r: "r = Inl x" "s' = delete_keys (map fst ws) s2" using run by simp_all
      note failed = save_failed [OF q [unfolded Inl] same(2)]
      have del: "keys_step ?K s2 s'"
        using delete_keys_step [of "map fst ws" s2] r ws by (auto intro: keys_step_mono)
      have keys: "\<forall>k. k \<notin> ?K \<longrightarrow> ca_keys s' k = ca_keys s k"
        using step del failed(1) by (simp add: keys_step_def disk_step_def)
      have held: "ca_file s' = ca_file s" "in_step toml s'"
        using del failed same keys_step_in_step [OF del] by (simp_all add: keys_step_def disk_step_def)
      have "ca_keys s' = ca_keys s" if "c" "ca_key_faults s = []"
      proof
        fix k
        have "ca_key_faults s2 = []" using that(2) step failed(1) by (simp add: keys_step_def disk_step_def)
        then have "ca_keys s' k = (if k \<in> fst ` set ws then None else ca_keys s2 k)"
          using delete_keys_fine [of s2 "map fst ws"] r by simp
        moreover have "k \<notin> fst ` set ws \<Longrightarrow> ca_keys s2 k = ca_keys s k"
          using write_secrets_step [OF w] failed(1) by (simp add: keys_step_def disk_step_def)
        moreover have "k \<in> fst ` set ws \<Longrightarrow> ca_keys s k = None"
          using assms(5) that(1) ws by (auto simp: fresh_slots_def)
        ultimately show "ca_keys s' k = ca_keys s k" by simp
      qed
      moreover have "backed s'"
        using backed_others [of s "ce_id e" s'] assms(1) id' held(1) keys by (simp add: admin_ok_def)
      moreover have "ca_path s' = ca_path s" "ca_tracks_disk s' = ca_tracks_disk s"
        using step del failed(1) by (simp_all add: keys_step_def disk_step_def)
      ultimately show ?thesis using r held keys assms(1) by (simp add: sound_def admin_ok_def)
    next
      case (Inr u')
      then have r: "r = Inr e" "s' = s2\<lparr>ca_file := new\<rparr>" using run by simp_all
      note saved = save_done [OF q [unfolded Inr] assms(2) new]
      have keys2: "ca_keys s2 = (\<lambda>k. case map_of (rev ws) k of Some v \<Rightarrow> Some v | None \<Rightarrow> ca_keys s k)"
        using write_secrets_all [OF w [unfolded \<open>a = Inr u\<close>]] saved(1) by (simp add: disk_step_def)
      have "backed s'"
        unfolding backed_def list_all_iff
      proof (intro ballI)
        fix x k
        assume x: "x \<in> set (cf_connections (ca_file s'))" and k: "k \<in> set (entry_keyring_refs x)"
        show "ca_keys s' k \<noteq> None"
        proof (cases "k \<in> fst ` set ws")
          case True
          then have "map_of (rev ws) k \<noteq> None" by (simp add: map_of_eq_None_iff)
          then show ?thesis using r keys2 by auto
        next
          case False
          then have "x \<in> set (cf_connections (ca_file s))" using x k r assms(3) by (auto simp: new_def fits_def)
          then show ?thesis
            using k r keys2 assms(1) by (auto simp: admin_ok_def backed_def list_all_iff split: option.split)
        qed
      qed
      then show ?thesis
        using r step saved new by (simp add: sound_def admin_ok_def keys_step_def disk_step_def)
    qed
  qed
qed

end
