(* ===== verification/Connection_Ops.thy ===== *)
theory Connection_Ops
  imports Connection_Sound
begin

text \<open>
  The operations of the connection admin one by one: what a draft becomes, and that each of them is
  sound.
\<close>

section \<open>Drafts become well-made entries\<close>

lemma slots_field: "f \<in> set SECRET_FIELDS \<Longrightarrow> keyring_ref i f \<in> slots i"
  by (simp add: slots_def)

lemma url_token_fields: "''url'' \<in> set SECRET_FIELDS" "''token'' \<in> set SECRET_FIELDS"
  "AURORA_DSQL_IAM_SECRET_KEY_FIELD \<in> set SECRET_FIELDS" "FIRESTORE_SERVICE_ACCOUNT_FIELD \<in> set SECRET_FIELDS"
  by (simp_all add: SECRET_FIELDS_def)

lemma build_kind_for_add_ok:
  "build_kind_for_add i draft = (kind, ws) \<Longrightarrow> minted_kind i kind \<and> fst ` set ws \<subseteq> slots i \<and>
     set (keyring_refs_in kind) \<subseteq> fst ` set ws"
  using url_token_fields [THEN slots_field, of i]
  by (cases draft)
    (auto simp: minted_kind_def secret_backed_add_def url_backed_add_def Let_def split: option.splits)

lemma ssh_validate_iff:
  "ssh_validate t = Inr () \<longleftrightarrow>
     (st_key_path t = None \<longleftrightarrow> st_password_ref t \<noteq> None) \<and>
     (st_key_path t = None \<longrightarrow> st_passphrase_ref t = None) \<and>
     (st_fingerprint t = None \<longleftrightarrow> st_known_hosts t \<noteq> None)"
  by (cases "st_key_path t"; cases "st_password_ref t"; cases "st_passphrase_ref t"; cases "st_fingerprint t";
      cases "st_known_hosts t"; simp add: ssh_validate_def)

lemma split_host_key_one: "fst (split_host_key h) = None \<longleftrightarrow> snd (split_host_key h) \<noteq> None"
  by (cases h) simp_all

lemma build_ssh_for_add_ok:
  "build_ssh_for_add i draft = (t, ws) \<Longrightarrow> minted_ssh i t \<and> ssh_validate t = Inr () \<and>
     fst ` set ws \<subseteq> slots i \<and> set (ssh_keyring_refs t) \<subseteq> fst ` set ws"
  using ssh_fields_secret [THEN slots_field, of i]
  by (cases "td_auth draft")
    (auto simp: build_ssh_for_add_def minted_ssh_def ssh_validate_iff split_host_key_one ssh_keyring_refs_def Let_def)

lemma plan_add_fits:
  assumes "plan_add file draft = Inr (e, ws)"
  shows "fits file e ws" "ce_id e = cd_id draft"
proof -
  obtain kind ws0 where k: "build_kind_for_add (cd_id draft) (cd_kind draft) = (kind, ws0)"
    by (cases "build_kind_for_add (cd_id draft) (cd_kind draft)")
  obtain color tag ssh where e: "e = \<lparr>ce_id = cd_id draft, ce_name = cd_name draft, ce_kind = kind,
        ce_mcp_write = cd_mcp_write draft, ce_mcp_alias = normalize_alias (cd_mcp_alias draft), ce_color = color,
        ce_tag = tag, ce_ssh = ssh\<rparr>"
      and ssh: "(case cd_ssh draft of
                  None \<Rightarrow> Inr (None, ws0)
                | Some ssh \<Rightarrow>
                    if \<not> supports_ssh_tunnel kind
                    then Inl (Ssh_Unsupported_Kind (cd_id draft) (adapter_label kind))
                    else let (tunnel, extra) = build_ssh_for_add (cd_id draft) ssh
                      in Inr (Some tunnel, ws0 @ extra)) = Inr (ssh, ws)"
      and new: "find_index file (cd_id draft) = None"
      and free: "ensure_handle_is_free file (cd_id draft) (cd_id draft) = Inr ()"
        "\<And>a. normalize_alias (cd_mcp_alias draft) = Some a \<Longrightarrow> ensure_handle_is_free file a (cd_id draft) = Inr ()"
    using assms k by (auto simp: plan_add_def Let_def split: if_splits option.splits)
  show "ce_id e = cd_id draft" using e by simp
  have kind: "minted_kind (cd_id draft) kind" "fst ` set ws0 \<subseteq> slots (cd_id draft)"
      "set (keyring_refs_in kind) \<subseteq> fst ` set ws0"
    using build_kind_for_add_ok [OF k] by simp_all
  have "pred_option (minted_ssh (cd_id draft)) ssh \<and>
      pred_option (\<lambda>t. supports_ssh_tunnel kind \<and> ssh_validate t = Inr ()) ssh \<and>
      fst ` set ws \<subseteq> slots (cd_id draft) \<and>
      set (keyring_refs_in kind) \<union> (\<Union>t\<in>set_option ssh. set (ssh_keyring_refs t)) \<subseteq> fst ` set ws"
  proof (cases "cd_ssh draft")
    case None
    then show ?thesis using ssh kind by auto
  next
    case (Some d)
    obtain t extra where t: "build_ssh_for_add (cd_id draft) d = (t, extra)"
      by (cases "build_ssh_for_add (cd_id draft) d")
    have "supports_ssh_tunnel kind" "ssh = Some t" "ws = ws0 @ extra"
      using ssh Some t by (simp_all split: if_splits)
    then show ?thesis using build_ssh_for_add_ok [OF t] kind by auto
  qed
  moreover have "set (entry_keyring_refs e) = set (keyring_refs_in kind) \<union> (\<Union>t\<in>set_option ssh. set (ssh_keyring_refs t))"
    by (cases ssh) (simp_all add: e entry_keyring_refs_def)
  ultimately show "fits file e ws"
    using e kind new free
    by (auto simp: fits_def find_index_None entry_valid_def minted_entry_def alias_free_def id_free_def
        ensure_handle_free)
qed

lemma admin_add_sound:
  assumes "admin_ok toml s" "faithful_codec toml" "admin_add toml draft s = (r, s')"
    and "c \<longrightarrow> fresh_slots (cd_id draft) s"
  shows "sound toml (cd_id draft) c s r s'"
proof (rule sync_sound [OF assms(1) _ assms(3) [unfolded admin_add_def]])
  fix s1 r s'
  assume s1: "admin_ok toml s1" "ca_file s1 = ca_file s" "ca_keys s1 = ca_keys s"
    and run: "(case plan_add (ca_file s1) draft of
         Inl e \<Rightarrow> (Inl e, s1) | Inr (entry, writes) \<Rightarrow> commit_entry toml entry writes s1) = (r, s')"
  show "sound toml (cd_id draft) c s1 r s'"
  proof (cases "plan_add (ca_file s1) draft")
    case (Inl e)
    then show ?thesis using run sound_same [OF s1(1)] by auto
  next
    case (Inr p)
    obtain e ws where p: "p = (e, ws)" by (cases p)
    note fit = plan_add_fits [OF Inr [unfolded p]]
    have "c \<longrightarrow> fresh_slots (ce_id e) s1" using assms(4) s1(3) fit(2) by (simp add: fresh_slots_def)
    from commit_entry_sound [OF s1(1) assms(2) fit(1) _ this] show ?thesis using run Inr p fit(2) by simp
  qed
qed

section \<open>Duplicates\<close>

lemma kind_field_map [simp]: "kind_field (map_kind_refs f kind) = kind_field kind"
  by (cases kind) simp_all

lemma supports_map [simp]: "supports_ssh_tunnel (map_kind_refs f kind) = supports_ssh_tunnel kind"
  by (cases kind) simp_all

lemma refs_map_kind: "keyring_refs_in (map_kind_refs f kind) = map f (keyring_refs_in kind)"
  by (cases kind) (simp_all add: opt_list_def split: option.split)

lemma refs_map_entry: "entry_keyring_refs (map_entry_refs f e) = map f (entry_keyring_refs e)"
  by (simp add: entry_keyring_refs_def map_entry_refs_def refs_map_kind ssh_keyring_refs_def opt_list_def
      split: option.split)

lemma remint_Inr:
  assumes "remint owner new_id k = Inr k'" "k = keyring_ref owner f" "f \<in> set SECRET_FIELDS"
  shows "k' = keyring_ref new_id f" "reminted owner new_id k = k'"
proof -
  obtain field where field: "split_ref k = Some (owner, field)" "k' = keyring_ref new_id field"
    using assms(1) by (auto simp: remint_def split: option.splits if_splits)
  then have "field = f"
    using split_ref_Some [OF field(1)] assms(2,3) fields_without_dot keyring_ref_inj by blast
  then show "k' = keyring_ref new_id f" using field by simp
  show "reminted owner new_id k = k'" using assms(1) by (simp add: reminted_def)
qed

lemma read_secrets_step:
  "read_secrets remints found s = (r, s') \<Longrightarrow> keys_step {} s s' \<and> ca_keys s' = ca_keys s \<and>
     (\<forall>ws. r = Inr ws \<longrightarrow> map fst ws = map fst found @ map snd remints)"
proof (induction remints arbitrary: found s)
  case (Cons p remints)
  obtain k k' where p: "p = (k, k')" by (cases p)
  obtain g s1 where g: "key_get k s = (g, s1)" by (cases "key_get k s")
  note get = key_get_step(1,2) [OF g]
  show ?case
  proof (cases g)
    case (Inl e)
    then show ?thesis using Cons.prems p g get by auto
  next
    case (Inr v)
    then have "read_secrets remints (found @ [(k', v)]) s1 = (r, s')" using Cons.prems p g by simp
    from Cons.IH [OF this] show ?thesis using get keys_step_trans [of "{}" s s1 "{}" s'] by (simp add: p)
  qed
qed auto

lemma minted_copy:
  assumes "minted_entry source" "ce_id source = i"
    and "\<And>k. k \<in> set (entry_keyring_refs source) \<Longrightarrow> \<exists>k'. remint i new_id k = Inr k'"
    and "copy = (map_entry_refs (reminted i new_id) source)\<lparr>ce_id := new_id, ce_name := name,
      ce_mcp_alias := None, ce_color := None, ce_tag := None, ce_mcp_write := False\<rparr>"
  shows "minted_entry copy"
proof -
  have new: "reminted i new_id (keyring_ref i f) = keyring_ref new_id f"
    if "f \<in> set SECRET_FIELDS" "keyring_ref i f \<in> set (entry_keyring_refs source)" for f
    using assms(3) [OF that(2)] remint_Inr that(1) by metis
  have kind: "minted_kind new_id (map_kind_refs (reminted i new_id) (ce_kind source))"
    unfolding minted_kind_def refs_map_kind
  proof
    fix k
    assume "k \<in> set (map (reminted i new_id) (keyring_refs_in (ce_kind source)))"
    then obtain q where q: "q \<in> set (keyring_refs_in (ce_kind source))" "k = reminted i new_id q" by auto
    then have "q = keyring_ref i (kind_field (ce_kind source))"
      using assms(1,2) by (auto simp: minted_entry_def minted_kind_def)
    then show "k \<in> {keyring_ref new_id (kind_field (map_kind_refs (reminted i new_id) (ce_kind source)))}"
      using new [OF kind_field_secret] q by (simp add: entry_keyring_refs_def)
  qed
  have "minted_ssh new_id (t\<lparr>st_passphrase_ref := map_option (reminted i new_id) (st_passphrase_ref t),
      st_password_ref := map_option (reminted i new_id) (st_password_ref t)\<rparr>)" if "ce_ssh source = Some t" for t
  proof -
    have "minted_ssh i t" using assms(1,2) that by (simp add: minted_entry_def)
    then show ?thesis
      using that new [OF ssh_fields_secret(1)] new [OF ssh_fields_secret(2)]
      by (auto simp: minted_ssh_def entry_keyring_refs_def ssh_keyring_refs_def)
  qed
  with kind show ?thesis
    by (cases "ce_ssh source") (simp_all add: minted_entry_def assms(4) map_entry_refs_def)
qed

lemma ssh_validate_map [simp]:
  "ssh_validate (t\<lparr>st_passphrase_ref := map_option f (st_passphrase_ref t),
     st_password_ref := map_option g (st_password_ref t)\<rparr>) = ssh_validate t"
  by (simp add: ssh_validate_def cong: if_cong)

lemma admin_duplicate_sound:
  assumes "admin_ok toml s" "faithful_codec toml" "admin_duplicate toml i new_id name s = (r, s')"
    and "c \<longrightarrow> fresh_slots new_id s"
  shows "sound toml new_id c s r s'"
proof (rule sync_sound [OF assms(1) _ assms(3) [unfolded admin_duplicate_def]])
  fix s1 r s'
  assume s1: "admin_ok toml s1" "ca_file s1 = ca_file s" "ca_keys s1 = ca_keys s"
    and run: "(case find_index (ca_file s1) i of
         None \<Rightarrow> (Inl (No_Such_Connection i), s1)
       | Some idx \<Rightarrow>
           if find_index (ca_file s1) new_id \<noteq> None then (Inl (Duplicate_Id new_id), s1)
           else case ensure_handle_is_free (ca_file s1) new_id new_id of
             Inl e \<Rightarrow> (Inl e, s1)
           | Inr _ \<Rightarrow>
               (let source = cf_connections (ca_file s1) ! idx;
                    refs = entry_keyring_refs source
                in case rmapM (remint (ce_id source) new_id) refs of
                     Inl e \<Rightarrow> (Inl e, s1)
                   | Inr new_refs \<Rightarrow>
                       io_bind (read_secrets (zip refs new_refs) [])
                         (commit_entry toml ((map_entry_refs (reminted (ce_id source) new_id) source)
                            \<lparr>ce_id := new_id, ce_name := name, ce_mcp_alias := None, ce_color := None,
                             ce_tag := None, ce_mcp_write := False\<rparr>)) s1)) = (r, s')"
  show "sound toml new_id c s1 r s'"
  proof (cases "\<exists>idx new_refs. find_index (ca_file s1) i = Some idx \<and> find_index (ca_file s1) new_id = None \<and>
      ensure_handle_is_free (ca_file s1) new_id new_id = Inr () \<and>
      rmapM (remint (ce_id (cf_connections (ca_file s1) ! idx)) new_id)
        (entry_keyring_refs (cf_connections (ca_file s1) ! idx)) = Inr new_refs")
    case False
    then have "s' = s1 \<and> (\<exists>e. r = Inl e)" using run by (auto simp: Let_def split: option.splits sum.splits if_splits)
    then show ?thesis using sound_same [OF s1(1)] by auto
  next
    case True
    then obtain idx new_refs where idx: "find_index (ca_file s1) i = Some idx"
      and new: "find_index (ca_file s1) new_id = None" "ensure_handle_is_free (ca_file s1) new_id new_id = Inr ()"
      and refs: "rmapM (remint (ce_id (cf_connections (ca_file s1) ! idx)) new_id)
        (entry_keyring_refs (cf_connections (ca_file s1) ! idx)) = Inr new_refs" by blast
    define source where "source = cf_connections (ca_file s1) ! idx"
    define copy where "copy = (map_entry_refs (reminted i new_id) source)\<lparr>ce_id := new_id, ce_name := name,
      ce_mcp_alias := None, ce_color := None, ce_tag := None, ce_mcp_write := False\<rparr>"
    have source: "source \<in> set (cf_connections (ca_file s1))" "ce_id source = i"
      using find_index_Some [OF idx] by (simp_all add: source_def)
    have ok: "minted_entry source" "entry_valid source"
      using s1(1) source(1) by (simp_all add: admin_ok_def file_ok_def entries_ok_def list_all_iff)
    have each: "list_all2 (\<lambda>k k'. remint i new_id k = Inr k') (entry_keyring_refs source) new_refs"
      using refs source(2) by (simp add: rmapM_Inr_iff source_def [symmetric])
    then have minted: "minted_entry copy"
      by (intro minted_copy [OF ok(1) source(2) _ copy_def]) (auto simp: list_all2_conv_all_nth in_set_conv_nth)
    have "entry_keyring_refs copy = map (reminted i new_id) (entry_keyring_refs source)"
      using refs_map_entry [of "reminted i new_id" source] by (simp add: copy_def entry_keyring_refs_def)
    moreover have "new_refs = map (reminted i new_id) (entry_keyring_refs source)"
      using each by (induction rule: list_all2_induct) (simp_all add: reminted_def)
    ultimately have new_refs: "new_refs = entry_keyring_refs copy" by simp
    have valid: "entry_valid copy"
      using ok(2) by (cases "ce_ssh source") (simp_all add: copy_def entry_valid_def map_entry_refs_def)
    obtain a s2 where read: "read_secrets (zip (entry_keyring_refs source) new_refs) [] s1 = (a, s2)"
      by (cases "read_secrets (zip (entry_keyring_refs source) new_refs) [] s1")
    note step = read_secrets_step [OF read]
    have s2: "admin_ok toml s2" "ca_file s2 = ca_file s1" "ca_keys s2 = ca_keys s1"
      using s1(1) step keys_step_in_step [of "{}" s1 s2 toml]
      by (simp_all add: admin_ok_def keys_step_def backed_def)
    have frame: "sound toml new_id c s1 q t" if "sound toml new_id c s2 q t" for q t
      using that step by (simp add: sound_def keys_step_def)
    show ?thesis
    proof (cases a)
      case (Inl e)
      then have "s' = s2" "r = Inl e"
        using run idx new refs source(2) read
        by (simp_all add: Let_def io_bind_def source_def [symmetric])
      then show ?thesis using frame [OF sound_same [OF s2(1)]] by simp
    next
      case (Inr ws)
      then have run': "commit_entry toml copy ws s2 = (r, s')"
        using run idx new refs source(2) read
        by (simp add: Let_def io_bind_def source_def [symmetric] copy_def)
      have "map fst ws = new_refs"
        using step Inr each by (simp add: list_all2_lengthD)
      then have keys: "fst ` set ws = set (entry_keyring_refs copy)" using new_refs by (metis list.set_map)
      have id': "ce_id copy = new_id" "ce_mcp_alias copy = None" by (simp_all add: copy_def)
      have "fits (ca_file s2) copy ws"
        using new s2(2) minted valid keys minted_entry_slots [OF minted] id'
        by (auto simp: fits_def find_index_None alias_free_def id_free_def ensure_handle_free)
      moreover have "c \<longrightarrow> fresh_slots (ce_id copy) s2" using assms(4) s1(3) s2(3) id' by (simp add: fresh_slots_def)
      ultimately have "sound toml (ce_id copy) c s2 r s'"
        by (rule commit_entry_sound [OF s2(1) assms(2) _ run'])
      then show ?thesis using frame id' by simp
    qed
  qed
qed

section \<open>Repairs\<close>

lemma admin_repair_sound:
  assumes "admin_ok toml s" "admin_repair_foreign_ref toml i key_ref secret s = (r, s')"
  shows "sound toml i c s r s'"
proof (rule sync_sound [OF assms(1) _ assms(2) [unfolded admin_repair_foreign_ref_def]])
  fix s1 r s'
  assume s1: "admin_ok toml s1"
    and run: "(case find_index (ca_file s1) i of
         None \<Rightarrow> (Inl (No_Such_Connection i), s1)
       | Some idx \<Rightarrow>
           (let entry = cf_connections (ca_file s1) ! idx
            in if key_ref \<notin> set (entry_keyring_refs entry) then (Inl (Ref_Not_On_Entry i key_ref), s1)
               else case split_ref key_ref of
                 None \<Rightarrow> (Inl (Nothing_To_Repair i key_ref), s1)
               | Some (owner, field) \<Rightarrow>
                   if owner = i then (Inl (Nothing_To_Repair i key_ref), s1)
                   else
                     (let own_ref = keyring_ref i field;
                          entry = map_entry_refs (\<lambda>r. if r = key_ref then own_ref else r) entry
                      in case key_set own_ref secret s1 of
                           (Inl e, s) \<Rightarrow> (Inl (Config_Secret e), s)
                         | (Inr _, s) \<Rightarrow>
                             (let new_file = (ca_file s)\<lparr>cf_connections := (cf_connections (ca_file s))[idx := entry]\<rparr>
                              in case file_save toml new_file s of
                                   (Inl e, s) \<Rightarrow> (Inl e, snd (key_delete own_ref s))
                                 | (Inr _, s) \<Rightarrow> (Inr (), s\<lparr>ca_file := new_file\<rparr>))))) = (r, s')"
  have "s' = s1 \<and> (\<exists>e. r = Inl e)"
  proof (cases "find_index (ca_file s1) i")
    case None
    then show ?thesis using run by auto
  next
    case (Some idx)
    define entry where "entry = cf_connections (ca_file s1) ! idx"
    have entry: "entry \<in> set (cf_connections (ca_file s1))" "ce_id entry = i"
      using find_index_Some [OF Some] by (simp_all add: entry_def)
    have "owner = i" if "key_ref \<in> set (entry_keyring_refs entry)" "split_ref key_ref = Some (owner, field)" for owner field
    proof -
      have "key_ref \<in> slots i" using entry_slots entry that(1) s1 by (auto simp: admin_ok_def)
      then obtain f where "key_ref = keyring_ref i f" "f \<in> set SECRET_FIELDS" by (auto simp: slots_def)
      then show ?thesis
        using split_ref_Some [OF that(2)] keyring_ref_inj fields_without_dot by blast
    qed
    then show ?thesis using run Some by (auto simp: Let_def entry_def [symmetric] split: if_splits option.splits)
  qed
  then show "sound toml i c s1 r s'" using sound_same [OF s1] by auto
qed

section \<open>Deleting, moving, marking\<close>

lemma handles_free_alias:
  assumes "handles_free es" "e \<in> set es"
  shows "alias_free e es"
  unfolding alias_free_def
proof (intro ballI impI)
  fix a x
  assume "a \<in> set_option (ce_mcp_alias e)" "x \<in> set es" "ce_id x \<noteq> ce_id e"
  then show "ce_id x \<noteq> a \<and> ce_mcp_alias x \<noteq> Some a"
    using assms unfolding handles_free_def by (metis elem_set option.distinct(1))
qed

lemma mset_remove_nth: "n < length xs \<Longrightarrow> add_mset (xs ! n) (mset (remove_nth n xs)) = mset xs"
  by (metis remove_nth_def add_mset_add_single id_take_nth_drop mset.simps(2) mset_append union_mset_add_mset_right)

lemma mset_insert_nth: "mset (insert_nth n x xs) = add_mset x (mset xs)"
  by (metis insert_nth_def append_take_drop_id mset.simps(2) mset_append union_mset_add_mset_right)

lemma remove_nth_sub:
  assumes "n < length xs" "distinct (map f xs)"
  shows "set (remove_nth n xs) \<subseteq> set xs" "distinct (map f (remove_nth n xs))" "f (xs ! n) \<notin> f ` set (remove_nth n xs)"
proof -
  have eq: "mset (map f xs) = add_mset (f (xs ! n)) (mset (map f (remove_nth n xs)))"
    using mset_remove_nth [OF assms(1)] by (metis image_mset_add_mset mset_map)
  then have "distinct (f (xs ! n) # map f (remove_nth n xs))"
    using assms(2) by (metis mset.simps(2) mset_eq_imp_distinct_iff)
  then show "distinct (map f (remove_nth n xs))" "f (xs ! n) \<notin> f ` set (remove_nth n xs)" by simp_all
  show "set (remove_nth n xs) \<subseteq> set xs"
    using mset_remove_nth [OF assms(1)] by (metis set_mset_add_mset_insert set_mset_mset subset_insertI)
qed

lemma admin_delete_sound:
  assumes "admin_ok toml s" "faithful_codec toml" "admin_delete toml i s = (r, s')"
  shows "sound toml i c s r s'"
proof (rule sync_sound [OF assms(1) _ assms(3) [unfolded admin_delete_def]])
  fix s1 r s'
  assume s1: "admin_ok toml s1"
    and run: "(case find_index (ca_file s1) i of
         None \<Rightarrow> (Inl (No_Such_Connection i), s1)
       | Some idx \<Rightarrow>
           (let removed = cf_connections (ca_file s1) ! idx;
                new_file = (ca_file s1)\<lparr>cf_connections := remove_nth idx (cf_connections (ca_file s1))\<rparr>
            in io_bind (save_file_as toml new_file)
                 (\<lambda>_ s. (Inr (), delete_keys (entry_keyring_refs removed) s)) s1)) = (r, s')"
  show "sound toml i c s1 r s'"
  proof (cases "find_index (ca_file s1) i")
    case None
    then show ?thesis using run sound_same [OF s1] by auto
  next
    case (Some idx)
    define es where "es = cf_connections (ca_file s1)"
    define removed where "removed = es ! idx"
    define new where "new = (ca_file s1)\<lparr>cf_connections := remove_nth idx es\<rparr>"
    have idx: "idx < length es" "ce_id removed = i" "removed \<in> set es"
      using find_index_Some [OF Some] by (simp_all add: es_def removed_def)
    have ok: "entries_ok es" "file_ok (ca_file s1)"
      using s1 by (simp_all add: admin_ok_def file_ok_def es_def)
    have sub: "set (remove_nth idx es) \<subseteq> set es" "distinct (map ce_id (remove_nth idx es))"
        "i \<notin> ce_id ` set (remove_nth idx es)"
      using remove_nth_sub [OF idx(1), of ce_id] ok(1) idx(2) by (simp_all add: entries_ok_def removed_def)
    have new: "file_ok new"
      using file_ok_with [OF ok(2) entries_ok_sub [OF ok(1) sub(1,2)]] by (simp add: new_def)
    have held: "ca_keys s1 k \<noteq> None" if "e \<in> set (cf_connections new)" "k \<in> set (entry_keyring_refs e)" for e k
      using that sub(1) s1 by (auto simp: new_def admin_ok_def backed_def list_all_iff es_def)
    obtain q s2 where q: "save_file_as toml new s1 = (q, s2)" by (cases "save_file_as toml new s1")
    note saved = save_file_as_sound [OF q s1 assms(2) new held]
    have run': "(r, s') = (case q of Inl e \<Rightarrow> (Inl e, s2) | Inr _ \<Rightarrow> (Inr (), delete_keys (entry_keyring_refs removed) s2))"
      using run Some q by (auto simp: Let_def io_bind_def new_def removed_def es_def split: sum.splits)
    show ?thesis
    proof (cases q)
      case (Inl e)
      then show ?thesis using run' saved(1) by simp
    next
      case (Inr u)
      then have r: "r = Inr ()" "s' = delete_keys (entry_keyring_refs removed) s2" using run' by simp_all
      have "set (entry_keyring_refs removed) \<subseteq> slots i"
        using entry_slots [OF ok(2)] idx(2,3) by (auto simp: es_def)
      then have del: "keys_step (slots i) s2 s'"
        using delete_keys_step [of "entry_keyring_refs removed" s2] r(2) by (auto intro: keys_step_mono)
      have s2: "ca_file s2 = new" "ca_keys s2 = ca_keys s1" using saved Inr by simp_all
      have "backed s2" using saved(1) by (simp add: sound_def admin_ok_def)
      then have "backed s'"
        using backed_others [of s2 i s'] new sub(3) s2(1) del by (simp add: keys_step_def new_def)
      then show ?thesis
        using saved(1) del r s2 keys_step_in_step [OF del] by (simp add: sound_def admin_ok_def keys_step_def)
    qed
  qed
qed

lemma admin_move_to_sound:
  assumes "admin_ok toml s" "faithful_codec toml" "admin_move_to toml i index s = (r, s')"
  shows "sound toml i c s r s'"
proof (rule sync_sound [OF assms(1) _ assms(3) [unfolded admin_move_to_def]])
  fix s1 r s'
  assume s1: "admin_ok toml s1"
    and run: "(case find_index (ca_file s1) i of
         None \<Rightarrow> (Inl (No_Such_Connection i), s1)
       | Some from_index \<Rightarrow>
           (let entries = cf_connections (ca_file s1); len = length entries
            in if index \<ge> len then (Inl (Index_Out_Of_Range index len), s1)
               else if from_index = index then (Inr (), s1)
               else save_file_as toml ((ca_file s1)\<lparr>cf_connections :=
                      insert_nth index (entries ! from_index) (remove_nth from_index entries)\<rparr>) s1)) = (r, s')"
  define es where "es = cf_connections (ca_file s1)"
  have ok: "entries_ok es" "file_ok (ca_file s1)"
    using s1 by (simp_all add: admin_ok_def file_ok_def es_def)
  show "sound toml i c s1 r s'"
  proof (cases "\<exists>j new. find_index (ca_file s1) i = Some j \<and>
      new = (ca_file s1)\<lparr>cf_connections := insert_nth index (es ! j) (remove_nth j es)\<rparr> \<and>
      save_file_as toml new s1 = (r, s')")
    case True
    then obtain j new where j: "find_index (ca_file s1) i = Some j"
      and new: "new = (ca_file s1)\<lparr>cf_connections := insert_nth index (es ! j) (remove_nth j es)\<rparr>"
      and save: "save_file_as toml new s1 = (r, s')" by blast
    have "j < length es" using find_index_Some [OF j] by (simp add: es_def)
    then have mset: "mset (cf_connections new) = mset es"
      using mset_remove_nth by (simp add: new mset_insert_nth)
    then have set: "set (cf_connections new) = set es" by (metis set_mset_mset)
    have "distinct (map ce_id (cf_connections new))"
      using mset ok(1) by (metis entries_ok_def mset_eq_imp_distinct_iff mset_map)
    then have "entries_ok (cf_connections new)" using entries_ok_sub [OF ok(1)] set by simp
    then have "file_ok new" using ok(2) by (simp add: file_ok_def new)
    from save_file_as_sound(1) [OF save s1 assms(2) this] show ?thesis
      using set s1 by (simp add: admin_ok_def backed_def list_all_iff es_def)
  next
    case False
    then have "s' = s1" using run by (auto simp: Let_def es_def split: option.splits if_splits)
    then show ?thesis using sound_same [OF s1] by simp
  qed
qed

lemma admin_set_mark_sound:
  assumes "admin_ok toml s" "faithful_codec toml" "admin_set_mark toml i color tag s = (r, s')"
  shows "sound toml i c s r s'"
proof (rule sync_sound [OF assms(1) _ assms(3) [unfolded admin_set_mark_def]])
  fix s1 r s'
  assume s1: "admin_ok toml s1"
    and run: "(case find_index (ca_file s1) i of
         None \<Rightarrow> (Inl (No_Such_Connection i), s1)
       | Some idx \<Rightarrow>
           (case rbind (normalize_color color) (\<lambda>color. rbind (normalize_tag tag) (\<lambda>tag. Inr (color, tag))) of
              Inl e \<Rightarrow> (Inl e, s1)
            | Inr (color, tag) \<Rightarrow>
                (let entry = cf_connections (ca_file s1) ! idx
                 in if ce_color entry = color \<and> ce_tag entry = tag then (Inr (), s1)
                    else save_file_as toml ((ca_file s1)\<lparr>cf_connections :=
                      (cf_connections (ca_file s1))[idx := entry\<lparr>ce_color := color, ce_tag := tag\<rparr>]\<rparr>) s1))) = (r, s')"
  define es where "es = cf_connections (ca_file s1)"
  have ok: "entries_ok es" "file_ok (ca_file s1)"
    using s1 by (simp_all add: admin_ok_def file_ok_def es_def)
  show "sound toml i c s1 r s'"
  proof (cases "\<exists>j color tag. find_index (ca_file s1) i = Some j \<and>
      save_file_as toml ((ca_file s1)\<lparr>cf_connections := es[j := (es ! j)\<lparr>ce_color := color, ce_tag := tag\<rparr>]\<rparr>) s1 = (r, s')")
    case True
    then obtain j new color tag where j: "find_index (ca_file s1) i = Some j"
      and new: "new = (ca_file s1)\<lparr>cf_connections := es[j := (es ! j)\<lparr>ce_color := color, ce_tag := tag\<rparr>]\<rparr>"
      and save: "save_file_as toml new s1 = (r, s')" by blast
    let ?e = "(es ! j)\<lparr>ce_color := color, ce_tag := tag\<rparr>"
    have j': "j < length es" "es ! j \<in> set es" using find_index_Some [OF j] by (simp_all add: es_def)
    have own: "entry_valid (es ! j)" "minted_entry (es ! j)" "alias_free (es ! j) es"
      using ok(1) j'(2) handles_free_alias by (simp_all add: entries_ok_def list_all_iff)
    then have "entries_ok (es[j := ?e])"
      by (intro entries_ok_update [OF ok(1) j'(1)]) (simp_all add: entry_valid_def minted_entry_def alias_free_def)
    then have fine: "file_ok new" using ok(2) by (simp add: file_ok_def new)
    have refs: "entry_keyring_refs ?e = entry_keyring_refs (es ! j)" by (simp add: entry_keyring_refs_def)
    have "ca_keys s1 k \<noteq> None" if "e \<in> set (cf_connections new)" "k \<in> set (entry_keyring_refs e)" for e k
    proof -
      have "e = ?e \<or> e \<in> set es" using that(1) set_update_subset_insert [of es j ?e] by (auto simp: new)
      then show ?thesis using that(2) refs j'(2) s1 by (auto simp: admin_ok_def backed_def list_all_iff es_def)
    qed
    from save_file_as_sound(1) [OF save s1 assms(2) fine this] show ?thesis .
  next
    case False
    then have "s' = s1" using run
      by (auto simp: Let_def es_def split: option.splits if_splits sum.splits)
    then show ?thesis using sound_same [OF s1] by simp
  qed
qed

end
