(* ===== verification/Connection_Update.thy ===== *)
theory Connection_Update
  imports Connection_Ops
begin

text \<open>
  Updating a connection: every secret it writes is recorded with what the slot held, so that a failure
  further on can put it back, and the slots the new entry no longer names are cleared at the end.
\<close>

section \<open>What an edit becomes\<close>

lemma secret_edit_ref: "fst ` set_option (secret_edit r f) \<subseteq> {r}"
  by (cases f) simp_all

lemma firestore_edit_ok:
  "firestore_edit i existing f = (r, w) \<Longrightarrow> set_option existing \<subseteq> {keyring_ref i FIRESTORE_SERVICE_ACCOUNT_FIELD} \<Longrightarrow>
     set_option r \<subseteq> {keyring_ref i FIRESTORE_SERVICE_ACCOUNT_FIELD} \<and> fst ` set_option w \<subseteq> {keyring_ref i FIRESTORE_SERVICE_ACCOUNT_FIELD} \<and>
     set_option r \<subseteq> set_option existing \<union> fst ` set_option w"
  by (cases f) (auto simp: Let_def split: option.splits)

lemma plan_kind_edit_ok:
  assumes "plan_kind_edit i kind draft = Inr (kind', w)" "minted_kind i kind"
  shows "minted_kind i kind'" "supports_ssh_tunnel kind' = supports_ssh_tunnel kind"
    "fst ` set_option w \<subseteq> {keyring_ref i (kind_field kind)}"
    "set (keyring_refs_in kind') \<subseteq> set (keyring_refs_in kind) \<union> fst ` set_option w"
proof -
  have "minted_kind i kind' \<and> supports_ssh_tunnel kind' = supports_ssh_tunnel kind \<and>
      fst ` set_option w \<subseteq> {keyring_ref i (kind_field kind)} \<and>
      set (keyring_refs_in kind') \<subseteq> set (keyring_refs_in kind) \<union> fst ` set_option w"
    using assms secret_edit_ref firestore_edit_ok
    by (cases kind) (fastforce simp: minted_kind_def split: connection_kind_edit_draft.splits prod.splits)+
  then show "minted_kind i kind'" "supports_ssh_tunnel kind' = supports_ssh_tunnel kind"
    "fst ` set_option w \<subseteq> {keyring_ref i (kind_field kind)}"
    "set (keyring_refs_in kind') \<subseteq> set (keyring_refs_in kind) \<union> fst ` set_option w" by simp_all
qed

definition ssh_refs_of :: "ssh_tunnel_toml option \<Rightarrow> string set" where
  "ssh_refs_of t = (case t of Some ssh \<Rightarrow> set (ssh_keyring_refs ssh) | None \<Rightarrow> {})"

lemma entry_refs_split: "set (entry_keyring_refs e) = set (keyring_refs_in (ce_kind e)) \<union> ssh_refs_of (ce_ssh e)"
  by (simp add: entry_keyring_refs_def ssh_refs_of_def split: option.split)

lemma plan_ssh_auth_ok:
  "plan_ssh_auth i auth existing = Inr ((path, pass, pw), w) \<Longrightarrow> pred_option (minted_ssh i) existing \<Longrightarrow>
     minted_ssh i (tunnel_of draft (path, pass, pw)) \<and>
     fst ` set_option w \<subseteq> {keyring_ref i SSH_PASSPHRASE_FIELD, keyring_ref i SSH_PASSWORD_FIELD} \<and>
     set (ssh_keyring_refs (tunnel_of draft (path, pass, pw))) \<subseteq> ssh_refs_of existing \<union> fst ` set_option w"
  by (cases "(i, auth, existing)" rule: plan_ssh_auth.cases; cases existing)
    (auto simp: minted_ssh_def tunnel_of_def ssh_keyring_refs_def ssh_refs_of_def Let_def split: option.splits)

section \<open>Recorded writes\<close>

lemma recorded_quiet: "recorded s0 applied s \<Longrightarrow> keys_step {} s s' \<Longrightarrow> recorded s0 applied s'"
  using keys_step_trans [of "fst ` set applied" s0 s "{}" s'] by (auto simp: recorded_def keys_step_def list_all_iff)

lemma recorded_disk:
  "recorded s0 applied s \<Longrightarrow> disk_step s t \<Longrightarrow> recorded (s0\<lparr>ca_disk := ca_disk t\<rparr>) applied t"
  by (simp add: recorded_def keys_step_def disk_step_def)

lemma recorded_optional:
  assumes "apply_optional_write w s = (q, s')" "recorded s0 applied s" "fst ` set_option w \<inter> fst ` set applied = {}"
  shows "q = Inl e \<Longrightarrow> recorded s0 applied s'"
    "q = Inr extra \<Longrightarrow> recorded s0 (applied @ extra) s' \<and> fst ` set extra = fst ` set_option w"
proof -
  have "(\<forall>e. q = Inl e \<longrightarrow> recorded s0 applied s') \<and>
      (\<forall>extra. q = Inr extra \<longrightarrow> recorded s0 (applied @ extra) s' \<and> fst ` set extra = fst ` set_option w)"
  proof (cases w)
    case None
    then show ?thesis using assms by (auto simp: apply_optional_write_def io_of_def)
  next
    case (Some kv)
    obtain k v where kv: "kv = (k, v)" by (cases kv)
    obtain a s1 where a: "apply_secret_write k v s = (a, s1)" by (cases "apply_secret_write k v s")
    have q: "s' = s1" "q = (case a of Inl e \<Rightarrow> Inl e | Inr x \<Rightarrow> Inr [x])"
      using assms(1) a Some kv by (auto simp: apply_optional_write_def io_bind_def io_of_def split: sum.splits)
    show ?thesis
    proof (cases a)
      case (Inl e)
      then show ?thesis using q recorded_quiet [OF assms(2)] apply_secret_write_Inl(1) a by auto
    next
      case (Inr x)
      have "fst x = k" using apply_secret_write_Inr(2) a Inr by fastforce
      moreover have "k \<notin> fst ` set applied" using assms(3) Some kv by simp
      ultimately show ?thesis using q recorded_write [OF assms(2) a [unfolded Inr]] Inr Some kv by simp
    qed
  qed
  then show "q = Inl e \<Longrightarrow> recorded s0 applied s'"
    "q = Inr extra \<Longrightarrow> recorded s0 (applied @ extra) s' \<and> fst ` set extra = fst ` set_option w" by auto
qed

lemma update_taken_back:
  assumes "admin_ok toml s0" "recorded s0 applied s" "fst ` set applied \<subseteq> slots i"
    and "disk_step s t" "in_step toml t"
  shows "sound toml i c s0 (Inl e) (restore_applied applied t)"
proof -
  define s1 where "s1 = s0\<lparr>ca_disk := ca_disk t\<rparr>"
  define s' where "s' = restore_applied applied t"
  have rec: "recorded s1 applied t" using recorded_disk [OF assms(2,4)] by (simp add: s1_def)
  note undone = restored [OF rec, folded s'_def]
  have step: "keys_step (slots i) s1 s'" using undone(1) assms(3) by (rule keys_step_mono)
  have "ca_path t = ca_path s1" "ca_disk t = ca_disk s1" "ca_file t = ca_file s1" "ca_tracks_disk t = ca_tracks_disk s1"
    using assms(2,4) by (simp_all add: recorded_def keys_step_def disk_step_def s1_def)
  then have "in_step toml s1" using assms(5) stored_cong [of s1 t toml] by (simp add: in_step_def)
  then have "in_step toml s'" using keys_step_in_step [OF step] by simp
  moreover have "backed s'"
    by (rule backed_keep [of s0]) (use assms(1) step undone(2) in \<open>simp_all add: admin_ok_def keys_step_def s1_def\<close>)
  moreover have "ca_key_faults s0 = [] \<Longrightarrow> ca_keys s' = ca_keys s0" using undone(3) by (simp add: s1_def)
  ultimately show ?thesis
    unfolding s'_def [symmetric] using assms(1) step by (simp add: sound_def admin_ok_def keys_step_def s1_def)
qed

section \<open>The tunnel of an edit\<close>

lemma apply_update_ssh_ok:
  assumes "apply_update_ssh i field existing applied s = ((q, applied'), s')"
    and "recorded s0 applied s" "pred_option (minted_ssh i) existing"
    and "fst ` set applied \<subseteq> {keyring_ref i (kind_field kind)}"
  shows "recorded s0 applied' s'" "fst ` set applied' \<subseteq> slots i"
    "q = Inr ssh \<Longrightarrow> pred_option (minted_ssh i) ssh \<and> fst ` set applied \<subseteq> fst ` set applied' \<and>
       ssh_refs_of ssh \<subseteq> ssh_refs_of existing \<union> fst ` set applied' \<and>
       (ssh = existing \<or> is_Set_Ssh field \<and> pred_option (\<lambda>t. ssh_validate t = Inr ()) ssh \<or> ssh = None)"
proof -
  have slots: "fst ` set applied \<subseteq> slots i"
    using assms(4) slots_field [OF kind_field_secret [of kind], of i] by auto
  have "recorded s0 applied' s' \<and> fst ` set applied' \<subseteq> slots i \<and> (\<forall>ssh. q = Inr ssh \<longrightarrow>
      pred_option (minted_ssh i) ssh \<and> fst ` set applied \<subseteq> fst ` set applied' \<and>
       ssh_refs_of ssh \<subseteq> ssh_refs_of existing \<union> fst ` set applied' \<and>
       (ssh = existing \<or> is_Set_Ssh field \<and> pred_option (\<lambda>t. ssh_validate t = Inr ()) ssh \<or> ssh = None))"
  proof (cases field)
    case (Set_Ssh draft)
    show ?thesis
    proof (cases "plan_ssh_auth i (te_auth draft) existing")
      case (Inl e)
      then show ?thesis using assms(1,2) slots Set_Ssh by (auto simp: apply_update_ssh_def)
    next
      case (Inr p)
      obtain path pass pw w where p: "p = ((path, pass, pw), w)" by (metis prod.collapse)
      define tunnel where "tunnel = tunnel_of draft (path, pass, pw)"
      have plan: "minted_ssh i tunnel"
          "fst ` set_option w \<subseteq> {keyring_ref i SSH_PASSPHRASE_FIELD, keyring_ref i SSH_PASSWORD_FIELD}"
          "set (ssh_keyring_refs tunnel) \<subseteq> ssh_refs_of existing \<union> fst ` set_option w"
        using plan_ssh_auth_ok [OF Inr [unfolded p] assms(3)] by (simp_all add: tunnel_def)
      obtain b s1 where b: "apply_optional_write w s = (b, s1)" by (cases "apply_optional_write w s")
      have apart: "fst ` set_option w \<inter> fst ` set applied = {}"
      proof -
        have "keyring_ref i (kind_field kind) \<notin> {keyring_ref i SSH_PASSPHRASE_FIELD, keyring_ref i SSH_PASSWORD_FIELD}"
          using kind_field_not_ssh [of kind] by (simp add: keyring_ref_def)
        then show ?thesis using Int_mono [OF plan(2) assms(4)] by auto
      qed
      note opt = recorded_optional [OF b assms(2) apart]
      have wslots: "fst ` set_option w \<subseteq> slots i"
        by (rule subset_trans [OF plan(2)]) (simp add: ssh_fields_secret [THEN slots_field])
      show ?thesis
      proof (cases b)
        case (Inl e)
        then have "q = Inl e" "applied' = applied" "s' = s1"
          using assms(1) b Set_Ssh \<open>plan_ssh_auth i (te_auth draft) existing = Inr p\<close> p
          by (simp_all add: apply_update_ssh_def)
        then show ?thesis using opt(1) [OF Inl] slots by simp
      next
        case (Inr extra)
        then have run: "s' = s1" "applied' = applied @ extra"
            "q = (case ssh_validate tunnel of Inl why \<Rightarrow> Inl (Ssh_Invalid i why) | Inr _ \<Rightarrow> Inr (Some tunnel))"
          using assms(1) b Set_Ssh \<open>plan_ssh_auth i (te_auth draft) existing = Inr p\<close> p
          by (auto simp: apply_update_ssh_def tunnel_def split: sum.splits)
        have "fst ` set applied' = fst ` set applied \<union> fst ` set_option w"
          using opt(2) [OF Inr] run(2) by (auto simp: image_Un)
        then show ?thesis
          using opt(2) [OF Inr] run slots wslots plan Set_Ssh
          by (auto simp: ssh_refs_of_def split: sum.splits)
      qed
    qed
  qed (use assms(1,2,3) slots in \<open>auto simp: apply_update_ssh_def ssh_refs_of_def\<close>)
  then show "recorded s0 applied' s'" "fst ` set applied' \<subseteq> slots i"
    "q = Inr ssh \<Longrightarrow> pred_option (minted_ssh i) ssh \<and> fst ` set applied \<subseteq> fst ` set applied' \<and>
       ssh_refs_of ssh \<subseteq> ssh_refs_of existing \<union> fst ` set applied' \<and>
       (ssh = existing \<or> is_Set_Ssh field \<and> pred_option (\<lambda>t. ssh_validate t = Inr ()) ssh \<or> ssh = None)" by auto
qed

section \<open>Updating\<close>

lemma plan_update_alias:
  assumes "plan_update file i existing draft = Inr (alias, color, tag)"
    and "es = cf_connections file" "ce_id e = i" "ce_mcp_alias e = alias"
  shows "alias_free e es"
  using assms by (cases "alias") (auto simp: plan_update_def alias_free_def ensure_handle_free Let_def split: sum.splits)

lemma purge_step: "set (entry_keyring_refs old) \<subseteq> K \<Longrightarrow> keys_step K s (purge_orphaned_secrets old new s)"
  unfolding purge_orphaned_secrets_def by (rule keys_step_mono [OF delete_keys_step]) auto

lemma delete_keys_other: "k \<notin> set rs \<Longrightarrow> ca_keys (delete_keys rs s) k = ca_keys s k"
  using delete_keys_step [of rs s] by (simp add: keys_step_def)

lemma update_kept:
  assumes "admin_ok toml s0" "faithful_codec toml" "recorded s0 applied s" "fst ` set applied \<subseteq> slots i"
    and "idx < length es" "es = cf_connections (ca_file s0)" "ce_id (es ! idx) = i" "ce_id e = i"
    and "entry_valid e" "minted_entry e" "alias_free e es"
    and "set (entry_keyring_refs e) \<subseteq> set (entry_keyring_refs (es ! idx)) \<union> fst ` set applied"
    and "new = (ca_file s0)\<lparr>cf_connections := es[idx := e]\<rparr>"
    and "file_save toml new s = (Inr u, t)"
  shows "sound toml i c s0 (Inr e) (purge_orphaned_secrets (es ! idx) e (t\<lparr>ca_file := new\<rparr>))"
proof -
  define s' where "s' = purge_orphaned_secrets (es ! idx) e (t\<lparr>ca_file := new\<rparr>)"
  have ok: "file_ok (ca_file s0)" "entries_ok es" "distinct (map ce_id es)"
    using assms(1,6) by (simp_all add: admin_ok_def file_ok_def entries_ok_def)
  have member: "es ! idx \<in> set es" using assms(5) by simp
  have "entries_ok (es[idx := e])"
    using entries_ok_update [OF ok(2) assms(5)] assms(7-11) by simp
  then have fine: "file_ok new" using ok(1) assms(13) by (simp add: file_ok_def)
  note saved = save_done [OF assms(14,2) fine]
  have old: "set (entry_keyring_refs (es ! idx)) \<subseteq> slots i"
    using entry_slots [OF ok(1)] member assms(6,7) by auto
  have purge: "keys_step (slots i) (t\<lparr>ca_file := new\<rparr>) s'"
    unfolding s'_def by (rule purge_step [OF old])
  have others: "ca_keys s' k = ca_keys s0 k" if "k \<notin> slots i" for k
  proof -
    have "k \<notin> fst ` set applied" using that assms(4) by blast
    then show ?thesis
      using that assms(3) saved(1) purge by (simp add: keys_step_def disk_step_def recorded_def)
  qed
  have "ca_keys s' k \<noteq> None" if x: "x \<in> set (es[idx := e])" and k: "k \<in> set (entry_keyring_refs x)" for x k
  proof (cases "x = e")
    case True
    have "ca_keys s k \<noteq> None"
    proof (cases "k \<in> fst ` set applied")
      case True
      then show ?thesis using assms(3) by (auto simp: recorded_def list_all_iff)
    next
      case False
      then have "k \<in> set (entry_keyring_refs (es ! idx))" using k assms(12) \<open>x = e\<close> by auto
      then have "ca_keys s0 k \<noteq> None"
        using assms(1,6) member by (auto simp: admin_ok_def backed_def list_all_iff)
      then show ?thesis using False assms(3) by (simp add: recorded_def keys_step_def)
    qed
    then have "ca_keys (t\<lparr>ca_file := new\<rparr>) k \<noteq> None" using saved(1) by (simp add: disk_step_def)
    then show ?thesis
      using k True delete_keys_other [of k "filter (\<lambda>r. r \<notin> set (entry_keyring_refs e)) (entry_keyring_refs (es ! idx))"]
      by (simp add: s'_def purge_orphaned_secrets_def)
  next
    case False
    then have mem: "x \<in> set es" using x set_update_subset_insert [of es idx e] by auto
    have "ce_id x \<noteq> i"
    proof
      assume "ce_id x = i"
      then have "x = es ! idx" using same_id_same_entry [OF ok(3) assms(5) mem] assms(7) by simp
      then show False using False x ok(3) assms(5) mem
        by (metis distinct_map in_set_conv_nth length_list_update nth_list_update_eq nth_list_update_neq nth_eq_iff_index_eq)
    qed
    moreover have "k \<in> slots (ce_id x)" using entry_slots [OF ok(1)] mem k assms(6) by auto
    ultimately have "k \<notin> slots i" using slots_disjoint by blast
    then show ?thesis
      using others mem k assms(1,6) by (auto simp: admin_ok_def backed_def list_all_iff)
  qed
  then have "backed s'"
    using purge assms(13) by (simp add: backed_def list_all_iff keys_step_def)
  then show ?thesis
    unfolding s'_def [symmetric]
    using purge fine others saved assms(3) keys_step_in_step [OF purge, of toml]
    by (simp add: sound_def admin_ok_def keys_step_def disk_step_def recorded_def)
qed


lemma admin_update_sound:
  assumes "admin_ok toml s" "faithful_codec toml" "admin_update toml i draft s = (r, s')"
  shows "sound toml i c s r s'"
proof (rule sync_sound [OF assms(1) _ assms(3) [unfolded admin_update_def]])
  fix s0 r s'
  assume s0: "admin_ok toml s0"
    and run: "(case find_index (ca_file s0) i of
         None \<Rightarrow> (Inl (No_Such_Connection i), s0)
       | Some idx \<Rightarrow>
           (let existing = cf_connections (ca_file s0) ! idx
            in case plan_update (ca_file s0) i existing draft of
                 Inl e \<Rightarrow> (Inl e, s0)
               | Inr (alias, color, tag) \<Rightarrow>
                   io_bind (apply_update_kind i (ce_kind existing) (ed_kind draft)) (\<lambda>(kind, applied) s.
                     if is_Set_Ssh (ed_ssh draft) \<and> \<not> supports_ssh_tunnel kind
                     then (Inl (Ssh_Unsupported_Kind i (adapter_label kind)), restore_applied applied s)
                     else case apply_update_ssh i (ed_ssh draft) (ce_ssh existing) applied s of
                       ((Inl e, applied), s) \<Rightarrow> (Inl e, restore_applied applied s)
                     | ((Inr ssh, applied), s) \<Rightarrow>
                         (let new_entry = \<lparr>ce_id = i, ce_name = ed_name draft, ce_kind = kind,
                                ce_mcp_write = (case ed_mcp_write draft of Some w \<Rightarrow> w | None \<Rightarrow> ce_mcp_write existing),
                                ce_mcp_alias = alias, ce_color = color, ce_tag = tag, ce_ssh = ssh\<rparr>;
                              new_file = (ca_file s)\<lparr>cf_connections := (cf_connections (ca_file s))[idx := new_entry]\<rparr>
                          in case file_save toml new_file s of
                               (Inl e, s) \<Rightarrow> (Inl e, restore_applied applied s)
                             | (Inr _, s) \<Rightarrow>
                                 (Inr new_entry, purge_orphaned_secrets existing new_entry (s\<lparr>ca_file := new_file\<rparr>)))) s0)) = (r, s')"
  define es where "es = cf_connections (ca_file s0)"
  have step: "in_step toml s0" using s0 by (simp add: admin_ok_def)
  show "sound toml i c s0 r s'"
  proof (cases "\<exists>idx a color tag. find_index (ca_file s0) i = Some idx \<and>
      plan_update (ca_file s0) i (es ! idx) draft = Inr (a, color, tag)")
    case False
    then have "s' = s0 \<and> (\<exists>e. r = Inl e)"
      using run by (auto simp: Let_def es_def split: option.splits sum.splits)
    then show ?thesis using sound_same [OF s0] by auto
  next
    case True
    then obtain idx a color tag where find: "find_index (ca_file s0) i = Some idx"
      and plan: "plan_update (ca_file s0) i (es ! idx) draft = Inr (a, color, tag)" by blast
    define existing where "existing = es ! idx"
    have idx: "idx < length es" "ce_id existing = i" "existing \<in> set es"
      using find_index_Some [OF find] by (simp_all add: es_def existing_def)
    have ok: "minted_entry existing" "entry_valid existing"
      using s0 idx(3) by (simp_all add: admin_ok_def file_ok_def entries_ok_def list_all_iff es_def)
    obtain k s1 where k: "apply_update_kind i (ce_kind existing) (ed_kind draft) s0 = (k, s1)"
      by (cases "apply_update_kind i (ce_kind existing) (ed_kind draft) s0")
    show ?thesis
    proof (cases "plan_kind_edit i (ce_kind existing) (ed_kind draft)")
      case (Inl e)
      then have "s' = s0 \<and> r = Inl e"
        using run find plan by (simp add: Let_def es_def [symmetric] existing_def [symmetric] io_bind_def
            apply_update_kind_def io_of_def)
      then show ?thesis using sound_same [OF s0] by simp
    next
      case (Inr p)
      obtain kind w where p: "p = (kind, w)" by (cases p)
      obtain b s2 where b: "apply_optional_write w s0 = (b, s2)" by (cases "apply_optional_write w s0")
      note first = recorded_optional [OF b recorded_Nil, simplified]
      have minted: "minted_kind i (ce_kind existing)" "pred_option (minted_ssh i) (ce_ssh existing)"
        using ok(1) idx(2) by (simp_all add: minted_entry_def)
      note edit = plan_kind_edit_ok [OF Inr [unfolded p] minted(1)]
      show ?thesis
      proof (cases b)
        case (Inl e)
        then have q: "s' = s2" "r = Inl e"
          using run find plan b \<open>plan_kind_edit i (ce_kind existing) (ed_kind draft) = Inr p\<close> p
          by (simp_all add: Let_def es_def [symmetric] existing_def [symmetric] io_bind_def apply_update_kind_def)
        have "recorded s0 [] s2" using first(1) Inl by simp
        moreover have "in_step toml s2"
          using calculation step keys_step_in_step [of "{}" s0 s2 toml] by (simp add: recorded_def)
        ultimately show ?thesis
          using update_taken_back [OF s0, of "[]" s2 i s2 c e] q by (simp add: disk_step_def)
      next
        case (Inr applied)
        have rec: "recorded s0 applied s2" "fst ` set applied = fst ` set_option w"
          using first(2) Inr by simp_all
        have one: "fst ` set applied \<subseteq> {keyring_ref i (kind_field (ce_kind existing))}" using rec(2) edit(3) by simp
        have in_slots: "fst ` set applied \<subseteq> slots i"
          using one slots_field [OF kind_field_secret [of "ce_kind existing"], of i] by auto
        have in_step: "in_step toml s2" if "recorded s0 ap s2" for ap s2
          using that step keys_step_in_step [of "fst ` set ap" s0 s2 toml] by (simp add: recorded_def)
        have run2: "(if is_Set_Ssh (ed_ssh draft) \<and> \<not> supports_ssh_tunnel kind
            then (Inl (Ssh_Unsupported_Kind i (adapter_label kind)), restore_applied applied s2)
            else case apply_update_ssh i (ed_ssh draft) (ce_ssh existing) applied s2 of
              ((Inl e, applied), s) \<Rightarrow> (Inl e, restore_applied applied s)
            | ((Inr ssh, applied), s) \<Rightarrow>
                (let new_entry = \<lparr>ce_id = i, ce_name = ed_name draft, ce_kind = kind,
                       ce_mcp_write = (case ed_mcp_write draft of Some w \<Rightarrow> w | None \<Rightarrow> ce_mcp_write existing),
                       ce_mcp_alias = a, ce_color = color, ce_tag = tag, ce_ssh = ssh\<rparr>;
                     new_file = (ca_file s)\<lparr>cf_connections := (cf_connections (ca_file s))[idx := new_entry]\<rparr>
                 in case file_save toml new_file s of
                      (Inl e, s) \<Rightarrow> (Inl e, restore_applied applied s)
                    | (Inr _, s) \<Rightarrow>
                        (Inr new_entry, purge_orphaned_secrets existing new_entry (s\<lparr>ca_file := new_file\<rparr>)))) = (r, s')"
          using run find plan b Inr \<open>plan_kind_edit i (ce_kind existing) (ed_kind draft) = Inr p\<close> p
          by (simp add: Let_def es_def [symmetric] existing_def [symmetric] io_bind_def apply_update_kind_def io_of_def
              cong: if_cong)
        show ?thesis
        proof (cases "is_Set_Ssh (ed_ssh draft) \<and> \<not> supports_ssh_tunnel kind")
          case True
          then have "s' = restore_applied applied s2" "\<exists>e. r = Inl e" using run2 by auto
          then show ?thesis
            using update_taken_back [OF s0 rec(1) in_slots _ in_step [OF rec(1)], where c = c] by (auto simp: disk_step_def)
        next
          case False
          obtain q applied' s3 where ssh: "apply_update_ssh i (ed_ssh draft) (ce_ssh existing) applied s2 = ((q, applied'), s3)"
            by (metis prod.collapse)
          note tunnel = apply_update_ssh_ok [OF ssh rec(1) minted(2) one]
          show ?thesis
          proof (cases q)
            case (Inl e)
            then have "s' = restore_applied applied' s3" "r = Inl e" using run2 False ssh by auto
            then show ?thesis
              using update_taken_back [OF s0 tunnel(1,2) _ in_step [OF tunnel(1)], where c = c and e = e]
              by (simp add: disk_step_def)
          next
            case (Inr t)
            define e where "e = \<lparr>ce_id = i, ce_name = ed_name draft, ce_kind = kind,
                       ce_mcp_write = (case ed_mcp_write draft of Some w \<Rightarrow> w | None \<Rightarrow> ce_mcp_write existing),
                       ce_mcp_alias = a, ce_color = color, ce_tag = tag, ce_ssh = t\<rparr>"
            define new where "new = (ca_file s0)\<lparr>cf_connections := es[idx := e]\<rparr>"
            have held: "ca_file s3 = ca_file s0" using tunnel(1) by (simp add: recorded_def keys_step_def)
            obtain v s4 where v: "file_save toml new s3 = (v, s4)" by (cases "file_save toml new s3")
            have run3: "(case v of
                Inl x \<Rightarrow> (Inl x, restore_applied applied' s4)
              | Inr _ \<Rightarrow> (Inr e, purge_orphaned_secrets existing e (s4\<lparr>ca_file := new\<rparr>))) = (r, s')"
              using run2 False ssh Inr v
              by (simp only: if_False prod.case sum.case Let_def e_def [symmetric] held es_def [symmetric] new_def [symmetric])
            show ?thesis
            proof (cases v)
              case (Inl x)
              then have "s' = restore_applied applied' s4" "r = Inl x" using run3 v by auto
              then show ?thesis
                using update_taken_back [OF s0 tunnel(1,2) save_failed [OF v [unfolded Inl] in_step [OF tunnel(1)]]]
                by simp
            next
              case (Inr u)
              have t: "pred_option (minted_ssh i) t" "fst ` set applied \<subseteq> fst ` set applied'"
                  "ssh_refs_of t \<subseteq> ssh_refs_of (ce_ssh existing) \<union> fst ` set applied'"
                  "t = ce_ssh existing \<or> is_Set_Ssh (ed_ssh draft) \<and> pred_option (\<lambda>t. ssh_validate t = Inr ()) t \<or> t = None"
                using tunnel(3) [OF \<open>q = Inr t\<close>] by simp_all
              have "entry_valid e"
                using t(4) ok(2) edit(2) False by (auto simp: entry_valid_def e_def option.pred_set)
              moreover have "minted_entry e" using t(1) edit(1) by (simp add: minted_entry_def e_def)
              moreover have "alias_free e es"
                by (rule plan_update_alias [OF plan]) (simp_all add: es_def e_def)
              moreover have "set (entry_keyring_refs e) \<subseteq> set (entry_keyring_refs existing) \<union> fst ` set applied'"
                using edit(4) t(2,3) rec(2) unfolding entry_refs_split by (auto simp: e_def)
              moreover have "r = Inr e" "s' = purge_orphaned_secrets existing e (s4\<lparr>ca_file := new\<rparr>)"
                using run3 v Inr by auto
              ultimately show ?thesis
                using update_kept [OF s0 assms(2) tunnel(1,2) idx(1) es_def _ _ _ _ _ _ new_def v [unfolded Inr]]
                  idx(2) by (simp add: existing_def e_def)
            qed
          qed
        qed
      qed
    qed
  qed
qed

end
