(* ===== verification/Connection_Properties.thy ===== *)
theory Connection_Properties
  imports Connection_Update
begin

text \<open>
  What the connection admin promises: the calls a program makes are one datatype, and whatever call
  meets whatever failures of the disk and the keyring, the secrets of other connections stay, the store
  stays well-formed, and a call that fails leaves nothing behind.
\<close>

section \<open>Calls\<close>

datatype admin_call =
    Call_Add connection_draft
  | Call_Update string connection_edit_draft
  | Call_Delete string
  | Call_Move string nat
  | Call_Mark string "string option" "string option"
  | Call_Duplicate string string string
  | Call_Repair string string string

fun call_target :: "admin_call \<Rightarrow> string" where
  "call_target (Call_Add draft) = cd_id draft"
| "call_target (Call_Update i _) = i"
| "call_target (Call_Delete i) = i"
| "call_target (Call_Move i _) = i"
| "call_target (Call_Mark i _ _) = i"
| "call_target (Call_Duplicate _ new_id _) = new_id"
| "call_target (Call_Repair i _ _) = i"

fun call_creates :: "admin_call \<Rightarrow> bool" where
  "call_creates (Call_Add _) = True"
| "call_creates (Call_Duplicate _ _ _) = True"
| "call_creates _ = False"

definition forget :: "'a admin_op \<Rightarrow> unit admin_op" where
  "forget f = io_bind f (\<lambda>_. io_of (Inr ()))"

fun perform :: "connection_file codec \<Rightarrow> admin_call \<Rightarrow> unit admin_op" where
  "perform toml (Call_Add draft) = forget (admin_add toml draft)"
| "perform toml (Call_Update i draft) = forget (admin_update toml i draft)"
| "perform toml (Call_Delete i) = admin_delete toml i"
| "perform toml (Call_Move i index) = admin_move_to toml i index"
| "perform toml (Call_Mark i color tag) = admin_set_mark toml i color tag"
| "perform toml (Call_Duplicate i new_id name) = forget (admin_duplicate toml i new_id name)"
| "perform toml (Call_Repair i key_ref secret) = admin_repair_foreign_ref toml i key_ref secret"

text \<open>A session: call after call, failed or not.\<close>

fun run_calls :: "connection_file codec \<Rightarrow> admin_call list \<Rightarrow> connection_admin \<Rightarrow> connection_admin" where
  "run_calls toml [] s = s"
| "run_calls toml (call # calls) s = run_calls toml calls (snd (perform toml call s))"

lemma forget_sound:
  assumes "forget f s = (r, s')" "\<And>r s'. f s = (r, s') \<Longrightarrow> sound toml i c s r s'"
  shows "sound toml i c s r s'"
proof -
  obtain q t where q: "f s = (q, t)" by (cases "f s")
  then have "s' = t" "\<And>e. r = Inl e \<Longrightarrow> q = Inl e"
    using assms(1) by (cases q; auto simp: forget_def io_bind_def io_of_def)+
  then show ?thesis using assms(2) [OF q] by (simp add: sound_def)
qed

lemma perform_sound:
  assumes "admin_ok toml s" "faithful_codec toml" "perform toml call s = (r, s')"
    and "c \<longrightarrow> call_creates call \<longrightarrow> fresh_slots (call_target call) s"
  shows "sound toml (call_target call) c s r s'"
proof (cases call)
  case (Call_Add draft)
  have "forget (admin_add toml draft) s = (r, s')" using assms(3) Call_Add by simp
  then have "sound toml (cd_id draft) c s r s'"
    by (rule forget_sound) (rule admin_add_sound [OF assms(1,2)], use assms(4) Call_Add in simp_all)
  then show ?thesis using Call_Add by simp
next
  case (Call_Update i draft)
  have "forget (admin_update toml i draft) s = (r, s')" using assms(3) Call_Update by simp
  then have "sound toml i c s r s'" by (rule forget_sound) (rule admin_update_sound [OF assms(1,2)])
  then show ?thesis using Call_Update by simp
next
  case (Call_Duplicate i new_id name)
  have "forget (admin_duplicate toml i new_id name) s = (r, s')" using assms(3) Call_Duplicate by simp
  then have "sound toml new_id c s r s'"
    by (rule forget_sound) (rule admin_duplicate_sound [OF assms(1,2)], use assms(4) Call_Duplicate in simp_all)
  then show ?thesis using Call_Duplicate by simp
qed (use assms admin_delete_sound admin_move_to_sound admin_set_mark_sound admin_repair_sound in simp_all)

section \<open>Other connections\<close>


section \<open>Runs\<close>


section \<open>Failures\<close>

text \<open>C18. A call that answers with an error has changed nothing that lasts: the connections in memory
  and the connections a fresh start would read from disk are those before the call, and as long as the
  keyring itself answers (the error came from the draft, the disk or the file), every slot of the
  keyring holds what it held, so no secret of the failed call stays and none is lost. A call that
  creates a connection needs the slots of its new id to be empty for that.\<close>

theorem failed_call_leaves_no_trace:
  assumes "admin_ok toml s" "faithful_codec toml" "perform toml call s = (Inl e, s')"
    and "call_creates call \<Longrightarrow> fresh_slots (call_target call) s"
  shows "ca_file s' = ca_file s \<and> (ca_tracks_disk s \<longrightarrow> stored toml s' = stored toml s) \<and>
     (ca_key_faults s = [] \<longrightarrow> ca_keys s' = ca_keys s)"
proof -
  have "sound toml (call_target call) True s (Inl e :: config_error + unit) s'"
    by (rule perform_sound [OF assms(1-3)]) (use assms(4) in simp)
  then show ?thesis using assms(1) by (simp add: sound_def admin_ok_def in_step_def)
qed

section \<open>Witnesses\<close>

definition sample_draft :: connection_draft where
  "sample_draft = \<lparr>cd_id = ''b'', cd_name = ''B'', cd_kind = Draft_Postgres ''u'', cd_ssh = None,
     cd_mcp_write = False, cd_mcp_alias = None, cd_color = None, cd_tag = None\<rparr>"

definition sample_entry :: connection_entry where
  "sample_entry = \<lparr>ce_id = ''a'', ce_name = ''A'', ce_kind = Neon (keyring_ref ''a'' ''url''), ce_mcp_write = False,
     ce_mcp_alias = None, ce_color = None, ce_tag = None, ce_ssh = None\<rparr>"

definition added_entry :: connection_entry where
  "added_entry = \<lparr>ce_id = ''b'', ce_name = ''B'', ce_kind = Postgres (keyring_ref ''b'' ''url''), ce_mcp_write = False,
     ce_mcp_alias = None, ce_color = None, ce_tag = None, ce_ssh = None\<rparr>"

definition sample_file :: "connection_entry list \<Rightarrow> connection_file" where
  "sample_file es = connections_empty\<lparr>cf_connections := es\<rparr>"

text \<open>A codec for the files with the sample entry, alone or followed by the added one.\<close>

definition sample_codec :: "connection_file codec" where
  "sample_codec = \<lparr>to_text = (\<lambda>g. if g = sample_file [sample_entry] then Inr ''x''
       else if g = sample_file [sample_entry, added_entry] then Inr ''y'' else Inl ''unknown''),
     of_text = (\<lambda>t. Inr (sample_file (if t = ''x'' then [sample_entry] else [sample_entry, added_entry])))\<rparr>"

definition sample_admin :: connection_admin where
  "sample_admin = \<lparr>ca_path = \<lparr>fp_parent = Some ''d'', fp_name = Some ''c''\<rparr>, ca_file = sample_file [sample_entry],
     ca_tracks_disk = True, ca_disk = restart [\<lparr>fp_parent = Some ''d'', fp_name = Some ''c''\<rparr> \<mapsto> ''x''],
     ca_keys = [keyring_ref ''a'' ''url'' \<mapsto> ''secret''], ca_key_faults = []\<rparr>"

lemma sample_codec_faithful: "faithful_codec sample_codec"
  by (auto simp: faithful_codec_def sample_codec_def)

lemma sample_entry_ok: "entry_valid sample_entry \<and> minted_entry sample_entry"
  by (simp add: sample_entry_def entry_valid_def minted_entry_def minted_kind_def)

lemma sample_ok: "admin_ok sample_codec sample_admin"
proof -
  have good: "file_ok (sample_file [sample_entry])"
    using sample_entry_ok
    by (simp add: file_ok_def sample_file_def connections_empty_def entries_ok_def handles_free_def)
  have "connections_parse sample_codec ''x'' = Inr (sample_file [sample_entry])"
    using file_ok_valid [OF good] by (simp add: connections_parse_ok sample_codec_def)
  then have "in_step sample_codec sample_admin"
    by (simp add: in_step_def stored_cases sample_admin_def restart_def)
  moreover have "backed sample_admin"
    by (simp add: backed_def sample_admin_def sample_file_def sample_entry_def entry_keyring_refs_def)
  ultimately show ?thesis using good by (simp add: admin_ok_def sample_admin_def)
qed

lemma sample_added:
  "cf_connections (ca_file (snd (perform sample_codec (Call_Add sample_draft) sample_admin))) = [sample_entry, added_entry]"
  by code_simp



theorem failed_call_leaves_no_trace_witness:
  "ca_keys (snd (perform sample_codec (Call_Delete ''a'') sample_admin)) (keyring_ref ''a'' ''url'') = Some ''secret''"
proof -
  obtain r s' where run: "perform sample_codec (Call_Delete ''a'') sample_admin = (r, s')"
    by (cases "perform sample_codec (Call_Delete ''a'') sample_admin")
  have "isl (fst (perform sample_codec (Call_Delete ''a'') sample_admin))" by code_simp
  then obtain e where "r = Inl e" using run by (cases r) auto
  then have "ca_key_faults sample_admin = [] \<longrightarrow> ca_keys s' = ca_keys sample_admin"
    using failed_call_leaves_no_trace [OF sample_ok sample_codec_faithful, of "Call_Delete ''a''" e s'] run by simp
  then show ?thesis using run by (simp add: sample_admin_def)
qed

end
