(* ===== verification/Connection_Import.thy ===== *)
theory Connection_Import
  imports Connection_Properties
begin

text \<open>
  Importing a bundle into a store: what the plan accepts keeps to references nobody else owns, so the
  secrets of the connections that are not overwritten stay, and a bundle exported from a store carries
  it whole into an empty one.
\<close>

section \<open>The plan\<close>

lemma owners_of_Some:
  assumes "e \<in> set es" "k \<in> set (entry_keyring_refs e)"
    and "\<And>x. x \<in> set es \<Longrightarrow> k \<in> set (entry_keyring_refs x) \<Longrightarrow> ce_id x = ce_id e"
  shows "owners_of es k = Some (ce_id e)"
proof -
  let ?pairs = "rev (concat (map (\<lambda>x. map (\<lambda>r. (r, ce_id x)) (entry_keyring_refs x)) es))"
  have "(k, ce_id e) \<in> set ?pairs" using assms(1,2) by auto
  then have "fst (k, ce_id e) \<in> fst ` set ?pairs" by (rule imageI)
  then have "map_of ?pairs k \<noteq> None" unfolding map_of_eq_None_iff by simp
  then obtain v where v: "map_of ?pairs k = Some v" by blast
  then have "(k, v) \<in> set ?pairs" by (rule map_of_SomeD)
  then obtain x where "x \<in> set es" "k \<in> set (entry_keyring_refs x)" "v = ce_id x" by auto
  then have "v = ce_id e" using assms(3) by simp
  then show ?thesis using v by (simp add: owners_of_def)
qed

lemma import_collision_None:
  "import_collision owners x = None \<longleftrightarrow> (\<forall>r\<in>set (entry_keyring_refs x). owners r = None \<or> owners r = Some (ce_id x))"
  unfolding import_collision_def find_map_None
  by (rule ball_cong) (auto split: option.split)

definition applied_ids :: "import_plan \<Rightarrow> string list" where
  "applied_ids plan = map (ce_id \<circ> snd) (ip_apply plan)"

definition plan_ok :: "connection_file \<Rightarrow> import_mode \<Rightarrow> import_plan \<Rightarrow> bool" where
  "plan_ok store mode plan \<longleftrightarrow> distinct (applied_ids plan) \<and> set (applied_ids plan) \<subseteq> set (ip_accepted plan) \<and>
     (\<forall>(slot, x)\<in>set (ip_apply plan). slot = find_index store (ce_id x) \<and>
        (slot \<noteq> None \<longrightarrow> mode \<noteq> Skip \<and> ce_id x \<in> set (ir_overwritten (ip_report plan))) \<and>
        (\<forall>r\<in>set (entry_keyring_refs x). ip_owners plan r = Some (ce_id x))) \<and>
     (\<forall>k\<in>fst ` set (ip_writes plan). \<exists>(slot, x)\<in>set (ip_apply plan). k \<in> set (entry_keyring_refs x))"

lemma import_entry_cases:
  obtains (passed) report where "import_entry store mode secrets plan x = plan\<lparr>ip_report := report\<rparr>"
      "set (ir_overwritten report) = set (ir_overwritten (ip_report plan))"
  | (accepted) "ce_id x \<notin> set (ip_accepted plan)" "find_index store (ce_id x) \<noteq> None \<longrightarrow> mode \<noteq> Skip"
      "import_collision (ip_owners plan) x = None"
      "import_entry store mode secrets plan x = plan\<lparr>ip_accepted := ip_accepted plan @ [ce_id x],
         ip_owners := (\<lambda>r. if r \<in> set (entry_keyring_refs x) then Some (ce_id x) else ip_owners plan r),
         ip_report := (if find_index store (ce_id x) \<noteq> None
           then (ip_report plan)\<lparr>ir_overwritten := ir_overwritten (ip_report plan) @ [ce_id x]\<rparr>
           else (ip_report plan)\<lparr>ir_imported := ir_imported (ip_report plan) @ [ce_id x]\<rparr>),
         ip_apply := ip_apply plan @ [(find_index store (ce_id x), x)],
         ip_writes := ip_writes plan @
           concat (map (\<lambda>r. opt_list (map_option (\<lambda>v. (r, v)) (map_of secrets r))) (entry_keyring_refs x))\<rparr>"
proof -
  show ?thesis
  proof (cases "ce_id x \<in> set (ip_accepted plan)")
    case True
    then show ?thesis
      by (intro passed [of "(ip_report plan)\<lparr>ir_duplicate_in_bundle := ir_duplicate_in_bundle (ip_report plan) @ [ce_id x]\<rparr>"])
        (simp_all add: import_entry_def Let_def)
  next
    case False
    note new = False
    show ?thesis
    proof (cases "find_index store (ce_id x) \<noteq> None \<and> mode = Skip")
      case True
      then show ?thesis
        by (intro passed [of "(ip_report plan)\<lparr>ir_skipped_existing := ir_skipped_existing (ip_report plan) @ [ce_id x]\<rparr>"])
          (use new in \<open>simp_all add: import_entry_def Let_def\<close>)
    next
      case False
      show ?thesis
      proof (cases "import_collision (ip_owners plan) x")
        case None
        show ?thesis
        proof (rule accepted)
          show "find_index store (ce_id x) \<noteq> None \<longrightarrow> mode \<noteq> Skip" using False by blast
        qed (use new False None in \<open>auto simp: import_entry_def Let_def\<close>)
      next
        case (Some p)
        obtain k i where p: "p = (k, i)" by (cases p)
        show ?thesis
          by (intro passed [of "(ip_report plan)\<lparr>ir_refused := ir_refused (ip_report plan) @
            [\<lparr>re_id = ce_id x, re_key_ref = k, re_owner = i\<rparr>]\<rparr>"])
            (use new False Some p in \<open>simp_all add: import_entry_def Let_def\<close>)
      qed
    qed
  qed
qed

lemma import_entry_ok:
  assumes "plan_ok store mode plan"
  shows "plan_ok store mode (import_entry store mode secrets plan x)"
    "ip_owners plan r = Some i \<Longrightarrow> ip_owners (import_entry store mode secrets plan x) r = Some i"
proof -
  show "plan_ok store mode (import_entry store mode secrets plan x)"
  proof (cases rule: import_entry_cases [of store mode secrets plan x])
    case (passed report)
    then show ?thesis using assms by (simp add: plan_ok_def applied_ids_def)
  next
    case accepted
    have kept: "ip_owners plan r = Some i \<Longrightarrow> r \<in> set (entry_keyring_refs x) \<Longrightarrow> ce_id x = i" for r i
      using accepted(3) by (auto simp: import_collision_None)
    show ?thesis
      unfolding accepted(4) using assms accepted(1,2) kept
      by (fastforce simp: plan_ok_def applied_ids_def opt_list_def split: option.splits if_splits)
  qed
  show "ip_owners (import_entry store mode secrets plan x) r = Some i" if "ip_owners plan r = Some i"
  proof (cases rule: import_entry_cases [of store mode secrets plan x])
    case (passed report)
    then show ?thesis using that by simp
  next
    case accepted
    then show ?thesis using that by (auto simp: import_collision_None)
  qed
qed

lemma plan_import_ok:
  "plan_ok store mode (plan_import store mode secrets xs)"
  "owners_of (cf_connections store) r = Some i \<Longrightarrow> ip_owners (plan_import store mode secrets xs) r = Some i"
proof -
  have "plan_ok store mode plan \<and> ip_owners plan r = o0 \<Longrightarrow> plan_ok store mode (foldl (import_entry store mode secrets) plan xs) \<and>
      (\<forall>i. o0 = Some i \<longrightarrow> ip_owners (foldl (import_entry store mode secrets) plan xs) r = Some i)" for plan o0
  proof (induction xs arbitrary: plan o0)
    case (Cons x xs)
    then show ?case using import_entry_ok [where store = store and mode = mode and plan = plan and secrets = secrets and x = x] Cons.IH [of "import_entry store mode secrets plan x"]
      by (cases o0) auto
  qed simp
  from this [of "\<lparr>ip_accepted = [], ip_owners = owners_of (cf_connections store), ip_report = import_report_default,
        ip_apply = [], ip_writes = []\<rparr>" "owners_of (cf_connections store) r"]
  show "plan_ok store mode (plan_import store mode secrets xs)"
    "owners_of (cf_connections store) r = Some i \<Longrightarrow> ip_owners (plan_import store mode secrets xs) r = Some i"
    by (simp_all add: plan_ok_def applied_ids_def plan_import_def)
qed

section \<open>Carrying the plan out\<close>

lemma import_secrets_step:
  "import_secrets ws undo s = (r, s') \<Longrightarrow> keys_step (fst ` set ws \<union> fst ` set undo) s s' \<and>
     (\<forall>u. r = Inr u \<longrightarrow> fst ` set u = fst ` set ws \<union> fst ` set undo)"
proof (induction ws arbitrary: undo s)
  case (Cons w ws)
  obtain k v where w: "w = (k, v)" by (cases w)
  obtain g s1 where g: "key_get k s = (g, s1)" by (cases "key_get k s")
  obtain b s2 where b: "key_set k v s1 = (b, s2)" by (cases "key_set k v s1")
  have step: "keys_step {k} s s2"
    using keys_step_trans [OF key_get_step(1) [OF g] key_set_step(1) [OF b]] by simp
  show ?case
  proof (cases b)
    case (Inl e)
    then have "s' = restore_applied undo s2" "r = Inl (Config_Secret e)"
      using Cons.prems w g b by (simp_all add: rollback_secret_writes_def)
    then show ?thesis
      using keys_step_trans [OF step restore_applied_step [of undo s2]]
      by (auto intro: keys_step_mono simp: w)
  next
    case (Inr u)
    define undo' where "undo' = undo @ [(k, (case g of Inr old \<Rightarrow> Some old | Inl _ \<Rightarrow> None))]"
    have "import_secrets ws undo' s2 = (r, s')" using Cons.prems w g b Inr by (simp add: undo'_def)
    from Cons.IH [OF this] have ih: "keys_step (fst ` set ws \<union> fst ` set undo') s2 s'"
        "\<forall>u. r = Inr u \<longrightarrow> fst ` set u = fst ` set ws \<union> fst ` set undo'" by simp_all
    have "fst ` set undo' = insert k (fst ` set undo)" by (simp add: undo'_def)
    then show ?thesis
      using keys_step_trans [OF step ih(1)] ih(2) by (auto intro: keys_step_mono simp: w)
  qed
qed auto

lemma insert_moves: "R \<subseteq> insert p A \<union> B \<Longrightarrow> B \<subseteq> C \<Longrightarrow> R \<subseteq> A \<union> insert p C"
  by blast

lemma apply_slots_spec:
  "apply_slots ap es rep = (es', rep') \<Longrightarrow>
     (\<forall>(slot, x)\<in>set ap. \<forall>i. slot = Some i \<longrightarrow> i < n) \<Longrightarrow> n \<le> length es \<Longrightarrow>
     distinct (filter (\<lambda>s. s \<noteq> None) (map fst ap)) \<Longrightarrow>
     length es \<le> length es' \<and> (\<forall>j < length es. Some j \<notin> fst ` set ap \<longrightarrow> es' ! j = es ! j) \<and>
     set rep' \<subseteq> set rep \<union> {(j, es ! j) |j. Some j \<in> fst ` set ap}"
proof (induction ap es rep arbitrary: rule: apply_slots.induct)
  case (1 es rep)
  then show ?case by auto
next
  case (2 idx x ap es rep)
  have "apply_slots ap (es[idx := x]) (rep @ [(idx, es ! idx)]) = (es', rep')" using "2.prems"(1) by simp
  moreover have "Some idx \<notin> fst ` set ap" using "2.prems"(4) by auto
  ultimately have ih: "length es \<le> length es'" "\<forall>j < length es. Some j \<notin> fst ` set ap \<longrightarrow> es' ! j = es[idx := x] ! j"
      "set rep' \<subseteq> set (rep @ [(idx, es ! idx)]) \<union> {(j, es[idx := x] ! j) |j. Some j \<in> fst ` set ap}"
    using "2.IH" "2.prems"(2-4) by auto
  have kept: "{(j, es[idx := x] ! j) |j. Some j \<in> fst ` set ap} \<subseteq> {(j, es ! j) |j. Some j \<in> fst ` set ap}"
  proof
    fix p
    assume "p \<in> {(j, es[idx := x] ! j) |j. Some j \<in> fst ` set ap}"
    then obtain j where j: "p = (j, es[idx := x] ! j)" "Some j \<in> fst ` set ap" by blast
    then have "j \<noteq> idx" using \<open>Some idx \<notin> fst ` set ap\<close> by auto
    then show "p \<in> {(j, es ! j) |j. Some j \<in> fst ` set ap}" using j by auto
  qed
  have slots: "{(j, es ! j) |j. Some j \<in> fst ` set ((Some idx, x) # ap)} =
      insert (idx, es ! idx) {(j, es ! j) |j. Some j \<in> fst ` set ap}" by auto
  have pairs: "set (rep @ [(idx, es ! idx)]) = insert (idx, es ! idx) (set rep)" by simp
  have "set rep' \<subseteq> set rep \<union> {(j, es ! j) |j. Some j \<in> fst ` set ((Some idx, x) # ap)}"
    unfolding slots by (rule insert_moves [OF ih(3) [unfolded pairs] kept])
  moreover have "\<forall>j < length es. Some j \<notin> fst ` set ((Some idx, x) # ap) \<longrightarrow> es' ! j = es ! j"
  proof (intro allI impI)
    fix j
    assume "j < length es" "Some j \<notin> fst ` set ((Some idx, x) # ap)"
    then have "es' ! j = es[idx := x] ! j" "j \<noteq> idx" using ih(2) by auto
    then show "es' ! j = es ! j" by simp
  qed
  ultimately show ?case using ih(1) by blast
next
  case (3 x ap es rep)
  have "apply_slots ap (es @ [x]) rep = (es', rep')" using "3.prems"(1) by simp
  then have ih: "length (es @ [x]) \<le> length es'" "\<forall>j < length (es @ [x]). Some j \<notin> fst ` set ap \<longrightarrow> es' ! j = (es @ [x]) ! j"
      "set rep' \<subseteq> set rep \<union> {(j, (es @ [x]) ! j) |j. Some j \<in> fst ` set ap}"
    using "3.IH" "3.prems"(2-4) by auto
  have "{(j, (es @ [x]) ! j) |j. Some j \<in> fst ` set ap} \<subseteq> {(j, es ! j) |j. Some j \<in> fst ` set ap}"
    using "3.prems"(2,3) by (force simp: nth_append)
  with ih(3) have "set rep' \<subseteq> set rep \<union> {(j, es ! j) |j. Some j \<in> fst ` set ap}" by (rule subset_trans [OF _ Un_mono [OF order_refl]])
  then have "set rep' \<subseteq> set rep \<union> {(j, es ! j) |j. Some j \<in> fst ` set ((None, x) # ap)}" by simp
  moreover have "\<forall>j < length es. Some j \<notin> fst ` set ((None, x) # ap) \<longrightarrow> es' ! j = es ! j"
    using ih(2) by (simp add: nth_append)
  ultimately show ?case using ih(1) by simp
qed

lemma purge_replaced_step:
  "keys_step (\<Union>(j, x)\<in>set rep. set (entry_keyring_refs x)) s (purge_replaced store rep s)"
proof (induction store rep s rule: purge_replaced.induct)
  case (2 store idx old_entry rep s)
  have "keys_step (set (entry_keyring_refs old_entry)) s
      (purge_orphaned_secrets old_entry (cf_connections store ! idx) s)"
    by (rule purge_step) simp
  note both = keys_step_trans [OF this "2.IH"]
  have "set (entry_keyring_refs old_entry) \<union> (\<Union>(j, x)\<in>set rep. set (entry_keyring_refs x)) \<subseteq>
      (\<Union>(j, x)\<in>set ((idx, old_entry) # rep). set (entry_keyring_refs x))" by simp
  from keys_step_mono [OF both this] show ?case by (simp only: purge_replaced.simps)
qed simp


section \<open>Other connections\<close>

lemma find_index_at:
  "distinct (map ce_id (cf_connections store)) \<Longrightarrow> j < length (cf_connections store) \<Longrightarrow>
     find_index store i = Some j \<longleftrightarrow> ce_id (cf_connections store ! j) = i"
proof
  assume d: "distinct (map ce_id (cf_connections store))" "j < length (cf_connections store)"
    and j: "ce_id (cf_connections store ! j) = i"
  then have "find_index store i \<noteq> None" by (auto simp: find_index_None)
  then obtain n where n: "find_index store i = Some n" by blast
  from find_index_Some [OF n] have "n = j"
    using d j by (metis distinct_conv_nth length_map nth_map)
  with n show "find_index store i = Some j" by simp
qed (simp add: find_index_Some)

text \<open>Only connections reported as overwritten lose a slot.\<close>

lemma plan_spares:
  assumes "file_ok store" "e \<in> set (cf_connections store)" "plan = plan_import store mode secrets xs"
    and "mode = Skip \<or> ce_id e \<notin> set (ir_overwritten (ip_report plan))"
  shows "\<And>k. k \<in> set (entry_keyring_refs e) \<Longrightarrow> k \<notin> fst ` set (ip_writes plan)"
    "\<And>j x. (Some j, x) \<in> set (ip_apply plan) \<Longrightarrow> cf_connections store ! j \<noteq> e"
proof -
  have ok: "plan_ok store mode plan" using plan_import_ok(1) assms(3) by simp
  have distinct: "distinct (map ce_id (cf_connections store))"
    using assms(1) by (simp add: file_ok_def entries_ok_def)
  have not_mine: "ce_id x \<noteq> ce_id e" if "(slot, x) \<in> set (ip_apply plan)" for slot x
  proof
    assume same: "ce_id x = ce_id e"
    have "find_index store (ce_id e) \<noteq> None" using assms(2) by (simp add: find_index_None)
    then show False using ok that same assms(4) by (fastforce simp: plan_ok_def)
  qed
  show "k \<notin> fst ` set (ip_writes plan)" if k: "k \<in> set (entry_keyring_refs e)" for k
  proof
    assume "k \<in> fst ` set (ip_writes plan)"
    then obtain slot x where x: "(slot, x) \<in> set (ip_apply plan)" "k \<in> set (entry_keyring_refs x)"
      using ok unfolding plan_ok_def by blast
    then have "ip_owners plan k = Some (ce_id x)" using ok unfolding plan_ok_def by blast
    moreover have "owners_of (cf_connections store) k = Some (ce_id e)"
    proof (rule owners_of_Some [OF assms(2) k])
      fix x
      assume "x \<in> set (cf_connections store)" "k \<in> set (entry_keyring_refs x)"
      then have "k \<in> slots (ce_id x)" by (rule entry_slots [OF assms(1)])
      moreover have "k \<in> slots (ce_id e)" by (rule entry_slots [OF assms(1,2) k])
      ultimately show "ce_id x = ce_id e" by (rule slots_disjoint)
    qed
    ultimately have "ce_id x = ce_id e" using plan_import_ok(2) assms(3) by simp
    then show False using not_mine [OF x(1)] by simp
  qed
  show "cf_connections store ! j \<noteq> e" if "(Some j, x) \<in> set (ip_apply plan)" for j x
  proof -
    have "Some j = find_index store (ce_id x)" using ok that unfolding plan_ok_def by blast
    then have "ce_id (cf_connections store ! j) = ce_id x" using find_index_Some by metis
    then show ?thesis using not_mine [OF that] by auto
  qed
qed

lemma plan_slots:
  assumes "plan_ok store mode plan"
  shows "\<forall>(slot, x)\<in>set (ip_apply plan). \<forall>i. slot = Some i \<longrightarrow> i < length (cf_connections store)"
    "distinct (filter (\<lambda>s. s \<noteq> None) (map fst (ip_apply plan)))"
proof -
  have slot: "slot = find_index store (ce_id x)" if "(slot, x) \<in> set (ip_apply plan)" for slot x
    using assms that unfolding plan_ok_def by blast
  then show "\<forall>(slot, x)\<in>set (ip_apply plan). \<forall>i. slot = Some i \<longrightarrow> i < length (cf_connections store)"
    using find_index_Some by fastforce
  have "map fst (ip_apply plan) = map (find_index store) (applied_ids plan)"
    using slot by (force simp: applied_ids_def)
  moreover have "distinct (filter (\<lambda>s. s \<noteq> None) (map (find_index store) ids))" if "distinct ids" for ids
    using that
  proof (induction ids)
    case (Cons i ids)
    have "find_index store i \<notin> set (map (find_index store) ids)" if "find_index store i = Some j" for j
    proof
      assume "find_index store i \<in> set (map (find_index store) ids)"
      then obtain i' where "i' \<in> set ids" "find_index store i = find_index store i'" by auto
      then have "i' \<in> set ids" "find_index store i' = Some j" using that by simp_all
      then show False using find_index_Some [OF that] find_index_Some [of store i' j] Cons.prems by auto
    qed
    then show ?case using Cons by (cases "find_index store i") auto
  qed simp
  ultimately show "distinct (filter (\<lambda>s. s \<noteq> None) (map fst (ip_apply plan)))"
    using assms by (simp add: plan_ok_def)
qed


text \<open>The file and the purge of a plan that spares an entry spare it too.\<close>

lemma slots_spare:
  assumes "file_ok store" "e \<in> set (cf_connections store)" "plan_ok store mode plan"
    and "apply_slots (ip_apply plan) (cf_connections store) [] = (es, replaced)"
    and "\<And>j x. (Some j, x) \<in> set (ip_apply plan) \<Longrightarrow> cf_connections store ! j \<noteq> e"
  shows "e \<in> set es"
    "k \<in> set (entry_keyring_refs e) \<Longrightarrow> k \<notin> (\<Union>(j, x)\<in>set replaced. set (entry_keyring_refs x))"
proof -
  have spec: "length (cf_connections store) \<le> length es"
      "\<forall>j < length (cf_connections store). Some j \<notin> fst ` set (ip_apply plan) \<longrightarrow> es ! j = cf_connections store ! j"
      "set replaced \<subseteq> {(j, cf_connections store ! j) |j. Some j \<in> fst ` set (ip_apply plan)}"
    using apply_slots_spec [OF assms(4) plan_slots(1) [OF assms(3)] order_refl plan_slots(2) [OF assms(3)]] by simp_all
  obtain j where j: "j < length (cf_connections store)" "cf_connections store ! j = e"
    using assms(2) by (auto simp: in_set_conv_nth)
  then have "Some j \<notin> fst ` set (ip_apply plan)" using assms(5) by fastforce
  then have "es ! j = e" "j < length es" using spec(1,2) j by auto
  then show "e \<in> set es" by auto
  show "k \<notin> (\<Union>(j, x)\<in>set replaced. set (entry_keyring_refs x))" if k: "k \<in> set (entry_keyring_refs e)"
  proof
    assume "k \<in> (\<Union>(j, x)\<in>set replaced. set (entry_keyring_refs x))"
    then obtain i x where x: "(i, x) \<in> set replaced" "k \<in> set (entry_keyring_refs x)" by blast
    then have i: "x = cf_connections store ! i" "Some i \<in> fst ` set (ip_apply plan)" using spec(3) by auto
    then have mem: "i < length (cf_connections store)" using plan_slots(1) [OF assms(3)] by fastforce
    then have "k \<in> slots (ce_id x)" using entry_slots [OF assms(1) _ x(2)] i(1) by simp
    moreover have "k \<in> slots (ce_id e)" using entry_slots [OF assms(1,2) k] .
    ultimately have same: "ce_id x = ce_id e" by (rule slots_disjoint)
    have "x = e"
      using same_id_same_entry [of "cf_connections store" j x] assms(1) j mem i(1) same
      by (simp add: file_ok_def entries_ok_def)
    then show False using i assms(5) by fastforce
  qed
qed

text \<open>The stages of an import: nothing to do, or secrets, file and purge in turn.\<close>

lemma import_stages:
  assumes "admin_ok toml s" "admin_import_bundle toml age blob passphrase mode s = (r, s')"
  obtains (idle) "ca_file s' = ca_file s" "ca_keys s' = ca_keys s"
      "\<And>payload report plan. decrypt_bundle age blob passphrase = Inr payload \<Longrightarrow> r = Inr report \<Longrightarrow>
         plan = plan_import (ca_file s) mode (bp_secrets payload) (cf_connections (bp_connections payload)) \<Longrightarrow>
         ip_apply plan = [] \<and> report = ip_report plan"
  | (stages) payload plan a s1 s2 es replaced b s3 new where
      "plan = plan_import (ca_file s) mode (bp_secrets payload) (cf_connections (bp_connections payload))"
      "ca_file s1 = ca_file s" "ca_keys s1 = ca_keys s"
      "import_secrets (ip_writes plan) [] s1 = (a, s2)"
      "apply_slots (ip_apply plan) (cf_connections (ca_file s)) [] = (es, replaced)"
      "new = (ca_file s)\<lparr>cf_connections := es\<rparr>" "file_save toml new s2 = (b, s3)"
      "(r, s') = (case a of Inl x \<Rightarrow> (Inl x, s2) | Inr undo \<Rightarrow>
        (case b of Inl x \<Rightarrow> (Inl x, restore_applied undo s3)
         | Inr _ \<Rightarrow> (Inr (ip_report plan), purge_replaced new replaced (s3\<lparr>ca_file := new\<rparr>))))"
      "decrypt_bundle age blob passphrase = Inr payload"
proof -
  obtain q s1 where q: "admin_sync toml s = (q, s1)" by (cases "admin_sync toml s")
  have sync: "ca_file s1 = ca_file s" "ca_keys s1 = ca_keys s"
    using admin_sync_step(1) [OF q] assms(1) by (simp_all add: admin_ok_def disk_step_def)
  show thesis
  proof (cases "\<exists>u payload. q = Inr u \<and> decrypt_bundle age blob passphrase = Inr payload \<and>
      ip_apply (plan_import (ca_file s) mode (bp_secrets payload) (cf_connections (bp_connections payload))) \<noteq> []")
    case False
    then have "s' = s1" "\<And>payload report. decrypt_bundle age blob passphrase = Inr payload \<Longrightarrow> r = Inr report \<Longrightarrow>
        ip_apply (plan_import (ca_file s) mode (bp_secrets payload) (cf_connections (bp_connections payload))) = [] \<and>
        report = ip_report (plan_import (ca_file s) mode (bp_secrets payload) (cf_connections (bp_connections payload)))"
      using assms(2) q sync by (auto simp: admin_import_bundle_def io_bind_def Let_def split: sum.splits if_splits)
    then show ?thesis using idle sync by simp
  next
    case True
    then obtain u payload where ok: "q = Inr u" "decrypt_bundle age blob passphrase = Inr payload"
      and some: "ip_apply (plan_import (ca_file s) mode (bp_secrets payload) (cf_connections (bp_connections payload))) \<noteq> []"
      by blast
    define plan where "plan = plan_import (ca_file s) mode (bp_secrets payload) (cf_connections (bp_connections payload))"
    obtain a s2 where a: "import_secrets (ip_writes plan) [] s1 = (a, s2)" by (cases "import_secrets (ip_writes plan) [] s1")
    obtain es replaced where es: "apply_slots (ip_apply plan) (cf_connections (ca_file s)) [] = (es, replaced)"
      by (cases "apply_slots (ip_apply plan) (cf_connections (ca_file s)) []")
    define new where "new = (ca_file s)\<lparr>cf_connections := es\<rparr>"
    have held: "ca_file s2 = ca_file s" using import_secrets_step [OF a] sync(1) by (simp add: keys_step_def)
    obtain b s3 where b: "file_save toml new s2 = (b, s3)" by (cases "file_save toml new s2")
    have "(r, s') = (case a of Inl x \<Rightarrow> (Inl x, s2) | Inr undo \<Rightarrow>
        (case b of Inl x \<Rightarrow> (Inl x, restore_applied undo s3)
         | Inr _ \<Rightarrow> (Inr (ip_report plan), purge_replaced new replaced (s3\<lparr>ca_file := new\<rparr>))))"
      using assms(2) q ok some a es b held sync(1)
      by (auto simp: admin_import_bundle_def io_bind_def plan_def [symmetric] Let_def
          new_def [symmetric] rollback_secret_writes_def split: sum.splits)
    then show ?thesis using stages [OF plan_def sync a es new_def b] ok(2) by simp
  qed
qed

text \<open>C21. Importing a bundle, whatever it holds and however disk and keyring fail, leaves every
  connection it does not overwrite whole: in mode Skip every connection of the store, and in mode
  Overwrite every one the report does not list as overwritten, is still in the file as it was, and the
  keyring holds under each of its references what it held. A bundle cannot reach, through references of
  its own making, the secret of a connection the user did not agree to replace.\<close>

theorem import_spares_others:
  assumes "admin_ok toml s" "admin_import_bundle toml age blob passphrase mode s = (r, s')"
    and "e \<in> set (cf_connections (ca_file s))"
    and "mode = Skip \<or> (\<exists>report. r = Inr report \<and> ce_id e \<notin> set (ir_overwritten report))"
  shows "e \<in> set (cf_connections (ca_file s')) \<and>
     (\<forall>k\<in>set (entry_keyring_refs e). ca_keys s' k = ca_keys s k)"
proof -
  have good: "file_ok (ca_file s)" using assms(1) by (simp add: admin_ok_def)
  show ?thesis
    using assms(1,2)
  proof (cases rule: import_stages)
    case idle
    then show ?thesis using assms(3) by simp
  next
    case (stages payload plan a s1 s2 es replaced b s3 new)
    have written: "keys_step (fst ` set (ip_writes plan)) s1 s2" "\<And>u. a = Inr u \<Longrightarrow> fst ` set u = fst ` set (ip_writes plan)"
      using import_secrets_step [OF stages(4)] by simp_all
    have save: "ca_file s3 = ca_file s" "ca_keys s3 = ca_keys s2"
      using file_save_step(1) [OF stages(7)] written(1) stages(2) by (simp_all add: disk_step_def keys_step_def)
    have "mode = Skip \<or> ce_id e \<notin> set (ir_overwritten (ip_report plan))"
      using assms(4) stages(8) by (auto split: sum.splits)
    note spares = plan_spares [OF good assms(3) stages(1) this]
    have frame: "ca_keys s2 k = ca_keys s k" if "k \<in> set (entry_keyring_refs e)" for k
      using spares(1) [OF that] written(1) stages(3) by (simp add: keys_step_def)
    consider (refused) x where "a = Inl x" "s' = s2"
      | (unsaved) undo where "a = Inr undo" "s' = restore_applied undo s3"
      | (saved) "s' = purge_replaced new replaced (s3\<lparr>ca_file := new\<rparr>)"
      using stages(8) by (auto split: sum.splits)
    then show ?thesis
    proof cases
      case refused
      then show ?thesis using written(1) stages(2) assms(3) frame by (simp add: keys_step_def)
    next
      case (unsaved undo)
      have "keys_step (fst ` set (ip_writes plan)) s3 s'"
        using restore_applied_step [of undo s3] written(2) [OF unsaved(1)] unsaved(2) by simp
      then show ?thesis using save spares(1) assms(3) frame by (simp add: keys_step_def)
    next
      case saved
      have "plan_ok (ca_file s) mode plan" unfolding stages(1) by (rule plan_import_ok)
      note spared = slots_spare [OF good assms(3) this stages(5) spares(2)]
      have "keys_step (\<Union>(j, x)\<in>set replaced. set (entry_keyring_refs x)) (s3\<lparr>ca_file := new\<rparr>) s'"
        unfolding saved by (rule purge_replaced_step)
      then have "ca_file s' = new" "\<And>k. k \<in> set (entry_keyring_refs e) \<Longrightarrow> ca_keys s' k = ca_keys s3 k"
        using spared(2) by (simp_all add: keys_step_def)
      then show ?thesis using spared(1) save frame stages(6) by simp
    qed
  qed
qed

section \<open>Into an empty store\<close>

definition sealed :: "crypto \<Rightarrow> bool" where
  "sealed age \<longleftrightarrow> (\<forall>payload passphrase blob. seal age payload passphrase = Inr blob \<longrightarrow>
     unseal age blob passphrase = Inr payload)"

lemma gather_secrets_spec:
  "gather_secrets refs found s = (Inr secrets, s') \<Longrightarrow> ca_keys s' = ca_keys s \<and> ca_file s' = ca_file s \<and>
     (\<forall>k\<in>set refs. ca_keys s k \<noteq> None) \<and>
     map_of secrets = (\<lambda>k. if k \<in> set refs then ca_keys s k else map_of found k)"
proof (induction refs arbitrary: found s)
  case (Cons r refs)
  obtain g s1 where g: "key_get r s = (g, s1)" by (cases "key_get r s")
  then obtain v where v: "g = Inr v" "gather_secrets refs (bt_insert r v found) s1 = (Inr secrets, s')"
    using Cons.prems by (cases g) auto
  note got = key_get_step [OF g]
  have "ca_keys s r = Some v" "ca_keys s1 = ca_keys s" "ca_file s1 = ca_file s"
    using got(1-3) v(1) by (simp_all add: keys_step_def)
  then show ?case using Cons.IH [OF v(2)] by (auto simp: fun_eq_iff)
qed auto

lemma export_spec:
  assumes "admin_export_bundle age passphrase s = (Inr blob, s')" "sealed age"
  obtains secrets where "decrypt_bundle age blob passphrase = Inr (bundle_payload_new
      (connections_empty\<lparr>cf_version := cf_version (ca_file s), cf_connections := cf_connections (ca_file s)\<rparr>) secrets)"
    "\<And>e k. e \<in> set (cf_connections (ca_file s)) \<Longrightarrow> k \<in> set (entry_keyring_refs e) \<Longrightarrow>
      map_of secrets k = ca_keys s k \<and> ca_keys s k \<noteq> None"
proof -
  let ?refs = "concat (map entry_keyring_refs (cf_connections (ca_file s)))"
  obtain g s1 where g: "gather_secrets ?refs [] s = (g, s1)" by (cases "gather_secrets ?refs [] s")
  obtain secrets where ok: "g = Inr secrets" using assms(1) g
    by (cases g) (auto simp: admin_export_bundle_def encrypt_selection_def io_bind_def split: sum.splits)
  note found = gather_secrets_spec [OF g [unfolded ok]]
  define payload where "payload = bundle_payload_new
      (connections_empty\<lparr>cf_version := cf_version (ca_file s), cf_connections := cf_connections (ca_file s)\<rparr>) secrets"
  have "encrypt_bundle age payload passphrase = Inr blob"
    using assms(1) g ok found
    by (auto simp: admin_export_bundle_def encrypt_selection_def io_bind_def Let_def payload_def split: sum.splits)
  then have "unseal age blob passphrase = Inr payload"
    using assms(2) by (auto simp: encrypt_bundle_def sealed_def split: if_splits)
  then have "decrypt_bundle age blob passphrase = Inr payload"
    by (simp add: decrypt_bundle_def parse_payload_def payload_def bundle_payload_new_def)
  moreover have "map_of secrets k = ca_keys s k \<and> ca_keys s k \<noteq> None"
    if "e \<in> set (cf_connections (ca_file s))" "k \<in> set (entry_keyring_refs e)" for e k
  proof -
    have "k \<in> set ?refs" using that by auto
    then show ?thesis using found by auto
  qed
  ultimately show thesis using that [of secrets] by (simp add: payload_def)
qed

definition entry_writes :: "(string \<times> string) list \<Rightarrow> connection_entry \<Rightarrow> secret_write list" where
  "entry_writes secrets x =
     concat (map (\<lambda>r. opt_list (map_option (\<lambda>v. (r, v)) (map_of secrets r))) (entry_keyring_refs x))"

lemma plan_into_empty:
  assumes "cf_connections store = []"
  shows "list_all minted_entry xs \<Longrightarrow> distinct (map ce_id xs) \<Longrightarrow>
     set (map ce_id xs) \<inter> set (ip_accepted plan) = {} \<Longrightarrow>
     (\<And>r i. ip_owners plan r = Some i \<Longrightarrow> r \<in> slots i \<and> i \<in> set (ip_accepted plan)) \<Longrightarrow>
     final = foldl (import_entry store mode secrets) plan xs \<Longrightarrow>
     ip_report final = (ip_report plan)\<lparr>ir_imported := ir_imported (ip_report plan) @ map ce_id xs\<rparr> \<and>
     ip_apply final = ip_apply plan @ map (Pair None) xs \<and>
     ip_writes final = ip_writes plan @ concat (map (entry_writes secrets) xs)"
proof (induction xs arbitrary: plan)
  case (Cons x xs)
  have none: "find_index store (ce_id x) = None" using assms by (simp add: find_index_def)
  have mine: "set (entry_keyring_refs x) \<subseteq> slots (ce_id x)" using Cons.prems(1) minted_entry_slots by simp
  have "import_collision (ip_owners plan) x = None"
    unfolding import_collision_None
  proof
    fix r
    assume r: "r \<in> set (entry_keyring_refs x)"
    show "ip_owners plan r = None \<or> ip_owners plan r = Some (ce_id x)"
    proof (cases "ip_owners plan r")
      case (Some i)
      then have "i = ce_id x" using Cons.prems(4) r mine slots_disjoint by blast
      then show ?thesis using Some by simp
    qed simp
  qed
  then have step: "import_entry store mode secrets plan x = plan\<lparr>ip_accepted := ip_accepted plan @ [ce_id x],
         ip_owners := (\<lambda>r. if r \<in> set (entry_keyring_refs x) then Some (ce_id x) else ip_owners plan r),
         ip_report := (ip_report plan)\<lparr>ir_imported := ir_imported (ip_report plan) @ [ce_id x]\<rparr>,
         ip_apply := ip_apply plan @ [(None, x)],
         ip_writes := ip_writes plan @ entry_writes secrets x\<rparr>"
    using none Cons.prems(3) by (simp add: import_entry_def Let_def entry_writes_def)
  have "ip_owners (import_entry store mode secrets plan x) r = Some i \<Longrightarrow>
      r \<in> slots i \<and> i \<in> set (ip_accepted (import_entry store mode secrets plan x))" for r i
    unfolding step using mine Cons.prems(4) by (auto split: if_splits)
  moreover have "set (map ce_id xs) \<inter> set (ip_accepted (import_entry store mode secrets plan x)) = {}"
    unfolding step using Cons.prems(2,3) by auto
  ultimately have "ip_report final = (ip_report (import_entry store mode secrets plan x))
        \<lparr>ir_imported := ir_imported (ip_report (import_entry store mode secrets plan x)) @ map ce_id xs\<rparr> \<and>
     ip_apply final = ip_apply (import_entry store mode secrets plan x) @ map (Pair None) xs \<and>
     ip_writes final = ip_writes (import_entry store mode secrets plan x) @ concat (map (entry_writes secrets) xs)"
    using Cons.IH Cons.prems(1,2,5) by simp
  then show ?case unfolding step by simp
qed simp

lemma apply_new: "apply_slots (map (Pair None) xs) es rep = (es @ xs, rep)"
  by (induction xs arbitrary: es) simp_all

lemma import_secrets_all:
  "import_secrets ws undo s = (Inr u, s') \<Longrightarrow>
     ca_keys s' = (\<lambda>k. case map_of (rev ws) k of Some v \<Rightarrow> Some v | None \<Rightarrow> ca_keys s k)"
proof (induction ws arbitrary: undo s)
  case (Cons w ws)
  obtain k v where w: "w = (k, v)" by (cases w)
  obtain g s1 where g: "key_get k s = (g, s1)" by (cases "key_get k s")
  obtain b s2 where b: "key_set k v s1 = (b, s2)" by (cases "key_set k v s1")
  obtain x undo' where x: "b = Inr x" and run: "import_secrets ws undo' s2 = (Inr u, s')"
    using Cons.prems w g b by (cases b) auto
  from Cons.IH [OF run] key_set_step(2) [OF b x] key_get_step(2) [OF g] show ?case
    by (auto simp: w map_of_append map_add_def split: option.split)
qed simp

lemma map_of_agrees: "(\<And>k v. (k, v) \<in> set ws \<Longrightarrow> m k = Some v) \<Longrightarrow> k \<in> fst ` set ws \<Longrightarrow> map_of (rev ws) k = m k"
proof -
  assume agree: "\<And>k v. (k, v) \<in> set ws \<Longrightarrow> m k = Some v" and "k \<in> fst ` set ws"
  then have "map_of (rev ws) k \<noteq> None" by (simp add: map_of_eq_None_iff)
  then obtain v where v: "map_of (rev ws) k = Some v" by blast
  then have "(k, v) \<in> set ws" by (auto dest: map_of_SomeD)
  then show ?thesis using agree v by simp
qed

lemma entry_writes_lookup:
  assumes "e \<in> set es" "k \<in> set (entry_keyring_refs e)" "map_of secrets k \<noteq> None"
  shows "map_of (rev (concat (map (entry_writes secrets) es))) k = map_of secrets k"
proof (rule map_of_agrees)
  show "(k, v) \<in> set (concat (map (entry_writes secrets) es)) \<Longrightarrow> map_of secrets k = Some v" for k v
    by (auto simp: entry_writes_def)
  obtain v where "map_of secrets k = Some v" using assms(3) by blast
  then have "(k, v) \<in> set (entry_writes secrets e)" using assms(2) by (force simp: entry_writes_def)
  then have "(k, v) \<in> set (concat (map (entry_writes secrets) es))" using assms(1) by auto
  then show "k \<in> fst ` set (concat (map (entry_writes secrets) es))" by force
qed

text \<open>C22. A bundle moves a store whole: what a well-formed store exports, an empty store elsewhere that
  opens it with the same passphrase takes in completely. Its connections are those of the first, in
  their order, each reported as imported and none refused, and its keyring holds every one of their
  secrets. Assumes that opening what was sealed with a passphrase gives it back.\<close>

theorem bundle_moves_store:
  assumes "admin_ok toml s" "sealed age" "admin_export_bundle age passphrase s = (Inr blob, s')"
    and "admin_ok toml' t" "cf_connections (ca_file t) = []"
    and "admin_import_bundle toml' age blob passphrase mode t = (Inr report, t')"
  shows "cf_connections (ca_file t') = cf_connections (ca_file s) \<and>
     (\<forall>e\<in>set (cf_connections (ca_file s)). \<forall>k\<in>set (entry_keyring_refs e). ca_keys t' k = ca_keys s k) \<and>
     report = import_report_default\<lparr>ir_imported := map ce_id (cf_connections (ca_file s))\<rparr>"
proof -
  define es where "es = cf_connections (ca_file s)"
  have good: "list_all minted_entry es" "distinct (map ce_id es)"
    using assms(1) by (simp_all add: admin_ok_def file_ok_def entries_ok_def es_def)
  obtain secrets where payload: "decrypt_bundle age blob passphrase = Inr (bundle_payload_new
      (connections_empty\<lparr>cf_version := cf_version (ca_file s), cf_connections := es\<rparr>) secrets)"
    and found: "\<And>e k. e \<in> set es \<Longrightarrow> k \<in> set (entry_keyring_refs e) \<Longrightarrow>
      map_of secrets k = ca_keys s k \<and> ca_keys s k \<noteq> None"
    using export_spec [OF assms(3,2)] es_def by metis
  define plan where "plan = plan_import (ca_file t) mode secrets es"
  have "ip_report plan = import_report_default\<lparr>ir_imported := [] @ map ce_id es\<rparr> \<and>
     ip_apply plan = [] @ map (Pair None) es \<and> ip_writes plan = [] @ concat (map (entry_writes secrets) es)"
    unfolding plan_def plan_import_def
    using plan_into_empty [OF assms(5) good, of "\<lparr>ip_accepted = [], ip_owners = owners_of (cf_connections (ca_file t)),
        ip_report = import_report_default, ip_apply = [], ip_writes = []\<rparr>" _ mode secrets]
    by (simp add: assms(5) owners_of_def import_report_default_def)
  then have plan: "ip_report plan = import_report_default\<lparr>ir_imported := map ce_id es\<rparr>"
      "ip_apply plan = map (Pair None) es" "ip_writes plan = concat (map (entry_writes secrets) es)" by simp_all
  show ?thesis
    using assms(4,6)
  proof (cases rule: import_stages)
    case idle
    then have "es = []" "report = ip_report plan"
      using idle(3) [OF payload refl refl] plan(2) by (simp_all add: bundle_payload_new_def plan_def)
    then show ?thesis using idle(1) plan(1) assms(5) by (simp add: es_def)
  next
    case (stages payload' plan' a s1 s2 es' replaced b s3 new)
    have same: "plan' = plan" using stages(1,9) payload by (auto simp: bundle_payload_new_def plan_def)
    have new: "es' = es" "replaced = []"
      using stages(5) plan(2) same assms(5) by (simp_all add: apply_new)
    obtain undo where undo: "a = Inr undo" using stages(8) by (cases a) auto
    then have run: "report = ip_report plan" "ca_file t' = (ca_file t)\<lparr>cf_connections := es\<rparr>" "ca_keys t' = ca_keys s3"
      using stages(6,8) same new by (auto split: sum.splits)
    have "ca_keys s2 k = ca_keys s k" if e: "e \<in> set es" and k: "k \<in> set (entry_keyring_refs e)" for e k
    proof -
      have "map_of (rev (ip_writes plan)) k = map_of secrets k"
        unfolding plan(3) by (rule entry_writes_lookup [OF e k]) (use found [OF e k] in simp)
      then show ?thesis
        using import_secrets_all [OF stages(4) [unfolded undo]] found [OF e k] same by auto
    qed
    moreover have "ca_keys s3 = ca_keys s2" using file_save_step(1) [OF stages(7)] by (simp add: disk_step_def)
    ultimately show ?thesis using run plan(1) by (simp add: es_def)
  qed
qed

section \<open>Witnesses\<close>

text \<open>A bundle with a connection that points at the slot of another.\<close>

definition foreign_payload :: bundle_payload where
  "foreign_payload = bundle_payload_new (sample_file [added_entry\<lparr>ce_kind := Postgres (keyring_ref ''a'' ''url'')\<rparr>])
     [(keyring_ref ''a'' ''url'', ''other'')]"

definition foreign_age :: crypto where
  "foreign_age = \<lparr>seal = (\<lambda>_ _. Inr []), unseal = (\<lambda>_ _. Inr foreign_payload)\<rparr>"

lemma foreign_refused:
  "fst (admin_import_bundle sample_codec foreign_age [] ''passphrase'' Overwrite sample_admin) =
     Inr (import_report_default\<lparr>ir_refused := [\<lparr>re_id = ''b'', re_key_ref = keyring_ref ''a'' ''url'', re_owner = ''a''\<rparr>]\<rparr>)"
  by code_simp

theorem import_spares_others_witness:
  "ca_keys (snd (admin_import_bundle sample_codec foreign_age [] ''passphrase'' Overwrite sample_admin))
     (keyring_ref ''a'' ''url'') = Some ''secret''"
proof -
  obtain r s' where run: "admin_import_bundle sample_codec foreign_age [] ''passphrase'' Overwrite sample_admin = (r, s')"
    by (cases "admin_import_bundle sample_codec foreign_age [] ''passphrase'' Overwrite sample_admin")
  have mem: "sample_entry \<in> set (cf_connections (ca_file sample_admin))"
    by (simp add: sample_admin_def sample_file_def)
  have "\<exists>report. r = Inr report \<and> ce_id sample_entry \<notin> set (ir_overwritten report)"
    using foreign_refused run by (simp add: import_report_default_def)
  then have "\<forall>k\<in>set (entry_keyring_refs sample_entry). ca_keys s' k = ca_keys sample_admin k"
    using import_spares_others [OF sample_ok run mem] by blast
  then show ?thesis using run by (simp add: sample_entry_def entry_keyring_refs_def sample_admin_def)
qed

definition moved_payload :: bundle_payload where
  "moved_payload = bundle_payload_new (sample_file [sample_entry]) [(keyring_ref ''a'' ''url'', ''secret'')]"

definition sample_age :: crypto where
  "sample_age = \<lparr>seal = (\<lambda>payload _. if payload = moved_payload then Inr [1] else Inl Weak_Passphrase),
     unseal = (\<lambda>_ _. Inr moved_payload)\<rparr>"

definition empty_codec :: "connection_file codec" where
  "empty_codec = \<lparr>to_text = (\<lambda>g. if g = sample_file [sample_entry] then Inr ''x'' else Inl ''unknown''),
     of_text = (\<lambda>t. Inr (sample_file [sample_entry]))\<rparr>"

definition empty_admin :: connection_admin where
  "empty_admin = \<lparr>ca_path = \<lparr>fp_parent = Some ''d'', fp_name = Some ''c''\<rparr>, ca_file = connections_empty,
     ca_tracks_disk = True, ca_disk = restart Map.empty, ca_keys = Map.empty, ca_key_faults = []\<rparr>"

lemma empty_ok: "admin_ok empty_codec empty_admin"
  by (simp add: admin_ok_def file_ok_def entries_ok_def handles_free_def connections_empty_def empty_admin_def
      in_step_def backed_def stored_cases restart_def)

theorem bundle_moves_store_witness:
  "ca_keys (snd (admin_import_bundle empty_codec sample_age [1] ''passphrase'' Skip empty_admin))
     (keyring_ref ''a'' ''url'') = Some ''secret''"
proof -
  obtain r t' where run: "admin_import_bundle empty_codec sample_age [1] ''passphrase'' Skip empty_admin = (r, t')"
    by (cases "admin_import_bundle empty_codec sample_age [1] ''passphrase'' Skip empty_admin")
  have "\<not> isl (fst (admin_import_bundle empty_codec sample_age [1] ''passphrase'' Skip empty_admin))" by code_simp
  then obtain report where report: "r = Inr report" using run by (cases r) auto
  have "fst (admin_export_bundle sample_age ''passphrase'' sample_admin) = Inr [1]" by code_simp
  then obtain s' where export: "admin_export_bundle sample_age ''passphrase'' sample_admin = (Inr [1], s')"
    by (metis prod.collapse)
  have "sealed sample_age" by (simp add: sealed_def sample_age_def)
  moreover have "cf_connections (ca_file empty_admin) = []" by (simp add: empty_admin_def connections_empty_def)
  ultimately have "\<forall>e\<in>set (cf_connections (ca_file sample_admin)). \<forall>k\<in>set (entry_keyring_refs e).
      ca_keys t' k = ca_keys sample_admin k"
    using bundle_moves_store [OF sample_ok _ export empty_ok _ run [unfolded report]] by blast
  then show ?thesis using run
    by (simp add: sample_admin_def sample_file_def sample_entry_def entry_keyring_refs_def)
qed


section \<open>Outside the invariant\<close>

text \<open>Deleting a connection that points at the slot of another deletes the other's secret.\<close>

definition borrowing_admin :: connection_admin where
  "borrowing_admin = sample_admin\<lparr>ca_tracks_disk := False,
     ca_file := sample_file [sample_entry, added_entry\<lparr>ce_kind := Postgres (keyring_ref ''a'' ''url'')\<rparr>]\<rparr>"

lemma delete_takes_foreign_secret:
  "(let s = snd (admin_delete sample_codec ''b'' borrowing_admin)
    in cf_connections (ca_file s) = [sample_entry] \<and> ca_keys s (keyring_ref ''a'' ''url'') = None)"
  by code_simp

text \<open>An import does not check what it saves: here a tunnel on a kind that supports none, which the
  next call refuses to read.\<close>

definition tunnelled_entry :: connection_entry where
  "tunnelled_entry = sample_entry\<lparr>ce_kind := Turso ''p'', ce_ssh := Some \<lparr>st_host = ''h'', st_port = 22, st_user = ''u'',
     st_key_path = Some ''k'', st_passphrase_ref = None, st_password_ref = None, st_fingerprint = Some ''f'',
     st_known_hosts = None\<rparr>\<rparr>"

definition tunnelled_codec :: "connection_file codec" where
  "tunnelled_codec = \<lparr>to_text = (\<lambda>_. Inr ''x''), of_text = (\<lambda>_. Inr (sample_file [tunnelled_entry]))\<rparr>"

definition tunnelled_age :: crypto where
  "tunnelled_age = \<lparr>seal = (\<lambda>_ _. Inr []), unseal = (\<lambda>_ _. Inr (bundle_payload_new (sample_file [tunnelled_entry]) []))\<rparr>"

lemma import_saves_unreadable_file:
  "(case admin_import_bundle tunnelled_codec tunnelled_age [] ''passphrase'' Skip empty_admin of
      (r, s) \<Rightarrow> \<not> isl r \<and> isl (fst (admin_sync tunnelled_codec s)))"
  by code_simp

end
