(* ===== verification/Dsn.thy ===== *)
theory Dsn
  imports Connection_Bundle
begin

text \<open>
  Connection URLs: splitting one into the parts an edit form shows, grafting the stored password back
  (\<open>dbboard-config/src/dsn.rs\<close>), and the two operations of the connection admin that rest on them.
  The \<open>url\<close> crate is a record of operations, UTF-8 decoding a parameter.
\<close>

section \<open>The URL crate\<close>

record 'u url_lib =
  url_parse :: "string \<Rightarrow> string + 'u"
  url_text :: "'u \<Rightarrow> string"
  url_host :: "'u \<Rightarrow> string option"
  url_port :: "'u \<Rightarrow> 16 word option"
  url_username :: "'u \<Rightarrow> string"
  url_password :: "'u \<Rightarrow> string option"
  url_path :: "'u \<Rightarrow> string"
  url_query :: "'u \<Rightarrow> string option"
  url_set_password :: "string \<Rightarrow> 'u \<Rightarrow> 'u option"
  url_set_host :: "string \<Rightarrow> 'u \<Rightarrow> string + 'u"
  url_set_port :: "16 word \<Rightarrow> 'u \<Rightarrow> 'u option"
  url_only_segment :: "string \<Rightarrow> 'u \<Rightarrow> 'u option"
  utf8_decode :: "8 word list \<Rightarrow> string option"

section \<open>Percent decoding\<close>

text \<open>The UTF-8 form of the scalar values below 256.\<close>

definition utf8_bytes :: "string \<Rightarrow> 8 word list" where
  "utf8_bytes s = concat (map (\<lambda>c. let n = code_point c in
     if n < 128 then [word_of_nat n] else [word_of_nat (192 + n div 64), word_of_nat (128 + n mod 64)]) s)"

definition hex_value :: "8 word \<Rightarrow> nat option" where
  "hex_value b =
     (let n = unat b in
      if 48 \<le> n \<and> n \<le> 57 then Some (n - 48)
      else if 65 \<le> n \<and> n \<le> 70 then Some (n - 55)
      else if 97 \<le> n \<and> n \<le> 102 then Some (n - 87)
      else None)"

text \<open>\<open>u8::from_str_radix(hex, 16)\<close> on two bytes: a leading plus sign is a sign.\<close>

definition hex_pair :: "8 word \<Rightarrow> 8 word \<Rightarrow> 8 word option" where
  "hex_pair a b =
     (if a = 43 then map_option word_of_nat (hex_value b)
      else case (hex_value a, hex_value b) of
        (Some x, Some y) \<Rightarrow> Some (word_of_nat (16 * x + y))
      | _ \<Rightarrow> None)"

fun percent_bytes :: "8 word list \<Rightarrow> 8 word list option" where
  "percent_bytes [] = Some []"
| "percent_bytes (c # a # b # rest) =
     (if c = 37 then
        (case hex_pair a b of
           None \<Rightarrow> None
         | Some byte \<Rightarrow> map_option (Cons byte) (percent_bytes rest))
      else map_option (Cons c) (percent_bytes (a # b # rest)))"
| "percent_bytes (c # rest) = map_option (Cons c) (percent_bytes rest)"

definition percent_decode :: "'u url_lib \<Rightarrow> string \<Rightarrow> string option" where
  "percent_decode lib raw = Option.bind (percent_bytes (utf8_bytes raw)) (utf8_decode lib)"

definition dsn_decode :: "'u url_lib \<Rightarrow> string \<Rightarrow> string" where
  "dsn_decode lib raw = (case percent_decode lib raw of Some s \<Rightarrow> s | None \<Rightarrow> raw)"

section \<open>The parts of a connection URL\<close>

record dsn_parts =
  dp_host :: string
  dp_port :: "16 word option"
  dp_user :: string
  dp_database :: string
  dp_query :: string

definition strip_brackets :: "string \<Rightarrow> string" where
  "strip_brackets host =
     (if starts_with ''['' host \<and> ends_with_char (tl host) (CHR '']'') then butlast (tl host) else host)"

definition parse_dsn :: "'u url_lib \<Rightarrow> string \<Rightarrow> dsn_parts option" where
  "parse_dsn lib url =
     (case url_parse lib (trim url) of
        Inl _ \<Rightarrow> None
      | Inr parsed \<Rightarrow>
          (case url_host lib parsed of
             None \<Rightarrow> None
           | Some host \<Rightarrow>
               Some \<lparr>dp_host = strip_brackets host, dp_port = url_port lib parsed,
                 dp_user = dsn_decode lib (url_username lib parsed),
                 dp_database = dsn_decode lib (dropWhile (\<lambda>c. c = CHR ''/'') (url_path lib parsed)),
                 dp_query = (case url_query lib parsed of Some q \<Rightarrow> q | None \<Rightarrow> [])\<rparr>))"

definition with_password :: "'u url_lib \<Rightarrow> string \<Rightarrow> string \<Rightarrow> string option" where
  "with_password lib target source =
     (case (url_parse lib (trim target), url_parse lib (trim source)) of
        (Inr parsed, Inr stored) \<Rightarrow>
          (case url_password lib stored of
             None \<Rightarrow> Some (trim target)
           | Some password \<Rightarrow>
               map_option (url_text lib) (url_set_password lib (dsn_decode lib password) parsed))
      | _ \<Rightarrow> None)"

section \<open>Filling the edit form\<close>

fun dsn_ref_of_kind :: "connection_kind \<Rightarrow> string option" where
  "dsn_ref_of_kind (Postgres r) = Some r"
| "dsn_ref_of_kind (My_Sql r) = Some r"
| "dsn_ref_of_kind (Neon r) = Some r"
| "dsn_ref_of_kind (Supabase r) = Some r"
| "dsn_ref_of_kind (Aurora_Dsql r) = Some r"
| "dsn_ref_of_kind _ = None"

definition dsn_key_ref :: "connection_file \<Rightarrow> string \<Rightarrow> config_error + string option" where
  "dsn_key_ref file i =
     (case find (\<lambda>e. ce_id e = i) (cf_connections file) of
        None \<Rightarrow> Inl (No_Such_Connection i)
      | Some entry \<Rightarrow> Inr (dsn_ref_of_kind (ce_kind entry)))"

definition dsn_prefill :: "'u url_lib \<Rightarrow> string \<Rightarrow> dsn_parts option admin_op" where
  "dsn_prefill lib i s =
     (case dsn_key_ref (ca_file s) i of
        Inl e \<Rightarrow> (Inl e, s)
      | Inr None \<Rightarrow> (Inr None, s)
      | Inr (Some key_ref) \<Rightarrow>
          (case key_get key_ref s of
             (Inl _, s) \<Rightarrow> (Inr None, s)
           | (Inr stored, s) \<Rightarrow> (Inr (parse_dsn lib stored), s)))"

definition dsn_with_stored_password :: "'u url_lib \<Rightarrow> string \<Rightarrow> string \<Rightarrow> string admin_op" where
  "dsn_with_stored_password lib i url s =
     (case dsn_key_ref (ca_file s) i of
        Inl e \<Rightarrow> (Inl e, s)
      | Inr None \<Rightarrow> (Inl (No_Such_Connection i), s)
      | Inr (Some key_ref) \<Rightarrow>
          (case key_get key_ref s of
             (Inl e, s) \<Rightarrow> (Inl (Config_Secret e), s)
           | (Inr stored, s) \<Rightarrow> (ok_or (Dsn_Unparseable i) (with_password lib url stored), s)))"

section \<open>Decoding undoes encoding\<close>

text \<open>Percent encoding as a URL does it: the bytes of a set are escaped, with capital digits.\<close>

definition hex_upper :: "nat \<Rightarrow> 8 word" where
  "hex_upper d = (if d < 10 then word_of_nat (48 + d) else word_of_nat (55 + d))"

definition percent_encode :: "(8 word \<Rightarrow> bool) \<Rightarrow> 8 word list \<Rightarrow> 8 word list" where
  "percent_encode escaped bytes = concat (map (\<lambda>b.
     if escaped b then [37, hex_upper (unat b div 16), hex_upper (unat b mod 16)] else [b]) bytes)"

lemma unat_hex_upper: "d < 16 \<Longrightarrow> unat (hex_upper d) = (if d < 10 then 48 + d else 55 + d)"
proof -
  have "unat (word_of_nat n :: 8 word) = n" if "n < 256" for n
    using that by (simp add: unat_of_nat take_bit_nat_eq_self)
  then show "d < 16 \<Longrightarrow> ?thesis" by (simp add: hex_upper_def del: of_nat_add)
qed

lemma hex_value_upper: "d < 16 \<Longrightarrow> hex_value (hex_upper d) = Some d"
  by (auto simp: hex_value_def unat_hex_upper Let_def)

lemma hex_upper_not_sign: "d < 16 \<Longrightarrow> hex_upper d \<noteq> 43"
proof
  assume "d < 16" "hex_upper d = 43"
  then have "unat (hex_upper d) = 43" by simp
  then show False using unat_hex_upper [OF \<open>d < 16\<close>] by (simp split: if_splits)
qed

lemma hex_pair_upper: "hex_pair (hex_upper (unat b div 16)) (hex_upper (unat b mod 16)) = Some (b :: 8 word)"
proof -
  have "unat b < 2 ^ LENGTH(8)" by (rule unsigned_less)
  then have small: "unat b div 16 < 16" "unat b mod 16 < 16" by auto
  have "16 * (unat b div 16) + unat b mod 16 = unat b" by simp
  then show ?thesis
    by (simp add: hex_pair_def hex_upper_not_sign [OF small(1)] hex_value_upper [OF small(1)]
        hex_value_upper [OF small(2)])
qed

lemma percent_bytes_plain: "c \<noteq> 37 \<Longrightarrow> percent_bytes (c # rest) = map_option (Cons c) (percent_bytes rest)"
  by (cases "(c # rest)" rule: percent_bytes.cases) auto

lemma percent_bytes_encode:
  assumes "escaped 37"
  shows "percent_bytes (percent_encode escaped bytes) = Some bytes"
proof (induction bytes)
  case (Cons b bytes)
  show ?case
  proof (cases "escaped b")
    case True
    then show ?thesis using Cons by (simp add: percent_encode_def hex_pair_upper)
  next
    case False
    then have "b \<noteq> 37" using assms by auto
    then show ?thesis using False Cons by (simp add: percent_encode_def percent_bytes_plain)
  qed
qed (simp add: percent_encode_def)

lemma plus_reads_as_sign: "percent_bytes (utf8_bytes ''%+1'') = Some [1]"
  by code_simp

end
