(* ===== verification/Backend_Config.thy ===== *)
theory Backend_Config
  imports Dsn Adapter Row_History
begin

text \<open>
  Crate \<open>dbboard-connect\<close>: which database to connect to, resolved from the environment and the
  connection store (\<open>config.rs\<close>, \<open>ssh.rs\<close>, \<open>scope.rs\<close>), and how it is connected, through a
  tunnel or not (\<open>backend.rs\<close>, \<open>tunneled.rs\<close>). Reading a secret is a function, the drivers and
  the tunnel crate a record of operations on the state of the outside world.
\<close>

section \<open>Tunnels\<close>

datatype ssh_auth = Private_Key string "string option" | Ssh_Password string
datatype host_key_policy = Pinned_Key string | Known_Hosts_File "string option"

record resolved_ssh =
  rs_host :: string
  rs_port :: "16 word"
  rs_user :: string
  rs_auth :: ssh_auth
  rs_host_key :: host_key_policy

record ssh_tunnel_config =
  tc_bastion :: resolved_ssh
  tc_forward_host :: string
  tc_forward_port :: "16 word"

definition into_tunnel_config :: "resolved_ssh \<Rightarrow> string \<Rightarrow> 16 word \<Rightarrow> ssh_tunnel_config" where
  "into_tunnel_config ssh forward_host forward_port =
     \<lparr>tc_bastion = ssh, tc_forward_host = forward_host, tc_forward_port = forward_port\<rparr>"

fun resolve_host_key :: "string option \<Rightarrow> string option \<Rightarrow> host_key_policy option" where
  "resolve_host_key (Some fp) None = Some (Pinned_Key fp)"
| "resolve_host_key None (Some path) = Some (Known_Hosts_File (Some path))"
| "resolve_host_key _ _ = None"

type_synonym secret_reader = "string \<Rightarrow> secret_error + string"

definition read_secret :: "secret_reader \<Rightarrow> string \<Rightarrow> config_error + string" where
  "read_secret read key_ref = (case read key_ref of Inl e \<Rightarrow> Inl (Config_Secret e) | Inr s \<Rightarrow> Inr s)"

definition optional_secret :: "secret_reader \<Rightarrow> string option \<Rightarrow> config_error + string option" where
  "optional_secret read key_ref =
     (case key_ref of None \<Rightarrow> Inr None | Some r \<Rightarrow> rmap Some (read_secret read r))"

definition ssh_from_toml :: "secret_reader \<Rightarrow> string \<Rightarrow> ssh_tunnel_toml \<Rightarrow> config_error + resolved_ssh" where
  "ssh_from_toml read i t =
     rbind
       (case (st_key_path t, st_password_ref t) of
          (Some path, None) \<Rightarrow> rmap (Private_Key path) (optional_secret read (st_passphrase_ref t))
        | (None, Some password_ref) \<Rightarrow> rmap Ssh_Password (read_secret read password_ref)
        | _ \<Rightarrow> Inl (Ssh_Invalid i ''needs exactly one auth method (key_path or keyring_password_ref)''))
       (\<lambda>auth.
         case resolve_host_key (st_fingerprint t) (st_known_hosts t) of
           None \<Rightarrow> Inl (Ssh_Invalid i ''needs exactly one host-key policy (fingerprint or known_hosts)'')
         | Some host_key \<Rightarrow>
             Inr \<lparr>rs_host = st_host t, rs_port = st_port t, rs_user = st_user t, rs_auth = auth,
               rs_host_key = host_key\<rparr>)"

section \<open>Backends\<close>

record d1_config =
  d1_account_id :: string
  d1_database_id :: string
  d1_api_token :: string
  d1_base_url :: "string option"

datatype firestore_credentials = Service_Account_Json string | Firestore_Emulator

record firestore_config =
  fs_project_id :: string
  fs_database_id :: "string option"
  fs_credentials :: firestore_credentials
  fs_base_url :: "string option"

record mongo_config =
  mo_uri :: string
  mo_database :: "string option"

record redis_config =
  ri_url :: string
  ri_cluster :: bool
  ri_route :: "resolved_ssh option"

datatype backend_config =
    Bc_Turso string
  | Bc_Turso_Remote string string
  | Bc_D1 d1_config
  | Bc_Postgres string "resolved_ssh option"
  | Bc_My_Sql string "resolved_ssh option"
  | Bc_Neon string "resolved_ssh option"
  | Bc_Supabase string "resolved_ssh option"
  | Bc_Aurora_Dsql string "resolved_ssh option"
  | Bc_Aurora_Dsql_Iam string string string string string string
  | Bc_Firestore firestore_config
  | Bc_Mongo_Db mongo_config
  | Bc_Redis redis_config "resolved_ssh option"

text \<open>The \<open>Debug\<close> form that may reach a log line.\<close>

fun debug_backend :: "backend_config \<Rightarrow> string" where
  "debug_backend (Bc_Turso path) = ''Turso { path: '' @ debug_string path @ '' }''"
| "debug_backend (Bc_Turso_Remote _ _) = ''TursoRemote(<redacted>)''"
| "debug_backend (Bc_D1 _) = ''D1(<redacted>)''"
| "debug_backend (Bc_Postgres _ _) = ''Postgres(<redacted>)''"
| "debug_backend (Bc_My_Sql _ _) = ''MySql(<redacted>)''"
| "debug_backend (Bc_Neon _ _) = ''Neon(<redacted>)''"
| "debug_backend (Bc_Supabase _ _) = ''Supabase(<redacted>)''"
| "debug_backend (Bc_Aurora_Dsql _ _) = ''AuroraDsql(<redacted>)''"
| "debug_backend (Bc_Aurora_Dsql_Iam _ _ _ _ _ _) = ''AuroraDsqlIam(<redacted>)''"
| "debug_backend (Bc_Firestore _) = ''Firestore(<redacted>)''"
| "debug_backend (Bc_Mongo_Db _) = ''MongoDb(<redacted>)''"
| "debug_backend (Bc_Redis _ _) = ''Redis(<redacted>)''"

section \<open>The environment\<close>

record ssh_env =
  se_host :: "string option"
  se_port :: "16 word option"
  se_user :: "string option"
  se_key_path :: "string option"
  se_key_passphrase :: "string option"
  se_password :: "string option"
  se_fingerprint :: "string option"
  se_known_hosts :: "string option"

record env_snapshot =
  ev_aurora_dsql_url :: "string option"
  ev_neon_url :: "string option"
  ev_supabase_url :: "string option"
  ev_pg_url :: "string option"
  ev_mysql_url :: "string option"
  ev_d1_account_id :: "string option"
  ev_d1_database_id :: "string option"
  ev_d1_token :: "string option"
  ev_d1_base_url :: "string option"
  ev_firestore_project_id :: "string option"
  ev_firestore_service_account :: "string option"
  ev_firestore_database_id :: "string option"
  ev_firestore_base_url :: "string option"
  ev_mongodb_uri :: "string option"
  ev_mongodb_database :: "string option"
  ev_turso_path :: "string option"
  ev_connection_selector :: "string option"
  ev_ssh :: ssh_env

definition non_empty :: "string option \<Rightarrow> string option" where
  "non_empty s = (case s of Some v \<Rightarrow> if trim v \<noteq> [] then Some v else None | None \<Rightarrow> None)"

definition from_process :: "(string \<Rightarrow> string option) \<Rightarrow> env_snapshot" where
  "from_process var =
     \<lparr>ev_aurora_dsql_url = non_empty (var ''DBBOARD_AURORA_DSQL_URL''),
      ev_neon_url = non_empty (var ''DBBOARD_NEON_URL''),
      ev_supabase_url = non_empty (var ''DBBOARD_SUPABASE_URL''),
      ev_pg_url = non_empty (var ''DBBOARD_PG_URL''),
      ev_mysql_url = non_empty (var ''DBBOARD_MYSQL_URL''),
      ev_d1_account_id = non_empty (var ''DBBOARD_D1_ACCOUNT_ID''),
      ev_d1_database_id = non_empty (var ''DBBOARD_D1_DATABASE_ID''),
      ev_d1_token = non_empty (var ''DBBOARD_D1_TOKEN''),
      ev_d1_base_url = non_empty (var ''DBBOARD_D1_BASE_URL''),
      ev_firestore_project_id = non_empty (var ''DBBOARD_FIRESTORE_PROJECT_ID''),
      ev_firestore_service_account = non_empty (var ''DBBOARD_FIRESTORE_SERVICE_ACCOUNT''),
      ev_firestore_database_id = non_empty (var ''DBBOARD_FIRESTORE_DATABASE_ID''),
      ev_firestore_base_url = non_empty (var ''DBBOARD_FIRESTORE_BASE_URL''),
      ev_mongodb_uri = non_empty (var ''DBBOARD_MONGODB_URI''),
      ev_mongodb_database = non_empty (var ''DBBOARD_MONGODB_DATABASE''),
      ev_turso_path = non_empty (var ''DBBOARD_TURSO_PATH''),
      ev_connection_selector = non_empty (var ''DBBOARD_CONNECTION''),
      ev_ssh = \<lparr>se_host = non_empty (var ''DBBOARD_SSH_HOST''),
        se_port = Option.bind (non_empty (var ''DBBOARD_SSH_PORT''))
          (\<lambda>p. map_option word_of_nat (parse_unsigned (2 ^ 16) p)),
        se_user = non_empty (var ''DBBOARD_SSH_USER''),
        se_key_path = non_empty (var ''DBBOARD_SSH_KEY_PATH''),
        se_key_passphrase = non_empty (var ''DBBOARD_SSH_KEY_PASSPHRASE''),
        se_password = non_empty (var ''DBBOARD_SSH_PASSWORD''),
        se_fingerprint = non_empty (var ''DBBOARD_SSH_FINGERPRINT''),
        se_known_hosts = non_empty (var ''DBBOARD_SSH_KNOWN_HOSTS'')\<rparr>\<rparr>"

definition resolved_ssh_from_env :: "ssh_env \<Rightarrow> config_error + resolved_ssh option" where
  "resolved_ssh_from_env env =
     (case se_host env of
        None \<Rightarrow> Inr None
      | Some host \<Rightarrow>
          rbind (ok_or (Ssh_Invalid ''env'' ''DBBOARD_SSH_HOST is set but DBBOARD_SSH_USER is missing'') (se_user env))
            (\<lambda>user.
          rbind
            (case (se_key_path env, se_password env) of
               (Some path, None) \<Rightarrow> Inr (Private_Key path (se_key_passphrase env))
             | (None, Some password) \<Rightarrow> Inr (Ssh_Password password)
             | (Some _, Some _) \<Rightarrow>
                 Inl (Ssh_Invalid ''env'' ''set either DBBOARD_SSH_KEY_PATH or DBBOARD_SSH_PASSWORD, not both'')
             | (None, None) \<Rightarrow>
                 Inl (Ssh_Invalid ''env'' ''needs an auth method: DBBOARD_SSH_KEY_PATH or DBBOARD_SSH_PASSWORD''))
            (\<lambda>auth.
          rbind
            (ok_or (Ssh_Invalid ''env''
               ''needs a host-key policy: DBBOARD_SSH_FINGERPRINT or DBBOARD_SSH_KNOWN_HOSTS'')
              (resolve_host_key (se_fingerprint env) (se_known_hosts env)))
            (\<lambda>host_key.
             Inr (Some \<lparr>rs_host = host, rs_port = (case se_port env of Some p \<Rightarrow> p | None \<Rightarrow> 22),
               rs_user = user, rs_auth = auth, rs_host_key = host_key\<rparr>)))))"

fun with_env_ssh :: "resolved_ssh \<Rightarrow> backend_config \<Rightarrow> config_error + backend_config" where
  "with_env_ssh ssh (Bc_Postgres url _) = Inr (Bc_Postgres url (Some ssh))"
| "with_env_ssh ssh (Bc_My_Sql url _) = Inr (Bc_My_Sql url (Some ssh))"
| "with_env_ssh ssh (Bc_Neon url _) = Inr (Bc_Neon url (Some ssh))"
| "with_env_ssh ssh (Bc_Supabase url _) = Inr (Bc_Supabase url (Some ssh))"
| "with_env_ssh ssh (Bc_Aurora_Dsql url _) = Inr (Bc_Aurora_Dsql url (Some ssh))"
| "with_env_ssh ssh (Bc_Turso _) = Inl (Ssh_Unsupported_Kind ''env'' ''Turso'')"
| "with_env_ssh ssh (Bc_Turso_Remote _ _) = Inl (Ssh_Unsupported_Kind ''env'' ''Turso Cloud'')"
| "with_env_ssh ssh (Bc_D1 _) = Inl (Ssh_Unsupported_Kind ''env'' ''Cloudflare D1'')"
| "with_env_ssh ssh (Bc_Aurora_Dsql_Iam _ _ _ _ _ _) = Inl (Ssh_Unsupported_Kind ''env'' ''Aurora DSQL (IAM)'')"
| "with_env_ssh ssh (Bc_Firestore _) = Inl (Ssh_Unsupported_Kind ''env'' ''Firestore'')"
| "with_env_ssh ssh (Bc_Mongo_Db _) = Inl (Ssh_Unsupported_Kind ''env'' ''MongoDB'')"
| "with_env_ssh ssh (Bc_Redis config _) = Inr (Bc_Redis config (Some ssh))"

definition attach_env_ssh :: "backend_config \<Rightarrow> env_snapshot \<Rightarrow> config_error + backend_config" where
  "attach_env_ssh backend env =
     rbind (resolved_ssh_from_env (ev_ssh env)) (\<lambda>resolved.
       case resolved of None \<Rightarrow> Inr backend | Some ssh \<Rightarrow> with_env_ssh ssh backend)"

definition firestore_from_env :: "env_snapshot \<Rightarrow> firestore_config option" where
  "firestore_from_env env =
     map_option (\<lambda>project. \<lparr>fs_project_id = project, fs_database_id = ev_firestore_database_id env,
        fs_credentials = (case ev_firestore_service_account env of
            None \<Rightarrow> Firestore_Emulator | Some json \<Rightarrow> Service_Account_Json json),
        fs_base_url = ev_firestore_base_url env\<rparr>) (ev_firestore_project_id env)"

definition DEFAULT_TURSO_PATH :: string where "DEFAULT_TURSO_PATH = '':memory:''"

definition d1_from_env :: "env_snapshot \<Rightarrow> d1_config option" where
  "d1_from_env env =
     (case (ev_d1_account_id env, ev_d1_database_id env, ev_d1_token env) of
        (Some account, Some database, Some token) \<Rightarrow>
          Some \<lparr>d1_account_id = account, d1_database_id = database, d1_api_token = token,
            d1_base_url = ev_d1_base_url env\<rparr>
      | _ \<Rightarrow> None)"

definition resolve_from_env_only :: "env_snapshot \<Rightarrow> backend_config" where
  "resolve_from_env_only env =
     (case ev_aurora_dsql_url env of Some url \<Rightarrow> Bc_Aurora_Dsql url None | None \<Rightarrow>
     (case ev_neon_url env of Some url \<Rightarrow> Bc_Neon url None | None \<Rightarrow>
     (case ev_supabase_url env of Some url \<Rightarrow> Bc_Supabase url None | None \<Rightarrow>
     (case ev_pg_url env of Some url \<Rightarrow> Bc_Postgres url None | None \<Rightarrow>
     (case ev_mysql_url env of Some url \<Rightarrow> Bc_My_Sql url None | None \<Rightarrow>
     (case d1_from_env env of Some config \<Rightarrow> Bc_D1 config | None \<Rightarrow>
     (case firestore_from_env env of Some config \<Rightarrow> Bc_Firestore config | None \<Rightarrow>
     (case ev_mongodb_uri env of
        Some uri \<Rightarrow> Bc_Mongo_Db \<lparr>mo_uri = uri, mo_database = ev_mongodb_database env\<rparr>
      | None \<Rightarrow>
          Bc_Turso (case ev_turso_path env of Some path \<Rightarrow> path | None \<Rightarrow> DEFAULT_TURSO_PATH)))))))))"

section \<open>Entries of the store\<close>

definition entry_ssh :: "secret_reader \<Rightarrow> connection_entry \<Rightarrow> config_error + resolved_ssh option" where
  "entry_ssh read entry =
     (case ce_ssh entry of
        Some t \<Rightarrow> rmap Some (ssh_from_toml read (ce_id entry) t)
      | None \<Rightarrow> Inr None)"

definition redis_backend :: "string \<Rightarrow> string \<Rightarrow> bool \<Rightarrow> redis_service \<Rightarrow> resolved_ssh option \<Rightarrow>
    config_error + backend_config" where
  "redis_backend i url cluster service ssh =
     (if service = Memory_Db \<and> \<not> starts_with ''rediss://'' url
      then Inl (Tls_Required i (redis_service_label service) ''rediss://'')
      else Inr (Bc_Redis \<lparr>ri_url = url, ri_cluster = cluster \<or> service = Memory_Db, ri_route = None\<rparr> ssh))"

definition url_entry :: "secret_reader \<Rightarrow> connection_entry \<Rightarrow> string \<Rightarrow>
    (string \<Rightarrow> resolved_ssh option \<Rightarrow> backend_config) \<Rightarrow> config_error + backend_config" where
  "url_entry read entry key_ref build =
     rbind (read_secret read key_ref) (\<lambda>url. rmap (build url) (entry_ssh read entry))"

definition entry_to_backend :: "secret_reader \<Rightarrow> connection_entry \<Rightarrow> config_error + backend_config" where
  "entry_to_backend read entry =
     (case ce_kind entry of
        Turso path \<Rightarrow> Inr (Bc_Turso path)
      | Turso_Remote url r \<Rightarrow> rmap (Bc_Turso_Remote url) (read_secret read r)
      | D1 account database base r \<Rightarrow>
          rmap (\<lambda>token. Bc_D1 \<lparr>d1_account_id = account, d1_database_id = database, d1_api_token = token,
            d1_base_url = base\<rparr>) (read_secret read r)
      | connection_kind.Postgres r \<Rightarrow> url_entry read entry r Bc_Postgres
      | connection_kind.My_Sql r \<Rightarrow> url_entry read entry r Bc_My_Sql
      | Neon r \<Rightarrow> url_entry read entry r Bc_Neon
      | Supabase r \<Rightarrow> url_entry read entry r Bc_Supabase
      | Aurora_Dsql r \<Rightarrow> url_entry read entry r Bc_Aurora_Dsql
      | Aurora_Dsql_Iam endpoint region database user access r \<Rightarrow>
          rmap (Bc_Aurora_Dsql_Iam endpoint region database user access) (read_secret read r)
      | Firestore project database base r \<Rightarrow>
          rmap (\<lambda>account. Bc_Firestore \<lparr>fs_project_id = project, fs_database_id = database,
              fs_credentials = (case account of
                Some json \<Rightarrow> Service_Account_Json json | None \<Rightarrow> Firestore_Emulator),
              fs_base_url = base\<rparr>)
            (optional_secret read r)
      | Mongo_Db r database \<Rightarrow> rmap (\<lambda>uri. Bc_Mongo_Db \<lparr>mo_uri = uri, mo_database = database\<rparr>) (read_secret read r)
      | Redis r cluster service \<Rightarrow>
          rbind (read_secret read r) (\<lambda>url. rbind (entry_ssh read entry) (redis_backend (ce_id entry) url cluster service)))"

section \<open>Choosing a backend\<close>

definition find_connection :: "connection_file \<Rightarrow> string \<Rightarrow> connection_entry option" where
  "find_connection file i = find (\<lambda>e. ce_id e = i) (cf_connections file)"

definition d1_trio :: "env_snapshot \<Rightarrow> bool" where
  "d1_trio env \<longleftrightarrow> ev_d1_account_id env \<noteq> None \<and> ev_d1_database_id env \<noteq> None \<and> ev_d1_token env \<noteq> None"

definition resolve_backend :: "env_snapshot \<Rightarrow> connection_file \<Rightarrow> secret_reader \<Rightarrow> config_error + backend_config" where
  "resolve_backend env file read =
     (if ev_aurora_dsql_url env \<noteq> None \<or> ev_neon_url env \<noteq> None \<or> ev_supabase_url env \<noteq> None \<or>
         ev_pg_url env \<noteq> None \<or> ev_mysql_url env \<noteq> None
      then attach_env_ssh (resolve_from_env_only env) env
      else if d1_trio env then attach_env_ssh (resolve_from_env_only env) env
      else if ev_firestore_project_id env \<noteq> None then attach_env_ssh (resolve_from_env_only env) env
      else if ev_mongodb_uri env \<noteq> None then attach_env_ssh (resolve_from_env_only env) env
      else if ev_turso_path env \<noteq> None then attach_env_ssh (resolve_from_env_only env) env
      else case ev_connection_selector env of
        Some i \<Rightarrow>
          (case find_connection file i of
             None \<Rightarrow> Inl (Duplicate_Id (''no connection with id='' @ i))
           | Some entry \<Rightarrow> entry_to_backend read entry)
      | None \<Rightarrow>
          (case cf_connections file of
             [entry] \<Rightarrow> entry_to_backend read entry
           | _ \<Rightarrow> Inr (Bc_Turso DEFAULT_TURSO_PATH)))"

definition label_for :: "env_snapshot \<Rightarrow> connection_file \<Rightarrow> string" where
  "label_for env file =
     (if ev_aurora_dsql_url env \<noteq> None then ''env:aurora-dsql''
      else if ev_neon_url env \<noteq> None then ''env:neon''
      else if ev_supabase_url env \<noteq> None then ''env:supabase''
      else if ev_pg_url env \<noteq> None then ''env:postgres''
      else if ev_mysql_url env \<noteq> None then ''env:mysql''
      else if d1_trio env then ''env:d1''
      else if ev_firestore_project_id env \<noteq> None then ''env:firestore''
      else if ev_mongodb_uri env \<noteq> None then ''env:mongodb''
      else if ev_turso_path env \<noteq> None then ''env:turso''
      else case ev_connection_selector env of
        Some i \<Rightarrow> if list_ex (\<lambda>e. ce_id e = i) (cf_connections file) then i else ''in-memory''
      | None \<Rightarrow> (case cf_connections file of [entry] \<Rightarrow> ce_id entry | _ \<Rightarrow> ''in-memory''))"

section \<open>Another database of the same server\<close>

definition with_database :: "'u url_lib \<Rightarrow> string \<Rightarrow> string \<Rightarrow> string db_result" where
  "with_database lib url database =
     (case url_parse lib url of
        Inl _ \<Rightarrow> Inl (Connection_Error ''the stored connection URL is not valid'')
      | Inr parsed \<Rightarrow>
          (case url_only_segment lib database parsed of
             None \<Rightarrow> Inl (Connection_Error ''the stored connection URL has no host'')
           | Some parsed \<Rightarrow> Inr (url_text lib parsed)))"

definition scoped_to_database :: "'u url_lib \<Rightarrow> backend_config \<Rightarrow> string \<Rightarrow> backend_config db_result" where
  "scoped_to_database lib config database =
     (if trim database = [] then Inl (Connection_Error ''a database name is required'')
      else case config of
        Bc_Postgres url ssh \<Rightarrow> rmap (\<lambda>url. Bc_Postgres url ssh) (with_database lib url database)
      | Bc_Neon url ssh \<Rightarrow> rmap (\<lambda>url. Bc_Neon url ssh) (with_database lib url database)
      | Bc_Supabase url ssh \<Rightarrow> rmap (\<lambda>url. Bc_Supabase url ssh) (with_database lib url database)
      | Bc_My_Sql url ssh \<Rightarrow> rmap (\<lambda>url. Bc_My_Sql url ssh) (with_database lib url database)
      | _ \<Rightarrow> Inl (Capability_Error ''this connection holds a single database''))"

fun database_url :: "backend_config \<Rightarrow> string option" where
  "database_url (Bc_Postgres url _) = Some url"
| "database_url (Bc_Neon url _) = Some url"
| "database_url (Bc_Supabase url _) = Some url"
| "database_url (Bc_My_Sql url _) = Some url"
| "database_url _ = None"

definition configured_database :: "'u url_lib \<Rightarrow> backend_config \<Rightarrow> string option" where
  "configured_database lib config =
     (case database_url config of
        None \<Rightarrow> None
      | Some url \<Rightarrow>
          (case parse_dsn lib url of
             None \<Rightarrow> None
           | Some parts \<Rightarrow> if dp_database parts \<noteq> [] then Some (dp_database parts) else None))"

definition POSTGRES_MAINTENANCE_DATABASE :: string where
  "POSTGRES_MAINTENANCE_DATABASE = ''postgres''"

fun postgres_family :: "backend_config \<Rightarrow> bool" where
  "postgres_family (Bc_Postgres _ _) = True"
| "postgres_family (Bc_Neon _ _) = True"
| "postgres_family (Bc_Supabase _ _) = True"
| "postgres_family _ = False"

definition with_listing_default :: "'u url_lib \<Rightarrow> backend_config \<Rightarrow> backend_config db_result" where
  "with_listing_default lib config =
     (if postgres_family config \<and> configured_database lib config = None
      then scoped_to_database lib config POSTGRES_MAINTENANCE_DATABASE else Inr config)"

section \<open>Connecting\<close>

record 'w history_reader =
  hr_commit_log :: "nat \<Rightarrow> ('w, commit list) db_op"
  hr_row_history :: "table_info \<Rightarrow> (string \<times> val) list \<Rightarrow> nat \<Rightarrow> ('w, row_history) db_op"
  hr_diff :: "table_info \<Rightarrow> string \<Rightarrow> string \<Rightarrow> ('w, commit_diff) db_op"
  hr_blame :: "table_info \<Rightarrow> ('w, blame_entry list) db_op"

text \<open>A connected adapter with the history reader it may have.\<close>

record 'w backend =
  be_adapter :: "'w adapter"
  be_history :: "'w history_reader option"

text \<open>The drivers of the adapter crates and the tunnel crate.\<close>

record 'w drivers =
  dr_open_tunnel :: "ssh_tunnel_config \<Rightarrow> 'w \<Rightarrow> (string + 16 word) \<times> 'w"
  dr_ssh_session :: "resolved_ssh \<Rightarrow> 'w \<Rightarrow> (string + unit) \<times> 'w"
  dr_turso_local :: "string \<Rightarrow> ('w, 'w backend) db_op"
  dr_turso_remote :: "string \<Rightarrow> string \<Rightarrow> ('w, 'w backend) db_op"
  dr_d1 :: "d1_config \<Rightarrow> ('w, 'w backend) db_op"
  dr_postgres :: "string \<Rightarrow> ('w, 'w backend) db_op"
  dr_neon :: "string \<Rightarrow> ('w, 'w backend) db_op"
  dr_supabase :: "string \<Rightarrow> ('w, 'w backend) db_op"
  dr_aurora_dsql :: "string \<Rightarrow> ('w, 'w backend) db_op"
  dr_aurora_dsql_iam :: "string \<Rightarrow> string \<Rightarrow> string \<Rightarrow> string \<Rightarrow> string \<Rightarrow> string \<Rightarrow> ('w, 'w backend) db_op"
  dr_mysql :: "string \<Rightarrow> ('w, 'w backend) db_op"
  dr_firestore :: "firestore_config \<Rightarrow> ('w, 'w backend) db_op"
  dr_mongo :: "mongo_config \<Rightarrow> ('w, 'w backend) db_op"
  dr_redis :: "redis_config \<Rightarrow> ('w, 'w backend) db_op"

definition DEFAULT_POSTGRES_PORT :: "16 word" where "DEFAULT_POSTGRES_PORT = 5432"
definition DEFAULT_MYSQL_PORT :: "16 word" where "DEFAULT_MYSQL_PORT = 3306"

definition forward_target :: "'u url_lib \<Rightarrow> string \<Rightarrow> 16 word \<Rightarrow> (string \<times> 16 word) db_result" where
  "forward_target lib url default_port =
     (case url_parse lib url of
        Inl e \<Rightarrow> Inl (Connection_Error (''could not parse connection URL: '' @ e))
      | Inr parsed \<Rightarrow>
          (case url_host lib parsed of
             None \<Rightarrow> Inl (Connection_Error ''connection URL has no host to tunnel to'')
           | Some host \<Rightarrow> Inr (host, (case url_port lib parsed of Some p \<Rightarrow> p | None \<Rightarrow> default_port))))"

definition rewrite_to_loopback :: "'u url_lib \<Rightarrow> string \<Rightarrow> 16 word \<Rightarrow> string db_result" where
  "rewrite_to_loopback lib url local_port =
     (case url_parse lib url of
        Inl e \<Rightarrow> Inl (Connection_Error (''could not parse connection URL: '' @ e))
      | Inr parsed \<Rightarrow>
          (case url_set_host lib ''127.0.0.1'' parsed of
             Inl e \<Rightarrow> Inl (Connection_Error (''could not rewrite URL host: '' @ e))
           | Inr parsed \<Rightarrow>
               (case url_set_port lib local_port parsed of
                  None \<Rightarrow> Inl (Connection_Error ''could not rewrite URL port'')
                | Some parsed \<Rightarrow> Inr (url_text lib parsed))))"

text \<open>The URL to dial and the local port of the tunnel held open, if there is one.\<close>

definition open_tunnel :: "'u url_lib \<Rightarrow> 'w drivers \<Rightarrow> string \<Rightarrow> resolved_ssh option \<Rightarrow> 16 word \<Rightarrow>
    ('w, string \<times> 16 word option) db_op" where
  "open_tunnel lib drivers url ssh default_port w =
     (case ssh of
        None \<Rightarrow> (Inr (url, None), w)
      | Some ssh \<Rightarrow>
          (case forward_target lib url default_port of
             Inl e \<Rightarrow> (Inl e, w)
           | Inr (host, port) \<Rightarrow>
               (case dr_open_tunnel drivers (into_tunnel_config ssh host port) w of
                  (Inl e, w) \<Rightarrow> (Inl (Connection_Error (''ssh tunnel: '' @ e)), w)
                | (Inr local, w) \<Rightarrow>
                    (rmap (\<lambda>url. (url, Some local)) (rewrite_to_loopback lib url local), w))))"

text \<open>
  An adapter behind a tunnel hands every call it implements to the one inside. Index and database
  listing are not among them, so for these the default methods of the trait answer.
\<close>

definition tunneled_adapter :: "'w backend \<Rightarrow> 'w backend" where
  "tunneled_adapter inner =
     (let a = be_adapter inner in
      inner\<lparr>be_adapter := \<lparr>ad_id = ad_id a, ad_capabilities = ad_capabilities a, ad_ping = ad_ping a,
        ad_list_tables = ad_list_tables a, ad_query = ad_query a, ad_query_read_only = ad_query_read_only a,
        ad_describe_table = ad_describe_table a, ad_foreign_keys = ad_foreign_keys a,
        ad_table_ddl = ad_table_ddl a, ad_list_indexes = (\<lambda>_. unsupported ''list_indexes''),
        ad_list_databases = unsupported ''list_databases'', ad_execute = ad_execute a,
        ad_execute_in_transaction = ad_execute_in_transaction a\<rparr>\<rparr>)"

definition wrap :: "'w backend \<Rightarrow> 16 word option \<Rightarrow> 'w backend" where
  "wrap adapter tunnel = (case tunnel of None \<Rightarrow> adapter | Some _ \<Rightarrow> tunneled_adapter adapter)"

definition pinged :: "('w, 'w backend) db_op \<Rightarrow> ('w, 'w backend) db_op" where
  "pinged connect = io_bind connect (\<lambda>adapter. io_bind (ad_ping (be_adapter adapter)) (\<lambda>_. io_of (Inr adapter)))"

definition connect_url :: "'u url_lib \<Rightarrow> 'w drivers \<Rightarrow> (string \<Rightarrow> ('w, 'w backend) db_op) \<Rightarrow> string \<Rightarrow>
    resolved_ssh option \<Rightarrow> 16 word \<Rightarrow> ('w, 'w backend) db_op" where
  "connect_url lib drivers dial url ssh default_port =
     io_bind (open_tunnel lib drivers url ssh default_port) (\<lambda>(url, tunnel).
       io_bind (pinged (dial url)) (\<lambda>adapter. io_of (Inr (wrap adapter tunnel))))"

definition connect_adapter :: "'u url_lib \<Rightarrow> 'w drivers \<Rightarrow> backend_config \<Rightarrow> ('w, 'w backend) db_op" where
  "connect_adapter lib drivers config =
     (case config of
        Bc_Turso path \<Rightarrow> dr_turso_local drivers path
      | Bc_Turso_Remote url token \<Rightarrow> dr_turso_remote drivers url token
      | Bc_D1 config \<Rightarrow> pinged (dr_d1 drivers config)
      | Bc_Postgres url ssh \<Rightarrow> connect_url lib drivers (dr_postgres drivers) url ssh DEFAULT_POSTGRES_PORT
      | Bc_My_Sql url ssh \<Rightarrow> connect_url lib drivers (dr_mysql drivers) url ssh DEFAULT_MYSQL_PORT
      | Bc_Neon url ssh \<Rightarrow> connect_url lib drivers (dr_neon drivers) url ssh DEFAULT_POSTGRES_PORT
      | Bc_Supabase url ssh \<Rightarrow> connect_url lib drivers (dr_supabase drivers) url ssh DEFAULT_POSTGRES_PORT
      | Bc_Aurora_Dsql url ssh \<Rightarrow> connect_url lib drivers (dr_aurora_dsql drivers) url ssh DEFAULT_POSTGRES_PORT
      | Bc_Aurora_Dsql_Iam endpoint region database user access key \<Rightarrow>
          pinged (dr_aurora_dsql_iam drivers endpoint region database user access key)
      | Bc_Firestore config \<Rightarrow> pinged (dr_firestore drivers config)
      | Bc_Mongo_Db config \<Rightarrow> pinged (dr_mongo drivers config)
      | Bc_Redis config ssh \<Rightarrow>
          (case ssh of
             None \<Rightarrow> pinged (dr_redis drivers config)
           | Some ssh \<Rightarrow> (\<lambda>w.
               case dr_ssh_session drivers ssh w of
                 (Inl e, w) \<Rightarrow> (Inl (Connection_Error (''ssh tunnel: '' @ e)), w)
               | (Inr _, w) \<Rightarrow> pinged (dr_redis drivers (config\<lparr>ri_route := Some ssh\<rparr>)) w)))"

end
