(* ===== verification/Redis_Route.thy ===== *)
theory Redis_Route
  imports Backend_Config
begin

text \<open>
  \<open>redis_route.rs\<close>: one forward for each far address of a Redis cluster, opened when it is first asked
  for. Opening suspends the caller with the table unlocked, so the requests of several connections
  interleave: a request is a small machine, and a step relation interleaves any number of them.
\<close>

type_synonym far = "string \<times> 16 word"

text \<open>The table of open forwards: the loopback address each is reached at.\<close>

type_synonym 'a forwards = "far \<rightharpoonup> 'a"

definition known :: "'a forwards \<Rightarrow> far \<Rightarrow> 'a option" where
  "known table far = table far"

definition or_insert :: "'a forwards \<Rightarrow> far \<Rightarrow> 'a \<Rightarrow> 'a \<times> 'a forwards" where
  "or_insert table far opened =
     (case table far of
        Some addr \<Rightarrow> (addr, table)
      | None \<Rightarrow> (opened, table(far \<mapsto> opened)))"

datatype 'a request =
    Asked far
  | Opening far
  | Answered far "string + 'a"

record 'a routing =
  ro_table :: "'a forwards"
  ro_requests :: "'a request list"

text \<open>
  The two halves of \<open>resolve\<close>, before and after its only suspension. The second gets what the opener
  answered.
\<close>

definition resolve_start :: "'a forwards \<Rightarrow> far \<Rightarrow> 'a request" where
  "resolve_start table far =
     (case known table far of Some addr \<Rightarrow> Answered far (Inr addr) | None \<Rightarrow> Opening far)"

definition resolve_finish :: "'a forwards \<Rightarrow> far \<Rightarrow> string + 'a \<Rightarrow> 'a request \<times> 'a forwards" where
  "resolve_finish table far opened =
     (case opened of
        Inl e \<Rightarrow> (Answered far (Inl e), table)
      | Inr addr \<Rightarrow> (case or_insert table far addr of (kept, table) \<Rightarrow> (Answered far (Inr kept), table)))"

inductive route_step :: "'a routing \<Rightarrow> 'a routing \<Rightarrow> bool" where
  ask: "route_step s (s\<lparr>ro_requests := ro_requests s @ [Asked far]\<rparr>)"
| start: "\<lbrakk>i < length (ro_requests s); ro_requests s ! i = Asked far\<rbrakk> \<Longrightarrow>
    route_step s (s\<lparr>ro_requests := (ro_requests s)[i := resolve_start (ro_table s) far]\<rparr>)"
| finish: "\<lbrakk>i < length (ro_requests s); ro_requests s ! i = Opening far;
      resolve_finish (ro_table s) far opened = (r, table)\<rbrakk> \<Longrightarrow>
    route_step s \<lparr>ro_table = table, ro_requests = (ro_requests s)[i := r]\<rparr>"

abbreviation route_steps :: "'a routing \<Rightarrow> 'a routing \<Rightarrow> bool" where
  "route_steps \<equiv> route_step\<^sup>*\<^sup>*"

definition no_routes :: "'a routing" where
  "no_routes = \<lparr>ro_table = Map.empty, ro_requests = []\<rparr>"

lemma map_le_imp_Some: "m \<subseteq>\<^sub>m m' \<Longrightarrow> m k = Some v \<Longrightarrow> m' k = Some v"
  unfolding map_le_def dom_def by (metis (mono_tags) mem_Collect_eq option.distinct(1))

text \<open>Every address that was handed out is the one of the table.\<close>

definition routes_agree :: "'a routing \<Rightarrow> bool" where
  "routes_agree s \<longleftrightarrow> (\<forall>far addr. Answered far (Inr addr) \<in> set (ro_requests s) \<longrightarrow> ro_table s far = Some addr)"

lemma resolve_finish_table:
  assumes "resolve_finish table far opened = (r, table')"
  shows "table \<subseteq>\<^sub>m table'" "\<And>far' addr. r = Answered far' (Inr addr) \<Longrightarrow> table' far' = Some addr"
  using assms
  by (auto simp: resolve_finish_def or_insert_def map_le_def dom_def split: sum.splits option.splits)

lemma route_step_agrees: "route_step s t \<Longrightarrow> routes_agree s \<Longrightarrow> routes_agree t"
proof (induction rule: route_step.induct)
  case (start i s far)
  then show ?case
    by (auto simp: routes_agree_def resolve_start_def known_def dest!: subsetD [OF set_update_subset_insert]
        split: option.splits)
next
  case (finish i s far opened r table)
  show ?case
    unfolding routes_agree_def
  proof (intro allI impI)
    fix far' addr
    assume "Answered far' (Inr addr)
      \<in> set (ro_requests \<lparr>ro_table = table, ro_requests = (ro_requests s)[i := r]\<rparr>)"
    then consider "r = Answered far' (Inr addr)" | "Answered far' (Inr addr) \<in> set (ro_requests s)"
      using set_update_subset_insert [of "ro_requests s" i r] by auto
    then show "ro_table \<lparr>ro_table = table, ro_requests = (ro_requests s)[i := r]\<rparr> far' = Some addr"
    proof cases
      case 2
      then have "ro_table s far' = Some addr" using finish.prems unfolding routes_agree_def by blast
      then show ?thesis
        using map_le_imp_Some [OF resolve_finish_table(1) [OF finish.hyps(3)]] by simp
    qed (use resolve_finish_table(2) [OF finish.hyps(3)] in simp)
  qed
qed (auto simp: routes_agree_def)

text \<open>C25. However the requests of the connections of a cluster client interleave, and however often two
  of them open a forward to the same node at once, all that are answered with an address for a node are
  answered with the same one: the one whose forward the table holds open.\<close>

theorem one_forward_per_node:
  assumes "route_steps no_routes (s :: 'a routing)" "Answered far (Inr a) \<in> set (ro_requests s)"
    "Answered far (Inr b) \<in> set (ro_requests s)"
  shows "a = b \<and> ro_table s far = Some a"
proof -
  have "routes_agree (no_routes :: 'a routing)" by (simp add: routes_agree_def no_routes_def)
  with assms(1) have "routes_agree s"
    by (induction rule: rtranclp_induct) (blast intro: route_step_agrees)+
  then have "ro_table s far = Some a" "ro_table s far = Some b"
    using assms(2,3) unfolding routes_agree_def by blast+
  then show ?thesis by simp
qed

text \<open>Two requests for a node both open a forward; the second to finish is given the first one's.\<close>

theorem one_forward_per_node_witness:
  "\<exists>s. route_steps (no_routes :: nat routing) s \<and> ro_requests s = [Answered (''n'', 1) (Inr 7), Answered (''n'', 1) (Inr 7)] \<and>
     ro_table s (''n'', 1) = Some 7"
proof -
  let ?n = "(''n'', 1) :: far"
  let ?s = "\<lambda>t rs. \<lparr>ro_table = t, ro_requests = rs\<rparr> :: nat routing"
  have a: "route_steps no_routes (?s Map.empty [Asked ?n, Asked ?n])"
    using ask [of "no_routes :: nat routing" ?n] ask [of "?s Map.empty [Asked ?n]" ?n]
    by (auto simp: no_routes_def intro: converse_rtranclp_into_rtranclp)
  have b: "route_steps (?s Map.empty [Asked ?n, Asked ?n]) (?s Map.empty [Opening ?n, Opening ?n])"
    using start [of 0 "?s Map.empty [Asked ?n, Asked ?n]" ?n] start [of 1 "?s Map.empty [Opening ?n, Asked ?n]" ?n]
    by (auto simp: resolve_start_def known_def intro: converse_rtranclp_into_rtranclp)
  have c: "route_steps (?s Map.empty [Opening ?n, Opening ?n])
      (?s [?n \<mapsto> 7] [Answered ?n (Inr 7), Answered ?n (Inr 7)])"
    using finish [of 0 "?s Map.empty [Opening ?n, Opening ?n]" ?n "Inr 7"]
      finish [of 1 "?s [?n \<mapsto> 7] [Answered ?n (Inr 7), Opening ?n]" ?n "Inr 9"]
    by (auto simp: resolve_finish_def or_insert_def intro: converse_rtranclp_into_rtranclp)
  have run: "route_steps no_routes (?s [?n \<mapsto> 7] [Answered ?n (Inr 7), Answered ?n (Inr 7)])"
    using a b c by (meson rtranclp_trans)
  from one_forward_per_node [OF run, of ?n 7 7] run show ?thesis by auto
qed

end
