(* ===== verification/Mcp_Service.thy ===== *)
theory Mcp_Service
  imports Backend_Config Dump_Run Restore_Run Schema_Diff Annotations
begin

text \<open>
  The tool surface behind the MCP server and the desktop app (\<open>dbboard-mcp/src/service.rs\<close>,
  \<open>target.rs\<close>): the state it owns, its errors, the cache of connected adapters and the calls about
  the list of connections. The state holds the disk, the keyring and the outside world, which is where
  the databases are and what the clock reads.
\<close>

section \<open>Targets\<close>

record target =
  tg_connection :: string
  tg_database :: "string option"

definition target_of :: "string \<Rightarrow> target" where
  "target_of connection = \<lparr>tg_connection = connection, tg_database = None\<rparr>"

definition target_database :: "target \<Rightarrow> string option" where
  "target_database t =
     (case tg_database t of Some d \<Rightarrow> if trim d \<noteq> [] then Some d else None | None \<Rightarrow> None)"

abbreviation NUL :: char where "NUL \<equiv> CHR 0x00"

definition cache_key :: "target \<Rightarrow> string" where
  "cache_key t =
     (case target_database t of None \<Rightarrow> tg_connection t | Some db \<Rightarrow> tg_connection t @ NUL # db)"

definition key_belongs_to :: "string \<Rightarrow> string \<Rightarrow> bool" where
  "key_belongs_to key connection \<longleftrightarrow>
     key = connection \<or>
     (starts_with connection key \<and> starts_with [NUL] (drop (length connection) key))"

section \<open>Errors\<close>

text \<open>\<open>Still_Running\<close> is not an answer: it is a dump that the fuel of the model did not end.\<close>

datatype service_error =
    Connection_Not_Found string
  | Invalid_Request string
  | Service_Config config_error
  | Service_Annotations annotations_error
  | Service_Db db_error
  | Service_Write_Back write_back_error
  | Not_Editable string
  | Not_Pageable string
  | No_History string
  | Write_Not_Enabled string
  | Export_Not_Enabled
  | Export_Failed string
  | Write_Refused write_policy_violation
  | Not_Dumpable string
  | Dump_Failed string
  | Not_Restorable string
  | Restore_Failed string
  | Still_Running

fun service_error_display :: "(io_error \<Rightarrow> string) \<Rightarrow> service_error \<Rightarrow> string" where
  "service_error_display io (Connection_Not_Found i) =
     ''no connection with id '' @ debug_string i @ '' in the connection store''"
| "service_error_display io (Invalid_Request m) = m"
| "service_error_display io (Service_Config e) = config_error_display io e"
| "service_error_display io (Service_Annotations e) = annotations_error_display io e"
| "service_error_display io (Service_Db e) = db_error_display e"
| "service_error_display io (Service_Write_Back e) = write_back_error_display e"
| "service_error_display io (Not_Editable a) =
     ''adapter '' @ debug_string a @ '' has no known SQL dialect for editing''"
| "service_error_display io (Not_Pageable a) =
     ''adapter '' @ debug_string a @ '' has no SQL dialect, so its tables are not read as keyset pages''"
| "service_error_display io (No_History a) = ''adapter '' @ debug_string a @ '' keeps no history to read''"
| "service_error_display io (Write_Not_Enabled i) =
     ''connection '' @ debug_string i @ '' is not enabled for writes over MCP; '' @
       ''a human must set mcp_write = true on it in connections.toml''"
| "service_error_display io Export_Not_Enabled =
     ''exporting connections over MCP is not enabled; a human must add an          '' @
       ''[mcp_export] table naming a directory to connections.toml''"
| "service_error_display io (Export_Failed m) = m"
| "service_error_display io (Write_Refused v) = write_policy_display v"
| "service_error_display io (Not_Dumpable a) = ''adapter '' @ debug_string a @ '' has no known SQL dialect to dump''"
| "service_error_display io (Dump_Failed m) = ''dump output failed: '' @ m"
| "service_error_display io (Not_Restorable a) =
     ''adapter '' @ debug_string a @ '' has no known SQL dialect to restore into''"
| "service_error_display io (Restore_Failed m) = ''restore failed: '' @ m"
| "service_error_display io Still_Running = []"

section \<open>State\<close>

text \<open>A cached adapter, when it last completed a round trip, and the database it was resolved to.\<close>

record 'w cached_adapter =
  cn_backend :: "'w backend"
  cn_checked_at :: nat
  cn_configured_database :: "string option"

record 'w service =
  sv_config_path :: file_path
  sv_annotations_path :: file_path
  sv_disk :: disk
  sv_keys :: "string \<rightharpoonup> string"
  sv_key_faults :: "string option list"
  sv_cache :: "string \<rightharpoonup> 'w cached_adapter"
  sv_world :: 'w

text \<open>
  What the service calls outside the repository: the TOML library, the drivers and the tunnel behind
  them, the \<open>url\<close> crate, the SQL parser, the clock (in milliseconds), the slots of the keyring that
  cannot be read at the moment, and the printing of documents and of operating-system errors.
\<close>

record ('w, 'u, 'x) ports =
  po_connections :: "connection_file codec"
  po_annotations :: "annotations_file codec"
  po_urls :: "'u url_lib"
  po_drivers :: "'w drivers"
  po_parse_sql :: "'x sql_parser"
  po_clock :: "'w \<Rightarrow> nat"
  po_unreadable :: "'w \<Rightarrow> string \<Rightarrow> string option"
  po_json_text :: "json \<Rightarrow> string"
  po_io_text :: "io_error \<Rightarrow> string"

type_synonym ('w, 'a) service_op = "'w service \<Rightarrow> (service_error + 'a) \<times> 'w service"

text \<open>A call into the world, with its database error as one of the service.\<close>

definition on_world :: "('w, 'a) db_op \<Rightarrow> ('w, 'a) service_op" where
  "on_world f s =
     (case f (sv_world s) of
        (Inl e, w) \<Rightarrow> (Inl (Service_Db e), s\<lparr>sv_world := w\<rparr>)
      | (Inr x, w) \<Rightarrow> (Inr x, s\<lparr>sv_world := w\<rparr>))"

definition service_new :: "file_path \<Rightarrow> file_path \<Rightarrow> disk \<Rightarrow> (string \<rightharpoonup> string) \<Rightarrow> string option list \<Rightarrow> 'w \<Rightarrow> 'w service" where
  "service_new config_path annotations_path d keys faults w =
     \<lparr>sv_config_path = config_path, sv_annotations_path = annotations_path, sv_disk = d, sv_keys = keys,
      sv_key_faults = faults, sv_cache = Map.empty, sv_world = w\<rparr>"

section \<open>Reading the stores\<close>

definition load_connection_file :: "('w, 'u, 'x) ports \<Rightarrow> ('w, connection_file) service_op" where
  "load_connection_file p s =
     (case connections_load (po_connections p) (sv_config_path s) (sv_disk s) of
        (Inl e, d) \<Rightarrow> (Inl (Service_Config e), s\<lparr>sv_disk := d\<rparr>)
      | (Inr file, d) \<Rightarrow> (Inr file, s\<lparr>sv_disk := d\<rparr>))"

definition load_annotations_file :: "('w, 'u, 'x) ports \<Rightarrow> ('w, annotations_file) service_op" where
  "load_annotations_file p s =
     (case annotations_load (po_annotations p) (sv_annotations_path s) (sv_disk s) of
        (Inl e, d) \<Rightarrow> (Inl (Service_Annotations e), s\<lparr>sv_disk := d\<rparr>)
      | (Inr file, d) \<Rightarrow> (Inr file, s\<lparr>sv_disk := d\<rparr>))"

definition service_secrets :: "('w, 'u, 'x) ports \<Rightarrow> 'w service \<Rightarrow> secret_reader" where
  "service_secrets p s r =
     (case po_unreadable p (sv_world s) r of
        Some source \<Rightarrow> Inl (Secret_Backend r source)
      | None \<Rightarrow> ok_or (Secret_Not_Found r) (sv_keys s r))"

text \<open>A call of the connection admin, which is opened afresh for it.\<close>

definition with_admin :: "('w, 'u, 'x) ports \<Rightarrow> 'a admin_op \<Rightarrow> 'w service \<Rightarrow> (config_error + 'a) \<times> 'w service" where
  "with_admin p f s =
     (case connections_load (po_connections p) (sv_config_path s) (sv_disk s) of
        (Inl e, d) \<Rightarrow> (Inl e, s\<lparr>sv_disk := d\<rparr>)
      | (Inr file, d) \<Rightarrow>
          (case f \<lparr>ca_path = sv_config_path s, ca_file = file, ca_tracks_disk = True, ca_disk = d,
                 ca_keys = sv_keys s, ca_key_faults = sv_key_faults s\<rparr> of
             (r, a) \<Rightarrow> (r, s\<lparr>sv_disk := ca_disk a, sv_keys := ca_keys a, sv_key_faults := ca_key_faults a\<rparr>)))"

section \<open>The adapter cache\<close>

definition HEALTH_CHECK_AFTER_IDLE :: nat where "HEALTH_CHECK_AFTER_IDLE = 30000"

text \<open>The backend an entry resolves to for a target, and the database it names.\<close>

definition target_backend :: "('w, 'u, 'x) ports \<Rightarrow> target \<Rightarrow> connection_entry \<Rightarrow> 'w service \<Rightarrow>
    service_error + backend_config \<times> string option" where
  "target_backend p t entry s =
     (case entry_to_backend (service_secrets p s) entry of
        Inl e \<Rightarrow> Inl (Service_Config e)
      | Inr config \<Rightarrow>
          (case (case target_database t of
                   Some database \<Rightarrow> scoped_to_database (po_urls p) config database
                 | None \<Rightarrow> Inr config) of
             Inl e \<Rightarrow> Inl (Service_Db e)
           | Inr config \<Rightarrow>
               (case with_listing_default (po_urls p) config of
                  Inl e \<Rightarrow> Inl (Service_Db e)
                | Inr dialled \<Rightarrow> Inr (dialled, configured_database (po_urls p) config))))"

definition remember :: "('w, 'u, 'x) ports \<Rightarrow> target \<Rightarrow> string option \<Rightarrow> 'w backend \<Rightarrow> ('w, 'w backend) service_op" where
  "remember p t configured backend s =
     (Inr backend, s\<lparr>sv_cache := (sv_cache s)(cache_key t \<mapsto>
        \<lparr>cn_backend = backend, cn_checked_at = po_clock p (sv_world s),
         cn_configured_database = configured\<rparr>)\<rparr>)"

definition dial_entry :: "('w, 'u, 'x) ports \<Rightarrow> target \<Rightarrow> connection_entry \<Rightarrow> ('w, 'w backend) service_op" where
  "dial_entry p t entry s =
     (case target_backend p t entry s of
        Inl e \<Rightarrow> (Inl e, s)
      | Inr (config, configured) \<Rightarrow>
          io_bind (on_world (connect_adapter (po_urls p) (po_drivers p) config)) (remember p t configured) s)"

definition connect_target :: "('w, 'u, 'x) ports \<Rightarrow> target \<Rightarrow> ('w, 'w backend) service_op" where
  "connect_target p t =
     io_bind (load_connection_file p) (\<lambda>file.
       case find_connection file (tg_connection t) of
         None \<Rightarrow> io_of (Inl (Connection_Not_Found (tg_connection t)))
       | Some entry \<Rightarrow> dial_entry p t entry)"

definition adapter_for_target :: "('w, 'u, 'x) ports \<Rightarrow> target \<Rightarrow> ('w, 'w backend) service_op" where
  "adapter_for_target p t s =
     (case sv_cache s (cache_key t) of
        None \<Rightarrow> connect_target p t s
      | Some entry \<Rightarrow>
          if po_clock p (sv_world s) - cn_checked_at entry < HEALTH_CHECK_AFTER_IDLE
          then (Inr (cn_backend entry), s)
          else
            (case ad_ping (be_adapter (cn_backend entry)) (sv_world s) of
               (Inr _, w) \<Rightarrow>
                 (Inr (cn_backend entry),
                  s\<lparr>sv_world := w, sv_cache := (sv_cache s)(cache_key t \<mapsto> entry\<lparr>cn_checked_at := po_clock p w\<rparr>)\<rparr>)
             | (Inl _, w) \<Rightarrow>
                 connect_target p t (s\<lparr>sv_world := w, sv_cache := (sv_cache s)(cache_key t := None)\<rparr>)))"

definition adapter_for :: "('w, 'u, 'x) ports \<Rightarrow> string \<Rightarrow> ('w, 'w backend) service_op" where
  "adapter_for p connection = adapter_for_target p (target_of connection)"

definition invalidate :: "string \<Rightarrow> 'w service \<Rightarrow> 'w service" where
  "invalidate connection s =
     s\<lparr>sv_cache := sv_cache s |` {key. \<not> key_belongs_to key connection}\<rparr>"

definition reconnect :: "('w, 'u, 'x) ports \<Rightarrow> string \<Rightarrow> ('w, unit) service_op" where
  "reconnect p connection s =
     io_bind (adapter_for p connection) (\<lambda>_. io_of (Inr ())) (invalidate connection s)"

section \<open>The list of connections\<close>

record connection_view =
  cv_id :: string
  cv_name :: string
  cv_kind :: string
  cv_position :: nat
  cv_color :: "string option"
  cv_tag :: "string option"

fun kind_label :: "connection_kind \<Rightarrow> string" where
  "kind_label (Turso _) = ''turso''"
| "kind_label (Turso_Remote _ _) = ''turso-remote''"
| "kind_label (D1 _ _ _ _) = ''d1''"
| "kind_label (connection_kind.Postgres _) = ''postgres''"
| "kind_label (connection_kind.My_Sql _) = ''mysql''"
| "kind_label (Neon _) = ''neon''"
| "kind_label (Supabase _) = ''supabase''"
| "kind_label (Aurora_Dsql _) = ''aurora-dsql''"
| "kind_label (Aurora_Dsql_Iam _ _ _ _ _ _) = ''aurora-dsql-iam''"
| "kind_label (Firestore _ _ _ _) = ''firestore''"
| "kind_label (Mongo_Db _ _) = ''mongodb''"
| "kind_label (Redis _ _ _) = ''redis''"

definition operator_view :: "nat \<Rightarrow> connection_entry \<Rightarrow> connection_view" where
  "operator_view pos entry =
     \<lparr>cv_id = ce_id entry, cv_name = ce_name entry, cv_kind = kind_label (ce_kind entry), cv_position = pos,
      cv_color = ce_color entry, cv_tag = ce_tag entry\<rparr>"

definition list_connections :: "('w, 'u, 'x) ports \<Rightarrow> ('w, connection_view list) service_op" where
  "list_connections p =
     io_bind (load_connection_file p) (\<lambda>file.
       io_of (Inr (map (\<lambda>(pos, entry). operator_view pos entry) (enumerate 0 (cf_connections file)))))"

definition agent_view :: "nat \<Rightarrow> connection_entry \<Rightarrow> connection_view" where
  "agent_view pos entry =
     \<lparr>cv_id = (case ce_mcp_alias entry of Some a \<Rightarrow> a | None \<Rightarrow> ce_id entry),
      cv_name = (case ce_mcp_alias entry of Some a \<Rightarrow> a | None \<Rightarrow> ce_name entry),
      cv_kind = kind_label (ce_kind entry), cv_position = pos,
      cv_color = ce_color entry, cv_tag = ce_tag entry\<rparr>"

definition list_agent_connections :: "('w, 'u, 'x) ports \<Rightarrow> ('w, connection_view list) service_op" where
  "list_agent_connections p =
     io_bind (load_connection_file p) (\<lambda>file.
       io_of (Inr (map (\<lambda>(pos, entry). agent_view pos entry) (enumerate 0 (cf_connections file)))))"

definition answers_to :: "string \<Rightarrow> connection_entry \<Rightarrow> bool" where
  "answers_to handle entry \<longleftrightarrow>
     (case ce_mcp_alias entry of Some a \<Rightarrow> a = handle | None \<Rightarrow> ce_id entry = handle)"

definition resolve_agent_handle :: "('w, 'u, 'x) ports \<Rightarrow> string \<Rightarrow> ('w, string) service_op" where
  "resolve_agent_handle p handle =
     io_bind (load_connection_file p) (\<lambda>file.
       io_of (rmap ce_id (ok_or (Connection_Not_Found handle)
         (find (answers_to handle) (cf_connections file)))))"

section \<open>Changing the list\<close>

datatype new_connection_kind =
    New_Sqlite string
  | New_Firestore_Emulator string "string option" string

record new_connection =
  nc_id :: string
  nc_name :: string
  nc_kind :: new_connection_kind

definition required :: "string \<Rightarrow> string \<Rightarrow> service_error + string" where
  "required label raw =
     (if trim raw = [] then Inl (Invalid_Request (label @ '' must not be blank'')) else Inr (trim raw))"

definition optional :: "string option \<Rightarrow> string option" where
  "optional v = (case v of Some t \<Rightarrow> if trim t \<noteq> [] then Some (trim t) else None | None \<Rightarrow> None)"

fun draft_kind :: "new_connection_kind \<Rightarrow> service_error + connection_kind_draft" where
  "draft_kind (New_Sqlite path) =
     rbind (required ''path'' path) (\<lambda>path.
       if sublist ''://'' path
       then Inl (Invalid_Request (''path must be a local file, not a URL like '' @ debug_string path @
         ''.                      A remote database needs a token or a password, and those'' @
         ''                      are added by the operator in the dbboard app '' @ EM_DASH @ '' never sent'' @
         ''                      to a tool''))
       else Inr (Draft_Turso path))"
| "draft_kind (New_Firestore_Emulator project database base) =
     rbind (required ''project_id'' project) (\<lambda>project.
     rbind (required ''base_url'' base) (\<lambda>base.
       if \<not> starts_with ''http://'' base \<and> \<not> starts_with ''https://'' base
       then Inl (Invalid_Request (''base_url must be the emulator's HTTP address, got '' @ debug_string base))
       else Inr (Draft_Firestore project (optional database) (Some base) None)))"

fun add_error :: "config_error \<Rightarrow> service_error" where
  "add_error (Duplicate_Id i) = Invalid_Request (''the handle '' @ debug_string i @
     '' is already taken by another connection; choose another id'')"
| "add_error (Duplicate_Alias i) = Invalid_Request (''the handle '' @ debug_string i @
     '' is already taken by another connection; choose another id'')"
| "add_error e = Service_Config e"

definition new_draft :: "new_connection \<Rightarrow> service_error + connection_draft" where
  "new_draft request =
     rbind (required ''id'' (nc_id request)) (\<lambda>i.
     rbind (required ''name'' (nc_name request)) (\<lambda>name.
     rbind (draft_kind (nc_kind request)) (\<lambda>kind.
       Inr \<lparr>cd_id = i, cd_name = name, cd_kind = kind, cd_ssh = None, cd_mcp_write = False,
         cd_mcp_alias = None, cd_color = None, cd_tag = None\<rparr>)))"

definition added_view :: "string \<Rightarrow> connection_entry \<Rightarrow> connection_view admin_op" where
  "added_view i entry a =
     (Inr \<lparr>cv_id = ce_id entry, cv_name = ce_name entry, cv_kind = kind_label (ce_kind entry),
        cv_position = (case position (\<lambda>e. ce_id e = i) (cf_connections (ca_file a)) of
          Some n \<Rightarrow> n | None \<Rightarrow> 0),
        cv_color = None, cv_tag = None\<rparr>, a)"

definition add_connection :: "('w, 'u, 'x) ports \<Rightarrow> new_connection \<Rightarrow> ('w, connection_view) service_op" where
  "add_connection p request s =
     (case new_draft request of
        Inl e \<Rightarrow> (Inl e, s)
      | Inr draft \<Rightarrow>
          io_map_err add_error (with_admin p (io_bind (admin_add (po_connections p) draft) (added_view (cd_id draft)))) s)"

fun list_write_error :: "config_error \<Rightarrow> service_error" where
  "list_write_error (No_Such_Connection i) = Connection_Not_Found i"
| "list_write_error (Unknown_Color name) = Invalid_Request (debug_string name @
     '' is not one of dbboard's connection colours; use one of: '' @ join '', '' CONNECTION_COLORS)"
| "list_write_error (Tag_Too_Long tag limit) = Invalid_Request (''the tag '' @ debug_string tag @
     '' is longer than the '' @ show_nat limit @ ''-character limit; shorten it'')"
| "list_write_error (Index_Out_Of_Range index len) = Invalid_Request (''there is no position '' @
     show_nat index @ '' in a list of '' @ show_nat len @
     '' connections; positions count from 0, so the last one is '' @ show_nat (len - 1))"
| "list_write_error e = Service_Config e"

definition set_connection_mark ::
    "('w, 'u, 'x) ports \<Rightarrow> string \<Rightarrow> string option \<Rightarrow> string option \<Rightarrow> ('w, unit) service_op" where
  "set_connection_mark p connection color tag =
     io_map_err list_write_error (with_admin p (admin_set_mark (po_connections p) connection color tag))"

definition move_connection :: "('w, 'u, 'x) ports \<Rightarrow> string \<Rightarrow> nat \<Rightarrow> ('w, unit) service_op" where
  "move_connection p connection pos =
     io_map_err list_write_error (with_admin p (admin_move_to (po_connections p) connection pos))"

end
