(* ===== verification/Mcp_Tools.thy ===== *)
theory Mcp_Tools
  imports Mcp_Service
begin

text \<open>
  The calls of the service that reach a database (\<open>service.rs\<close>, \<open>service/history.rs\<close>): reading tables
  and rows, comparing and searching schemas, writing behind the gate, dumping to a file, and the calls
  only the desktop app makes. A \<open>usize\<close> is a natural number.
\<close>

definition DEFAULT_MAX_ROWS :: nat where "DEFAULT_MAX_ROWS = 200"
definition DEFAULT_PAGE_ROWS :: nat where "DEFAULT_PAGE_ROWS = 100"
definition MAX_MAX_ROWS :: nat where "MAX_MAX_ROWS = 1000"
definition MAX_SCHEMA_MATCHES :: nat where "MAX_SCHEMA_MATCHES = 200"
definition MAX_RELATIONSHIPS :: nat where "MAX_RELATIONSHIPS = 500"

section \<open>Tables and databases\<close>

definition list_tables :: "('w, 'u, 'x) ports \<Rightarrow> target \<Rightarrow> ('w, table_info list) service_op" where
  "list_tables p t = io_bind (adapter_for_target p t) (\<lambda>b. on_world (ad_list_tables (be_adapter b)))"

definition list_databases :: "('w, 'u, 'x) ports \<Rightarrow> string \<Rightarrow> ('w, string list) service_op" where
  "list_databases p connection =
     io_bind (adapter_for p connection) (\<lambda>b. on_world (ad_list_databases (be_adapter b)))"

record database_listing =
  dl_configured :: "string option"
  dl_databases :: "string list"

definition list_or_none :: "'w adapter \<Rightarrow> ('w, string list) service_op" where
  "list_or_none a s =
     (case ad_list_databases a (sv_world s) of
        (Inr names, w) \<Rightarrow> (Inr names, s\<lparr>sv_world := w\<rparr>)
      | (Inl (Capability_Error _), w) \<Rightarrow> (Inr [], s\<lparr>sv_world := w\<rparr>)
      | (Inl e, w) \<Rightarrow> (Inl (Service_Db e), s\<lparr>sv_world := w\<rparr>))"

definition database_listing :: "('w, 'u, 'x) ports \<Rightarrow> string \<Rightarrow> ('w, database_listing) service_op" where
  "database_listing p connection =
     io_bind (adapter_for p connection) (\<lambda>b s.
       case Option.bind (sv_cache s connection) cn_configured_database of
         Some configured \<Rightarrow> (Inr \<lparr>dl_configured = Some configured, dl_databases = []\<rparr>, s)
       | None \<Rightarrow>
           io_bind (list_or_none (be_adapter b))
             (\<lambda>names. io_of (Inr \<lparr>dl_configured = None, dl_databases = names\<rparr>)) s)"

definition describe_table ::
    "('w, 'u, 'x) ports \<Rightarrow> target \<Rightarrow> string option \<Rightarrow> string \<Rightarrow> ('w, table_schema) service_op" where
  "describe_table p t schema name =
     (let info = (case schema of
            Some s \<Rightarrow> if s \<noteq> [] then table_qualified s name else table_unqualified name
          | None \<Rightarrow> table_unqualified name)
      in io_bind (adapter_for_target p t) (\<lambda>b. on_world (ad_describe_table (be_adapter b) info)))"

section \<open>Comparing schemas\<close>

definition snapshot_table :: "'w adapter \<Rightarrow> table_info \<Rightarrow> ('w, table_snapshot) db_op" where
  "snapshot_table a info =
     io_bind (ad_describe_table a info) (\<lambda>schema.
     io_bind (if has_foreign_keys (ad_capabilities a) then ad_foreign_keys a info else io_of (Inr [])) (\<lambda>keys.
     io_bind (if has_list_indexes (ad_capabilities a) then ad_list_indexes a info else io_of (Inr [])) (\<lambda>indexes.
       io_of (Inr \<lparr>sn_schema = schema, sn_foreign_keys = keys, sn_indexes = indexes\<rparr>))))"

fun snapshot_tables :: "'w adapter \<Rightarrow> table_info list \<Rightarrow> ('w, table_snapshot list) db_op" where
  "snapshot_tables a [] = io_of (Inr [])"
| "snapshot_tables a (info # infos) =
     io_bind (snapshot_table a info) (\<lambda>snapshot.
     io_bind (snapshot_tables a infos) (\<lambda>snapshots. io_of (Inr (snapshot # snapshots))))"

definition snapshot_schema :: "('w, 'u, 'x) ports \<Rightarrow> string \<Rightarrow> ('w, table_snapshot list) service_op" where
  "snapshot_schema p connection =
     io_bind (adapter_for p connection) (\<lambda>b.
       on_world (io_bind (ad_list_tables (be_adapter b)) (snapshot_tables (be_adapter b))))"

definition kind_of :: "connection_file \<Rightarrow> string \<Rightarrow> service_error + string" where
  "kind_of file connection =
     rmap (\<lambda>e. kind_label (ce_kind e)) (ok_or (Connection_Not_Found connection) (find_connection file connection))"

definition diff_schemas :: "('w, 'u, 'x) ports \<Rightarrow> string \<Rightarrow> string \<Rightarrow> ('w, schema_diff) service_op" where
  "diff_schemas p left right =
     io_bind (load_connection_file p) (\<lambda>file.
     io_bind (io_of (kind_of file left)) (\<lambda>left_kind.
     io_bind (io_of (kind_of file right)) (\<lambda>right_kind.
       if left_kind \<noteq> right_kind
       then io_of (Inl (Invalid_Request (''cannot compare a '' @ left_kind @ '' schema with a '' @ right_kind @
         '' one: the two engines spell types differently, and deciding which spellings mean the same '' @
         ''thing is not something this comparison does'')))
       else
         io_bind (snapshot_schema p left) (\<lambda>l.
         io_bind (snapshot_schema p right) (\<lambda>r. io_of (Inr (diff_snapshots l r)))))))"

section \<open>Rows\<close>

record query_output =
  qo_columns :: "column list"
  qo_rows :: "row list"
  qo_row_count :: nat
  qo_truncated :: bool
  qo_has_more :: bool
  qo_next_cursor :: "val list option"

definition run_read_query ::
    "('w, 'u, 'x) ports \<Rightarrow> target \<Rightarrow> string \<Rightarrow> nat option \<Rightarrow> ('w, query_output) service_op" where
  "run_read_query p t sql max_rows =
     (let effective = min (case max_rows of Some n \<Rightarrow> n | None \<Rightarrow> DEFAULT_MAX_ROWS) MAX_MAX_ROWS in
      io_bind (adapter_for_target p t) (\<lambda>b.
      io_bind (on_world (ad_query_read_only (be_adapter b) sql (effective + 1))) (\<lambda>result.
        let kept = truncate_rows effective result in
        io_of (Inr \<lparr>qo_columns = qr_columns kept, qo_rows = qr_rows kept, qo_row_count = length (qr_rows kept),
          qo_truncated = effective < length (qr_rows result), qo_has_more = False, qo_next_cursor = None\<rparr>))))"

definition key_columns_of :: "'w adapter \<Rightarrow> table_info \<Rightarrow> ('w, string list) db_op" where
  "key_columns_of a info =
     (if has_describe_table (ad_capabilities a)
      then io_bind (ad_describe_table a info) (\<lambda>schema. io_of (Inr (ts_primary_key schema)))
      else io_of (Inr []))"

definition service_browse_page :: "('w, 'u, 'x) ports \<Rightarrow> target \<Rightarrow> table_info \<Rightarrow> nat option \<Rightarrow> val list option \<Rightarrow>
    ('w, query_output) service_op" where
  "service_browse_page p t info page_rows after =
     (let effective = min (case page_rows of Some n \<Rightarrow> n | None \<Rightarrow> DEFAULT_PAGE_ROWS) MAX_MAX_ROWS in
      io_bind (adapter_for_target p t) (\<lambda>b.
        let a = be_adapter b in
        case dialect_for_adapter_id (ad_id a) of
          None \<Rightarrow> io_of (Inl (Not_Pageable (ad_id a)))
        | Some dialect \<Rightarrow>
            io_bind (on_world (key_columns_of a info)) (\<lambda>keys.
            io_bind (on_world (browse_page (po_json_text p) a dialect info keys effective after)) (\<lambda>result.
              io_of (Inr \<lparr>qo_columns = qr_columns result, qo_rows = qr_rows result,
                qo_row_count = length (qr_rows result), qo_truncated = False,
                qo_has_more = qr_has_more result, qo_next_cursor = qr_next_cursor result\<rparr>)))))"

section \<open>Writing\<close>

record write_output =
  wo_statement :: string
  wo_rows_affected :: u64

fun write_label :: "write_statement \<Rightarrow> string" where
  "write_label Data_Write = ''data''"
| "write_label Schema_Write = ''schema''"

definition require_mcp_write :: "('w, 'u, 'x) ports \<Rightarrow> string \<Rightarrow> ('w, unit) service_op" where
  "require_mcp_write p connection =
     io_bind (load_connection_file p) (\<lambda>file. io_of
       (case find_connection file connection of
          None \<Rightarrow> Inl (Connection_Not_Found connection)
        | Some entry \<Rightarrow> if ce_mcp_write entry then Inr () else Inl (Write_Not_Enabled connection)))"

definition run_write :: "('w, 'u, 'x) ports \<Rightarrow> string \<Rightarrow> string \<Rightarrow> ('w, write_output) service_op" where
  "run_write p connection sql =
     io_bind (require_mcp_write p connection) (\<lambda>_.
     io_bind (adapter_for p connection) (\<lambda>b.
       let a = be_adapter b in
       case dialect_for_adapter_id (ad_id a) of
         None \<Rightarrow> io_of (Inl (Not_Editable (ad_id a)))
       | Some dialect \<Rightarrow>
           (case classify_write (po_parse_sql p) sql dialect of
              Inl violation \<Rightarrow> io_of (Inl (Write_Refused violation))
            | Inr statement \<Rightarrow>
                io_bind (on_world (ad_execute a sql)) (\<lambda>n.
                  io_of (Inr \<lparr>wo_statement = write_label statement, wo_rows_affected = n\<rparr>)))))"

definition apply_row_update :: "('w, 'u, 'x) ports \<Rightarrow> target \<Rightarrow> update_plan \<Rightarrow> ('w, u64) service_op" where
  "apply_row_update p t plan =
     io_bind (adapter_for_target p t) (\<lambda>b.
       let a = be_adapter b in
       case dialect_for_adapter_id (ad_id a) of
         None \<Rightarrow> io_of (Inl (Not_Editable (ad_id a)))
       | Some dialect \<Rightarrow>
           (case build_update_sql plan dialect of
              Inl e \<Rightarrow> io_of (Inl (Service_Write_Back e))
            | Inr sql \<Rightarrow> on_world (ad_execute a sql)))"

section \<open>Dumping\<close>

text \<open>
  What a dump asks of the platform, and how the buffered writer behaves: an error the sink gives for a
  chunk after those it has taken.
\<close>

record file_ports =
  fo_is_absolute :: "file_path \<Rightarrow> bool"
  fo_is_dir :: "string \<Rightarrow> bool"
  fo_display :: "file_path \<Rightarrow> string"
  fo_sink_error :: "string list \<Rightarrow> string \<Rightarrow> string option"

record dump_file_outcome =
  df_path :: string
  df_tables_dumped :: nat
  df_rows_written :: u64
  df_bytes_written :: nat
  df_failed_tables :: "string list"
  df_truncated_tables :: "string list"
  df_complete :: bool

text \<open>\<open>Path::exists\<close> is false when the path cannot be looked at.\<close>

definition path_exists :: "file_ports \<Rightarrow> file_path \<Rightarrow> disk \<Rightarrow> bool \<times> disk" where
  "path_exists fo path d =
     (next_fault d = Fine \<and> (dk_files d path \<noteq> None \<or> fo_is_dir fo (fo_display fo path)), advance [] d)"

definition check_dump_destination :: "file_ports \<Rightarrow> file_path \<Rightarrow> ('w, string) service_op" where
  "check_dump_destination fo path s =
     (if \<not> fo_is_absolute fo path
      then (Inl (Invalid_Request ''output_path must be an absolute path''), s)
      else
        (case path_exists fo path (sv_disk s) of
           (True, d) \<Rightarrow> (Inl (Invalid_Request (''output_path already exists; dumps never overwrite '' @ EM_DASH @
             '' choose another name'')), s\<lparr>sv_disk := d\<rparr>)
         | (False, d) \<Rightarrow>
             (case fp_parent path of
                Some parent \<Rightarrow>
                  if fo_is_dir fo parent then (Inr (fo_display fo path), s\<lparr>sv_disk := d\<rparr>)
                  else (Inl (Invalid_Request
                    ''the directory of output_path does not exist; create it first''), s\<lparr>sv_disk := d\<rparr>)
              | None \<Rightarrow> (Inl (Invalid_Request
                    ''the directory of output_path does not exist; create it first''), s\<lparr>sv_disk := d\<rparr>))))"

definition service_plan_dump :: "('w, 'u, 'x) ports \<Rightarrow> string \<Rightarrow> ('w, dump_plan) service_op" where
  "service_plan_dump p connection =
     io_bind (adapter_for p connection) (\<lambda>b.
       let a = be_adapter b in
       case dialect_for_adapter_id (ad_id a) of
         None \<Rightarrow> io_of (Inl (Not_Dumpable (ad_id a)))
       | Some dialect \<Rightarrow> on_world (plan_dump a dialect))"

text \<open>A run also leaves the chunks the sink took.\<close>

definition service_run_dump :: "('w, 'u, 'x) ports \<Rightarrow> nat \<Rightarrow> dump_ports \<Rightarrow> string \<Rightarrow> dump_plan \<Rightarrow> 'w service \<Rightarrow>
    ((service_error + dump_outcome) \<times> string list) \<times> 'w service" where
  "service_run_dump p fuel ports connection plan s =
     (case adapter_for p connection s of
        (Inl e, s) \<Rightarrow> ((Inl e, []), s)
      | (Inr b, s) \<Rightarrow>
          (case dialect_for_adapter_id (ad_id (be_adapter b)) of
             None \<Rightarrow> ((Inl (Not_Dumpable (ad_id (be_adapter b))), []), s)
           | Some dialect \<Rightarrow>
               (case run_dump fuel (po_json_text p) (be_adapter b) ports dialect plan
                  \<lparr>ds_db = sv_world s, ds_sink = [], ds_polls = 0, ds_reports = [],
                   ds_outcome = dump_outcome_default\<rparr> of
                  (r, d) \<Rightarrow>
                    (((case r of
                         Inl (Dump_Error e) \<Rightarrow> Inl (Dump_Failed (dump_error_display e))
                       | Inl Out_Of_Fuel \<Rightarrow> Inl Still_Running
                       | Inr out \<Rightarrow> Inr out), ds_sink d), s\<lparr>sv_world := ds_db d\<rparr>))))"

text \<open>The sink is dropped with what it holds when the run fails; its last write then goes unreported.\<close>

definition write_sink :: "('w, 'u, 'x) ports \<Rightarrow> file_path \<Rightarrow> string list \<Rightarrow> ('w, nat) service_op" where
  "write_sink p path taken s =
     (case write_all path (concat taken) (sv_disk s) of
        (Inl e, d) \<Rightarrow> (Inl (Dump_Failed (''could not flush the output file: '' @ po_io_text p e)), s\<lparr>sv_disk := d\<rparr>)
      | (Inr _, d) \<Rightarrow> (Inr (sum_list (map byte_len taken)), s\<lparr>sv_disk := d\<rparr>))"

definition create_sink :: "('w, 'u, 'x) ports \<Rightarrow> file_path \<Rightarrow> ('w, unit) service_op" where
  "create_sink p path s =
     (case create_new_user_only path (sv_disk s) of
        (Inl e, d) \<Rightarrow> (Inl (Dump_Failed (''could not create the output file: '' @ po_io_text p e)), s\<lparr>sv_disk := d\<rparr>)
      | (Inr _, d) \<Rightarrow> (Inr (), s\<lparr>sv_disk := d\<rparr>))"

definition dump_to_file :: "('w, 'u, 'x) ports \<Rightarrow> file_ports \<Rightarrow> nat \<Rightarrow> string \<Rightarrow> file_path \<Rightarrow>
    ('w, dump_file_outcome) service_op" where
  "dump_to_file p fo fuel connection path =
     io_bind (check_dump_destination fo path) (\<lambda>shown.
     io_bind (service_plan_dump p connection) (\<lambda>plan.
     io_bind (create_sink p path) (\<lambda>_ s.
       case service_run_dump p fuel \<lparr>sink_error = fo_sink_error fo, cancel_at = (\<lambda>_. False)\<rparr> connection plan s of
         ((Inl e, taken), s) \<Rightarrow> (Inl e, snd (write_sink p path taken s))
       | ((Inr out, taken), s) \<Rightarrow>
           io_bind (write_sink p path taken) (\<lambda>bytes.
             let failed = map tf_table (do_failures out); short = map tt_table (do_truncations out) in
             io_of (Inr \<lparr>df_path = shown, df_tables_dumped = do_tables_dumped out,
               df_rows_written = do_rows_written out, df_bytes_written = bytes, df_failed_tables = failed,
               df_truncated_tables = short, df_complete = (failed = [] \<and> short = [])\<rparr>)) s)))"

section \<open>Restoring\<close>

definition service_plan_restore :: "('w, 'u, 'x) ports \<Rightarrow> string \<Rightarrow> string \<Rightarrow> ('w, restore_plan) service_op" where
  "service_plan_restore p connection contents =
     io_bind (adapter_for p connection) (\<lambda>b.
       let a = be_adapter b in
       case dialect_for_adapter_id (ad_id a) of
         None \<Rightarrow> io_of (Inl (Not_Restorable (ad_id a)))
       | Some dialect \<Rightarrow> on_world (plan_restore (po_parse_sql p) a dialect contents))"

definition service_run_restore :: "('w, 'u, 'x) ports \<Rightarrow> string \<Rightarrow> restore_plan \<Rightarrow> restore_options \<Rightarrow>
    (nat \<Rightarrow> bool) \<Rightarrow> ('w, restore_outcome) service_op" where
  "service_run_restore p connection plan options cancel =
     io_bind (adapter_for p connection) (\<lambda>b s.
       case run_restore (be_adapter b) cancel plan options
         \<lparr>st_db = sv_world s, st_polls = 0, st_reports = []\<rparr> of
         (Inl e, r) \<Rightarrow> (Inl (Restore_Failed (restore_error_display e)), s\<lparr>sv_world := st_db r\<rparr>)
       | (Inr out, r) \<Rightarrow> (Inr out, s\<lparr>sv_world := st_db r\<rparr>))"

section \<open>Notes\<close>

record annotations_view =
  av_connection_id :: string
  av_tables :: "table_annotations list"

definition filter_columns :: "table_annotations \<Rightarrow> string option \<Rightarrow> table_annotations" where
  "filter_columns t col =
     (case col of
        None \<Rightarrow> t
      | Some want \<Rightarrow> t\<lparr>ta_columns := filter (\<lambda>c. ca_name c = want) (ta_columns t)\<rparr>)"

definition get_annotations :: "('w, 'u, 'x) ports \<Rightarrow> string \<Rightarrow> string option \<Rightarrow> string option \<Rightarrow>
    ('w, annotations_view) service_op" where
  "get_annotations p connection tbl col =
     io_bind (load_annotations_file p) (\<lambda>file. io_of (Inr
       \<lparr>av_connection_id = connection,
        av_tables = (case find (\<lambda>c. cn_id c = connection) (an_connections file) of
            None \<Rightarrow> []
          | Some conn \<Rightarrow> map (\<lambda>t. filter_columns t col)
              (filter (\<lambda>t. case tbl of None \<Rightarrow> True | Some want \<Rightarrow> ta_key t = want) (cn_tables conn)))\<rparr>))"

section \<open>Searching the schema\<close>

text \<open>\<open>str::to_lowercase\<close>, on characters below 256.\<close>

definition lower_char :: "char \<Rightarrow> char" where
  "lower_char c =
     (if is_ascii_upper c \<or> 192 \<le> code_point c \<and> code_point c \<le> 222 \<and> code_point c \<noteq> 215
      then char_of (code_point c + 32) else c)"

definition to_lowercase :: "string \<Rightarrow> string" where
  "to_lowercase = map lower_char"

record schema_match =
  sm_table :: table_info
  sm_table_name_matched :: bool
  sm_matched_columns :: "column_info list"

record schema_search_view =
  sc_connection_id :: string
  sc_pattern :: string
  sc_matches :: "schema_match list"
  sc_truncated :: bool

definition match_table :: "string \<Rightarrow> table_info \<Rightarrow> table_schema \<Rightarrow> schema_match option" where
  "match_table needle info schema =
     (let hit = sublist needle (to_lowercase (ti_name info));
          columns = filter (\<lambda>c. sublist needle (to_lowercase (ci_name c))) (ts_columns schema)
      in if hit \<or> columns \<noteq> []
         then Some \<lparr>sm_table = info, sm_table_name_matched = hit, sm_matched_columns = columns\<rparr> else None)"

fun search_tables :: "'w adapter \<Rightarrow> string \<Rightarrow> table_info list \<Rightarrow> schema_match list \<Rightarrow>
    ('w, schema_match list \<times> bool) db_op" where
  "search_tables a needle [] hits = io_of (Inr (hits, False))"
| "search_tables a needle (info # infos) hits =
     (if MAX_SCHEMA_MATCHES \<le> length hits then io_of (Inr (hits, True))
      else io_bind (ad_describe_table a info) (\<lambda>schema.
        search_tables a needle infos (hits @ opt_list (match_table needle info schema))))"

definition search_schema :: "('w, 'u, 'x) ports \<Rightarrow> target \<Rightarrow> string \<Rightarrow> ('w, schema_search_view) service_op" where
  "search_schema p t pattern =
     (let needle = to_lowercase (trim pattern) in
      if needle = [] then io_of (Inl (Invalid_Request ''search pattern must not be blank''))
      else
        io_bind (adapter_for_target p t) (\<lambda>b.
        io_bind (on_world (io_bind (ad_list_tables (be_adapter b))
            (\<lambda>infos. search_tables (be_adapter b) needle infos []))) (\<lambda>(hits, truncated).
          io_of (Inr \<lparr>sc_connection_id = tg_connection t, sc_pattern = pattern, sc_matches = hits,
            sc_truncated = truncated\<rparr>))))"

section \<open>Relationships\<close>

record relationship =
  re_from_table :: table_info
  re_from_columns :: "string list"
  re_to_table :: table_info
  re_to_columns :: "string list"
  re_constraint_name :: "string option"

record relationship_view =
  rw_connection_id :: string
  rw_table :: "string option"
  rw_relationships :: "relationship list"
  rw_truncated :: bool
  rw_unreadable_tables :: "table_info list"

definition relationship_from_fk :: "table_info \<Rightarrow> foreign_key \<Rightarrow> relationship" where
  "relationship_from_fk from_table fk =
     \<lparr>re_from_table = from_table, re_from_columns = fk_columns fk, re_to_table = fk_referenced_table fk,
      re_to_columns = fk_referenced_columns fk, re_constraint_name = fk_constraint_name fk\<rparr>"

definition table_matches :: "table_info \<Rightarrow> string \<Rightarrow> bool" where
  "table_matches info want \<longleftrightarrow>
     to_lowercase (ti_name info) = want \<or>
     (case ti_schema info of
        Some schema \<Rightarrow> to_lowercase schema @ ''.'' @ to_lowercase (ti_name info) = want
      | None \<Rightarrow> False)"

definition edge_touches :: "relationship \<Rightarrow> string \<Rightarrow> bool" where
  "edge_touches edge want \<longleftrightarrow> table_matches (re_from_table edge) want \<or> table_matches (re_to_table edge) want"

text \<open>The edges of one table; the flag says that the cap was reached and the sweep is over.\<close>

fun add_edges :: "string option \<Rightarrow> table_info \<Rightarrow> foreign_key list \<Rightarrow> relationship list \<Rightarrow> relationship list \<times> bool" where
  "add_edges wanted info [] edges = (edges, False)"
| "add_edges wanted info (fk # fks) edges =
     (let edge = relationship_from_fk info fk in
      if (case wanted of Some want \<Rightarrow> \<not> edge_touches edge want | None \<Rightarrow> False)
      then add_edges wanted info fks edges
      else if MAX_RELATIONSHIPS \<le> length (edges @ [edge]) then (edges @ [edge], True)
      else add_edges wanted info fks (edges @ [edge]))"

fun sweep_tables :: "'w adapter \<Rightarrow> string option \<Rightarrow> table_info list \<Rightarrow> relationship list \<Rightarrow> table_info list \<Rightarrow>
    'w \<Rightarrow> (relationship list \<times> bool \<times> table_info list) \<times> 'w" where
  "sweep_tables a wanted [] edges unreadable w = ((edges, False, unreadable), w)"
| "sweep_tables a wanted (info # infos) edges unreadable w =
     (if MAX_RELATIONSHIPS \<le> length edges then ((edges, True, unreadable), w)
      else case ad_foreign_keys a info w of
        (Inl e, w) \<Rightarrow> sweep_tables a wanted infos edges (unreadable @ [info]) w
      | (Inr fks, w) \<Rightarrow>
          (case add_edges wanted info fks edges of
             (edges, True) \<Rightarrow> ((edges, True, unreadable), w)
           | (edges, False) \<Rightarrow> sweep_tables a wanted infos edges unreadable w))"

definition list_relationships :: "('w, 'u, 'x) ports \<Rightarrow> target \<Rightarrow> string option \<Rightarrow> ('w, relationship_view) service_op" where
  "list_relationships p t table_filter =
     (let wanted = map_option to_lowercase (optional table_filter) in
      io_bind (adapter_for_target p t) (\<lambda>b.
      io_bind (on_world (ad_list_tables (be_adapter b))) (\<lambda>infos s.
        case sweep_tables (be_adapter b) wanted infos [] [] (sv_world s) of
          ((edges, truncated, unreadable), w) \<Rightarrow>
            (Inr \<lparr>rw_connection_id = tg_connection t, rw_table = wanted, rw_relationships = edges,
               rw_truncated = truncated, rw_unreadable_tables = unreadable\<rparr>, s\<lparr>sv_world := w\<rparr>))))"

section \<open>History\<close>

definition DEFAULT_COMMIT_LIMIT :: nat where "DEFAULT_COMMIT_LIMIT = 100"
definition MAX_COMMIT_LIMIT :: nat where "MAX_COMMIT_LIMIT = 1000"
definition DEFAULT_ROW_VERSIONS :: nat where "DEFAULT_ROW_VERSIONS = 50"

record commit_log_view =
  cl_connection_id :: string
  cl_available :: bool
  cl_commits :: "commit list"

definition clamp_limit :: "nat option \<Rightarrow> nat \<Rightarrow> nat \<Rightarrow> nat" where
  "clamp_limit asked usual most = max 1 (min (case asked of Some n \<Rightarrow> n | None \<Rightarrow> usual) most)"

definition service_commit_log :: "('w, 'u, 'x) ports \<Rightarrow> target \<Rightarrow> nat option \<Rightarrow> ('w, commit_log_view) service_op" where
  "service_commit_log p t limit =
     io_bind (adapter_for_target p t) (\<lambda>b.
       case be_history b of
         None \<Rightarrow> io_of (Inr \<lparr>cl_connection_id = tg_connection t, cl_available = False, cl_commits = []\<rparr>)
       | Some history \<Rightarrow>
           io_bind (on_world (hr_commit_log history (clamp_limit limit DEFAULT_COMMIT_LIMIT MAX_COMMIT_LIMIT)))
             (\<lambda>commits. io_of (Inr
               \<lparr>cl_connection_id = tg_connection t, cl_available = True, cl_commits = commits\<rparr>)))"

definition with_history :: "('w, 'u, 'x) ports \<Rightarrow> target \<Rightarrow> ('w history_reader \<Rightarrow> ('w, 'a) db_op) \<Rightarrow> ('w, 'a) service_op" where
  "with_history p t f =
     io_bind (adapter_for_target p t) (\<lambda>b.
       case be_history b of
         None \<Rightarrow> io_of (Inl (No_History (ad_id (be_adapter b))))
       | Some history \<Rightarrow> on_world (f history))"

definition service_row_history :: "('w, 'u, 'x) ports \<Rightarrow> target \<Rightarrow> table_info \<Rightarrow> (string \<times> val) list \<Rightarrow> nat option \<Rightarrow>
    ('w, row_history) service_op" where
  "service_row_history p t info key limit =
     (if key = [] then io_of (Inl (Invalid_Request ''a row's history needs its primary key''))
      else with_history p t (\<lambda>history.
        hr_row_history history info key (clamp_limit limit DEFAULT_ROW_VERSIONS MAX_COMMIT_LIMIT)))"

definition service_commit_diff :: "('w, 'u, 'x) ports \<Rightarrow> target \<Rightarrow> table_info \<Rightarrow> string \<Rightarrow> string \<Rightarrow>
    ('w, commit_diff) service_op" where
  "service_commit_diff p t info from_ref to_ref =
     (if trim from_ref = [] \<or> trim to_ref = []
      then io_of (Inl (Invalid_Request ''a diff needs two commits to compare''))
      else with_history p t (\<lambda>history. hr_diff history info (trim from_ref) (trim to_ref)))"

definition service_blame :: "('w, 'u, 'x) ports \<Rightarrow> target \<Rightarrow> table_info \<Rightarrow> ('w, blame_entry list) service_op" where
  "service_blame p t info = with_history p t (\<lambda>history. hr_blame history info)"

end
