(* ===== verification/Mcp_Export.thy ===== *)
theory Mcp_Export
  imports Mcp_Tools Connection_Bundle
begin

text \<open>
  Exporting connections into a bundle nobody present can open (\<open>dbboard-mcp/src/export.rs\<close>), with the
  minting of its passphrase (\<open>dbboard-config/src/bundle.rs\<close>) and the warning about synchronised folders
  (\<open>secure_fs.rs\<close>).
\<close>

section \<open>Synchronised folders\<close>

definition cloud_segment :: "string \<Rightarrow> string option" where
  "cloud_segment segment =
     (let lower = to_ascii_lowercase segment in
      if lower = ''onedrive'' \<or> starts_with ''onedrive - '' lower then Some ''OneDrive''
      else if lower = ''icloud drive'' \<or> lower = ''iclouddrive'' \<or> lower = ''mobile documents''
        then Some ''iCloud Drive''
      else if lower = ''dropbox'' then Some ''Dropbox''
      else if lower = ''google drive'' \<or> lower = ''googledrive'' \<or> lower = ''my drive'' \<or>
          lower = ''cloudstorage'' \<or> starts_with ''googledrive-'' lower
        then Some ''Google Drive''
      else None)"

text \<open>A path is the list of its components.\<close>

definition is_likely_cloud_synced_path :: "string list \<Rightarrow> string option" where
  "is_likely_cloud_synced_path segments = find_map cloud_segment segments"

section \<open>The passphrase\<close>

definition PASSPHRASE_ALPHABET :: string where
  "PASSPHRASE_ALPHABET = ''abcdefghijkmnpqrstuvwxyz23456789''"

definition PASSPHRASE_GROUP :: nat where "PASSPHRASE_GROUP = 5"
definition PASSPHRASE_GROUPS :: nat where "PASSPHRASE_GROUPS = 6"

text \<open>The bytes are what the random source of the system gives.\<close>

definition generate_passphrase :: "8 word list \<Rightarrow> string" where
  "generate_passphrase bytes = concat (map (\<lambda>(i, byte).
     (if 0 < i \<and> i mod PASSPHRASE_GROUP = 0 then ''-'' else []) @
     [PASSPHRASE_ALPHABET ! (unat byte mod 32)])
     (enumerate 0 (take (PASSPHRASE_GROUP * PASSPHRASE_GROUPS) bytes)))"

section \<open>Reserving a file\<close>

definition BUNDLE_EXTENSION :: string where "BUNDLE_EXTENSION = ''dbbx''"
definition STEM_PREFIX :: string where "STEM_PREFIX = ''dbboard-export-''"
definition KEYRING_PREFIX :: string where "KEYRING_PREFIX = ''dbboard.export.''"
definition MAX_NAME_ATTEMPTS :: nat where "MAX_NAME_ATTEMPTS = 100"

text \<open>The components of a directory are what the platform makes of it.\<close>

record export_ports =
  xo_age :: crypto
  xo_is_dir :: "string \<Rightarrow> bool"
  xo_components :: "string \<Rightarrow> string list"
  xo_display :: "file_path \<Rightarrow> string"

definition bundle_path :: "string \<Rightarrow> string \<Rightarrow> file_path" where
  "bundle_path dir stem = \<lparr>fp_parent = Some dir, fp_name = Some (stem @ ''.'' @ BUNDLE_EXTENSION)\<rparr>"

definition stem_at :: "string \<Rightarrow> nat \<Rightarrow> string" where
  "stem_at base attempt = (if attempt = 0 then base else base @ ''-'' @ show_nat (attempt + 1))"

fun reserve_from :: "(io_error \<Rightarrow> string) \<Rightarrow> export_ports \<Rightarrow> string \<Rightarrow> string \<Rightarrow> nat list \<Rightarrow>
    disk \<Rightarrow> (service_error + file_path \<times> string) \<times> disk" where
  "reserve_from io xo dir base [] d =
     (Inl (Export_Failed (''could not find an unused name in '' @ dir @ '' after '' @
        show_nat MAX_NAME_ATTEMPTS @ '' tries'')), d)"
| "reserve_from io xo dir base (attempt # later) d =
     (let stem = stem_at base attempt; path = bundle_path dir stem in
      case create_new_user_only path d of
        (Inr _, d) \<Rightarrow> (Inr (path, stem), d)
      | (Inl Already_Exists, d) \<Rightarrow> reserve_from io xo dir base later d
      | (Inl e, d) \<Rightarrow> (Inl (Export_Failed (''could not create '' @ xo_display xo path @ '': '' @ io e)), d))"

definition reserve :: "(io_error \<Rightarrow> string) \<Rightarrow> export_ports \<Rightarrow> string \<Rightarrow> string \<Rightarrow>
    disk \<Rightarrow> (service_error + file_path \<times> string) \<times> disk" where
  "reserve io xo dir base = reserve_from io xo dir base [0..<MAX_NAME_ATTEMPTS]"

fun map_config_error :: "config_error \<Rightarrow> service_error" where
  "map_config_error Empty_Selection =
     Invalid_Request ''the selection came out empty; name at least one connection''"
| "map_config_error (No_Such_Connection _) =
     Invalid_Request (''one of the connections named is no longer in the store; list the '' @
       ''connections again and retry'')"
| "map_config_error e = Service_Config e"

section \<open>The export\<close>

record export_outcome =
  eo_path :: string
  eo_passphrase_ref :: string
  eo_connection_count :: nat
  eo_warnings :: "string list"

definition export_warnings :: "export_ports \<Rightarrow> string \<Rightarrow> foreign_ref list \<Rightarrow> string list" where
  "export_warnings xo dir foreign =
     (case is_likely_cloud_synced_path (xo_components xo dir) of
        Some provider \<Rightarrow> [''the export directory looks like it is inside '' @ provider @
          ''; the bundle will be uploaded there as soon as it is written'']
      | None \<Rightarrow> []) @
     (if foreign \<noteq> []
      then [show_nat (length foreign) @ '' of the selected connections carry a keyring slot minted for a '' @
        ''different connection; repair them in the dbboard app before relying on this bundle'']
      else [])"

definition blob_text :: "8 word list \<Rightarrow> string" where
  "blob_text = map (\<lambda>b. char_of (unat b))"

text \<open>The bundle is sealed, a file reserved, the passphrase filed, and the file written, in this order.\<close>

definition seal_bundle :: "(io_error \<Rightarrow> string) \<Rightarrow> export_ports \<Rightarrow> string \<Rightarrow> string list \<Rightarrow> string list \<Rightarrow>
    string \<Rightarrow> string + string \<Rightarrow> connection_admin \<Rightarrow> (service_error + export_outcome) \<times> connection_admin" where
  "seal_bundle io xo dir warnings ids passphrase stamp =
     io_bind (io_map_err map_config_error (admin_export_bundle_of (xo_age xo) ids passphrase)) (\<lambda>blob a.
       let count = length (filter (\<lambda>e. ce_id e \<in> set ids) (cf_connections (ca_file a))) in
       case stamp of
         Inl e \<Rightarrow> (Inl (Export_Failed (''could not name the bundle: '' @ e)), a)
       | Inr stamp \<Rightarrow>
           (case reserve io xo dir (STEM_PREFIX @ stamp) (ca_disk a) of
              (Inl e, d) \<Rightarrow> (Inl e, a\<lparr>ca_disk := d\<rparr>)
            | (Inr (path, stem), d) \<Rightarrow>
                (case key_set (KEYRING_PREFIX @ stem) passphrase (a\<lparr>ca_disk := d\<rparr>) of
                   (Inl e, a) \<Rightarrow>
                     (Inl (Export_Failed (''the bundle passphrase could not be stored in the OS credential '' @
                        ''store, so nothing was written: '' @ secret_error_display e)),
                      a\<lparr>ca_disk := snd (remove_file path (ca_disk a))\<rparr>)
                 | (Inr _, a) \<Rightarrow>
                     (case io_bind (write_all path (blob_text blob)) (\<lambda>_. sync_all) (ca_disk a) of
                        (Inl e, d) \<Rightarrow>
                          (Inl (Export_Failed (''writing the bundle to '' @ xo_display xo path @ '' failed: '' @ io e)),
                           a\<lparr>ca_disk := snd (remove_file path d)\<rparr>)
                      | (Inr _, d) \<Rightarrow>
                          (Inr \<lparr>eo_path = xo_display xo path, eo_passphrase_ref = KEYRING_PREFIX @ stem,
                             eo_connection_count = count, eo_warnings = warnings\<rparr>,
                           a\<lparr>ca_disk := d\<rparr>)))))"

definition export_from_store :: "(io_error \<Rightarrow> string) \<Rightarrow> export_ports \<Rightarrow> string list \<Rightarrow> string \<Rightarrow> string + string \<Rightarrow>
    connection_admin \<Rightarrow> (service_error + export_outcome) \<times> connection_admin" where
  "export_from_store io xo ids passphrase stamp a =
     (case cf_mcp_export (ca_file a) of
        None \<Rightarrow> (Inl Export_Not_Enabled, a)
      | Some dir \<Rightarrow>
          if \<not> xo_is_dir xo dir
          then (Inl (Export_Failed (''the configured export directory '' @ dir @ '' does not exist; a human must '' @
            ''create it or correct mcp_export.dir in connections.toml'')), a)
          else
            (case admin_foreign_refs_of ids a of
               Inl e \<Rightarrow> (Inl (map_config_error e), a)
             | Inr foreign \<Rightarrow> seal_bundle io xo dir (export_warnings xo dir foreign) ids passphrase stamp a))"

text \<open>
  \<open>export_named\<close>, as the service calls it: the random bytes of the passphrase and the time stamp of the
  name come from outside.
\<close>

definition export_connections :: "('w, 'u, 'x) ports \<Rightarrow> export_ports \<Rightarrow> 8 word list \<Rightarrow> string + string \<Rightarrow>
    string list \<Rightarrow> ('w, export_outcome) service_op" where
  "export_connections p xo bytes stamp ids s =
     (if ids = [] then (Inl (Invalid_Request (''name the connections to export; there is no form of this '' @
        ''that exports the whole store'')), s)
      else
        (case connections_load (po_connections p) (sv_config_path s) (sv_disk s) of
           (Inl e, d) \<Rightarrow> (Inl (Service_Config e), s\<lparr>sv_disk := d\<rparr>)
         | (Inr file, d) \<Rightarrow>
             (case export_from_store (po_io_text p) xo ids (generate_passphrase bytes) stamp
                \<lparr>ca_path = sv_config_path s, ca_file = file, ca_tracks_disk = True, ca_disk = d,
                 ca_keys = sv_keys s, ca_key_faults = sv_key_faults s\<rparr> of
                (r, a) \<Rightarrow> (r, s\<lparr>sv_disk := ca_disk a, sv_keys := ca_keys a, sv_key_faults := ca_key_faults a\<rparr>))))"

end
