(* ===== verification/Mcp_Server.thy ===== *)
theory Mcp_Server
  imports Mcp_Export
begin

text \<open>
  The wire layer (\<open>dbboard-mcp/src/server.rs\<close>): the calls an agent can make that concern connections and
  databases, each resolving the handle it is given before it reaches the service, and the class of MCP
  error a failure becomes. An answer is the value the code prints as JSON. The tools that only work the
  desktop window or report the build touch neither the store nor a database and are left out.
\<close>

section \<open>Errors\<close>

datatype mcp_error = Internal_Error string | Invalid_Params string

fun environment_fault :: "service_error \<Rightarrow> bool" where
  "environment_fault (Service_Db (Connection_Error _)) = True"
| "environment_fault (Service_Config _) = True"
| "environment_fault (Service_Annotations _) = True"
| "environment_fault (Dump_Failed _) = True"
| "environment_fault (Restore_Failed _) = True"
| "environment_fault _ = False"

definition to_mcp :: "(io_error \<Rightarrow> string) \<Rightarrow> service_error \<Rightarrow> mcp_error" where
  "to_mcp io e =
     (if environment_fault e then Internal_Error (service_error_display io e)
      else Invalid_Params (service_error_display io e))"

section \<open>Calls and answers\<close>

record add_connection_params =
  ap_id :: string
  ap_name :: string
  ap_kind :: string
  ap_path :: "string option"
  ap_project_id :: "string option"
  ap_database_id :: "string option"
  ap_base_url :: "string option"

datatype agent_call =
    Agent_List
  | Agent_Add add_connection_params
  | Agent_Mark string "string option" "string option"
  | Agent_Move string nat
  | Agent_Export "string list"
  | Agent_Tables string
  | Agent_Describe string "string option" string
  | Agent_Read string string "nat option"
  | Agent_Notes string "string option" "string option"
  | Agent_Search string string
  | Agent_Relations string "string option"
  | Agent_Write string string
  | Agent_Dump string string

datatype agent_answer =
    Answer_List "connection_view list"
  | Answer_Added connection_view
  | Answer_Export export_outcome
  | Answer_Tables "table_info list"
  | Answer_Described table_schema
  | Answer_Rows query_output
  | Answer_Notes annotations_view
  | Answer_Matches schema_search_view
  | Answer_Relations relationship_view
  | Answer_Written write_output
  | Answer_Dumped dump_file_outcome

text \<open>
  What the server runs on: the ports of the service, and those of dumps and exports. Random bytes and
  the time stamp are read off the world.
\<close>

record ('w, 'u, 'x) host =
  ho_ports :: "('w, 'u, 'x) ports"
  ho_files :: file_ports
  ho_export :: export_ports
  ho_entropy :: "'w \<Rightarrow> 8 word list"
  ho_stamp :: "'w \<Rightarrow> string + string"
  ho_path :: "string \<Rightarrow> file_path"
  ho_fuel :: nat

section \<open>The tools\<close>

definition or_empty :: "string option \<Rightarrow> string" where
  "or_empty v = (case v of Some t \<Rightarrow> t | None \<Rightarrow> [])"

definition requested_kind :: "add_connection_params \<Rightarrow> service_error + new_connection_kind" where
  "requested_kind params =
     (let kind = to_ascii_lowercase (trim (ap_kind params)) in
      if kind \<in> {''turso'', ''sqlite'', ''libsql''} then Inr (New_Sqlite (or_empty (ap_path params)))
      else if kind \<in> {''firestore'', ''firestore-emulator''}
        then Inr (New_Firestore_Emulator (or_empty (ap_project_id params)) (ap_database_id params)
          (or_empty (ap_base_url params)))
      else Inl (Invalid_Request (''kind '' @ debug_string kind @ '' cannot be registered here: only '' @
        debug_string ''turso'' @ '' (a local                      SQLite/libSQL file) and '' @
        debug_string ''firestore'' @ '' (the local emulator) need no                      credential. '' @
        ''Everything else must be added by the operator in the                      dbboard app'')))"

definition tool_add_connection :: "('w, 'u, 'x) ports \<Rightarrow> add_connection_params \<Rightarrow> ('w, connection_view) service_op" where
  "tool_add_connection p params s =
     (case requested_kind params of
        Inl e \<Rightarrow> (Inl e, s)
      | Inr kind \<Rightarrow> add_connection p \<lparr>nc_id = ap_id params, nc_name = ap_name params, nc_kind = kind\<rparr> s)"

text \<open>\<open>self.resolve(&connection_id).await?\<close>, then the call.\<close>

definition resolved :: "('w, 'u, 'x) ports \<Rightarrow> string \<Rightarrow> (string \<Rightarrow> ('w, 'a) service_op) \<Rightarrow> ('w, 'a) service_op" where
  "resolved p handle f = io_bind (resolve_agent_handle p handle) f"

fun resolve_all :: "('w, 'u, 'x) ports \<Rightarrow> string list \<Rightarrow> ('w, string list) service_op" where
  "resolve_all p [] = io_of (Inr [])"
| "resolve_all p (handle # handles) =
     io_bind (resolve_agent_handle p handle) (\<lambda>i.
     io_bind (resolve_all p handles) (\<lambda>ids. io_of (Inr (i # ids))))"

definition answering :: "('a \<Rightarrow> agent_answer) \<Rightarrow> ('w, 'a) service_op \<Rightarrow> ('w, agent_answer) service_op" where
  "answering f m = io_bind m (\<lambda>x. io_of (Inr (f x)))"

fun tool_call :: "('w, 'u, 'x) host \<Rightarrow> agent_call \<Rightarrow> ('w, agent_answer) service_op" where
  "tool_call h Agent_List = answering Answer_List (list_agent_connections (ho_ports h))"
| "tool_call h (Agent_Add params) = answering Answer_Added (tool_add_connection (ho_ports h) params)"
| "tool_call h (Agent_Mark handle color tag) =
     resolved (ho_ports h) handle (\<lambda>i.
       io_bind (set_connection_mark (ho_ports h) i color tag) (\<lambda>_.
         answering Answer_List (list_agent_connections (ho_ports h))))"
| "tool_call h (Agent_Move handle pos) =
     resolved (ho_ports h) handle (\<lambda>i.
       io_bind (move_connection (ho_ports h) i pos) (\<lambda>_.
         answering Answer_List (list_agent_connections (ho_ports h))))"
| "tool_call h (Agent_Export handles) =
     io_bind (resolve_all (ho_ports h) handles) (\<lambda>ids s.
       answering Answer_Export (export_connections (ho_ports h) (ho_export h)
         (ho_entropy h (sv_world s)) (ho_stamp h (sv_world s)) ids) s)"
| "tool_call h (Agent_Tables handle) =
     resolved (ho_ports h) handle (\<lambda>i. answering Answer_Tables (list_tables (ho_ports h) (target_of i)))"
| "tool_call h (Agent_Describe handle schema name) =
     resolved (ho_ports h) handle (\<lambda>i.
       answering Answer_Described (describe_table (ho_ports h) (target_of i) schema name))"
| "tool_call h (Agent_Read handle sql max_rows) =
     resolved (ho_ports h) handle (\<lambda>i.
       answering Answer_Rows (run_read_query (ho_ports h) (target_of i) sql max_rows))"
| "tool_call h (Agent_Notes handle tbl col) =
     resolved (ho_ports h) handle (\<lambda>i. answering Answer_Notes (get_annotations (ho_ports h) i tbl col))"
| "tool_call h (Agent_Search handle pattern) =
     resolved (ho_ports h) handle (\<lambda>i.
       answering Answer_Matches (search_schema (ho_ports h) (target_of i) pattern))"
| "tool_call h (Agent_Relations handle tbl) =
     resolved (ho_ports h) handle (\<lambda>i.
       answering Answer_Relations (list_relationships (ho_ports h) (target_of i) tbl))"
| "tool_call h (Agent_Write handle sql) =
     resolved (ho_ports h) handle (\<lambda>i. answering Answer_Written (run_write (ho_ports h) i sql))"
| "tool_call h (Agent_Dump handle path) =
     resolved (ho_ports h) handle (\<lambda>i.
       answering Answer_Dumped (dump_to_file (ho_ports h) (ho_files h) (ho_fuel h) i (ho_path h path)))"

definition serve :: "('w, 'u, 'x) host \<Rightarrow> agent_call \<Rightarrow> 'w service \<Rightarrow> (mcp_error + agent_answer) \<times> 'w service" where
  "serve h call = io_map_err (to_mcp (po_io_text (ho_ports h))) (tool_call h call)"

text \<open>A session of an agent: call after call, whatever each answers.\<close>

fun run_agent :: "('w, 'u, 'x) host \<Rightarrow> agent_call list \<Rightarrow> 'w service \<Rightarrow> 'w service" where
  "run_agent h [] s = s"
| "run_agent h (call # calls) s = run_agent h calls (snd (serve h call s))"

end
