(* ===== verification/Step_Logic.thy ===== *)
theory Step_Logic
  imports File_Store
begin

text \<open>
  A small logic for operations that answer an error or a value and leave a state: whatever such an
  operation answers, the state it leaves is related to the one it found. One contract serves every
  such relation; the components interpret it with theirs.
\<close>

definition stays ::
    "('s \<Rightarrow> 's \<Rightarrow> bool) \<Rightarrow> ('s \<Rightarrow> bool) \<Rightarrow> ('s \<Rightarrow> ('e + 'a) \<times> 's) \<Rightarrow> ('a \<Rightarrow> bool) \<Rightarrow> bool" where
  "stays R I m Q \<longleftrightarrow>
     (\<forall>s r s'. I s \<longrightarrow> m s = (r, s') \<longrightarrow> R s s' \<and> I s' \<and> (\<forall>x. r = Inr x \<longrightarrow> Q x))"

lemma staysI:
  assumes "\<And>s r s'. I s \<Longrightarrow> m s = (r, s') \<Longrightarrow> R s s' \<and> I s' \<and> (\<forall>x. r = Inr x \<longrightarrow> Q x)"
  shows "stays R I m Q"
  using assms unfolding stays_def by blast

lemma staysD:
  assumes "stays R I m Q" "I s" "m s = (r, s')"
  shows "R s s'" "I s'" "\<And>x. r = Inr x \<Longrightarrow> Q x"
  using assms unfolding stays_def by blast+

lemma stays_weaken: "stays R I m Q \<Longrightarrow> (\<And>x. Q x \<Longrightarrow> P x) \<Longrightarrow> stays R I m P"
  unfolding stays_def by blast

locale step_relation =
  fixes R :: "'s \<Rightarrow> 's \<Rightarrow> bool" and I :: "'s \<Rightarrow> bool"
  assumes step_refl: "R s s"
    and step_trans: "R s t \<Longrightarrow> R t u \<Longrightarrow> R s u"
begin

lemma stays_of: "(\<And>x. r = Inr x \<Longrightarrow> Q x) \<Longrightarrow> stays R I (io_of r) Q"
  by (auto simp: stays_def io_of_def intro: step_refl)

lemma stays_ok [intro]: "Q x \<Longrightarrow> stays R I (io_of (Inr x)) Q"
  by (rule stays_of) simp

lemma stays_error [intro]: "stays R I (io_of (Inl e)) Q"
  by (rule stays_of) simp

lemma stays_bind:
  assumes "stays R I m Q" "\<And>x. Q x \<Longrightarrow> stays R I (f x) P"
  shows "stays R I (io_bind m f) P"
proof (rule staysI)
  fix s r s'
  assume I: "I s" and run: "io_bind m f s = (r, s')"
  obtain q t where m: "m s = (q, t)" by (cases "m s")
  note first = staysD [OF assms(1) I m]
  show "R s s' \<and> I s' \<and> (\<forall>x. r = Inr x \<longrightarrow> P x)"
  proof (cases q)
    case (Inl e)
    then show ?thesis using first(1,2) run m by (auto simp: io_bind_def)
  next
    case (Inr x)
    then have "f x t = (r, s')" using run m by (simp add: io_bind_def)
    note second = staysD [OF assms(2) [OF first(3) [OF Inr]] first(2) this]
    then show ?thesis using step_trans [OF first(1) second(1)] by blast
  qed
qed

lemma stays_map_err: "stays R I m Q \<Longrightarrow> stays R I (io_map_err g m) Q"
  unfolding stays_def io_map_err_def by (fastforce split: prod.splits sum.splits)

lemma stays_then: "stays R I m Q \<Longrightarrow> (\<And>x. stays R I (f x) P) \<Longrightarrow> stays R I (io_bind m f) P"
  by (rule stays_bind)

lemma stays_answer: "stays R I m Q \<Longrightarrow> stays R I (io_bind m (\<lambda>x. io_of (Inr (f x)))) (\<lambda>_. True)"
  by (rule stays_then) (auto intro: stays_ok)

end

end
