(* ===== verification/Mcp_Reads.thy ===== *)
theory Mcp_Reads
  imports Mcp_Server Step_Logic
begin

text \<open>
  What the agent's calls leave of the databases. A database is whatever a function of the world tells
  of it; the drivers are relied on to keep it when they connect, introspect and read, which is what the
  engines promise for a read-only session. On that the calls are shown to keep it, but for the one that
  writes.
\<close>

section \<open>What drivers promise\<close>

definition quiet :: "('w \<Rightarrow> 'd) \<Rightarrow> ('w \<Rightarrow> ('e + 'a) \<times> 'w) \<Rightarrow> ('a \<Rightarrow> bool) \<Rightarrow> bool" where
  "quiet data = stays (\<lambda>w w'. data w' = data w) (\<lambda>_. True)"

text \<open>The statements the dump makes up are reads as well, although it sends them as plain queries.\<close>

definition reads_only :: "(json \<Rightarrow> string) \<Rightarrow> ('w \<Rightarrow> 'd) \<Rightarrow> 'w backend \<Rightarrow> bool" where
  "reads_only json_text data b \<longleftrightarrow> (let a = be_adapter b in
     quiet data (ad_ping a) (\<lambda>_. True) \<and> quiet data (ad_list_tables a) (\<lambda>_. True) \<and>
     (\<forall>sql n. quiet data (ad_query_read_only a sql n) (\<lambda>_. True)) \<and>
     (\<forall>t. quiet data (ad_describe_table a t) (\<lambda>_. True)) \<and> (\<forall>t. quiet data (ad_foreign_keys a t) (\<lambda>_. True)) \<and>
     (\<forall>t. quiet data (ad_table_ddl a t) (\<lambda>_. True)) \<and> (\<forall>t. quiet data (ad_list_indexes a t) (\<lambda>_. True)) \<and>
     quiet data (ad_list_databases a) (\<lambda>_. True) \<and>
     (\<forall>t d. quiet data (ad_query a (build_count t d)) (\<lambda>_. True)) \<and>
     (\<forall>t keys d n after. quiet data (ad_query a (build_select_page json_text t keys d n after)) (\<lambda>_. True)))"

definition honest_drivers :: "(json \<Rightarrow> string) \<Rightarrow> ('w \<Rightarrow> 'd) \<Rightarrow> 'w drivers \<Rightarrow> bool" where
  "honest_drivers json_text data d \<longleftrightarrow> (let ok = reads_only json_text data in
     (\<forall>c. quiet data (dr_open_tunnel d c) (\<lambda>_. True)) \<and> (\<forall>c. quiet data (dr_ssh_session d c) (\<lambda>_. True)) \<and>
     (\<forall>x. quiet data (dr_turso_local d x) ok) \<and> (\<forall>x y. quiet data (dr_turso_remote d x y) ok) \<and>
     (\<forall>x. quiet data (dr_d1 d x) ok) \<and> (\<forall>x. quiet data (dr_postgres d x) ok) \<and>
     (\<forall>x. quiet data (dr_neon d x) ok) \<and> (\<forall>x. quiet data (dr_supabase d x) ok) \<and>
     (\<forall>x. quiet data (dr_aurora_dsql d x) ok) \<and>
     (\<forall>a b c e f g. quiet data (dr_aurora_dsql_iam d a b c e f g) ok) \<and>
     (\<forall>x. quiet data (dr_mysql d x) ok) \<and> (\<forall>x. quiet data (dr_firestore d x) ok) \<and>
     (\<forall>x. quiet data (dr_mongo d x) ok) \<and> (\<forall>x. quiet data (dr_redis d x) ok))"

interpretation world: step_relation "\<lambda>w w'. (data :: 'w \<Rightarrow> 'd) w' = data w" "\<lambda>_. True" for data
  by unfold_locales simp_all

lemmas quiet_bind = world.stays_bind [folded quiet_def]
lemmas quiet_then = world.stays_then [folded quiet_def]
lemmas quiet_of = world.stays_of [folded quiet_def]

lemma quiet_ok [simp, intro]: "Q x \<Longrightarrow> quiet data (io_of (Inr x)) Q"
  by (rule quiet_of) simp

lemma quiet_error [simp, intro]: "quiet data (io_of (Inl e)) Q"
  by (rule quiet_of) simp

lemma quietD: "quiet data m Q \<Longrightarrow> m w = (r, w') \<Longrightarrow> data w' = data w \<and> (\<forall>x. r = Inr x \<longrightarrow> Q x)"
  unfolding quiet_def stays_def by blast

lemma quietI: "(\<And>w r w'. m w = (r, w') \<Longrightarrow> data w' = data w \<and> (\<forall>x. r = Inr x \<longrightarrow> Q x)) \<Longrightarrow> quiet data m Q"
  unfolding quiet_def stays_def by blast

lemma quiet_weaken: "quiet data m Q \<Longrightarrow> (\<And>x. Q x \<Longrightarrow> P x) \<Longrightarrow> quiet data m P"
  unfolding quiet_def by (rule stays_weaken)

lemma reads_onlyD:
  assumes "reads_only json_text data b"
  shows "quiet data (ad_ping (be_adapter b)) (\<lambda>_. True)"
    "quiet data (ad_list_tables (be_adapter b)) (\<lambda>_. True)"
    "quiet data (ad_query_read_only (be_adapter b) sql n) (\<lambda>_. True)"
    "quiet data (ad_describe_table (be_adapter b) t) (\<lambda>_. True)"
    "quiet data (ad_foreign_keys (be_adapter b) t) (\<lambda>_. True)"
    "quiet data (ad_table_ddl (be_adapter b) t) (\<lambda>_. True)"
    "quiet data (ad_list_indexes (be_adapter b) t) (\<lambda>_. True)"
    "quiet data (ad_list_databases (be_adapter b)) (\<lambda>_. True)"
    "quiet data (ad_query (be_adapter b) (build_count t d)) (\<lambda>_. True)"
    "quiet data (ad_query (be_adapter b) (build_select_page json_text t keys d n after)) (\<lambda>_. True)"
  using assms by (simp_all add: reads_only_def Let_def)

lemma honest_driversD:
  assumes "honest_drivers json_text data d"
  shows "quiet data (dr_open_tunnel d cfg) (\<lambda>_. True)" "quiet data (dr_ssh_session d ssh) (\<lambda>_. True)"
    "quiet data (dr_turso_local d x) (reads_only json_text data)"
    "quiet data (dr_turso_remote d x y) (reads_only json_text data)"
    "quiet data (dr_d1 d d1) (reads_only json_text data)" "quiet data (dr_postgres d x) (reads_only json_text data)"
    "quiet data (dr_neon d x) (reads_only json_text data)" "quiet data (dr_supabase d x) (reads_only json_text data)"
    "quiet data (dr_aurora_dsql d x) (reads_only json_text data)"
    "quiet data (dr_aurora_dsql_iam d a b c e f g) (reads_only json_text data)"
    "quiet data (dr_mysql d x) (reads_only json_text data)"
    "quiet data (dr_firestore d fs) (reads_only json_text data)"
    "quiet data (dr_mongo d mo) (reads_only json_text data)" "quiet data (dr_redis d ri) (reads_only json_text data)"
  using assms by (simp_all add: honest_drivers_def Let_def)

section \<open>Connecting\<close>

lemma pinged_quiet:
  assumes "quiet data dial (reads_only json_text data)"
  shows "quiet data (pinged dial) (reads_only json_text data)"
  unfolding pinged_def
proof (rule quiet_bind [OF assms])
  fix b assume ok: "reads_only json_text data b"
  show "quiet data (io_bind (ad_ping (be_adapter b)) (\<lambda>_. io_of (Inr b))) (reads_only json_text data)"
    by (rule quiet_then [OF reads_onlyD(1) [OF ok]]) (simp add: ok)
qed

lemma tunneled_reads_only: "reads_only json_text data b \<Longrightarrow> reads_only json_text data (wrap b tunnel)"
  by (cases tunnel)
    (auto simp: wrap_def reads_only_def tunneled_adapter_def Let_def unsupported_def intro: quietI)

lemma open_tunnel_quiet:
  assumes "honest_drivers json_text data d"
  shows "quiet data (open_tunnel lib d url ssh port) (\<lambda>_. True)"
proof (rule quietI)
  fix w r w'
  assume "open_tunnel lib d url ssh port w = (r, w')"
  then show "data w' = data w \<and> (\<forall>x. r = Inr x \<longrightarrow> True)"
    using quietD [OF honest_driversD(1) [OF assms]]
    by (fastforce simp: open_tunnel_def split: option.splits sum.splits prod.splits)
qed

lemma connect_url_quiet:
  assumes "honest_drivers json_text data d" "\<And>url. quiet data (dial url) (reads_only json_text data)"
  shows "quiet data (connect_url lib d dial url ssh port) (reads_only json_text data)"
  unfolding connect_url_def
proof (rule quiet_then [OF open_tunnel_quiet [OF assms(1)]])
  fix t :: "string \<times> 16 word option"
  obtain url tunnel where t: "t = (url, tunnel)" by (cases t)
  have "quiet data (io_bind (pinged (dial url)) (\<lambda>b. io_of (Inr (wrap b tunnel)))) (reads_only json_text data)"
    by (rule quiet_bind [OF pinged_quiet [OF assms(2)]]) (simp add: tunneled_reads_only)
  then show "quiet data ((\<lambda>(url, tunnel). io_bind (pinged (dial url)) (\<lambda>b. io_of (Inr (wrap b tunnel)))) t)
      (reads_only json_text data)"
    by (simp add: t)
qed

lemma connect_adapter_quiet:
  assumes "honest_drivers json_text data d"
  shows "quiet data (connect_adapter lib d config) (reads_only json_text data)"
proof (cases config)
  case (Bc_Redis config ssh)
  show ?thesis
  proof (cases ssh)
    case None
    then show ?thesis
      using Bc_Redis by (simp add: connect_adapter_def pinged_quiet honest_driversD [OF assms])
  next
    case (Some ssh)
    have dialled: "quiet data (pinged (dr_redis d (config\<lparr>ri_route := Some ssh\<rparr>))) (reads_only json_text data)"
      by (rule pinged_quiet) (rule honest_driversD(14) [OF assms])
    show ?thesis
      unfolding Bc_Redis Some
    proof (rule quietI)
      fix w r w'
      obtain q w1 where session: "dr_ssh_session d ssh w = (q, w1)" by (cases "dr_ssh_session d ssh w")
      note kept = quietD [OF honest_driversD(2) [OF assms] session]
      assume "connect_adapter lib d (Bc_Redis config (Some ssh)) w = (r, w')"
      then show "data w' = data w \<and> (\<forall>x. r = Inr x \<longrightarrow> reads_only json_text data x)"
        using kept quietD [OF dialled] session by (auto simp: connect_adapter_def split: sum.splits)
    qed
  qed
qed (auto simp: connect_adapter_def intro!: pinged_quiet connect_url_quiet [OF assms]
    intro: honest_driversD [OF assms])

end
