(* ===== verification/Mcp_Gate.thy ===== *)
theory Mcp_Gate
  imports Mcp_Reads
begin

text \<open>
  Every call of an agent but the writing one leaves the databases as they are. Only adapters that read
  honestly get into the cache.
\<close>

section \<open>The cache\<close>

definition cache_ok :: "(json \<Rightarrow> string) \<Rightarrow> ('w \<Rightarrow> 'd) \<Rightarrow> 'w service \<Rightarrow> bool" where
  "cache_ok json_text data s \<longleftrightarrow>
     (\<forall>k e. sv_cache s k = Some e \<longrightarrow> reads_only json_text data (cn_backend e))"

definition calm :: "(json \<Rightarrow> string) \<Rightarrow> ('w \<Rightarrow> 'd) \<Rightarrow> ('w service \<Rightarrow> ('e + 'a) \<times> 'w service) \<Rightarrow> ('a \<Rightarrow> bool) \<Rightarrow> bool" where
  "calm json_text data =
     stays (\<lambda>s s'. data (sv_world s') = data (sv_world s)) (cache_ok json_text data)"

interpretation calls: step_relation "\<lambda>s s'. (data :: 'w \<Rightarrow> 'd) (sv_world s') = data (sv_world s)"
    "cache_ok json_text data" for data json_text
  by unfold_locales simp_all

lemmas calm_bind = calls.stays_bind [folded calm_def]
lemmas calm_then = calls.stays_then [folded calm_def]
lemmas calm_of = calls.stays_of [folded calm_def]
lemmas calm_answer = calls.stays_answer [folded calm_def]
lemmas calm_map_err = calls.stays_map_err [folded calm_def]

lemma calm_ok [simp, intro]: "Q x \<Longrightarrow> calm json_text data (io_of (Inr x)) Q"
  by (rule calm_of) simp

lemma calm_error [simp, intro]: "calm json_text data (io_of (Inl e)) Q"
  by (rule calm_of) simp

lemma calm_weaken: "calm json_text data m Q \<Longrightarrow> (\<And>x. Q x \<Longrightarrow> P x) \<Longrightarrow> calm json_text data m P"
  unfolding calm_def by (rule stays_weaken)

lemma calmI:
  assumes "\<And>s r s'. cache_ok json_text data s \<Longrightarrow> m s = (r, s') \<Longrightarrow>
    data (sv_world s') = data (sv_world s) \<and> cache_ok json_text data s' \<and> (\<forall>x. r = Inr x \<longrightarrow> Q x)"
  shows "calm json_text data m Q"
  using assms unfolding calm_def stays_def by blast

lemma calmD:
  assumes "calm json_text data m Q" "cache_ok json_text data s" "m s = (r, s')"
  shows "data (sv_world s') = data (sv_world s) \<and> cache_ok json_text data s' \<and> (\<forall>x. r = Inr x \<longrightarrow> Q x)"
  using assms unfolding calm_def stays_def by blast

text \<open>An operation that only touches disk and keyring.\<close>

lemma calm_aside:
  assumes "\<And>s r s'. m s = (r, s') \<Longrightarrow> sv_world s' = sv_world s \<and> sv_cache s' = sv_cache s"
  shows "calm json_text data m (\<lambda>_. True)"
  by (rule calmI) (use assms in \<open>fastforce simp: cache_ok_def\<close>)

lemma calm_on_world: "quiet data f Q \<Longrightarrow> calm json_text data (on_world f) Q"
proof (rule calmI)
  fix s r s'
  assume "quiet data f Q" "cache_ok json_text data s" "on_world f s = (r, s')"
  then show "data (sv_world s') = data (sv_world s) \<and> cache_ok json_text data s' \<and> (\<forall>x. r = Inr x \<longrightarrow> Q x)"
    using quietD [of data f Q "sv_world s"]
    by (auto simp: on_world_def cache_ok_def split: prod.splits sum.splits)
qed

lemma calm_load [simp, intro]: "calm json_text data (load_connection_file p) (\<lambda>_. True)"
  by (rule calm_aside) (auto simp: load_connection_file_def split: prod.splits sum.splits)

lemma calm_load_annotations [simp, intro]: "calm json_text data (load_annotations_file p) (\<lambda>_. True)"
  by (rule calm_aside) (auto simp: load_annotations_file_def split: prod.splits sum.splits)

lemma calm_with_admin [simp, intro]: "calm json_text data (with_admin p f) (\<lambda>_. True)"
  by (rule calm_aside) (auto simp: with_admin_def split: prod.splits sum.splits)

lemma calm_resolve [simp, intro]: "calm json_text data (resolve_agent_handle p handle) (\<lambda>_. True)"
  unfolding resolve_agent_handle_def by (rule calm_then [OF calm_load]) (rule calm_of, simp)

section \<open>Adapters\<close>

abbreviation honest :: "('w \<Rightarrow> 'd) \<Rightarrow> ('w, 'u, 'x) ports \<Rightarrow> bool" where
  "honest data p \<equiv> honest_drivers (po_json_text p) data (po_drivers p)"

lemma calm_remember:
  "reads_only (po_json_text p) data b \<Longrightarrow>
     calm (po_json_text p) data (remember p t configured b) (reads_only (po_json_text p) data)"
  by (rule calmI) (auto simp: cache_ok_def remember_def split: if_splits)

lemma calm_dial:
  assumes "honest data p"
  shows "calm (po_json_text p) data (dial_entry p t entry) (reads_only (po_json_text p) data)"
proof (rule calmI)
  fix s r s'
  assume ok: "cache_ok (po_json_text p) data s" and run: "dial_entry p t entry s = (r, s')"
  show "data (sv_world s') = data (sv_world s) \<and> cache_ok (po_json_text p) data s' \<and>
      (\<forall>x. r = Inr x \<longrightarrow> reads_only (po_json_text p) data x)"
  proof (cases "target_backend p t entry s")
    case (Inr c)
    obtain config configured where "c = (config, configured)" by (cases c)
    then have "io_bind (on_world (connect_adapter (po_urls p) (po_drivers p) config)) (remember p t configured) s = (r, s')"
      using run Inr by (simp add: dial_entry_def)
    moreover have "calm (po_json_text p) data
        (io_bind (on_world (connect_adapter (po_urls p) (po_drivers p) config)) (remember p t configured))
        (reads_only (po_json_text p) data)"
      by (rule calm_bind [OF calm_on_world [OF connect_adapter_quiet [OF assms]]]) (rule calm_remember)
    ultimately show ?thesis using calmD ok by blast
  qed (use run ok in \<open>auto simp: dial_entry_def\<close>)
qed

lemma calm_connect:
  assumes "honest data p"
  shows "calm (po_json_text p) data (connect_target p t) (reads_only (po_json_text p) data)"
  unfolding connect_target_def
  by (rule calm_then [OF calm_load]) (auto split: option.split intro: calm_dial [OF assms])

lemma calm_adapter_target:
  assumes "honest data p"
  shows "calm (po_json_text p) data (adapter_for_target p t) (reads_only (po_json_text p) data)"
proof (rule calmI)
  fix s r s'
  assume ok: "cache_ok (po_json_text p) data s" and run: "adapter_for_target p t s = (r, s')"
  show "data (sv_world s') = data (sv_world s) \<and> cache_ok (po_json_text p) data s' \<and>
      (\<forall>x. r = Inr x \<longrightarrow> reads_only (po_json_text p) data x)"
  proof (cases "sv_cache s (cache_key t)")
    case None
    then show ?thesis using calmD [OF calm_connect [OF assms] ok] run by (simp add: adapter_for_target_def)
  next
    case (Some entry)
    then have good: "reads_only (po_json_text p) data (cn_backend entry)" using ok by (simp add: cache_ok_def)
    obtain q w where ping: "ad_ping (be_adapter (cn_backend entry)) (sv_world s) = (q, w)"
      by (cases "ad_ping (be_adapter (cn_backend entry)) (sv_world s)")
    have same: "data w = data (sv_world s)" using quietD [OF reads_onlyD(1) [OF good] ping] by simp
    let ?t = "s\<lparr>sv_world := w, sv_cache := (sv_cache s)(cache_key t := None)\<rparr>"
    have "cache_ok (po_json_text p) data ?t" using ok by (auto simp: cache_ok_def)
    note dropped = calmD [OF calm_connect [OF assms] this]
    show ?thesis
    proof (cases "po_clock p (sv_world s) - cn_checked_at entry < HEALTH_CHECK_AFTER_IDLE")
      case False
      then show ?thesis
        using run Some ping same good ok dropped [of t]
        by (cases q) (auto simp: adapter_for_target_def cache_ok_def split: if_splits)
    qed (use run Some good ok in \<open>auto simp: adapter_for_target_def\<close>)
  qed
qed

lemmas calm_adapter = calm_adapter_target [where t = "target_of connection", folded adapter_for_def]
  for connection

text \<open>A call that asks an adapter one thing.\<close>

lemma calm_ask:
  assumes "honest data p" "\<And>b. reads_only (po_json_text p) data b \<Longrightarrow> quiet data (f b) (\<lambda>_. True)"
  shows "calm (po_json_text p) data (io_bind (adapter_for_target p t) (\<lambda>b. on_world (f b))) (\<lambda>_. True)"
  by (rule calm_bind [OF calm_adapter_target [OF assms(1)]]) (rule calm_on_world, rule assms(2))

end
