(* ===== verification/Mcp_Calls.thy ===== *)
theory Mcp_Calls
  imports Mcp_Gate
begin

text \<open>
  The calls one by one: each introspects, reads or dumps and leaves the databases alone.
\<close>

section \<open>Dumping reads\<close>

definition dump_quiet :: "('w \<Rightarrow> 'd) \<Rightarrow> ('w, 'a) dump_step \<Rightarrow> bool" where
  "dump_quiet data m \<longleftrightarrow> stays (\<lambda>s s'. data (ds_db s') = data (ds_db s)) (\<lambda>_. True) m (\<lambda>_. True)"

lemma dump_bind_io: "dump_bind = io_bind"
  by (intro ext) (simp add: dump_bind_def io_bind_def)

lemma dump_quiet_bind [intro]:
  "dump_quiet data m \<Longrightarrow> (\<And>x. dump_quiet data (f x)) \<Longrightarrow> dump_quiet data (dump_bind m f)"
  unfolding dump_quiet_def dump_bind_io by (rule world.stays_then)

lemma dump_quietI:
  fixes m :: "('w, 'a) dump_step"
  assumes "\<And>s. data (ds_db (snd (m s))) = data (ds_db s)"
  shows "dump_quiet data m"
  unfolding dump_quiet_def by (rule staysI) (metis assms snd_conv)

lemma dump_quietD: "dump_quiet data m \<Longrightarrow> data (ds_db (snd (m s))) = data (ds_db s)"
  unfolding dump_quiet_def stays_def by (metis prod.collapse)

lemma dump_quiet_aside [intro]: "(\<And>s. ds_db (snd (m s)) = ds_db s) \<Longrightarrow> dump_quiet data m"
  by (rule dump_quietI) simp

lemma write_str_quiet [simp, intro]: "dump_quiet data (write_str ports chunk)"
  by (rule dump_quiet_aside) (simp add: write_str_def split: option.split)

lemma write_inserts_quiet: "dump_quiet data (write_inserts json_text ports table columns dialect batches)"
proof (induction batches)
  case (Cons batch batches)
  have written: "dump_quiet data (dump_bind (write_str ports statement) (\<lambda>_. dump_bind (write_str ports [NEWLINE])
      (\<lambda>_. write_inserts json_text ports table columns dialect batches)))" for statement
    using Cons by blast
  show ?case
  proof (rule dump_quietI)
    fix s
    show "data (ds_db (snd (write_inserts json_text ports table columns dialect (batch # batches) s))) = data (ds_db s)"
    proof (cases "build_insert json_text table columns batch dialect")
      case None
      then show ?thesis using dump_quietD [OF Cons, of s] by (simp only: write_inserts.simps option.case)
    next
      case (Some statement)
      then show ?thesis using dump_quietD [OF written, of statement s] by (simp only: write_inserts.simps option.case)
    qed
  qed
qed (auto intro!: dump_quiet_aside)

lemma end_of_page_quiet: "dump_quiet data (end_of_page table keys result)"
  by (rule dump_quiet_aside) (simp add: end_of_page_def Let_def fail_table_def split: option.split)

lemma quiet_db: "quiet data m Q \<Longrightarrow> m w = (r, w') \<Longrightarrow> data w' = data w"
  using quietD [of data m Q w r w'] by simp

lemma dump_page_quiet:
  fixes data :: "'w \<Rightarrow> 'd"
  assumes "\<And>cursor. quiet data (ad_query a (build_select_page json_text table keys dialect READ_PAGE_ROWS cursor)) (\<lambda>_. True)"
  shows "dump_quiet data (dump_page json_text a ports dialect table keys cursor)"
proof (rule dump_quietI)
  fix s :: "'w dump_state"
  have after: "dump_quiet data (dump_bind (write_inserts json_text ports table (column_names result) dialect batches)
      (\<lambda>_. end_of_page table keys result))" for result batches
    using write_inserts_quiet end_of_page_quiet by blast
  obtain r w where query: "ad_query a (build_select_page json_text table keys dialect READ_PAGE_ROWS cursor) (ds_db s) = (r, w)"
    by (cases "ad_query a (build_select_page json_text table keys dialect READ_PAGE_ROWS cursor) (ds_db s)")
  show "data (ds_db (snd (dump_page json_text a ports dialect table keys cursor s))) = data (ds_db s)"
    using quiet_db [OF assms query] query
    by (cases "cancel_at ports (ds_polls s)"; cases r)
      (simp_all add: dump_page_def dump_is_cancelled_def fail_table_def dump_quietD [OF after])
qed

lemma dump_table_data_quiet:
  assumes "\<And>cursor. quiet data (ad_query a (build_select_page json_text table keys dialect READ_PAGE_ROWS cursor)) (\<lambda>_. True)"
  shows "dump_quiet data (dump_table_data fuel json_text a ports dialect table keys cursor)"
proof (induction fuel arbitrary: cursor)
  case (Suc fuel)
  have "dump_quiet data (\<lambda>s. case page of Table_Done flow \<Rightarrow> (Inr flow, s)
      | Next_Page next_ \<Rightarrow> dump_table_data fuel json_text a ports dialect table keys (Some next_) s)" for page
    using Suc by (cases page) (auto intro!: dump_quiet_aside)
  then have "dump_quiet data (dump_bind (dump_page json_text a ports dialect table keys cursor)
      (\<lambda>page s. case page of Table_Done flow \<Rightarrow> (Inr flow, s)
        | Next_Page next_ \<Rightarrow> dump_table_data fuel json_text a ports dialect table keys (Some next_) s))"
    using dump_page_quiet [OF assms] by blast
  then show ?case by (intro dump_quietI) (simp add: dump_quietD)
qed (auto intro!: dump_quiet_aside)

lemma write_ddl_quiet: "dump_quiet data (write_ddl ports name ddl)"
proof -
  have "dump_quiet data (\<lambda>s. if \<not> ends_with_char ddl NEWLINE then write_str ports [NEWLINE] s else (Inr (), s))"
    by (rule dump_quietI) (simp add: dump_quietD [OF write_str_quiet])
  then show ?thesis unfolding write_ddl_def by blast
qed

lemma dump_one_table_quiet:
  fixes data :: "'w \<Rightarrow> 'd"
  assumes "reads_only json_text data b"
  shows "dump_quiet data (dump_one_table fuel json_text (be_adapter b) ports dialect table)"
proof -
  let ?a = "be_adapter b"
  have ddl: "dump_quiet data (dump_table_ddl ?a ports table)"
  proof (rule dump_quietI)
    fix s :: "'w dump_state"
    have after: "dump_quiet data (dump_bind (write_ddl ports name ddl) (\<lambda>_ s. (Inr True, s)))" for name ddl
      by (rule dump_quiet_bind [OF write_ddl_quiet]) (rule dump_quiet_aside, simp)
    obtain r w where get: "ad_table_ddl ?a table (ds_db s) = (r, w)" by (cases "ad_table_ddl ?a table (ds_db s)")
    show "data (ds_db (snd (dump_table_ddl ?a ports table s))) = data (ds_db s)"
      using quiet_db [OF reads_onlyD(6) [OF assms] get] get
      by (auto simp: dump_table_ddl_def fail_table_def dump_quietD [OF after] split: sum.split)
  qed
  have keys: "dump_quiet data (dump_key_columns ?a table)"
  proof (rule dump_quietI)
    fix s :: "'w dump_state"
    obtain r w where get: "ad_describe_table ?a table (ds_db s) = (r, w)"
      by (cases "ad_describe_table ?a table (ds_db s)")
    show "data (ds_db (snd (dump_key_columns ?a table s))) = data (ds_db s)"
      using quiet_db [OF reads_onlyD(4) [OF assms] get] get
      by (auto simp: dump_key_columns_def fail_table_def split: sum.split)
  qed
  have "dump_quiet data (\<lambda>s. case keys of None \<Rightarrow> (Inr Failed, s)
      | Some key_columns \<Rightarrow> dump_table_data fuel json_text ?a ports dialect table key_columns None s)" for keys
    by (cases keys) (auto intro!: dump_quiet_aside dump_table_data_quiet reads_onlyD(10) [OF assms])
  then have "dump_quiet data (dump_bind (dump_key_columns ?a table) (\<lambda>keys s. case keys of None \<Rightarrow> (Inr Failed, s)
      | Some key_columns \<Rightarrow> dump_table_data fuel json_text ?a ports dialect table key_columns None s))"
    using keys by blast
  then have "dump_quiet data (\<lambda>s. if \<not> go then (Inr Failed, s) else
      dump_bind (dump_key_columns ?a table) (\<lambda>keys s. case keys of None \<Rightarrow> (Inr Failed, s)
      | Some key_columns \<Rightarrow> dump_table_data fuel json_text ?a ports dialect table key_columns None s) s)" for go
    by (cases go) (auto intro!: dump_quiet_aside)
  then show ?thesis unfolding dump_one_table_def using ddl by blast
qed

lemma dump_tables_quiet:
  assumes "reads_only json_text data b"
  shows "dump_quiet data (dump_tables fuel json_text (be_adapter b) ports dialect n_total rows_total index plans)"
proof (induction plans arbitrary: index)
  case (Cons plan plans)
  let ?rest = "dump_tables fuel json_text (be_adapter b) ports dialect n_total rows_total (index + 1) plans"
  have flow: "dump_quiet data (\<lambda>s. case flow of Completed \<Rightarrow> ?rest (count_dumped s) | Failed \<Rightarrow> ?rest s
      | Cancelled \<Rightarrow> (Inr (), set_cancelled s))" for flow
    by (cases flow; rule dump_quietI) (simp_all add: dump_quietD [OF Cons] count_dumped_def set_cancelled_def)
  then have "dump_quiet data (dump_bind (dump_one_table fuel json_text (be_adapter b) ports dialect (tp_table plan))
      (\<lambda>flow s. case flow of Completed \<Rightarrow> ?rest (count_dumped s) | Failed \<Rightarrow> ?rest s
        | Cancelled \<Rightarrow> (Inr (), set_cancelled s)))"
    using dump_one_table_quiet [OF assms] by blast
  then show ?case
    by (intro dump_quietI)
      (simp add: dump_quietD dump_is_cancelled_def set_cancelled_def dump_report_def split: bool.split)
qed (auto intro!: dump_quiet_aside)

lemma run_dump_quiet:
  assumes "reads_only json_text data b"
  shows "dump_quiet data (run_dump fuel json_text (be_adapter b) ports dialect plan)"
proof -
  have "dump_quiet data (\<lambda>s. let s = dump_report (length plan) (length plan) (total_rows plan) None s
      in (Inr (ds_outcome s), s))"
    by (rule dump_quiet_aside) (simp add: dump_report_def Let_def)
  then have "dump_quiet data (dump_bind (write_str ports (dump_header dialect)) (\<lambda>_.
     dump_bind (dump_tables fuel json_text (be_adapter b) ports dialect (length plan) (total_rows plan) 0 plan)
       (\<lambda>_ s. let s = dump_report (length plan) (length plan) (total_rows plan) None s
              in (Inr (ds_outcome s), s))))"
    using dump_tables_quiet [OF assms] write_str_quiet by blast
  then show ?thesis by (intro dump_quietI) (simp add: run_dump_def dump_quietD)
qed

lemma plan_tables_quiet:
  assumes "reads_only json_text data b"
  shows "data (snd (plan_tables (be_adapter b) dialect tables w)) = data w"
proof (induction tables arbitrary: w)
  case (Cons table tables)
  obtain r w' where count: "ad_query (be_adapter b) (build_count table dialect) w = (r, w')"
    by (cases "ad_query (be_adapter b) (build_count table dialect) w")
  have "data w' = data w" by (rule quiet_db [OF reads_onlyD(9) [OF assms] count])
  moreover have "snd (count_rows (be_adapter b) table dialect w) = w'"
    using count by (cases r) (auto simp: count_rows_def split: option.split)
  ultimately show ?case using Cons by (simp add: split_def Let_def)
qed simp

lemma plan_dump_quiet:
  assumes "reads_only json_text data b"
  shows "quiet data (plan_dump (be_adapter b) dialect) (\<lambda>_. True)"
proof (rule quietI)
  fix w r w'
  assume run: "plan_dump (be_adapter b) dialect w = (r, w')"
  obtain q w1 where tables: "ad_list_tables (be_adapter b) w = (q, w1)"
    by (cases "ad_list_tables (be_adapter b) w")
  show "data w' = data w \<and> (\<forall>x. r = Inr x \<longrightarrow> True)"
    using run tables quiet_db [OF reads_onlyD(2) [OF assms] tables] plan_tables_quiet [OF assms]
    by (cases q) (auto simp: plan_dump_def split_def Let_def)
qed

section \<open>Searching and walking\<close>

lemma search_tables_quiet:
  assumes "reads_only json_text data b"
  shows "quiet data (search_tables (be_adapter b) needle infos hits) (\<lambda>_. True)"
proof (induction infos arbitrary: hits)
  case (Cons info infos)
  then have "quiet data (io_bind (ad_describe_table (be_adapter b) info) (\<lambda>schema.
      search_tables (be_adapter b) needle infos (hits @ opt_list (match_table needle info schema)))) (\<lambda>_. True)"
    by (intro quiet_then [OF reads_onlyD(4) [OF assms]])
  then show ?case by simp
qed simp

lemma sweep_tables_quiet:
  assumes "reads_only json_text data b"
  shows "data (snd (sweep_tables (be_adapter b) wanted infos edges unreadable w)) = data w"
proof (induction infos arbitrary: edges unreadable w)
  case (Cons info infos)
  obtain q w1 where fks: "ad_foreign_keys (be_adapter b) info w = (q, w1)"
    by (cases "ad_foreign_keys (be_adapter b) info w")
  show ?case
    using Cons fks quiet_db [OF reads_onlyD(5) [OF assms] fks]
    by (auto split: sum.split prod.split bool.split)
qed simp

section \<open>The calls\<close>

lemma calm_list_tables:
  assumes "honest data p"
  shows "calm (po_json_text p) data (list_tables p t) (\<lambda>_. True)"
  unfolding list_tables_def by (rule calm_ask [OF assms]) (rule reads_onlyD)

lemma calm_describe:
  assumes "honest data p"
  shows "calm (po_json_text p) data (describe_table p t schema name) (\<lambda>_. True)"
  unfolding describe_table_def Let_def by (rule calm_ask [OF assms]) (rule reads_onlyD)

lemma calm_read:
  assumes "honest data p"
  shows "calm (po_json_text p) data (run_read_query p t sql max_rows) (\<lambda>_. True)"
  unfolding run_read_query_def Let_def
proof (rule calm_bind [OF calm_adapter_target [OF assms]])
  fix b n assume "reads_only (po_json_text p) data b"
  then have "calm (po_json_text p) data (on_world (ad_query_read_only (be_adapter b) sql n)) (\<lambda>_. True)"
    for n by (intro calm_on_world reads_onlyD)
  then show "calm (po_json_text p) data
      (io_bind (on_world (ad_query_read_only (be_adapter b) sql
          (min (case max_rows of None \<Rightarrow> DEFAULT_MAX_ROWS | Some n \<Rightarrow> n) MAX_MAX_ROWS + 1))) (\<lambda>result.
        io_of (Inr (f result)))) (\<lambda>_. True)" for f :: "query_result \<Rightarrow> query_output"
    by (rule calm_answer)
qed

lemma calm_search:
  assumes "honest data p"
  shows "calm (po_json_text p) data (search_schema p t pattern) (\<lambda>_. True)"
proof (cases "to_lowercase (trim pattern) = []")
  case False
  have "calm (po_json_text p) data (on_world (io_bind (ad_list_tables (be_adapter b))
      (\<lambda>infos. search_tables (be_adapter b) needle infos []))) (\<lambda>_. True)"
    if "reads_only (po_json_text p) data b" for b needle
    using that by (intro calm_on_world quiet_then [OF reads_onlyD(2)] search_tables_quiet)
  then show ?thesis
    unfolding search_schema_def Let_def using False
    by (simp add: split_def) (intro calm_bind [OF calm_adapter_target [OF assms]] calm_answer)
qed (simp add: search_schema_def)

lemma calm_relations:
  assumes "honest data p"
  shows "calm (po_json_text p) data (list_relationships p t table_filter) (\<lambda>_. True)"
  unfolding list_relationships_def Let_def
proof (rule calm_bind [OF calm_adapter_target [OF assms]], rule calm_then [OF calm_on_world])
  fix b assume ok: "reads_only (po_json_text p) data b"
  show "quiet data (ad_list_tables (be_adapter b)) (\<lambda>_. True)" using ok by (rule reads_onlyD)
  show "calm (po_json_text p) data (\<lambda>s. case sweep_tables (be_adapter b) wanted infos [] [] (sv_world s) of
      ((edges, truncated, unreadable), w) \<Rightarrow> (Inr (f edges truncated unreadable), s\<lparr>sv_world := w\<rparr>)) (\<lambda>_. True)"
    for wanted infos and f :: "relationship list \<Rightarrow> bool \<Rightarrow> table_info list \<Rightarrow> relationship_view"
  proof (rule calmI)
    fix s r s'
    assume "cache_ok (po_json_text p) data s" and "(case sweep_tables (be_adapter b) wanted infos [] [] (sv_world s) of
      ((edges, truncated, unreadable), w) \<Rightarrow> (Inr (f edges truncated unreadable), s\<lparr>sv_world := w\<rparr>)) = (r, s')"
    then show "data (sv_world s') = data (sv_world s) \<and> cache_ok (po_json_text p) data s' \<and> (\<forall>x. r = Inr x \<longrightarrow> True)"
      using sweep_tables_quiet [OF ok, of wanted infos "[]" "[]" "sv_world s"]
      by (auto simp: cache_ok_def split: prod.splits)
  qed
qed

lemma calm_plan_dump:
  assumes "honest data p"
  shows "calm (po_json_text p) data (service_plan_dump p connection) (\<lambda>_. True)"
  unfolding service_plan_dump_def Let_def adapter_for_def
  by (rule calm_bind [OF calm_adapter_target [OF assms]])
    (auto intro: calm_on_world plan_dump_quiet split: option.split)

lemma run_dump_calm:
  assumes "honest data p" "cache_ok (po_json_text p) data s" "service_run_dump p fuel ports connection plan s = (r, s')"
  shows "data (sv_world s') = data (sv_world s) \<and> cache_ok (po_json_text p) data s'"
proof -
  obtain q t where adapter: "adapter_for p connection s = (q, t)" by (cases "adapter_for p connection s")
  note kept = calmD [OF calm_adapter_target [OF assms(1)] assms(2) adapter [unfolded adapter_for_def]]
  show ?thesis
  proof (cases q)
    case (Inr b)
    then have ok: "reads_only (po_json_text p) data b" using kept by simp
    show ?thesis
      using assms(3) adapter Inr kept dump_quietD [OF run_dump_quiet [OF ok]]
      by (auto simp: service_run_dump_def cache_ok_def split: option.splits prod.splits) (metis dump_state.select_convs(1) snd_conv)+
  qed (use assms(3) adapter kept in \<open>auto simp: service_run_dump_def\<close>)
qed

lemma calm_dump:
  assumes "honest data p"
  shows "calm (po_json_text p) data (dump_to_file p fo fuel connection path) (\<lambda>_. True)"
proof -
  have check: "calm (po_json_text p) data (check_dump_destination fo path) (\<lambda>_. True)"
    by (rule calm_aside) (auto simp: check_dump_destination_def split: if_splits prod.splits bool.splits option.splits)
  have create: "calm (po_json_text p) data (create_sink p path) (\<lambda>_. True)"
    by (rule calm_aside) (auto simp: create_sink_def split: prod.splits sum.splits)
  have flush: "sv_world (snd (write_sink p path taken s)) = sv_world s"
      "sv_cache (snd (write_sink p path taken s)) = sv_cache s" for taken s
    by (simp_all add: write_sink_def split: prod.split sum.split)
  show ?thesis
    unfolding dump_to_file_def
  proof (rule calm_then [OF check], rule calm_then [OF calm_plan_dump [OF assms]], rule calm_then [OF create], rule calmI)
    fix shown plan u s r s'
    assume ok: "cache_ok (po_json_text p) data s"
      and run: "(case service_run_dump p fuel \<lparr>sink_error = fo_sink_error fo, cancel_at = (\<lambda>_. False)\<rparr> connection plan s of
         ((Inl e, taken), s) \<Rightarrow> (Inl e, snd (write_sink p path taken s))
       | ((Inr out, taken), s) \<Rightarrow>
           io_bind (write_sink p path taken) (\<lambda>bytes.
             let failed = map tf_table (do_failures out); short = map tt_table (do_truncations out) in
             io_of (Inr \<lparr>df_path = shown, df_tables_dumped = do_tables_dumped out,
               df_rows_written = do_rows_written out, df_bytes_written = bytes, df_failed_tables = failed,
               df_truncated_tables = short, df_complete = (failed = [] \<and> short = [])\<rparr>)) s) = (r, s')"
    obtain q taken t where dumped:
        "service_run_dump p fuel \<lparr>sink_error = fo_sink_error fo, cancel_at = (\<lambda>_. False)\<rparr> connection plan s = ((q, taken), t)"
      by (metis prod.collapse)
    have "sv_world s' = sv_world t \<and> sv_cache s' = sv_cache t"
      using run dumped flush [of taken t]
      by (cases q) (auto simp: io_bind_def Let_def split: prod.splits sum.splits)
    then show "data (sv_world s') = data (sv_world s) \<and> cache_ok (po_json_text p) data s' \<and> (\<forall>x. r = Inr x \<longrightarrow> True)"
      using run_dump_calm [OF assms ok dumped] by (simp add: cache_ok_def)
  qed
qed

end
