(* ===== verification/Mcp_Tidy.thy ===== *)
theory Mcp_Tidy
  imports Mcp_Calls Connection_Sound
begin

text \<open>
  What the calls leave of the store: a call that works a database leaves the files, the path of the
  store and the keyring as they are, and the calls about the list save a file that grants no write
  the file before did not grant.
\<close>

section \<open>Calls that leave disk and keyring alone\<close>

definition at_rest :: "'w service \<Rightarrow> file_map \<times> file_path \<times> (string \<rightharpoonup> string)" where
  "at_rest s = (dk_files (sv_disk s), sv_config_path s, sv_keys s)"

abbreviation tidy :: "('w service \<Rightarrow> ('e + 'a) \<times> 'w service) \<Rightarrow> bool" where
  "tidy m \<equiv> quiet at_rest m (\<lambda>_. True)"

lemma tidy_bind [intro]: "tidy m \<Longrightarrow> (\<And>x. tidy (f x)) \<Longrightarrow> tidy (io_bind m f)"
  by (rule quiet_then)

lemma tidy_aside:
  assumes "\<And>s r s'. m s = (r, s') \<Longrightarrow>
    dk_files (sv_disk s') = dk_files (sv_disk s) \<and> sv_config_path s' = sv_config_path s \<and> sv_keys s' = sv_keys s"
  shows "tidy m"
  by (rule quietI) (use assms in \<open>simp add: at_rest_def\<close>)

lemma tidy_of [simp, intro]: "tidy (io_of r)" "tidy (Pair r)"
  by (rule tidy_aside; simp add: io_of_def)+

lemma tidyD: "tidy m \<Longrightarrow> m s = (r, s') \<Longrightarrow> at_rest s' = at_rest s"
  using quietD [of at_rest m "\<lambda>_. True" s r s'] by simp

lemma at_rest_world [simp]:
  "at_rest (s\<lparr>sv_world := w\<rparr>) = at_rest s" "at_rest (s\<lparr>sv_world := w, sv_cache := c\<rparr>) = at_rest s"
  "at_rest (s\<lparr>sv_cache := c\<rparr>) = at_rest s"
  by (simp_all add: at_rest_def)

lemma tidy_on_world [simp, intro]: "tidy (on_world f)"
  by (rule tidy_aside) (auto simp: on_world_def split: prod.splits sum.splits)

lemma tidy_load [simp, intro]: "tidy (load_connection_file p)"
  by (rule tidy_aside)
    (auto simp: load_connection_file_def split: prod.splits sum.splits dest: connections_load_step(1))

lemma read_to_string_files: "read_to_string path d = (r, d') \<Longrightarrow> dk_files d' = dk_files d"
  by (auto simp: read_to_string_def split: fault.splits)

lemma tidy_load_annotations [simp, intro]: "tidy (load_annotations_file p)"
  by (rule tidy_aside)
    (auto simp: load_annotations_file_def annotations_load_def split: prod.splits sum.splits io_error.splits
      dest: read_to_string_files)

lemma tidy_resolve [simp, intro]: "tidy (resolve_agent_handle p handle)"
  unfolding resolve_agent_handle_def by (rule tidy_bind) auto

lemma tidy_resolve_all [simp, intro]: "tidy (resolve_all p handles)"
  by (induction handles) auto

lemma tidy_dial: "tidy (dial_entry p t entry)"
proof (rule quietI)
  fix s r s'
  assume run: "dial_entry p t entry s = (r, s')"
  show "at_rest s' = at_rest s \<and> (\<forall>x. r = Inr x \<longrightarrow> True)"
  proof (cases "target_backend p t entry s")
    case (Inr c)
    obtain config configured where c: "c = (config, configured)" by (cases c)
    have "tidy (remember p t configured b)" for b
      by (rule tidy_aside) (auto simp: remember_def)
    then have "tidy (io_bind (on_world (connect_adapter (po_urls p) (po_drivers p) config)) (remember p t configured))"
      by blast
    then show ?thesis using run Inr c by (simp add: dial_entry_def tidyD)
  qed (use run in \<open>simp add: dial_entry_def\<close>)
qed

lemma tidy_connect: "tidy (connect_target p t)"
  unfolding connect_target_def by (rule tidy_bind) (auto split: option.split intro: tidy_dial)

lemma tidy_adapter [simp, intro]: "tidy (adapter_for_target p t)"
proof (rule quietI)
  fix s r s'
  assume run: "adapter_for_target p t s = (r, s')"
  show "at_rest s' = at_rest s \<and> (\<forall>x. r = Inr x \<longrightarrow> True)"
    using run tidyD [OF tidy_connect, of p t]
    by (fastforce simp: adapter_for_target_def split: option.splits if_splits prod.splits sum.splits)
qed

lemma tidy_adapter_for [simp, intro]: "tidy (adapter_for p connection)"
  by (simp add: adapter_for_def)

section \<open>The calls that work a database\<close>

lemma tidy_tools:
  "tidy (list_tables p t)" "tidy (describe_table p t schema name)" "tidy (run_read_query p t sql max_rows)"
  "tidy (get_annotations p i tbl col)" "tidy (search_schema p t pattern)"
  "tidy (list_agent_connections p)" "tidy (require_mcp_write p i)"
  unfolding list_tables_def describe_table_def run_read_query_def get_annotations_def search_schema_def
    list_agent_connections_def require_mcp_write_def Let_def
  by (auto simp: split_def)

lemma tidy_relations: "tidy (list_relationships p t wanted)"
proof -
  have "tidy (\<lambda>s. case sweep_tables a wanted infos [] [] (sv_world s) of
      ((edges, truncated, unreadable), w) \<Rightarrow> (Inr (f edges truncated unreadable), s\<lparr>sv_world := w\<rparr>))"
    for a wanted infos and f :: "relationship list \<Rightarrow> bool \<Rightarrow> table_info list \<Rightarrow> relationship_view"
    by (rule tidy_aside) (auto split: prod.splits)
  then show ?thesis
    unfolding list_relationships_def Let_def
    by (intro tidy_bind [OF tidy_adapter] tidy_bind [OF tidy_on_world])
qed

lemma tidy_write: "tidy (run_write p i sql)"
  unfolding run_write_def Let_def
  by (intro tidy_bind tidy_tools tidy_adapter_for) (auto split: option.split sum.split)

lemma tidy_plan_dump: "tidy (service_plan_dump p i)"
  unfolding service_plan_dump_def Let_def by (rule tidy_bind) (auto split: option.split)

lemma tidy_run_dump: "service_run_dump p fuel ports i plan s = (r, s') \<Longrightarrow> at_rest s' = at_rest s"
  using tidyD [OF tidy_adapter_for, of p i s]
  by (fastforce simp: service_run_dump_def split: prod.splits sum.splits option.splits)

end
