(* ===== verification/Mcp_Shut.thy ===== *)
theory Mcp_Shut
  imports Mcp_Tidy Connection_Ops
begin

text \<open>
  What the calls about the list of connections leave of the store: the file they save grants no write
  that the file before did not grant, and but for the slot of an exported passphrase the keyring is as
  it was.
\<close>

section \<open>What a store grants\<close>

definition grants :: "config_error + connection_file \<Rightarrow> string set" where
  "grants r = (case r of Inl _ \<Rightarrow> {} | Inr file \<Rightarrow> ce_id ` set (filter ce_mcp_write (cf_connections file)))"

definition store_of :: "('w, 'u, 'x) ports \<Rightarrow> 'w service \<Rightarrow> config_error + connection_file" where
  "store_of p s = (case dk_files (sv_disk s) (sv_config_path s) of
     None \<Rightarrow> Inr connections_empty | Some contents \<Rightarrow> connections_parse (po_connections p) contents)"

definition listed :: "'w service \<Rightarrow> bool" where
  "listed s \<longleftrightarrow> dk_files (sv_disk s) (sv_config_path s) \<noteq> None"

definition export_slot :: "string \<Rightarrow> bool" where
  "export_slot k \<longleftrightarrow> starts_with KEYRING_PREFIX k"

definition kept :: "('w, 'u, 'x) ports \<Rightarrow> 'w service \<Rightarrow> 'w service \<Rightarrow> bool" where
  "kept p s s' \<longleftrightarrow> sv_config_path s' = sv_config_path s \<and>
     (\<forall>k. \<not> export_slot k \<longrightarrow> sv_keys s' k = sv_keys s k) \<and>
     grants (store_of p s') \<subseteq> grants (store_of p s)"

lemma kept_rest: "at_rest s' = at_rest s \<Longrightarrow> kept p s s' \<and> (listed s \<longrightarrow> listed s')"
  by (simp add: at_rest_def kept_def store_of_def listed_def)

interpretation gate: step_relation "kept p" listed for p
  by unfold_locales (auto simp: kept_def)

abbreviation holds :: "('w, 'u, 'x) ports \<Rightarrow> ('w service \<Rightarrow> ('e + 'a) \<times> 'w service) \<Rightarrow> bool" where
  "holds p m \<equiv> stays (kept p) listed m (\<lambda>_. True)"

lemma holds_tidy [intro]: "tidy m \<Longrightarrow> holds p m"
  by (rule staysI) (use tidyD kept_rest in blast)

lemma holds_bind [intro]: "holds p m \<Longrightarrow> (\<And>x. holds p (f x)) \<Longrightarrow> holds p (io_bind m f)"
  by (rule gate.stays_then)

lemma holds_map_err [intro]: "holds p m \<Longrightarrow> holds p (io_map_err g m)"
  by (rule gate.stays_map_err)

section \<open>The admin\<close>

definition shut :: "connection_file codec \<Rightarrow> connection_admin \<Rightarrow> connection_admin \<Rightarrow> bool" where
  "shut toml a a' \<longleftrightarrow> ca_path a' = ca_path a \<and> (\<forall>k. \<not> export_slot k \<longrightarrow> ca_keys a' k = ca_keys a k) \<and>
     (dk_files (ca_disk a) (ca_path a) \<noteq> None \<longrightarrow> dk_files (ca_disk a') (ca_path a) \<noteq> None) \<and>
     grants (stored toml a') \<subseteq> grants (stored toml a)"

lemma shut_refl [simp]: "shut toml a a"
  by (simp add: shut_def)

lemma shut_trans: "shut toml a b \<Longrightarrow> shut toml b c \<Longrightarrow> shut toml a c"
  by (auto simp: shut_def)

lemma shut_ends [simp]: "shut toml a (b\<lparr>ca_file := file\<rparr>) = shut toml a b"
  by (simp add: shut_def stored_cases)

lemma sync_then_shut:
  assumes "ca_tracks_disk a" "io_bind (admin_sync toml) f a = (r, a')"
    and "\<And>a1. stored toml a1 = Inr (ca_file a1) \<Longrightarrow> f () a1 = (r, a') \<Longrightarrow> shut toml a1 a'"
  shows "shut toml a a'"
proof -
  obtain q d where q: "connections_load toml (ca_path a) (ca_disk a) = (q, d)"
    by (cases "connections_load toml (ca_path a) (ca_disk a)")
  note load = connections_load_step [OF q]
  show ?thesis
  proof (cases q)
    case (Inl e)
    then have "a' = a\<lparr>ca_disk := d\<rparr>" using assms(1,2) q by (simp add: admin_sync_def io_bind_def)
    then show ?thesis using load(1) by (simp add: shut_def stored_cases)
  next
    case (Inr found)
    let ?a = "a\<lparr>ca_disk := d, ca_file := found\<rparr>"
    have "f () ?a = (r, a')" using assms(1,2) q Inr by (simp add: admin_sync_def io_bind_def)
    moreover have "stored toml ?a = Inr (ca_file ?a)"
      using load(2) [OF Inr] load(1) by (simp add: stored_def)
    ultimately have "shut toml ?a a'" using assms(3) by blast
    moreover have "shut toml a ?a" using load(1) by (simp add: shut_def stored_cases)
    ultimately show ?thesis by (rule shut_trans [rotated])
  qed
qed

lemma save_shut:
  assumes "file_save toml new a = (r, a')" "faithful_codec toml" "stored toml a = Inr (ca_file a)"
    and "grants (Inr new) \<subseteq> grants (Inr (ca_file a))"
  shows "shut toml a a'"
proof -
  obtain d where d: "connections_save toml (ca_path a) new (ca_disk a) = (r, d)" "a' = a\<lparr>ca_disk := d\<rparr>"
    using assms(1) by (auto simp: file_save_def split: prod.splits)
  have files: "dk_files d (ca_path a) = dk_files (ca_disk a) (ca_path a) \<or>
      (\<exists>t. to_text toml new = Inr t \<and> dk_files d (ca_path a) = Some t)"
  proof (cases "to_text toml new")
    case (Inl m)
    then show ?thesis using d(1) by (auto simp: connections_save_def io_of_def)
  next
    case (Inr contents)
    obtain q where "replace_file cs_write_new_file ''.connections.toml'' (ca_path a) contents (ca_disk a) = (q, d)"
      using d(1) Inr by (auto simp: connections_save_def io_map_err_def split: prod.splits sum.splits)
    then show ?thesis
      using Inr connections_writer.replace_file_failed connections_writer.replace_file_written by (cases q) blast+
  qed
  have "grants (connections_parse toml t) \<subseteq> grants (stored toml a)" if "to_text toml new = Inr t" for t
  proof (cases "connections_parse toml t")
    case (Inr g)
    then have "g = new" using assms(2) that by (auto simp: connections_parse_ok faithful_codec_def)
    then show ?thesis using Inr assms(3,4) by simp
  qed (simp add: grants_def)
  then show ?thesis using files d(2) by (auto simp: shut_def stored_cases)
qed

lemma save_file_as_shut:
  assumes "save_file_as toml new a = (r, a')" "faithful_codec toml" "stored toml a = Inr (ca_file a)"
    and "grants (Inr new) \<subseteq> grants (Inr (ca_file a))"
  shows "shut toml a a'"
proof -
  obtain q a1 where q: "file_save toml new a = (q, a1)" by (cases "file_save toml new a")
  show ?thesis
    using save_shut [OF q assms(2-4)] assms(1) q by (cases q) (auto simp: save_file_as_def io_bind_def)
qed

lemma add_shut:
  assumes "faithful_codec toml" "ca_tracks_disk a" "admin_add toml draft a = (r, a')"
    and "\<not> cd_mcp_write draft" "cd_ssh draft = None" "snd (build_kind_for_add (cd_id draft) (cd_kind draft)) = []"
  shows "shut toml a a'"
proof (rule sync_then_shut [OF assms(2) assms(3) [unfolded admin_add_def]])
  fix a1
  assume now: "stored toml a1 = Inr (ca_file a1)"
    and run: "(case plan_add (ca_file a1) draft of Inl e \<Rightarrow> (Inl e, a1)
      | Inr (entry, writes) \<Rightarrow> commit_entry toml entry writes a1) = (r, a')"
  show "shut toml a1 a'"
  proof (cases "plan_add (ca_file a1) draft")
    case (Inr planned)
    obtain entry writes where planned: "planned = (entry, writes)" by (cases planned)
    obtain kind where kind: "build_kind_for_add (cd_id draft) (cd_kind draft) = (kind, [])"
      using assms(6) by (cases "build_kind_for_add (cd_id draft) (cd_kind draft)") auto
    have plain: "writes = []" "\<not> ce_mcp_write entry"
      using Inr planned assms(4,5) kind
      by (auto simp: plan_add_def Let_def rbind_Inr_iff split: if_splits)
    let ?new = "(ca_file a1)\<lparr>cf_connections := cf_connections (ca_file a1) @ [entry]\<rparr>"
    obtain q a2 where q: "file_save toml ?new a1 = (q, a2)" by (cases "file_save toml ?new a1")
    have "shut toml a1 a2"
      by (rule save_shut [OF q assms(1) now]) (use plain(2) in \<open>auto simp: grants_def\<close>)
    then show ?thesis
      using run Inr planned plain(1) q by (cases q) (auto simp: commit_entry_def io_bind_def)
  qed (use run in simp)
qed

lemma mark_shut:
  assumes "faithful_codec toml" "ca_tracks_disk a" "admin_set_mark toml i color tag a = (r, a')"
  shows "shut toml a a'"
proof (rule sync_then_shut [OF assms(2) assms(3) [unfolded admin_set_mark_def]])
  fix a1 :: connection_admin
  let ?es = "cf_connections (ca_file a1)"
  let ?marked = "\<lambda>idx c t. (ca_file a1)\<lparr>cf_connections := ?es[idx := (?es ! idx)\<lparr>ce_color := c, ce_tag := t\<rparr>]\<rparr>"
  assume now: "stored toml a1 = Inr (ca_file a1)"
    and run: "(case find_index (ca_file a1) i of
         None \<Rightarrow> (Inl (No_Such_Connection i), a1)
       | Some idx \<Rightarrow>
           (case rbind (normalize_color color) (\<lambda>color. rbind (normalize_tag tag) (\<lambda>tag. Inr (color, tag))) of
              Inl e \<Rightarrow> (Inl e, a1)
            | Inr (color, tag) \<Rightarrow>
                (let entry = ?es ! idx
                 in if ce_color entry = color \<and> ce_tag entry = tag then (Inr (), a1)
                    else save_file_as toml ((ca_file a1)\<lparr>cf_connections :=
                      ?es[idx := entry\<lparr>ce_color := color, ce_tag := tag\<rparr>]\<rparr>) a1))) = (r, a')"
  have "grants (Inr (?marked idx c t)) \<subseteq> grants (Inr (ca_file a1))" if "idx < length ?es" for idx c t
    using that set_update_subset_insert [of ?es idx] by (fastforce simp: grants_def)
  note same = this
  show "shut toml a1 a'"
  proof (cases "\<exists>j c t. find_index (ca_file a1) i = Some j \<and> save_file_as toml (?marked j c t) a1 = (r, a')")
    case True
    then obtain j c t where j: "find_index (ca_file a1) i = Some j"
      and save: "save_file_as toml (?marked j c t) a1 = (r, a')" by blast
    show ?thesis by (rule save_file_as_shut [OF save assms(1) now same]) (use find_index_Some [OF j] in simp)
  next
    case False
    then have "a' = a1" using run by (auto simp: Let_def split: option.splits sum.splits if_splits)
    then show ?thesis by simp
  qed
qed

lemma move_shut:
  assumes "faithful_codec toml" "ca_tracks_disk a" "admin_move_to toml i idx a = (r, a')"
  shows "shut toml a a'"
proof (rule sync_then_shut [OF assms(2) assms(3) [unfolded admin_move_to_def]])
  fix a1 :: connection_admin
  let ?es = "cf_connections (ca_file a1)"
  let ?moved = "\<lambda>n. (ca_file a1)\<lparr>cf_connections := insert_nth idx (?es ! n) (remove_nth n ?es)\<rparr>"
  assume now: "stored toml a1 = Inr (ca_file a1)"
    and run: "(case find_index (ca_file a1) i of
         None \<Rightarrow> (Inl (No_Such_Connection i), a1)
       | Some n \<Rightarrow>
           (let entries = ?es; len = length entries
            in if idx \<ge> len then (Inl (Index_Out_Of_Range idx len), a1)
               else if n = idx then (Inr (), a1)
               else save_file_as toml ((ca_file a1)\<lparr>cf_connections :=
                 insert_nth idx (entries ! n) (remove_nth n entries)\<rparr>) a1)) = (r, a')"
  have "grants (Inr (?moved n)) \<subseteq> grants (Inr (ca_file a1))" if "n < length ?es" for n
  proof -
    have "mset (insert_nth idx (?es ! n) (remove_nth n ?es)) = mset ?es"
      using that by (simp add: mset_insert_nth mset_remove_nth)
    then have "set (insert_nth idx (?es ! n) (remove_nth n ?es)) = set ?es" by (metis set_mset_mset)
    then show ?thesis by (simp add: grants_def)
  qed
  note same = this
  show "shut toml a1 a'"
  proof (cases "\<exists>n. find_index (ca_file a1) i = Some n \<and> save_file_as toml (?moved n) a1 = (r, a')")
    case True
    then obtain n where n: "find_index (ca_file a1) i = Some n"
      and save: "save_file_as toml (?moved n) a1 = (r, a')" by blast
    show ?thesis by (rule save_file_as_shut [OF save assms(1) now same]) (use find_index_Some [OF n] in simp)
  next
    case False
    then have "a' = a1" using run by (auto simp: Let_def split: option.splits if_splits)
    then show ?thesis by simp
  qed
qed

section \<open>The calls about the list\<close>

lemma holds_admin:
  assumes "\<And>a r a'. ca_tracks_disk a \<Longrightarrow> f a = (r, a') \<Longrightarrow> shut (po_connections p) a a'"
  shows "holds p (with_admin p f)"
proof (rule staysI)
  fix s r s'
  assume present: "listed s" and run: "with_admin p f s = (r, s')"
  obtain q d where q: "connections_load (po_connections p) (sv_config_path s) (sv_disk s) = (q, d)"
    by (cases "connections_load (po_connections p) (sv_config_path s) (sv_disk s)")
  note same = connections_load_step(1) [OF q]
  show "kept p s s' \<and> listed s' \<and> (\<forall>x. r = Inr x \<longrightarrow> True)"
  proof (cases q)
    case (Inl e)
    then have "s' = s\<lparr>sv_disk := d\<rparr>" using run q by (simp add: with_admin_def)
    then show ?thesis using same present by (simp add: kept_def store_of_def listed_def)
  next
    case (Inr found)
    let ?a = "\<lparr>ca_path = sv_config_path s, ca_file = found, ca_tracks_disk = True, ca_disk = d,
      ca_keys = sv_keys s, ca_key_faults = sv_key_faults s\<rparr>"
    obtain x a where a: "f ?a = (x, a)" by (cases "f ?a")
    have "shut (po_connections p) ?a a" by (rule assms [OF _ a]) simp
    moreover have "s' = s\<lparr>sv_disk := ca_disk a, sv_keys := ca_keys a, sv_key_faults := ca_key_faults a\<rparr>"
      using run q Inr a by (simp add: with_admin_def)
    ultimately show ?thesis
      using same present by (auto simp: shut_def kept_def store_of_def listed_def stored_cases)
  qed
qed

lemma new_draft_plain:
  assumes "new_draft request = Inr draft"
  shows "\<not> cd_mcp_write draft" "cd_ssh draft = None"
    "snd (build_kind_for_add (cd_id draft) (cd_kind draft)) = []"
proof -
  obtain i name kind where kind: "draft_kind (nc_kind request) = Inr kind"
    and draft: "draft = \<lparr>cd_id = i, cd_name = name, cd_kind = kind, cd_ssh = None, cd_mcp_write = False,
         cd_mcp_alias = None, cd_color = None, cd_tag = None\<rparr>"
    using assms by (auto simp: new_draft_def rbind_Inr_iff)
  show "\<not> cd_mcp_write draft" "cd_ssh draft = None" by (simp_all add: draft)
  show "snd (build_kind_for_add (cd_id draft) (cd_kind draft)) = []"
    using kind by (cases "nc_kind request") (auto simp: draft Let_def opt_list_def rbind_Inr_iff split: if_splits)
qed

lemma holds_add: "faithful_codec (po_connections p) \<Longrightarrow> holds p (tool_add_connection p params)"
proof -
  assume codec: "faithful_codec (po_connections p)"
  have "holds p (add_connection p request)" for request
  proof (cases "new_draft request")
    case (Inl e)
    then show ?thesis by (intro staysI) (simp add: add_connection_def kept_def)
  next
    case (Inr draft)
    have "holds p (with_admin p (io_bind (admin_add (po_connections p) draft) (added_view (cd_id draft))))"
    proof (rule holds_admin)
      fix a r a'
      assume tracks: "ca_tracks_disk a"
        and run: "io_bind (admin_add (po_connections p) draft) (added_view (cd_id draft)) a = (r, a')"
      obtain q a1 where q: "admin_add (po_connections p) draft a = (q, a1)"
        by (cases "admin_add (po_connections p) draft a")
      have "a' = a1" using run q by (cases q) (auto simp: io_bind_def added_view_def)
      then show "shut (po_connections p) a a'"
        using add_shut [OF codec tracks q new_draft_plain [OF Inr]] by simp
    qed
    then have "holds p (io_map_err add_error (with_admin p (io_bind (admin_add (po_connections p) draft)
        (added_view (cd_id draft)))))" by blast
    then show ?thesis using Inr by (simp add: stays_def add_connection_def)
  qed
  then show ?thesis by (cases "requested_kind params") (auto simp: stays_def tool_add_connection_def kept_def)
qed

lemma holds_mark: "faithful_codec (po_connections p) \<Longrightarrow> holds p (set_connection_mark p i color tag)"
  unfolding set_connection_mark_def by (intro holds_map_err holds_admin) (rule mark_shut)

lemma holds_move: "faithful_codec (po_connections p) \<Longrightarrow> holds p (move_connection p i n)"
  unfolding move_connection_def by (intro holds_map_err holds_admin) (rule move_shut)

end
