(* ===== verification/Mcp_Permission.thy ===== *)
theory Mcp_Permission
  imports Mcp_Shut
begin

text \<open>
  The two calls of an agent that make files, dump and export, and then all calls together: no call and no
  session of calls grants a write, or touches a secret of a connection.
\<close>

section \<open>Files the calls make\<close>

text \<open>
  What such a call leaves of a file that was there, and of the keyring: everything, but for the slots of
  exported passphrases.
\<close>

definition spares :: "file_path \<Rightarrow> 'w service \<Rightarrow> 'w service \<Rightarrow> bool" where
  "spares q s s' \<longleftrightarrow> sv_config_path s' = sv_config_path s \<and> (\<forall>k. \<not> export_slot k \<longrightarrow> sv_keys s' k = sv_keys s k) \<and>
     dk_files (sv_disk s') q = dk_files (sv_disk s) q"

definition there :: "file_path \<Rightarrow> 'w service \<Rightarrow> bool" where
  "there q s \<longleftrightarrow> dk_files (sv_disk s) q \<noteq> None"

interpretation spared: step_relation "spares q" "there q" for q
  by unfold_locales (auto simp: spares_def)

abbreviation leaves :: "file_path \<Rightarrow> ('w service \<Rightarrow> ('e + 'a) \<times> 'w service) \<Rightarrow> bool" where
  "leaves q m \<equiv> stays (spares q) (there q) m (\<lambda>_. True)"

lemma leaves_bind [intro]: "leaves q m \<Longrightarrow> (\<And>x. leaves q (f x)) \<Longrightarrow> leaves q (io_bind m f)"
  by (rule spared.stays_then)

lemma spares_rest: "at_rest s' = at_rest s \<Longrightarrow> spares q s s' \<and> (there q s \<longrightarrow> there q s')"
  by (simp add: spares_def at_rest_def there_def)

lemma leaves_tidy [intro]: "tidy m \<Longrightarrow> leaves q m"
  by (rule staysI) (use tidyD spares_rest in blast)

lemma leaves_holds: "(\<And>q. leaves q m) \<Longrightarrow> holds p m"
proof (rule staysI)
  fix s r s'
  assume quiet: "\<And>q. leaves q m" and "listed s" and run: "m s = (r, s')"
  then have "there (sv_config_path s) s" by (simp add: listed_def there_def)
  from staysD(1,2) [OF quiet this run]
  have "spares (sv_config_path s) s s' \<and> there (sv_config_path s) s'" by simp
  then show "kept p s s' \<and> listed s' \<and> (\<forall>x. r = Inr x \<longrightarrow> True)"
    by (cases "dk_files (sv_disk s) (sv_config_path s)")
      (auto simp: kept_def store_of_def listed_def spares_def there_def)
qed

lemma keeps_to_other: "keeps_to path m \<Longrightarrow> m d = (r, d') \<Longrightarrow> q \<noteq> path \<Longrightarrow> dk_files d' q = dk_files d q"
proof -
  assume keeps: "keeps_to path m" and run: "m d = (r, d')" and q: "q \<noteq> path"
  obtain states where "dk_files d' = last (dk_files d # states)"
      "list_all (\<lambda>fs. \<forall>p. p \<noteq> path \<longrightarrow> fs p = dk_files d p) states"
    using growsE [OF keeps [unfolded keeps_to_def] run] by blast
  then show ?thesis using q by (cases states rule: rev_cases) (auto simp: list_all_iff)
qed

text \<open>A file that is there is not created again.\<close>

lemma create_new_there:
  assumes "create_new_user_only path d = (r, d')" "dk_files d q \<noteq> None"
  shows "dk_files d' q = dk_files d q" "r = Inr u \<Longrightarrow> path \<noteq> q"
proof -
  show "r = Inr u \<Longrightarrow> path \<noteq> q"
    using assms by (auto simp: create_new_user_only_def sys_call_def split: fault.splits if_splits)
  show "dk_files d' q = dk_files d q"
  proof (cases "q = path")
    case True
    then show ?thesis
      using assms by (auto simp: create_new_user_only_def sys_call_def split: fault.splits if_splits)
  next
    case False
    then show ?thesis using keeps_to_other [OF keeps_to_create_new assms(1)] by simp
  qed
qed

lemma write_sink_spares:
  "write_sink p path taken s = (r, s') \<Longrightarrow> path \<noteq> q \<Longrightarrow> spares q s s'"
  using keeps_to_other [OF keeps_to_write_all]
  by (auto simp: write_sink_def spares_def split: prod.splits sum.splits)

lemma leaves_dump: "leaves q (dump_to_file p fo fuel i path)"
proof -
  have check: "tidy (check_dump_destination fo path)"
    by (rule tidy_aside) (auto simp: check_dump_destination_def path_exists_def split: if_splits bool.splits option.splits)
  show ?thesis
    unfolding dump_to_file_def
  proof (rule leaves_bind [OF leaves_tidy [OF check]], rule leaves_bind [OF leaves_tidy [OF tidy_plan_dump]], rule staysI)
    fix shown plan s r s'
    let ?body = "\<lambda>_ s. case service_run_dump p fuel \<lparr>sink_error = fo_sink_error fo, cancel_at = (\<lambda>_. False)\<rparr> i plan s of
         ((Inl e, taken), s) \<Rightarrow> (Inl e, snd (write_sink p path taken s))
       | ((Inr out, taken), s) \<Rightarrow>
           io_bind (write_sink p path taken) (\<lambda>bytes.
             let failed = map tf_table (do_failures out); short = map tt_table (do_truncations out) in
             io_of (Inr \<lparr>df_path = shown, df_tables_dumped = do_tables_dumped out,
               df_rows_written = do_rows_written out, df_bytes_written = bytes, df_failed_tables = failed,
               df_truncated_tables = short, df_complete = (failed = [] \<and> short = [])\<rparr>)) s"
    assume present: "there q s" and run: "io_bind (create_sink p path) ?body s = (r, s')"
    obtain z s1 where create: "create_sink p path s = (z, s1)" by (cases "create_sink p path s")
    have first: "spares q s s1" "z = Inr u \<Longrightarrow> path \<noteq> q" for u
      using create present create_new_there [of path "sv_disk s" _ _ q]
      by (auto simp: create_sink_def spares_def there_def split: prod.splits sum.splits)
    have "spares q s s'"
    proof (cases z)
      case (Inr u)
      obtain x taken s2 where dumped:
          "service_run_dump p fuel \<lparr>sink_error = fo_sink_error fo, cancel_at = (\<lambda>_. False)\<rparr> i plan s1 = ((x, taken), s2)"
        by (metis prod.collapse)
      obtain y s3 where flush: "write_sink p path taken s2 = (y, s3)" by (cases "write_sink p path taken s2")
      have two: "spares q s1 s2" using spares_rest [OF tidy_run_dump [OF dumped]] by simp
      have "spares q s2 s3" using write_sink_spares [OF flush] first(2) [OF Inr] by simp
      moreover have "s' = s3"
        using run create Inr dumped flush by (cases x; cases y) (auto simp: io_bind_def Let_def)
      ultimately show ?thesis using first(1) two spared.step_trans by blast
    qed (use run create first(1) in \<open>simp add: io_bind_def\<close>)
    then show "spares q s s' \<and> there q s' \<and> (\<forall>x. r = Inr x \<longrightarrow> True)"
      using present by (simp add: spares_def there_def)
  qed
qed

section \<open>Exports\<close>

lemma reserve_there:
  "reserve_from io xo dir base ns d = (r, d') \<Longrightarrow> dk_files d q \<noteq> None \<Longrightarrow>
     dk_files d' q = dk_files d q \<and> (\<forall>path stem. r = Inr (path, stem) \<longrightarrow> path \<noteq> q)"
proof (induction ns arbitrary: d)
  case (Cons n ns)
  obtain x d1 where create: "create_new_user_only (bundle_path dir (stem_at base n)) d = (x, d1)"
    by (cases "create_new_user_only (bundle_path dir (stem_at base n)) d")
  note there = create_new_there [OF create Cons.prems(2)]
  show ?case
  proof (cases x)
    case (Inl e)
    then show ?thesis
      using Cons.prems Cons.IH [of d1] create there(1) by (cases e) (auto simp: Let_def)
  next
    case (Inr u)
    then show ?thesis using Cons.prems create there by (auto simp: Let_def)
  qed
qed auto

lemma gather_secrets_aside: "gather_secrets refs found a = (r, a') \<Longrightarrow> keys_step {} a a'"
proof (induction refs arbitrary: found a)
  case (Cons k refs)
  obtain g a1 where g: "key_get k a = (g, a1)" by (cases "key_get k a")
  note step = key_get_step(1) [OF g]
  show ?case
    using Cons g step keys_step_trans [OF step, of "{}"] by (cases g) auto
qed (simp add: keys_step_def)

lemma export_bundle_aside:
  assumes "admin_export_bundle_of age ids passphrase a = (r, a')"
  shows "keys_step {} a a'"
proof -
  have "keys_step {} a b" if "encrypt_selection age es passphrase a = (q, b)" for es q b
  proof (cases "validate_passphrase passphrase")
    case (Inr u)
    obtain g a1 where g: "gather_secrets (concat (map entry_keyring_refs es)) [] a = (g, a1)"
      by (cases "gather_secrets (concat (map entry_keyring_refs es)) [] a")
    then have "b = a1"
      using that Inr by (auto simp: encrypt_selection_def io_bind_def Let_def split: sum.splits)
    then show ?thesis using gather_secrets_aside [OF g] by simp
  qed (use that in \<open>simp add: encrypt_selection_def\<close>)
  then show ?thesis
    using assms by (auto simp: admin_export_bundle_of_def keys_step_def split: if_splits sum.splits)
qed

lemma export_slot_own [simp]: "export_slot (KEYRING_PREFIX @ stem)"
  by (simp add: export_slot_def starts_with_def)

text \<open>What an export leaves of a file that was there, and of the keyring.\<close>

definition aside :: "file_path \<Rightarrow> connection_admin \<Rightarrow> connection_admin \<Rightarrow> bool" where
  "aside q a a' \<longleftrightarrow> dk_files (ca_disk a') q = dk_files (ca_disk a) q \<and>
     (\<forall>k. \<not> export_slot k \<longrightarrow> ca_keys a' k = ca_keys a k)"

lemma aside_refl [simp]: "aside q a a"
  by (simp add: aside_def)

lemma aside_trans: "aside q a b \<Longrightarrow> aside q b c \<Longrightarrow> aside q a c"
  by (simp add: aside_def)

lemma aside_keys: "keys_step K a a' \<Longrightarrow> (\<And>k. k \<in> K \<Longrightarrow> export_slot k) \<Longrightarrow> aside q a a'"
  by (auto simp: aside_def keys_step_def)

lemma aside_disk:
  "dk_files d q = dk_files (ca_disk a) q \<Longrightarrow> aside q a (a\<lparr>ca_disk := d\<rparr>)"
  by (simp add: aside_def)

lemma aside_remove: "path \<noteq> q \<Longrightarrow> aside q a (a\<lparr>ca_disk := snd (remove_file path (ca_disk a))\<rparr>)"
  by (rule aside_disk) (metis keeps_to_other keeps_to_remove_file prod.collapse)

lemma seal_aside:
  assumes "seal_bundle io xo dir warnings ids passphrase stamp a = (r, a')" "dk_files (ca_disk a) q \<noteq> None"
  shows "aside q a a'"
proof -
  obtain x a1 where made: "admin_export_bundle_of (xo_age xo) ids passphrase a = (x, a1)"
    by (cases "admin_export_bundle_of (xo_age xo) ids passphrase a")
  have one: "aside q a a1" by (rule aside_keys [OF export_bundle_aside [OF made]]) simp
  have there: "dk_files (ca_disk a1) q \<noteq> None" using one assms(2) by (simp add: aside_def)
  show ?thesis
  proof (cases "x = Inl (projl x) \<or> stamp = Inl (projl stamp)")
    case True
    then have "a' = a1"
      using assms(1) made
      by (cases x; cases stamp) (auto simp: seal_bundle_def io_bind_def io_map_err_def Let_def)
    then show ?thesis using one by simp
  next
    case False
    then obtain blob t where ok: "x = Inr blob" "stamp = Inr t" by (cases x; cases stamp) auto
    obtain y d where reserved: "reserve io xo dir (STEM_PREFIX @ t) (ca_disk a1) = (y, d)"
      by (cases "reserve io xo dir (STEM_PREFIX @ t) (ca_disk a1)")
    note free = reserve_there [OF reserved [unfolded reserve_def] there]
    have two: "aside q a (a1\<lparr>ca_disk := d\<rparr>)" using one free by (simp add: aside_def)
    show ?thesis
    proof (cases y)
      case (Inl e)
      then have "a' = a1\<lparr>ca_disk := d\<rparr>"
        using assms(1) made ok reserved by (auto simp: seal_bundle_def io_bind_def io_map_err_def Let_def)
      then show ?thesis using two by simp
    next
      case (Inr named)
      obtain path stem where named: "named = (path, stem)" by (cases named)
      then have other: "path \<noteq> q" using free Inr by simp
      obtain z a2 where slot: "key_set (KEYRING_PREFIX @ stem) passphrase (a1\<lparr>ca_disk := d\<rparr>) = (z, a2)"
        by (cases "key_set (KEYRING_PREFIX @ stem) passphrase (a1\<lparr>ca_disk := d\<rparr>)")
      have three: "aside q a a2"
        by (rule aside_trans [OF two], rule aside_keys [OF key_set_step(1) [OF slot]]) auto
      obtain u d1 where put: "io_bind (write_all path (blob_text blob)) (\<lambda>_. sync_all) (ca_disk a2) = (u, d1)"
        by (cases "io_bind (write_all path (blob_text blob)) (\<lambda>_. sync_all) (ca_disk a2)")
      have "keeps_to path (io_bind (write_all path (blob_text blob)) (\<lambda>_. sync_all))"
        by (intro keeps_to_bind) auto
      then have four: "aside q a2 (a2\<lparr>ca_disk := d1\<rparr>)"
        by (rule aside_disk [OF keeps_to_other]) (use put other in auto)
      have five: "aside q (a2\<lparr>ca_disk := d1\<rparr>) (a2\<lparr>ca_disk := snd (remove_file path d1)\<rparr>)"
        using aside_remove [of path q "a2\<lparr>ca_disk := d1\<rparr>"] other by auto
      show ?thesis
        using assms(1) made ok reserved Inr named slot put
          aside_trans [OF three aside_remove [of path q a2]] aside_trans [OF three four]
          aside_trans [OF aside_trans [OF three four] five] other
        by (auto simp: seal_bundle_def io_bind_def io_map_err_def Let_def split: sum.splits prod.splits)
    qed
  qed
qed

lemma leaves_export: "leaves q (export_connections p xo bytes stamp ids)"
proof (rule staysI)
  fix s r s'
  assume present: "there q s" and run: "export_connections p xo bytes stamp ids s = (r, s')"
  have "spares q s s'"
  proof (cases "ids = []")
    case False
    obtain x d where load: "connections_load (po_connections p) (sv_config_path s) (sv_disk s) = (x, d)"
      by (cases "connections_load (po_connections p) (sv_config_path s) (sv_disk s)")
    note same = connections_load_step(1) [OF load]
    show ?thesis
    proof (cases x)
      case (Inr found)
      define a where "a = \<lparr>ca_path = sv_config_path s, ca_file = found, ca_tracks_disk = True, ca_disk = d,
        ca_keys = sv_keys s, ca_key_faults = sv_key_faults s\<rparr>"
      obtain y a' where store: "export_from_store (po_io_text p) xo ids (generate_passphrase bytes) stamp a = (y, a')"
        by (cases "export_from_store (po_io_text p) xo ids (generate_passphrase bytes) stamp a")
      have "aside q a a'"
        using store seal_aside [where a = a and q = q] present same
        by (auto simp: export_from_store_def there_def a_def split: option.splits if_splits sum.splits)
      then show ?thesis
        using run False load Inr store same
        by (auto simp: export_connections_def a_def [symmetric] aside_def spares_def) (simp_all add: a_def)
    qed (use run False load same in \<open>auto simp: export_connections_def spares_def\<close>)
  qed (use run in \<open>auto simp: export_connections_def spared.step_refl\<close>)
  then show "spares q s s' \<and> there q s' \<and> (\<forall>x. r = Inr x \<longrightarrow> True)"
    using present by (simp add: spares_def there_def)
qed

lemmas holds_dump = leaves_holds [OF leaves_dump]
lemmas holds_export = leaves_holds [OF leaves_export]

end
