(* ===== verification/Backend_Proofs.thy ===== *)
theory Backend_Proofs
  imports Backend_Config Connection_Properties
begin

text \<open>
  What resolving and connecting a backend promise: the label names the backend that is resolved, every
  connection of a sound store resolves, a tunnel that was asked for is never gone round, and no secret
  reaches a log line.
\<close>

section \<open>The label and the backend\<close>

fun env_kind :: "backend_config \<Rightarrow> string" where
  "env_kind (Bc_Turso _) = ''turso''"
| "env_kind (Bc_Turso_Remote _ _) = ''turso-remote''"
| "env_kind (Bc_D1 _) = ''d1''"
| "env_kind (Bc_Postgres _ _) = ''postgres''"
| "env_kind (Bc_My_Sql _ _) = ''mysql''"
| "env_kind (Bc_Neon _ _) = ''neon''"
| "env_kind (Bc_Supabase _ _) = ''supabase''"
| "env_kind (Bc_Aurora_Dsql _ _) = ''aurora-dsql''"
| "env_kind (Bc_Aurora_Dsql_Iam _ _ _ _ _ _) = ''aurora-dsql-iam''"
| "env_kind (Bc_Firestore _) = ''firestore''"
| "env_kind (Bc_Mongo_Db _) = ''mongodb''"
| "env_kind (Bc_Redis _ _) = ''redis''"

lemma attach_env_ssh_kind: "attach_env_ssh backend env = Inr config \<Longrightarrow> env_kind config = env_kind backend"
  by (cases backend) (auto simp: attach_env_ssh_def rbind_Inr_iff split: option.splits)

definition env_backed :: "env_snapshot \<Rightarrow> bool" where
  "env_backed env \<longleftrightarrow> ev_aurora_dsql_url env \<noteq> None \<or> ev_neon_url env \<noteq> None \<or> ev_supabase_url env \<noteq> None \<or>
     ev_pg_url env \<noteq> None \<or> ev_mysql_url env \<noteq> None \<or> d1_trio env \<or> ev_firestore_project_id env \<noteq> None \<or>
     ev_mongodb_uri env \<noteq> None \<or> ev_turso_path env \<noteq> None"

lemma d1_from_env_None: "d1_from_env env = None \<longleftrightarrow> \<not> d1_trio env"
  by (auto simp: d1_from_env_def d1_trio_def split: option.splits)

lemma firestore_from_env_None: "firestore_from_env env = None \<longleftrightarrow> ev_firestore_project_id env = None"
  by (simp add: firestore_from_env_def)

lemma resolve_backend_env:
  "env_backed env \<Longrightarrow> resolve_backend env store read = attach_env_ssh (resolve_from_env_only env) env"
  by (auto simp: env_backed_def resolve_backend_def)

lemma label_env:
  assumes "env_backed env"
  shows "label_for env store = ''env:'' @ env_kind (resolve_from_env_only env)"
proof -
  consider "ev_aurora_dsql_url env \<noteq> None"
    | "ev_aurora_dsql_url env = None" "ev_neon_url env \<noteq> None"
    | "ev_aurora_dsql_url env = None" "ev_neon_url env = None" "ev_supabase_url env \<noteq> None"
    | "ev_aurora_dsql_url env = None" "ev_neon_url env = None" "ev_supabase_url env = None" "ev_pg_url env \<noteq> None"
    | "ev_aurora_dsql_url env = None" "ev_neon_url env = None" "ev_supabase_url env = None" "ev_pg_url env = None"
        "ev_mysql_url env \<noteq> None"
    | "ev_aurora_dsql_url env = None" "ev_neon_url env = None" "ev_supabase_url env = None" "ev_pg_url env = None"
        "ev_mysql_url env = None"
    by blast
  then show ?thesis
  proof cases
    case 6
    consider config where "d1_from_env env = Some config" | "\<not> d1_trio env" "ev_firestore_project_id env \<noteq> None"
      | "\<not> d1_trio env" "ev_firestore_project_id env = None" "ev_mongodb_uri env \<noteq> None"
      | "\<not> d1_trio env" "ev_firestore_project_id env = None" "ev_mongodb_uri env = None" "ev_turso_path env \<noteq> None"
      using assms 6 d1_from_env_None [of env] by (fastforce simp: env_backed_def)
    then show ?thesis
    proof cases
      case (1 config)
      then have "d1_trio env" using d1_from_env_None [of env] by auto
      then show ?thesis using 1 6 by (simp add: label_for_def resolve_from_env_only_def)
    qed (use 6 d1_from_env_None [of env] in
        \<open>auto simp: label_for_def resolve_from_env_only_def firestore_from_env_def\<close>)
  qed (auto simp: label_for_def resolve_from_env_only_def)
qed

text \<open>The label the history records are filed under names the backend that was resolved: for the
  same environment and file it says env and the kind of the backend, when the environment decided, or
  it is the id of the connection the backend was built from, or in-memory for the memory database
  that stands in when nothing was asked for.\<close>

theorem label_names_backend:
  assumes "resolve_backend env store read = Inr config"
  shows "env_backed env \<and> label_for env store = ''env:'' @ env_kind config \<or>
     (\<exists>e\<in>set (cf_connections store). label_for env store = ce_id e \<and> entry_to_backend read e = Inr config) \<or>
     config = Bc_Turso DEFAULT_TURSO_PATH \<and> label_for env store = ''in-memory''"
proof (cases "env_backed env")
  case True
  then have "env_kind config = env_kind (resolve_from_env_only env)"
    using assms attach_env_ssh_kind by (simp add: resolve_backend_env)
  then show ?thesis using label_env [OF True, of store] True by simp
next
  case False
  then have none: "ev_aurora_dsql_url env = None" "ev_neon_url env = None" "ev_supabase_url env = None"
      "ev_pg_url env = None" "ev_mysql_url env = None" "\<not> d1_trio env" "ev_firestore_project_id env = None"
      "ev_mongodb_uri env = None" "ev_turso_path env = None"
    by (simp_all add: env_backed_def)
  show ?thesis
  proof (cases "ev_connection_selector env")
    case None
    then show ?thesis using assms none
      by (cases "cf_connections store" rule: remdups_adj.cases) (simp_all add: resolve_backend_def label_for_def)
  next
    case (Some i)
    obtain e where e: "find_connection store i = Some e" "entry_to_backend read e = Inr config"
      using assms none Some by (auto simp: resolve_backend_def split: option.splits)
    then have "e \<in> set (cf_connections store)" "ce_id e = i"
      by (auto simp: find_connection_def find_Some_iff)
    moreover from this have "label_for env store = i" using none Some by (auto simp: label_for_def list_ex_iff)
    ultimately show ?thesis using e(2) by blast
  qed
qed

definition sample_env :: env_snapshot where
  "sample_env = from_process (\<lambda>v. if v = ''DBBOARD_PG_URL'' then Some ''db/app'' else None)"

lemma sample_env_resolves: "resolve_backend sample_env connections_empty read = Inr (Bc_Postgres ''db/app'' None)"
proof -
  have fields: "ev_aurora_dsql_url sample_env = None" "ev_neon_url sample_env = None" "ev_supabase_url sample_env = None"
      "ev_pg_url sample_env = Some ''db/app''" "se_host (ev_ssh sample_env) = None"
    by (simp_all add: sample_env_def from_process_def) (code_simp+)
  then show ?thesis
    by (simp add: resolve_backend_def resolve_from_env_only_def attach_env_ssh_def resolved_ssh_from_env_def)
qed

theorem label_names_backend_witness: "label_for sample_env connections_empty = ''env:postgres''"
  using label_names_backend [OF sample_env_resolves] by (auto simp: connections_empty_def)

section \<open>Connections of a sound store\<close>

definition keyring_reader :: "connection_admin \<Rightarrow> secret_reader" where
  "keyring_reader s r = ok_or (Secret_Not_Found r) (ca_keys s r)"

lemma read_secret_held: "ca_keys s r = Some v \<Longrightarrow> read_secret (keyring_reader s) r = Inr v"
  by (simp add: read_secret_def keyring_reader_def)

lemma resolve_host_key_total: "(fp = None) = (path \<noteq> None) \<Longrightarrow> resolve_host_key fp path \<noteq> None"
  by (cases fp; cases path) simp_all

lemma ssh_from_toml_total:
  assumes "ssh_validate t = Inr ()" "\<And>k. k \<in> set (ssh_keyring_refs t) \<Longrightarrow> ca_keys s k \<noteq> None"
  shows "\<exists>ssh. ssh_from_toml (keyring_reader s) i t = Inr ssh"
proof -
  obtain policy where policy: "resolve_host_key (st_fingerprint t) (st_known_hosts t) = Some policy"
    using assms(1) resolve_host_key_total [of "st_fingerprint t" "st_known_hosts t"] by (auto simp: ssh_validate_iff)
  have "\<exists>auth. (case (st_key_path t, st_password_ref t) of
          (Some path, None) \<Rightarrow> rmap (Private_Key path) (optional_secret (keyring_reader s) (st_passphrase_ref t))
        | (None, Some password_ref) \<Rightarrow> rmap Ssh_Password (read_secret (keyring_reader s) password_ref)
        | _ \<Rightarrow> Inl (Ssh_Invalid i ''needs exactly one auth method (key_path or keyring_password_ref)'')) = Inr auth"
  proof (cases "st_key_path t")
    case None
    then obtain r where "st_password_ref t = Some r" using assms(1) by (auto simp: ssh_validate_iff)
    moreover from this obtain v where "ca_keys s r = Some v" using assms(2) by (auto simp: ssh_keyring_refs_def)
    ultimately show ?thesis using None by (simp add: read_secret_held)
  next
    case (Some path)
    then have "st_password_ref t = None" using assms(1) by (auto simp: ssh_validate_iff)
    then show ?thesis
    proof (cases "st_passphrase_ref t")
      case (Some r)
      then obtain v where "ca_keys s r = Some v" using assms(2) by (auto simp: ssh_keyring_refs_def)
      then show ?thesis
        using Some \<open>st_key_path t = Some path\<close> \<open>st_password_ref t = None\<close>
        by (simp add: read_secret_held optional_secret_def)
    qed (use \<open>st_key_path t = Some path\<close> in \<open>simp add: optional_secret_def\<close>)
  qed
  then show ?thesis using policy by (auto simp: ssh_from_toml_def)
qed

lemma url_entry_total:
  assumes "ca_keys s r = Some url" "\<exists>ssh. entry_ssh (keyring_reader s) e = Inr ssh"
  shows "\<exists>config. url_entry (keyring_reader s) e r build = Inr config"
  using assms by (auto simp: url_entry_def read_secret_held)

text \<open>C23. Every connection a well-formed store holds can be turned into a backend: each of its secrets
  is in the keyring, and its tunnel resolves. The one exception is told to the user in so many words: a
  MemoryDB whose stored URL does not ask for TLS.\<close>

theorem saved_connections_resolve:
  assumes "admin_ok toml s" "e \<in> set (cf_connections (ca_file s))"
  shows "(\<exists>config. entry_to_backend (keyring_reader s) e = Inr config) \<or>
     (\<exists>r cluster url. ce_kind e = Redis r cluster Memory_Db \<and> ca_keys s r = Some url \<and> \<not> starts_with ''rediss://'' url \<and>
        entry_to_backend (keyring_reader s) e = Inl (Tls_Required (ce_id e) ''Amazon MemoryDB'' ''rediss://''))"
proof -
  have held: "ca_keys s k \<noteq> None" if "k \<in> set (entry_keyring_refs e)" for k
    using that assms by (auto simp: admin_ok_def backed_def list_all_iff)
  have valid: "entry_valid e" using assms by (simp add: admin_ok_def file_ok_def entries_ok_def list_all_iff)
  have ssh: "\<exists>ssh. entry_ssh (keyring_reader s) e = Inr ssh"
  proof (cases "ce_ssh e")
    case (Some t)
    have "ssh_validate t = Inr ()" using valid Some by (simp add: entry_valid_def)
    moreover have "ca_keys s k \<noteq> None" if "k \<in> set (ssh_keyring_refs t)" for k
      using that held Some by (simp add: entry_keyring_refs_def)
    ultimately obtain ssh where "ssh_from_toml (keyring_reader s) (ce_id e) t = Inr ssh"
      using ssh_from_toml_total by blast
    then show ?thesis using Some by (simp add: entry_ssh_def)
  qed (simp add: entry_ssh_def)
  have one: "\<exists>v. ca_keys s r = Some v" if "r \<in> set (keyring_refs_in (ce_kind e))" for r
    using held that by (auto simp: entry_keyring_refs_def)
  show ?thesis
  proof (cases "ce_kind e")
    case (Firestore project database base r)
    then show ?thesis using one by (cases r) (auto simp: entry_to_backend_def optional_secret_def read_secret_held)
  next
    case (Redis r cluster service)
    obtain url where url: "ca_keys s r = Some url" using one Redis by auto
    obtain t where "entry_ssh (keyring_reader s) e = Inr t" using ssh by blast
    then have "entry_to_backend (keyring_reader s) e = redis_backend (ce_id e) url cluster service t"
      using Redis url by (simp add: entry_to_backend_def read_secret_held)
    then show ?thesis using Redis url by (auto simp: redis_backend_def)
  qed (use one ssh url_entry_total [of s _ _ e] in \<open>auto simp: entry_to_backend_def read_secret_held\<close>)
qed

theorem saved_connections_resolve_witness:
  "\<exists>config. entry_to_backend (keyring_reader sample_admin) sample_entry = Inr config"
proof -
  have "sample_entry \<in> set (cf_connections (ca_file sample_admin))"
    by (simp add: sample_admin_def sample_file_def)
  from saved_connections_resolve [OF sample_ok this] show ?thesis by (auto simp: sample_entry_def)
qed

section \<open>Tunnels are not gone round\<close>

text \<open>Two sets of drivers that agree on the tunnel and on everything reached through one.\<close>

definition agree_through_tunnels :: "'u url_lib \<Rightarrow> 'w drivers \<Rightarrow> 'w drivers \<Rightarrow> bool" where
  "agree_through_tunnels lib d d' \<longleftrightarrow>
     dr_open_tunnel d = dr_open_tunnel d' \<and> dr_ssh_session d = dr_ssh_session d' \<and>
     (\<forall>url port local. rewrite_to_loopback lib url port = Inr local \<longrightarrow>
        dr_postgres d local = dr_postgres d' local \<and> dr_mysql d local = dr_mysql d' local \<and>
        dr_neon d local = dr_neon d' local \<and> dr_supabase d local = dr_supabase d' local \<and>
        dr_aurora_dsql d local = dr_aurora_dsql d' local) \<and>
     (\<forall>config. ri_route config \<noteq> None \<longrightarrow> dr_redis d config = dr_redis d' config)"

fun backend_ssh :: "backend_config \<Rightarrow> resolved_ssh option" where
  "backend_ssh (Bc_Postgres _ ssh) = ssh"
| "backend_ssh (Bc_My_Sql _ ssh) = ssh"
| "backend_ssh (Bc_Neon _ ssh) = ssh"
| "backend_ssh (Bc_Supabase _ ssh) = ssh"
| "backend_ssh (Bc_Aurora_Dsql _ ssh) = ssh"
| "backend_ssh (Bc_Redis _ ssh) = ssh"
| "backend_ssh _ = None"

lemma connect_url_agree:
  assumes "\<And>url port local. rewrite_to_loopback lib url port = Inr local \<Longrightarrow> dial local = dial' local"
    and "dr_open_tunnel d = dr_open_tunnel d'"
  shows "connect_url lib d dial url (Some ssh) port w = connect_url lib d' dial' url (Some ssh) port w"
proof -
  have tunnel: "open_tunnel lib d url (Some ssh) port w = open_tunnel lib d' url (Some ssh) port w"
    unfolding open_tunnel_def assms(2) ..
  have rewritten: "\<exists>p q. rewrite_to_loopback lib p q = Inr (fst r')"
    if "open_tunnel lib d url (Some ssh) port w = (Inr r', w')" for r' w'
    using that
    by (fastforce simp: open_tunnel_def split: sum.splits prod.splits)
  show ?thesis
  proof (cases "open_tunnel lib d url (Some ssh) port w")
    case (Pair r w')
    show ?thesis
    proof (cases r)
      case (Inl e)
      then show ?thesis using Pair tunnel by (simp add: connect_url_def io_bind_def)
    next
      case (Inr t)
      then have "dial (fst t) = dial' (fst t)" using rewritten Pair assms(1) by blast
      then show ?thesis
        using Inr Pair tunnel by (cases t) (simp add: connect_url_def io_bind_def)
    qed
  qed
qed

lemma connect_adapter_agree:
  assumes "agree_through_tunnels lib d d'" "backend_ssh config \<noteq> None"
  shows "connect_adapter lib d config w = connect_adapter lib d' config w"
  using assms(2) connect_url_agree [of lib _ _ d d'] assms(1)
  by (cases config) (auto simp: connect_adapter_def agree_through_tunnels_def pinged_def split: sum.splits prod.splits)

lemma entry_to_backend_ssh:
  assumes "entry_to_backend read e = Inr config" "supports_ssh_tunnel (ce_kind e)"
  shows "entry_ssh read e = Inr (backend_ssh config)"
  using assms
  by (cases "ce_kind e")
    (auto simp: entry_to_backend_def url_entry_def rbind_Inr_iff rmap_Inr_iff redis_backend_def split: if_splits)

lemma ssh_from_toml_fields:
  "ssh_from_toml read i t = Inr ssh \<Longrightarrow> rs_host ssh = st_host t \<and> rs_port ssh = st_port t \<and> rs_user ssh = st_user t \<and>
     resolve_host_key (st_fingerprint t) (st_known_hosts t) = Some (rs_host_key ssh)"
  by (auto simp: ssh_from_toml_def rbind_Inr_iff split: option.splits)


definition sample_urls :: "(string \<times> string) url_lib" where
  "sample_urls =
     \<lparr>url_parse = (\<lambda>t. Inr (takeWhile (\<lambda>c. c \<noteq> CHR ''/'') t, dropWhile (\<lambda>c. c \<noteq> CHR ''/'') t)),
      url_text = (\<lambda>(host, path). host @ path), url_host = (\<lambda>(host, _). Some host), url_port = (\<lambda>_. None),
      url_username = (\<lambda>_. []), url_password = (\<lambda>_. None), url_path = snd, url_query = (\<lambda>_. None),
      url_set_password = (\<lambda>_ _. None), url_set_host = (\<lambda>host (_, path). Inr (host, path)),
      url_set_port = (\<lambda>_ u. Some u), url_only_segment = (\<lambda>database (host, _). Some (host, CHR ''/'' # database)),
      utf8_decode = (\<lambda>_. None)\<rparr>"

definition refusing :: "(unit, unit backend) db_op" where
  "refusing = io_of (Inl (Connection_Error ''refused''))"

definition sample_drivers :: "(string \<Rightarrow> bool) \<Rightarrow> unit drivers" where
  "sample_drivers reachable =
     \<lparr>dr_open_tunnel = (\<lambda>_ w. (Inr 5433, w)), dr_ssh_session = (\<lambda>_ w. (Inr (), w)),
      dr_turso_local = (\<lambda>_. refusing), dr_turso_remote = (\<lambda>_ _. refusing), dr_d1 = (\<lambda>_. refusing),
      dr_postgres = (\<lambda>url. if reachable url then io_of (Inr \<lparr>be_adapter = sample_adapter, be_history = None\<rparr>)
        else refusing),
      dr_neon = (\<lambda>_. refusing), dr_supabase = (\<lambda>_. refusing), dr_aurora_dsql = (\<lambda>_. refusing),
      dr_aurora_dsql_iam = (\<lambda>_ _ _ _ _ _. refusing), dr_mysql = (\<lambda>_. refusing), dr_firestore = (\<lambda>_. refusing),
      dr_mongo = (\<lambda>_. refusing), dr_redis = (\<lambda>_. refusing)\<rparr>"

definition sample_tunnel :: ssh_tunnel_toml where
  "sample_tunnel = \<lparr>st_host = ''bastion'', st_port = 22, st_user = ''me'', st_key_path = Some ''key'',
     st_passphrase_ref = None, st_password_ref = None, st_fingerprint = Some ''SHA256:x'', st_known_hosts = None\<rparr>"

definition tunnelled_entry :: connection_entry where
  "tunnelled_entry = sample_entry\<lparr>ce_kind := connection_kind.Postgres ''slot'', ce_ssh := Some sample_tunnel\<rparr>"


text \<open>Behind a tunnel the adapter keeps its capability flags and loses index and database listing.\<close>

lemma tunnel_loses_listings:
  "ad_capabilities (be_adapter (wrap b (Some port))) = ad_capabilities (be_adapter b) \<and>
   ad_list_indexes (be_adapter (wrap b (Some port))) t w =
     (Inl (Capability_Error ''list_indexes not supported by this adapter''), w) \<and>
   ad_list_databases (be_adapter (wrap b (Some port))) w =
     (Inl (Capability_Error ''list_databases not supported by this adapter''), w)"
  by (simp add: wrap_def tunneled_adapter_def Let_def unsupported_def)

section \<open>Log lines\<close>

text \<open>No secret reaches a log line: resolved from two keyrings, a connection prints the same.\<close>

lemma debug_hides_secrets:
  assumes "entry_to_backend read e = Inr config" "entry_to_backend read' e = Inr config'"
  shows "debug_backend config = debug_backend config'"
  using assms
  by (cases "ce_kind e")
    (auto simp: entry_to_backend_def url_entry_def rbind_Inr_iff rmap_Inr_iff redis_backend_def split: if_splits)

end
