(* ===== verification/Mcp_Properties.thy ===== *)
theory Mcp_Properties
  imports Mcp_Permission Backend_Proofs Annotations_Proofs
begin

text \<open>
  What the agent's side of the program promises: no call writes to a database a human has not opened for
  writing, and no session of calls opens one.
\<close>

section \<open>One call\<close>

lemma find_SomeD: "find P xs = Some x \<Longrightarrow> x \<in> set xs \<and> P x"
  by (induction xs) (auto split: if_splits)

lemma load_store:
  assumes "load_connection_file p s = (r, s')"
  shows "sv_world s' = sv_world s" "sv_cache s' = sv_cache s" "store_of p s' = store_of p s"
    "r = Inr listing \<Longrightarrow> store_of p s = Inr listing"
proof -
  obtain q d where q: "connections_load (po_connections p) (sv_config_path s) (sv_disk s) = (q, d)"
    by (cases "connections_load (po_connections p) (sv_config_path s) (sv_disk s)")
  have s': "s' = s\<lparr>sv_disk := d\<rparr>" "r = Inr listing \<Longrightarrow> q = Inr listing" for listing
    using assms q by (cases q; auto simp: load_connection_file_def)+
  show "sv_world s' = sv_world s" "sv_cache s' = sv_cache s" by (simp_all add: s')
  show "store_of p s' = store_of p s" using connections_load_step(1) [OF q] by (simp add: s' store_of_def)
  show "store_of p s = Inr listing" if "r = Inr listing"
    using q s'(2) [OF that]
    by (auto simp: connections_load_def read_to_string_def store_of_def split: fault.splits option.splits)
qed

lemma store_distinct: "store_of p s = Inr listing \<Longrightarrow> distinct (map ce_id (cf_connections listing))"
  by (auto simp: store_of_def connections_empty_def connections_parse_ok connections_valid_def split: option.splits)

lemma resolve_answers:
  assumes "resolve_agent_handle p handle s = (r, s')"
  shows "sv_world s' = sv_world s" "sv_cache s' = sv_cache s" "store_of p s' = store_of p s"
    "r = Inr i \<Longrightarrow> \<exists>listing e. store_of p s = Inr listing \<and> e \<in> set (cf_connections listing) \<and> answers_to handle e \<and> i = ce_id e"
proof -
  obtain q t where q: "load_connection_file p s = (q, t)" by (cases "load_connection_file p s")
  note load = load_store [OF q]
  have "s' = t" using assms q by (cases q) (auto simp: resolve_agent_handle_def io_bind_def io_of_def)
  then show "sv_world s' = sv_world s" "sv_cache s' = sv_cache s" "store_of p s' = store_of p s"
    using load by simp_all
  show "\<exists>listing e. store_of p s = Inr listing \<and> e \<in> set (cf_connections listing) \<and> answers_to handle e \<and> i = ce_id e"
    if "r = Inr i"
  proof (cases q)
    case (Inr listing)
    then have "rmap ce_id (ok_or (Connection_Not_Found handle) (find (answers_to handle) (cf_connections listing))) = Inr i"
      using assms q that by (simp add: resolve_agent_handle_def io_bind_def io_of_def)
    then obtain e where "find (answers_to handle) (cf_connections listing) = Some e" "i = ce_id e"
      by (cases "find (answers_to handle) (cf_connections listing)") auto
    then show ?thesis using load(4) [OF Inr] find_SomeD by fastforce
  qed (use assms q that in \<open>simp add: resolve_agent_handle_def io_bind_def\<close>)
qed

lemma require_granted:
  assumes "require_mcp_write p i s = (r, s')"
  shows "sv_world s' = sv_world s" "sv_cache s' = sv_cache s"
    "r = Inr u \<Longrightarrow> \<exists>listing e. store_of p s = Inr listing \<and> e \<in> set (cf_connections listing) \<and> ce_id e = i \<and> ce_mcp_write e"
proof -
  obtain q t where q: "load_connection_file p s = (q, t)" by (cases "load_connection_file p s")
  note load = load_store [OF q]
  have "s' = t" using assms q by (cases q) (auto simp: require_mcp_write_def io_bind_def io_of_def)
  then show "sv_world s' = sv_world s" "sv_cache s' = sv_cache s" using load by simp_all
  show "\<exists>listing e. store_of p s = Inr listing \<and> e \<in> set (cf_connections listing) \<and> ce_id e = i \<and> ce_mcp_write e"
    if ok: "r = Inr u"
  proof (cases q)
    case (Inr listing)
    then obtain e where "find_connection listing i = Some e" "ce_mcp_write e"
      using assms q ok
      by (auto simp: require_mcp_write_def io_bind_def io_of_def split: option.splits if_splits)
    then show ?thesis using load(4) [OF Inr] by (auto simp: find_connection_def dest: find_SomeD)
  qed (use assms q ok in \<open>simp add: require_mcp_write_def io_bind_def\<close>)
qed

lemma calm_call:
  assumes "honest data (ho_ports h)" "\<And>handle sql. call \<noteq> Agent_Write handle sql"
  shows "calm (po_json_text (ho_ports h)) data (tool_call h call) (\<lambda>_. True)"
proof -
  have map_err: "calm j data m (\<lambda>_. True) \<Longrightarrow> calm j data (io_map_err g m) (\<lambda>_. True)" for j m and g :: "config_error \<Rightarrow> service_error"
    by (rule calm_map_err)
  have listing: "calm j data (list_agent_connections p) (\<lambda>_. True)" for j p
    unfolding list_agent_connections_def by (rule calm_answer, rule calm_load)
  have add: "calm j data (tool_add_connection p params) (\<lambda>_. True)" for j p params
    by (rule calm_aside)
      (auto simp: tool_add_connection_def add_connection_def with_admin_def io_map_err_def
        split: sum.splits prod.splits)
  have export: "calm j data (\<lambda>s. answering Answer_Export (export_connections p xo (e (sv_world s)) (t (sv_world s)) ids) s)
      (\<lambda>_. True)" for j p xo ids and e :: "'a \<Rightarrow> 8 word list" and t
    by (rule calm_aside)
      (auto simp: answering_def io_bind_def io_of_def export_connections_def split: if_splits sum.splits prod.splits)
  have resolve_all: "calm j data (resolve_all p handles) (\<lambda>_. True)" for j p handles
    by (induction handles) (auto intro!: calm_then [OF calm_resolve] calm_answer calm_of [unfolded io_of_def [abs_def]])
  have annos: "calm j data (get_annotations p i tbl col) (\<lambda>_. True)" for j p i tbl col
    unfolding get_annotations_def by (rule calm_answer, rule calm_load_annotations)
  note ask = calm_then [OF calm_resolve] calm_answer calm_then [OF map_err [OF calm_with_admin]]
  show ?thesis
    using assms
    by (cases call)
      (auto simp: resolved_def answering_def [abs_def] set_connection_mark_def move_connection_def
        intro!: ask listing add annos calm_then [OF resolve_all] export [unfolded answering_def]
          calm_list_tables calm_describe calm_read calm_search calm_relations calm_dump)
qed

lemma serve_runs: "serve h call s = (r, s') \<Longrightarrow> \<exists>q. tool_call h call s = (q, s')"
  by (auto simp: serve_def io_map_err_def split: prod.splits sum.splits)

text \<open>A writing call gets past the gate, or it leaves databases and cache alone.\<close>

lemma write_call_gate:
  assumes "tool_call h (Agent_Write handle sql) s = (r, s')"
    and "sv_world s' \<noteq> sv_world s \<or> sv_cache s' \<noteq> sv_cache s"
  obtains listing e s1 where "store_of (ho_ports h) s = Inr listing" "e \<in> set (cf_connections listing)"
    "answers_to handle e" "ce_mcp_write e" "sv_world s1 = sv_world s" "sv_cache s1 = sv_cache s"
    "snd (io_bind (adapter_for (ho_ports h) (ce_id e)) (\<lambda>b.
       case dialect_for_adapter_id (ad_id (be_adapter b)) of
         None \<Rightarrow> io_of (Inl (Not_Editable (ad_id (be_adapter b))))
       | Some dialect \<Rightarrow>
           (case classify_write (po_parse_sql (ho_ports h)) sql dialect of
              Inl violation \<Rightarrow> io_of (Inl (Write_Refused violation))
            | Inr statement \<Rightarrow>
                io_bind (on_world (ad_execute (be_adapter b) sql)) (\<lambda>n.
                  io_of (Inr \<lparr>wo_statement = write_label statement, wo_rows_affected = n\<rparr>)))) s1) = s'"
proof -
  let ?p = "ho_ports h"
  obtain q s1 where q: "resolve_agent_handle ?p handle s = (q, s1)" by (cases "resolve_agent_handle ?p handle s")
  note one = resolve_answers [OF q]
  obtain i where i: "q = Inr i"
    using assms q one by (cases q) (auto simp: resolved_def io_bind_def)
  obtain g s2 where g: "require_mcp_write ?p i s1 = (g, s2)" by (cases "require_mcp_write ?p i s1")
  note two = require_granted [OF g]
  obtain u where u: "g = Inr u"
    using assms q i g one two by (cases g) (auto simp: resolved_def answering_def run_write_def io_bind_def)
  obtain listing e where e: "store_of ?p s = Inr listing" "e \<in> set (cf_connections listing)"
      "answers_to handle e" "i = ce_id e"
    using one(4) [OF i] by blast
  obtain e' where e': "e' \<in> set (cf_connections listing)" "ce_id e' = i" "ce_mcp_write e'"
    using two(3) [OF u] one(3) e(1) by auto
  then have "e' = e" using e store_distinct [OF e(1)] by (metis distinct_map inj_on_def)
  then show ?thesis
    using that [OF e(1,2,3), of s2] e' e(4) assms(1) q i g u one two
    by (auto simp: resolved_def answering_def run_write_def io_bind_def io_of_def Let_def split: sum.splits prod.splits)
qed

text \<open>
  C4. Write needs permission. Over drivers whose reads leave the databases alone, a call of an agent that
  changes any of them is a write call, by the handle of a connection on which a human has set
  \<open>mcp_write\<close>, with SQL that the write policy takes for a single permitted statement.
\<close>

theorem write_needs_permission:
  assumes "honest data (ho_ports h)" "cache_ok (po_json_text (ho_ports h)) data s"
    and "serve h call s = (r, s')" "data (sv_world s') \<noteq> data (sv_world s)"
  shows "\<exists>handle sql listing e dialect statement.
    call = Agent_Write handle sql \<and> store_of (ho_ports h) s = Inr listing \<and> e \<in> set (cf_connections listing) \<and>
    answers_to handle e \<and> ce_mcp_write e \<and> classify_write (po_parse_sql (ho_ports h)) sql dialect = Inr statement"
proof -
  obtain q where q: "tool_call h call s = (q, s')" using serve_runs [OF assms(3)] by blast
  have "\<exists>handle sql. call = Agent_Write handle sql"
    using calmD [OF calm_call [OF assms(1)] assms(2) q] assms(4) by blast
  then obtain handle sql where call: "call = Agent_Write handle sql" by blast
  have moved: "sv_world s' \<noteq> sv_world s \<or> sv_cache s' \<noteq> sv_cache s" using assms(4) by auto
  show ?thesis
  proof (rule write_call_gate [OF q [unfolded call] moved])
    fix listing e s1
    let ?p = "ho_ports h"
    let ?run = "\<lambda>b. case dialect_for_adapter_id (ad_id (be_adapter b)) of
         None \<Rightarrow> io_of (Inl (Not_Editable (ad_id (be_adapter b))))
       | Some dialect \<Rightarrow>
           (case classify_write (po_parse_sql ?p) sql dialect of
              Inl violation \<Rightarrow> io_of (Inl (Write_Refused violation))
            | Inr statement \<Rightarrow>
                io_bind (on_world (ad_execute (be_adapter b) sql)) (\<lambda>n.
                  io_of (Inr \<lparr>wo_statement = write_label statement, wo_rows_affected = n\<rparr>)))"
    assume e: "store_of ?p s = Inr listing" "e \<in> set (cf_connections listing)" "answers_to handle e" "ce_mcp_write e"
      and same: "sv_world s1 = sv_world s" "sv_cache s1 = sv_cache s"
      and run: "snd (io_bind (adapter_for ?p (ce_id e)) ?run s1) = s'"
    obtain a s2 where a: "adapter_for ?p (ce_id e) s1 = (a, s2)" by (cases "adapter_for ?p (ce_id e) s1")
    have "cache_ok (po_json_text ?p) data s1" using assms(2) same by (simp add: cache_ok_def)
    then have quiet: "data (sv_world s2) = data (sv_world s)"
      using calmD [OF calm_adapter_target [OF assms(1)] _ a [unfolded adapter_for_def]] same by simp
    then obtain b where b: "a = Inr b" using run a assms(4) by (cases a) (auto simp: io_bind_def)
    then have "\<exists>dialect statement. classify_write (po_parse_sql ?p) sql dialect = Inr statement"
      using run a quiet assms(4) by (fastforce simp: io_bind_def io_of_def split: option.splits sum.splits)
    then show ?thesis using e call by blast
  qed
qed

section \<open>A session\<close>

lemma holds_answering: "holds p m \<Longrightarrow> holds p (answering f m)"
  unfolding answering_def by (intro holds_bind) auto

lemma holds_call:
  assumes "faithful_codec (po_connections (ho_ports h))"
  shows "holds (ho_ports h) (tool_call h call)"
proof -
  let ?p = "ho_ports h"
  have listing: "holds ?p (list_agent_connections ?p)" by (rule holds_tidy) (rule tidy_tools)
  have export: "holds ?p (\<lambda>s. answering Answer_Export (export_connections ?p xo (e (sv_world s)) (t (sv_world s)) ids) s)"
    for xo ids and e :: "'a \<Rightarrow> 8 word list" and t
    using holds_answering [OF holds_export, where f = Answer_Export] unfolding stays_def by blast
  show ?thesis
    by (cases call)
      (auto simp: resolved_def intro!: holds_bind [OF holds_tidy [OF tidy_resolve]]
        holds_bind [OF holds_tidy [OF tidy_resolve_all]] holds_answering listing holds_add [OF assms] holds_bind [OF holds_mark [OF assms]]
        holds_bind [OF holds_move [OF assms]] holds_dump export
        intro: holds_tidy tidy_tools tidy_relations tidy_write)
qed

lemma run_agent_kept:
  assumes "faithful_codec (po_connections (ho_ports h))"
  shows "listed s \<Longrightarrow> kept (ho_ports h) s (run_agent h calls s) \<and> listed (run_agent h calls s)"
proof (induction calls arbitrary: s)
  case (Cons call calls)
  obtain r s1 where r: "serve h call s = (r, s1)" by (cases "serve h call s")
  then obtain q where "tool_call h call s = (q, s1)" using serve_runs by blast
  from staysD [OF holds_call [OF assms] Cons.prems this] have "kept (ho_ports h) s s1" "listed s1" by simp_all
  then show ?case using Cons.IH [of s1] r gate.step_trans by auto
qed (simp add: gate.step_refl)

lemma closed_call:
  assumes "honest data (ho_ports h)" "cache_ok (po_json_text (ho_ports h)) data s"
    and "grants (store_of (ho_ports h) s) = {}" "tool_call h call s = (q, s')"
  shows "data (sv_world s') = data (sv_world s) \<and> cache_ok (po_json_text (ho_ports h)) data s'"
proof (cases "\<exists>handle sql. call = Agent_Write handle sql")
  case True
  then obtain handle sql where call: "call = Agent_Write handle sql" by blast
  have "sv_world s' = sv_world s \<and> sv_cache s' = sv_cache s"
  proof (rule ccontr)
    assume "\<not> ?thesis"
    then have "sv_world s' \<noteq> sv_world s \<or> sv_cache s' \<noteq> sv_cache s" by blast
    then show False
      by (rule write_call_gate [OF assms(4) [unfolded call]]) (use assms(3) in \<open>auto simp: grants_def\<close>)
  qed
  then show ?thesis using assms(2) by (simp add: cache_ok_def)
next
  case False
  then show ?thesis using calmD [OF calm_call [OF assms(1)] assms(2,4)] by blast
qed

text \<open>
  C5. An agent cannot open the gate. Whatever calls an agent makes, in whatever order and whatever the
  disk and the keyring do in between, no connection is open for its writing at the end that was not at
  the start; and where none was, the databases are what they were.
\<close>

theorem agent_cannot_open_gate:
  assumes "honest data (ho_ports h)" "cache_ok (po_json_text (ho_ports h)) data s"
    and "faithful_codec (po_connections (ho_ports h))" "listed s"
  shows "grants (store_of (ho_ports h) (run_agent h calls s)) \<subseteq> grants (store_of (ho_ports h) s) \<and>
    (grants (store_of (ho_ports h) s) = {} \<longrightarrow> data (sv_world (run_agent h calls s)) = data (sv_world s))"
proof
  show "grants (store_of (ho_ports h) (run_agent h calls s)) \<subseteq> grants (store_of (ho_ports h) s)"
    using run_agent_kept [OF assms(3,4)] by (simp add: kept_def)
  show "grants (store_of (ho_ports h) s) = {} \<longrightarrow> data (sv_world (run_agent h calls s)) = data (sv_world s)"
    using assms(2,4)
  proof (induction calls arbitrary: s)
    case (Cons call calls)
    obtain r s1 where r: "serve h call s = (r, s1)" by (cases "serve h call s")
    then obtain q where q: "tool_call h call s = (q, s1)" using serve_runs by blast
    from staysD [OF holds_call [OF assms(3)] Cons.prems(2) q]
    have kept: "kept (ho_ports h) s s1" "listed s1" by simp_all
    show ?case
      using closed_call [OF assms(1) Cons.prems(1) _ q] Cons.IH [OF _ kept(2)] kept(1) r
      by (auto simp: kept_def)
  qed simp
qed

text \<open>
  C6. No secret of a connection is touched: a session of calls leaves every slot of the keyring as it
  was, but for those an export files its passphrases in.
\<close>

theorem agent_touches_no_secret:
  assumes "faithful_codec (po_connections (ho_ports h))" "listed s" "\<not> export_slot slot"
  shows "sv_keys (run_agent h calls s) slot = sv_keys s slot"
  using run_agent_kept [OF assms(1,2), of calls] assms(3) by (simp add: kept_def)

section \<open>Witnesses\<close>

text \<open>
  A host whose world is the list of the statements its one database has executed, and whose store has
  that database open for writing or not.
\<close>

definition log_adapter :: "string list adapter" where
  "log_adapter = (adapter_defaults (\<lambda>d s. Inl [] :: string + unit statement list) ''turso'' capabilities_default
      (io_of (Inr ())) (io_of (Inr [table_unqualified ''t''])) (\<lambda>_. io_of (Inr (page_result [] []))))
     \<lparr>ad_execute := (\<lambda>sql w. (Inr 1, w @ [sql]))\<rparr>"

abbreviation no_dial :: "(string list, string list backend) db_op" where
  "no_dial \<equiv> io_of (Inl (Connection_Error ''refused''))"

definition log_drivers :: "string list drivers" where
  "log_drivers = \<lparr>dr_open_tunnel = (\<lambda>_. io_of (Inl ''none'')), dr_ssh_session = (\<lambda>_. io_of (Inl ''none'')),
     dr_turso_local = (\<lambda>_. io_of (Inr \<lparr>be_adapter = log_adapter, be_history = None\<rparr>)),
     dr_turso_remote = (\<lambda>_ _. no_dial), dr_d1 = (\<lambda>_. no_dial), dr_postgres = (\<lambda>_. no_dial),
     dr_neon = (\<lambda>_. no_dial), dr_supabase = (\<lambda>_. no_dial), dr_aurora_dsql = (\<lambda>_. no_dial),
     dr_aurora_dsql_iam = (\<lambda>_ _ _ _ _ _. no_dial), dr_mysql = (\<lambda>_. no_dial), dr_firestore = (\<lambda>_. no_dial),
     dr_mongo = (\<lambda>_. no_dial), dr_redis = (\<lambda>_. no_dial)\<rparr>"

definition log_entry :: "bool \<Rightarrow> connection_entry" where
  "log_entry writable = \<lparr>ce_id = ''prod'', ce_name = ''Prod'', ce_kind = Turso ''p.db'', ce_mcp_write = writable,
     ce_mcp_alias = Some ''db1'', ce_color = None, ce_tag = None, ce_ssh = None\<rparr>"

definition marked_entry :: connection_entry where
  "marked_entry = (log_entry False)\<lparr>ce_color := Some ''red''\<rparr>"

definition log_codec :: "connection_file codec" where
  "log_codec = \<lparr>to_text = (\<lambda>g. if g = sample_file [marked_entry] then Inr ''marked'' else Inl ''unknown''),
     of_text = (\<lambda>t. Inr (sample_file [if t = ''marked'' then marked_entry else log_entry (t = ''open'')]))\<rparr>"

definition log_ports :: "(string list, string \<times> string, unit) ports" where
  "log_ports = \<lparr>po_connections = log_codec, po_annotations = sample_notes_toml, po_urls = sample_urls,
     po_drivers = log_drivers, po_parse_sql = (\<lambda>d s. Inr [Insert_Statement ()]), po_clock = length,
     po_unreadable = (\<lambda>_ _. None), po_json_text = (\<lambda>_. []), po_io_text = (\<lambda>_. ''io'')\<rparr>"

definition log_path :: file_path where
  "log_path = \<lparr>fp_parent = Some ''d'', fp_name = Some ''c''\<rparr>"

definition log_host :: "(string list, string \<times> string, unit) host" where
  "log_host = \<lparr>ho_ports = log_ports,
     ho_files = \<lparr>fo_is_absolute = (\<lambda>_. True), fo_is_dir = (\<lambda>_. True), fo_display = (\<lambda>_. ''f''), fo_sink_error = (\<lambda>_ _. None)\<rparr>,
     ho_export = \<lparr>xo_age = \<lparr>seal = (\<lambda>_ _. Inr [1]), unseal = (\<lambda>_ _. Inl Weak_Passphrase)\<rparr>, xo_is_dir = (\<lambda>_. True),
       xo_components = (\<lambda>_. []), xo_display = (\<lambda>_. ''f'')\<rparr>,
     ho_entropy = (\<lambda>_. replicate 30 7), ho_stamp = (\<lambda>_. Inr ''now''),
     ho_path = (\<lambda>t. \<lparr>fp_parent = Some ''d'', fp_name = Some t\<rparr>), ho_fuel = 5\<rparr>"

definition log_service :: "string \<Rightarrow> string list service" where
  "log_service stored_text = service_new log_path \<lparr>fp_parent = Some ''d'', fp_name = Some ''n''\<rparr>
     (restart [log_path \<mapsto> stored_text]) [keyring_ref ''prod'' ''url'' \<mapsto> ''secret''] [] []"

lemma log_honest: "honest id (ho_ports log_host)"
  by (simp add: honest_drivers_def Let_def log_host_def log_ports_def log_drivers_def reads_only_def
      log_adapter_def adapter_defaults_def default_query_read_only_def quiet_def stays_def io_of_def unsupported_def
      check_read_only_def classify_read_only_def ro_parse_def)

lemma log_cache [simp]: "cache_ok j data (log_service t)"
  by (simp add: cache_ok_def log_service_def service_new_def)

lemma log_listed [simp]: "listed (log_service t)"
  by (simp add: listed_def log_service_def service_new_def restart_def)

lemma log_codec_faithful: "faithful_codec (po_connections (ho_ports log_host))"
  by (auto simp: faithful_codec_def log_host_def log_ports_def log_codec_def)

theorem write_needs_permission_witness:
  "sv_world (snd (serve log_host (Agent_Write ''db1'' ''INSERT INTO t'') (log_service ''open''))) = [''INSERT INTO t''] \<and>
   (\<exists>listing e. store_of log_ports (log_service ''open'') = Inr listing \<and> e \<in> set (cf_connections listing) \<and>
     answers_to ''db1'' e \<and> ce_mcp_write e)"
proof -
  obtain r s' where run: "serve log_host (Agent_Write ''db1'' ''INSERT INTO t'') (log_service ''open'') = (r, s')"
    by (cases "serve log_host (Agent_Write ''db1'' ''INSERT INTO t'') (log_service ''open'')")
  have moved: "sv_world (snd (serve log_host (Agent_Write ''db1'' ''INSERT INTO t'') (log_service ''open''))) = [''INSERT INTO t'']"
    "sv_world (log_service ''open'') = []"
    by code_simp+
  have "id (sv_world s') \<noteq> id (sv_world (log_service ''open''))" using moved run by simp
  from write_needs_permission [OF log_honest log_cache run this] show ?thesis
    using moved(1) by (auto simp: log_host_def)
qed

theorem agent_cannot_open_gate_witness:
  "sv_world (run_agent log_host [Agent_Mark ''db1'' (Some ''red'') None, Agent_Write ''db1'' ''INSERT INTO t'']
     (log_service ''shut'')) = [] \<and>
   cf_connections (projr (store_of log_ports (run_agent log_host [Agent_Mark ''db1'' (Some ''red'') None,
     Agent_Write ''db1'' ''INSERT INTO t''] (log_service ''shut'')))) = [marked_entry]"
proof
  have shut: "grants (store_of (ho_ports log_host) (log_service ''shut'')) = {}" "sv_world (log_service ''shut'') = []"
    by code_simp+
  show "sv_world (run_agent log_host [Agent_Mark ''db1'' (Some ''red'') None, Agent_Write ''db1'' ''INSERT INTO t'']
     (log_service ''shut'')) = []"
    using agent_cannot_open_gate [OF log_honest log_cache log_codec_faithful log_listed] shut by (simp del: run_agent.simps)
  show "cf_connections (projr (store_of log_ports (run_agent log_host [Agent_Mark ''db1'' (Some ''red'') None,
     Agent_Write ''db1'' ''INSERT INTO t''] (log_service ''shut'')))) = [marked_entry]"
    by code_simp
qed

theorem agent_touches_no_secret_witness:
  "sv_keys (run_agent log_host [Agent_Mark ''db1'' (Some ''red'') None, Agent_Export [''db1'']] (log_service ''shut''))
     (keyring_ref ''prod'' ''url'') = Some ''secret''"
proof -
  have "\<not> export_slot (keyring_ref ''prod'' ''url'')" by code_simp
  from agent_touches_no_secret [OF log_codec_faithful log_listed this] show ?thesis
    by (simp add: log_service_def service_new_def del: run_agent.simps)
qed

end
