(* ===== verification/Mcp_Answers.thy ===== *)
theory Mcp_Answers
  imports Mcp_Properties
begin

text \<open>
  What the answers of the agent's calls are worth: handles lead back to connections, the amount of an
  answer is bounded, a search finds what there is, and the files the calls make are new.
\<close>

section \<open>Handles\<close>

lemma load_store_fine:
  "dk_faults (sv_disk s) = [] \<Longrightarrow> fst (load_connection_file p s) = map_sum Service_Config id (store_of p s)"
  by (auto simp: load_connection_file_def store_of_def connections_load_def read_to_string_def
      split: option.split sum.split)

lemma fst_io_of_bind:
  "fst (m s) = Inr x \<Longrightarrow> fst (io_bind m (\<lambda>x. io_of (f x)) s) = f x"
  by (cases "m s") (simp add: io_bind_def io_of_def)

definition shown_handle :: "connection_entry \<Rightarrow> string" where
  "shown_handle e = (case ce_mcp_alias e of Some a \<Rightarrow> a | None \<Rightarrow> ce_id e)"

lemma answers_to_shown: "answers_to handle e \<longleftrightarrow> shown_handle e = handle"
  by (auto simp: answers_to_def shown_handle_def split: option.split)

lemma find_unique:
  assumes "x \<in> set xs" "P x" "\<And>y. y \<in> set xs \<Longrightarrow> P y \<Longrightarrow> y = x"
  shows "find P xs = Some x"
proof (cases "find P xs")
  case None
  then show ?thesis using assms(1,2) by (simp add: find_None_iff)
next
  case (Some y)
  then show ?thesis using assms(3) find_SomeD by metis
qed

lemma shown_handles_differ:
  assumes "entries_ok es" "x \<in> set es" "y \<in> set es" "shown_handle x = shown_handle y"
  shows "x = y"
proof (rule ccontr)
  assume "x \<noteq> y"
  then have other: "ce_id x \<noteq> ce_id y"
    using assms(1-3) by (metis distinct_map entries_ok_def inj_on_def)
  have free: "handles_free es" using assms(1) by (simp add: entries_ok_def)
  note xy = free [unfolded handles_free_def, rule_format, OF assms(2,3) other]
  note yx = free [unfolded handles_free_def, rule_format, OF assms(3,2) other [symmetric]]
  show False
    using xy yx other assms(4) by (cases "ce_mcp_alias x"; cases "ce_mcp_alias y") (auto simp: shown_handle_def)
qed

lemma resolve_store:
  assumes "dk_faults (sv_disk s) = []" "store_of p s = Inr listing"
  shows "fst (resolve_agent_handle p handle s) =
    rmap ce_id (ok_or (Connection_Not_Found handle) (find (answers_to handle) (cf_connections listing)))"
  unfolding resolve_agent_handle_def by (rule fst_io_of_bind) (simp add: load_store_fine assms)

text \<open>
  C9. The handles an agent is shown are the handles that work: in a well-formed store each view of the
  list resolves to the connection it was made of, and the id that an alias hides resolves to none.
\<close>

theorem handles_lead_back:
  assumes "dk_faults (sv_disk s) = []" "store_of p s = Inr listing" "file_ok listing"
  shows "\<exists>views. fst (list_agent_connections p s) = Inr views \<and> length views = length (cf_connections listing) \<and>
    (\<forall>n<length views. fst (resolve_agent_handle p (cv_id (views ! n)) s) = Inr (ce_id (cf_connections listing ! n))) \<and>
    (\<forall>e\<in>set (cf_connections listing). ce_mcp_alias e \<notin> {None, Some (ce_id e)} \<longrightarrow>
      fst (resolve_agent_handle p (ce_id e) s) = Inl (Connection_Not_Found (ce_id e)))"
proof -
  let ?es = "cf_connections listing"
  let ?views = "map (\<lambda>(pos, entry). agent_view pos entry) (enumerate 0 ?es)"
  have ok: "entries_ok ?es" using assms(3) by (simp add: file_ok_def)
  have "fst (list_agent_connections p s) = Inr ?views"
    unfolding list_agent_connections_def by (rule fst_io_of_bind) (simp add: load_store_fine assms)
  moreover have "fst (resolve_agent_handle p (cv_id (?views ! n)) s) = Inr (ce_id (?es ! n))" if "n < length ?es" for n
  proof -
    have "cv_id (?views ! n) = shown_handle (?es ! n)"
      using that by (simp add: nth_enumerate_eq agent_view_def shown_handle_def)
    moreover have "find (answers_to (shown_handle (?es ! n))) ?es = Some (?es ! n)"
      using that shown_handles_differ [OF ok] by (intro find_unique) (auto simp: answers_to_shown)
    ultimately show ?thesis using resolve_store [OF assms(1,2)] by simp
  qed
  moreover have "fst (resolve_agent_handle p (ce_id e) s) = Inl (Connection_Not_Found (ce_id e))"
    if e: "e \<in> set ?es" and hidden: "ce_mcp_alias e \<notin> {None, Some (ce_id e)}" for e
  proof -
    have "shown_handle x \<noteq> ce_id e" if x: "x \<in> set ?es" for x
    proof (cases "ce_id x = ce_id e")
      case True
      then have "x = e" using ok x e by (metis distinct_map entries_ok_def inj_on_def)
      then show ?thesis using hidden by (auto simp: shown_handle_def split: option.split)
    next
      case False
      then have "ce_mcp_alias x \<noteq> Some (ce_id e)"
        using ok x e unfolding entries_ok_def handles_free_def by metis
      then show ?thesis using False by (auto simp: shown_handle_def split: option.split)
    qed
    then have "find (answers_to (ce_id e)) ?es = None" by (auto simp: find_None_iff answers_to_shown)
    then show ?thesis using resolve_store [OF assms(1,2)] by simp
  qed
  ultimately show ?thesis by (intro exI [of _ ?views]) simp
qed

section \<open>Bounds\<close>

lemma match_table_one: "length (opt_list (match_table needle info schema)) \<le> 1"
  by (simp add: match_table_def opt_list_def Let_def)

lemma search_tables_bound:
  "search_tables a needle infos hits w = (Inr (found, over), w') \<Longrightarrow> length hits \<le> MAX_SCHEMA_MATCHES \<Longrightarrow>
     length found \<le> MAX_SCHEMA_MATCHES"
proof (induction infos arbitrary: hits w)
  case (Cons info infos)
  show ?case
  proof (cases "MAX_SCHEMA_MATCHES \<le> length hits")
    case True
    then show ?thesis using Cons.prems by (auto simp: io_of_def)
  next
    case False
    then obtain schema w1 where "search_tables a needle infos (hits @ opt_list (match_table needle info schema)) w1 =
        (Inr (found, over), w')"
      using Cons.prems(1) by (auto simp: io_bind_def split: prod.splits sum.splits)
    moreover have "length (hits @ opt_list (match_table needle info schema)) \<le> MAX_SCHEMA_MATCHES"
      using False match_table_one [of needle info schema] by simp
    ultimately show ?thesis by (rule Cons.IH)
  qed
qed (simp add: io_of_def)

lemma add_edges_bound:
  "add_edges wanted info fks edges = (found, over) \<Longrightarrow> length edges < MAX_RELATIONSHIPS \<Longrightarrow>
     length found \<le> MAX_RELATIONSHIPS \<and> (\<not> over \<longrightarrow> length found < MAX_RELATIONSHIPS)"
  by (induction fks arbitrary: edges) (auto simp: Let_def split: if_splits)

lemma sweep_tables_bound:
  "sweep_tables a wanted infos edges unreadable w = ((found, over, skipped), w') \<Longrightarrow>
     length edges \<le> MAX_RELATIONSHIPS \<Longrightarrow> length found \<le> MAX_RELATIONSHIPS"
proof (induction infos arbitrary: edges unreadable w)
  case (Cons info infos)
  show ?case
  proof (cases "MAX_RELATIONSHIPS \<le> length edges")
    case False
    obtain q w1 where fks: "ad_foreign_keys a info w = (q, w1)" by (cases "ad_foreign_keys a info w")
    show ?thesis
    proof (cases q)
      case (Inr keys)
      obtain es c where es: "add_edges wanted info keys edges = (es, c)" by (cases "add_edges wanted info keys edges")
      from add_edges_bound [OF es] False show ?thesis
        using Cons fks Inr es by (cases c) auto
    qed (use Cons fks False in auto)
  qed (use Cons.prems in simp)
qed simp

lemma answered: "io_bind m f s = (Inr y, s') \<Longrightarrow> \<exists>x t. m s = (Inr x, t) \<and> f x t = (Inr y, s')"
  by (auto simp: io_bind_def split: prod.splits sum.splits)

lemma on_world_Inr: "on_world f s = (Inr x, s') \<Longrightarrow> \<exists>w. f (sv_world s) = (Inr x, w) \<and> s' = s\<lparr>sv_world := w\<rparr>"
  by (auto simp: on_world_def split: prod.splits sum.splits)

lemma run_read_query_bound:
  "run_read_query p t sql n s = (Inr out, s') \<Longrightarrow> length (qo_rows out) \<le> 1000 \<and>
     qo_row_count out = length (qo_rows out) \<and> (\<forall>k. n = Some k \<longrightarrow> length (qo_rows out) \<le> k)"
  unfolding run_read_query_def Let_def
  by (auto dest!: answered simp: io_of_def truncate_rows_def MAX_MAX_ROWS_def split: option.splits)

lemma search_schema_bound:
  "search_schema p t pattern s = (Inr view, s') \<Longrightarrow> length (sc_matches view) \<le> 200"
  unfolding search_schema_def Let_def
  by (auto dest!: answered on_world_Inr search_tables_bound simp: io_of_def MAX_SCHEMA_MATCHES_def
      split: if_splits prod.splits)

lemma list_relationships_bound:
  "list_relationships p t wanted s = (Inr view, s') \<Longrightarrow> length (rw_relationships view) \<le> 500"
  unfolding list_relationships_def Let_def
  by (auto dest!: answered sweep_tables_bound simp: MAX_RELATIONSHIPS_def split: prod.splits)

text \<open>
  C28. An answer is bounded: at most 1000 rows, and no more than were asked for; at most 200 matches of a
  search; at most 500 relationships.
\<close>

theorem answers_bounded:
  assumes "serve h call s = (Inr answer, s')"
  shows "case answer of
      Answer_Rows out \<Rightarrow> length (qo_rows out) \<le> 1000 \<and> qo_row_count out = length (qo_rows out) \<and>
        (\<forall>handle sql n. call = Agent_Read handle sql (Some n) \<longrightarrow> length (qo_rows out) \<le> n)
    | Answer_Matches view \<Rightarrow> length (sc_matches view) \<le> 200
    | Answer_Relations view \<Rightarrow> length (rw_relationships view) \<le> 500
    | _ \<Rightarrow> True"
proof -
  have "tool_call h call s = (Inr answer, s')"
    using assms by (auto simp: serve_def io_map_err_def split: prod.splits sum.splits)
  then show ?thesis
    by (cases call) (auto simp: resolved_def answering_def io_of_def dest!: answered run_read_query_bound search_schema_bound list_relationships_bound)
qed

end
