(* ===== verification/Mcp_Cache.thy ===== *)
theory Mcp_Cache
  imports Mcp_Answers
begin

text \<open>
  The cache of adapters, the searches over a schema, and the files and passphrases of dumps and exports.
\<close>

section \<open>The cache\<close>


lemma key_belongs_exactly:
  assumes "NUL \<notin> set (tg_connection t)" "NUL \<notin> set connection"
  shows "key_belongs_to (cache_key t) connection \<longleftrightarrow> tg_connection t = connection"
proof
  assume own: "key_belongs_to (cache_key t) connection"
  show "tg_connection t = connection"
  proof (cases "target_database t")
    case None
    then show ?thesis
      using own assms by (auto simp: key_belongs_to_def cache_key_def starts_with_def prefix_def)
  next
    case (Some db)
    have until: "takeWhile (\<lambda>c. c \<noteq> NUL) (x @ NUL # y) = x" if "NUL \<notin> set x" for x y
      using that by (simp add: takeWhile_append2 takeWhile_tail) (metis takeWhile_eq_all_conv)
    have "cache_key t \<noteq> connection" using assms(2) Some by (auto simp: cache_key_def)
    then obtain rest where "cache_key t = connection @ NUL # rest"
      using own by (auto simp: key_belongs_to_def starts_with_def prefix_def)
    then have "tg_connection t @ NUL # db = connection @ NUL # rest" using Some by (simp add: cache_key_def)
    then show ?thesis using until [OF assms(1), of db] until [OF assms(2), of rest] by simp
  qed
next
  assume "tg_connection t = connection"
  then show "key_belongs_to (cache_key t) connection"
    by (auto simp: key_belongs_to_def cache_key_def starts_with_def split: option.split)
qed

text \<open>
  Invalidation is exact: with no zero character in any id, dropping a connection empties the cache for
  it and for every database of it, and leaves the adapters of every other connection.
\<close>

theorem invalidate_exact:
  assumes "NUL \<notin> set (tg_connection t)" "NUL \<notin> set connection"
  shows "sv_cache (invalidate connection s) (cache_key t) =
    (if tg_connection t = connection then None else sv_cache s (cache_key t))"
  using key_belongs_exactly [OF assms] by (simp add: invalidate_def restrict_map_def)

text \<open>The ids are TOML strings, which can hold the character: then two targets share an adapter.\<close>

lemma nul_ids_share_adapter:
  "cache_key \<lparr>tg_connection = ''a'' @ NUL # ''b'', tg_database = None\<rparr> =
     cache_key \<lparr>tg_connection = ''a'', tg_database = Some ''b''\<rparr>"
  by code_simp

section \<open>Searching\<close>

lemma search_tables_finds:
  assumes "\<And>info w. info \<in> set infos \<Longrightarrow> ad_describe_table a info w = (Inr (schema info), w)"
    and "length hits \<le> MAX_SCHEMA_MATCHES"
  shows "\<exists>over. search_tables a needle infos hits w =
    (Inr (take MAX_SCHEMA_MATCHES (hits @ List.map_filter (\<lambda>i. match_table needle i (schema i)) infos), over), w) \<and>
    (\<not> over \<longrightarrow> length (hits @ List.map_filter (\<lambda>i. match_table needle i (schema i)) infos) \<le> MAX_SCHEMA_MATCHES)"
  using assms
proof (induction infos arbitrary: hits)
  case (Cons info infos)
  let ?hit = "opt_list (match_table needle info (schema info))"
  have all: "hits @ List.map_filter (\<lambda>i. match_table needle i (schema i)) (info # infos) =
      (hits @ ?hit) @ List.map_filter (\<lambda>i. match_table needle i (schema i)) infos"
    by (simp add: map_filter_simps opt_list_def split: option.split)
  show ?case
  proof (cases "MAX_SCHEMA_MATCHES \<le> length hits")
    case True
    then show ?thesis using Cons.prems(2) by (intro exI [of _ True]) (simp add: io_of_def)
  next
    case False
    then have "length (hits @ ?hit) \<le> MAX_SCHEMA_MATCHES"
      using match_table_one [of needle info "schema info"] by simp
    from Cons.IH [OF _ this] Cons.prems(1) show ?thesis
      using False unfolding all by (simp add: io_bind_def)
  qed
next
  case Nil
  then show ?case by (intro exI [of _ False]) (simp add: io_of_def map_filter_simps)
qed

text \<open>
  C29. A search finds what there is. On a database whose tables can be described, searching answers the
  tables whose name or a column of which has the pattern in it, in the order they are listed and with the
  matching columns, the first 200 of them; unless it says so, that is all of them.
\<close>

theorem search_finds_all:
  assumes "ad_list_tables (be_adapter b) w = (Inr infos, w)"
    and "\<And>info w. info \<in> set infos \<Longrightarrow> ad_describe_table (be_adapter b) info w = (Inr (schema info), w)"
    and "adapter_for_target p t s = (Inr b, s1)" "sv_world s1 = w" "to_lowercase (trim pattern) \<noteq> []"
  shows "\<exists>view. fst (search_schema p t pattern s) = Inr view \<and>
    (let found = List.map_filter (\<lambda>i. match_table (to_lowercase (trim pattern)) i (schema i)) infos in
      sc_matches view = take MAX_SCHEMA_MATCHES found \<and> (\<not> sc_truncated view \<longrightarrow> sc_matches view = found))"
proof -
  let ?needle = "to_lowercase (trim pattern)"
  from search_tables_finds [of infos "be_adapter b" schema "[]" ?needle w] assms(2)
  obtain over where found: "search_tables (be_adapter b) ?needle infos [] w =
      (Inr (take MAX_SCHEMA_MATCHES (List.map_filter (\<lambda>i. match_table ?needle i (schema i)) infos), over), w)"
    and rest: "\<not> over \<longrightarrow> length (List.map_filter (\<lambda>i. match_table ?needle i (schema i)) infos) \<le> MAX_SCHEMA_MATCHES"
    by auto
  have "fst (search_schema p t pattern s) = Inr \<lparr>sc_connection_id = tg_connection t, sc_pattern = pattern,
      sc_matches = take MAX_SCHEMA_MATCHES (List.map_filter (\<lambda>i. match_table ?needle i (schema i)) infos),
      sc_truncated = over\<rparr>"
    using assms(1,3,4,5) found by (simp add: search_schema_def Let_def io_bind_def on_world_def io_of_def)
  then show ?thesis using rest by (simp add: Let_def)
qed

text \<open>The result names the connection by its real id, alias or not.\<close>

lemma search_shows_real_id:
  assumes "fst (search_schema p (target_of i) pattern s) = Inr view"
  shows "sc_connection_id view = i"
proof -
  obtain s' where "search_schema p (target_of i) pattern s = (Inr view, s')" using assms by (metis prod.collapse)
  then show ?thesis
    by (auto simp: search_schema_def target_of_def Let_def io_of_def dest!: answered split: if_splits prod.splits)
qed

text \<open>A sweep that reaches 500 edges says it was cut short, also when nothing is left.\<close>

lemma add_edges_full:
  "length fks = MAX_RELATIONSHIPS - length edges \<Longrightarrow> length edges < MAX_RELATIONSHIPS \<Longrightarrow>
     add_edges None info fks edges = (edges @ map (relationship_from_fk info) fks, True)"
proof (induction fks arbitrary: edges)
  case (Cons fk fks)
  show ?case
  proof (cases "fks = []")
    case True
    then show ?thesis using Cons.prems by (simp add: Let_def)
  next
    case False
    then have "1 \<le> length fks" by (cases fks) simp_all
    moreover have "Suc (length fks) = MAX_RELATIONSHIPS - length edges" using Cons.prems by simp
    ultimately have "length (edges @ [relationship_from_fk info fk]) < MAX_RELATIONSHIPS"
      by simp
    moreover have "length fks = MAX_RELATIONSHIPS - length (edges @ [relationship_from_fk info fk])"
      using Cons.prems by simp
    ultimately show ?thesis using Cons.IH by (simp add: Let_def)
  qed
qed simp

lemma full_sweep_claims_truncation:
  assumes "ad_foreign_keys a info w = (Inr fks, w)" "length fks = MAX_RELATIONSHIPS"
  shows "sweep_tables a None [info] [] [] w = ((map (relationship_from_fk info) fks, True, []), w)"
  using assms add_edges_full [of fks "[]" info] by (simp add: MAX_RELATIONSHIPS_def)

section \<open>Comparing\<close>

text \<open>
  Two engines are not compared, and nothing is dialled to find that out: with connections of two
  different kinds the comparison is refused, and cache and outside world are as they were.
\<close>

theorem mismatched_schemas_dial_nothing:
  assumes "store_of p s = Inr listing" "find_connection listing left = Some l" "find_connection listing right = Some r"
    and "kind_label (ce_kind l) \<noteq> kind_label (ce_kind r)" "diff_schemas p left right s = (answer, s')"
  shows "(\<exists>e. answer = Inl e) \<and> sv_world s' = sv_world s \<and> sv_cache s' = sv_cache s"
proof -
  obtain q t where q: "load_connection_file p s = (q, t)" by (cases "load_connection_file p s")
  note load = load_store [OF q]
  show ?thesis
  proof (cases q)
    case (Inl e)
    then show ?thesis using assms(5) q load by (auto simp: diff_schemas_def io_bind_def)
  next
    case (Inr found)
    then have "found = listing" using load(4) [OF Inr] assms(1) by simp
    then show ?thesis
      using assms(2-5) q Inr load(1,2) by (auto simp: diff_schemas_def io_bind_def io_of_def kind_of_def)
  qed
qed

section \<open>Files\<close>

text \<open>
  C7. Dumps and exports make new files: a file that is there before such a call is there after it, with
  the same content, whatever the call answers.
\<close>

theorem existing_files_stay:
  assumes "serve h call s = (r, s')" "call = Agent_Dump handle path \<or> call = Agent_Export handles"
    and "dk_files (sv_disk s) q \<noteq> None"
  shows "dk_files (sv_disk s') q = dk_files (sv_disk s) q"
proof -
  have export: "leaves q (\<lambda>s. answering Answer_Export (export_connections p xo (e (sv_world s)) (st (sv_world s)) ids) s)"
    for p :: "('a, 'b, 'c) ports" and xo ids and e :: "'a \<Rightarrow> 8 word list" and st
  proof -
    have "leaves q (answering Answer_Export (export_connections p xo bytes stamp ids))" for bytes stamp
      unfolding answering_def by (intro leaves_bind leaves_export leaves_tidy) auto
    then show ?thesis unfolding stays_def by blast
  qed
  have dump: "leaves q (answering Answer_Dumped (dump_to_file p fo fuel i path))" for p :: "('a, 'b, 'c) ports" and fo fuel i path
    unfolding answering_def by (intro leaves_bind leaves_dump leaves_tidy) auto
  have quiet: "leaves q (tool_call h call)"
    using assms(2) by (auto simp: resolved_def intro!: leaves_bind [OF leaves_tidy [OF tidy_resolve]]
        leaves_bind [OF leaves_tidy [OF tidy_resolve_all]] dump export)
  obtain x where run: "tool_call h call s = (x, s')" using serve_runs [OF assms(1)] by blast
  have "there q s" using assms(3) by (simp add: there_def)
  from staysD(1) [OF quiet this run] show ?thesis by (simp add: spares_def)
qed

end
