(* ===== verification/Mcp_Secrecy.thy ===== *)
theory Mcp_Secrecy
  imports Mcp_Cache
begin

text \<open>
  What an export keeps to itself: its answer is the same whatever passphrase was generated, and the
  generated one is never too weak for the bundle.
\<close>

section \<open>The passphrase is strong enough\<close>

lemma length_le_byte_len: "length s \<le> byte_len s"
  by (induction s) (auto simp: byte_len_def)

lemma length_concat_ge: "\<forall>x\<in>set xs. x \<noteq> [] \<Longrightarrow> length xs \<le> length (concat xs)"
proof (induction xs)
  case (Cons x xs)
  then show ?case by (cases x) auto
qed simp

lemma generate_passphrase_long:
  assumes "30 \<le> length bytes"
  shows "30 \<le> length (generate_passphrase bytes)"
proof -
  have "length (enumerate 0 (take (PASSPHRASE_GROUP * PASSPHRASE_GROUPS) bytes)) \<le> length (generate_passphrase bytes)"
    unfolding generate_passphrase_def by (rule order_trans [OF _ length_concat_ge]) auto
  then show ?thesis using assms by (simp add: PASSPHRASE_GROUP_def PASSPHRASE_GROUPS_def)
qed

lemma generated_passphrase_accepted: "30 \<le> length bytes \<Longrightarrow> validate_passphrase (generate_passphrase bytes) = Inr ()"
  using generate_passphrase_long [of bytes] length_le_byte_len [of "generate_passphrase bytes"]
  by (simp add: validate_passphrase_def MIN_PASSPHRASE_LEN_def)

section \<open>The answer does not depend on the passphrase\<close>

definition gathered :: "string list \<Rightarrow> connection_admin \<Rightarrow> connection_admin" where
  "gathered ids a = snd (gather_secrets (concat (map entry_keyring_refs (projr (selection (ca_file a) ids)))) [] a)"

lemma export_bundle_state:
  assumes "admin_export_bundle_of age ids passphrase a = (Inr blob, a')"
  shows "a' = gathered ids a"
proof -
  obtain es where es: "selection (ca_file a) ids = Inr es" "encrypt_selection age es passphrase a = (Inr blob, a')"
    using assms by (auto simp: admin_export_bundle_of_def split: if_splits sum.splits)
  obtain g a1 where g: "gather_secrets (concat (map entry_keyring_refs es)) [] a = (g, a1)"
    by (cases "gather_secrets (concat (map entry_keyring_refs es)) [] a")
  have "a' = a1"
    using es(2) g by (auto simp: encrypt_selection_def io_bind_def Let_def split: sum.splits)
  then show ?thesis using es(1) g by (simp add: gathered_def)
qed

lemma seal_bundle_answer:
  assumes "seal_bundle io xo dir warnings ids passphrase stamp a = (Inr out, a')"
  shows "\<exists>t path stem. stamp = Inr t \<and>
    fst (reserve io xo dir (STEM_PREFIX @ t) (ca_disk (gathered ids a))) = Inr (path, stem) \<and>
    out = \<lparr>eo_path = xo_display xo path, eo_passphrase_ref = KEYRING_PREFIX @ stem,
      eo_connection_count = length (filter (\<lambda>e. ce_id e \<in> set ids) (cf_connections (ca_file (gathered ids a)))),
      eo_warnings = warnings\<rparr>"
proof -
  obtain x a1 where made: "admin_export_bundle_of (xo_age xo) ids passphrase a = (x, a1)"
    by (cases "admin_export_bundle_of (xo_age xo) ids passphrase a")
  obtain blob t where ok: "x = Inr blob" "stamp = Inr t"
    using assms made by (cases x; cases stamp) (auto simp: seal_bundle_def io_bind_def io_map_err_def Let_def)
  have a1: "a1 = gathered ids a" using export_bundle_state made ok(1) by blast
  obtain y d where reserved: "reserve io xo dir (STEM_PREFIX @ t) (ca_disk a1) = (y, d)"
    by (cases "reserve io xo dir (STEM_PREFIX @ t) (ca_disk a1)")
  obtain path stem where y: "y = Inr (path, stem)"
    using assms made ok reserved
    by (cases y) (auto simp: seal_bundle_def io_bind_def io_map_err_def Let_def)
  obtain z a2 where slot: "key_set (KEYRING_PREFIX @ stem) passphrase (a1\<lparr>ca_disk := d\<rparr>) = (z, a2)"
    by (cases "key_set (KEYRING_PREFIX @ stem) passphrase (a1\<lparr>ca_disk := d\<rparr>)")
  obtain u d1 where put: "io_bind (write_all path (blob_text blob)) (\<lambda>_. sync_all) (ca_disk a2) = (u, d1)"
    by (cases "io_bind (write_all path (blob_text blob)) (\<lambda>_. sync_all) (ca_disk a2)")
  have "out = \<lparr>eo_path = xo_display xo path, eo_passphrase_ref = KEYRING_PREFIX @ stem,
      eo_connection_count = length (filter (\<lambda>e. ce_id e \<in> set ids) (cf_connections (ca_file a1))),
      eo_warnings = warnings\<rparr>"
    using assms made ok reserved y slot put
    by (auto simp: seal_bundle_def io_bind_def io_map_err_def Let_def split: sum.splits prod.splits)
  then show ?thesis using ok(2) reserved y a1 by simp
qed

text \<open>
  C8. The passphrase stays hidden: whatever random bytes an export draws, as long as it succeeds it answers
  the same, so what the agent sees tells nothing of the passphrase; and with the thirty bytes it draws the
  passphrase is never refused as too weak.
\<close>

theorem passphrase_stays_hidden:
  assumes "export_connections p xo bytes stamp ids s = (Inr out, s1)"
    and "export_connections p xo bytes' stamp ids s = (Inr out', s2)"
  shows "out = out' \<and> (30 \<le> length bytes \<longrightarrow> validate_passphrase (generate_passphrase bytes) = Inr ())"
proof (intro conjI impI)
  have "\<exists>found d foreign dir. connections_load (po_connections p) (sv_config_path s) (sv_disk s) = (Inr found, d) \<and>
      cf_mcp_export found = Some dir \<and> (\<exists>a'. seal_bundle (po_io_text p) xo dir (export_warnings xo dir foreign) ids
        (generate_passphrase bs) stamp
          \<lparr>ca_path = sv_config_path s, ca_file = found, ca_tracks_disk = True, ca_disk = d,
           ca_keys = sv_keys s, ca_key_faults = sv_key_faults s\<rparr> = (Inr o', a')) \<and>
      admin_foreign_refs_of ids \<lparr>ca_path = sv_config_path s, ca_file = found, ca_tracks_disk = True, ca_disk = d,
           ca_keys = sv_keys s, ca_key_faults = sv_key_faults s\<rparr> = Inr foreign"
    if "export_connections p xo bs stamp ids s = (Inr o', s')" for bs o' s'
    using that
    by (auto simp: export_connections_def export_from_store_def split: if_splits prod.splits sum.splits option.splits)
  from this [OF assms(1)] this [OF assms(2)] show "out = out'"
    by (auto dest!: seal_bundle_answer)
  show "30 \<le> length bytes \<Longrightarrow> validate_passphrase (generate_passphrase bytes) = Inr ()"
    by (rule generated_passphrase_accepted)
qed

section \<open>Witnesses\<close>

text \<open>A store whose connections may be exported, and one of two engines.\<close>

definition export_ports_codec :: "connection_file codec" where
  "export_ports_codec = \<lparr>to_text = (\<lambda>_. Inl ''unknown''),
     of_text = (\<lambda>t. Inr (sample_file [log_entry False, sample_entry]\<lparr>cf_mcp_export := Some ''out''\<rparr>))\<rparr>"

definition export_host_ports :: "(string list, string \<times> string, unit) ports" where
  "export_host_ports = log_ports\<lparr>po_connections := export_ports_codec\<rparr>"

lemma log_file_ok: "file_ok (sample_file [log_entry False, sample_entry]\<lparr>cf_mcp_export := Some ''out''\<rparr>)"
  by (simp add: file_ok_def sample_file_def connections_empty_def entries_ok_def handles_free_def log_entry_def
      sample_entry_def entry_valid_def minted_entry_def minted_kind_def)

lemma export_store:
  "store_of export_host_ports (log_service ''x'') =
     Inr (sample_file [log_entry False, sample_entry]\<lparr>cf_mcp_export := Some ''out''\<rparr>)"
  using file_ok_valid [OF log_file_ok]
  by (simp add: store_of_def log_service_def service_new_def restart_def connections_parse_ok export_host_ports_def
      export_ports_codec_def)

theorem handles_lead_back_witness:
  "fst (resolve_agent_handle export_host_ports ''db1'' (log_service ''x'')) = Inr ''prod'' \<and>
   fst (resolve_agent_handle export_host_ports ''prod'' (log_service ''x'')) = Inl (Connection_Not_Found ''prod'')"
proof -
  have fine: "dk_faults (sv_disk (log_service ''x'')) = []" by (simp add: log_service_def service_new_def restart_def)
  have load: "fst (load_connection_file export_host_ports (log_service ''x'')) =
      Inr (sample_file [log_entry False, sample_entry]\<lparr>cf_mcp_export := Some ''out''\<rparr>)"
    by (simp add: load_store_fine fine export_store)
  have views: "fst (list_agent_connections export_host_ports (log_service ''x'')) =
      Inr [agent_view 0 (log_entry False), agent_view 1 sample_entry]"
    unfolding list_agent_connections_def fst_io_of_bind [where m = "load_connection_file export_host_ports" and s = "log_service ''x''", OF load]
    by (simp add: sample_file_def connections_empty_def)
  from handles_lead_back [OF fine export_store log_file_ok] show ?thesis
    unfolding views
    by (auto simp: sample_file_def connections_empty_def log_entry_def agent_view_def sample_entry_def less_Suc_eq_0_disj)
qed

theorem answers_bounded_witness:
  "case fst (serve log_host (Agent_Read ''db1'' ''SELECT 1'' (Some 3)) (log_service ''shut'')) of
     Inr (Answer_Rows out) \<Rightarrow> length (qo_rows out) \<le> 3 | _ \<Rightarrow> True"
proof -
  obtain r s' where run: "serve log_host (Agent_Read ''db1'' ''SELECT 1'' (Some 3)) (log_service ''shut'') = (r, s')"
    by (cases "serve log_host (Agent_Read ''db1'' ''SELECT 1'' (Some 3)) (log_service ''shut'')")
  show ?thesis
  proof (cases r)
    case (Inr answer)
    from answers_bounded [OF run [unfolded Inr]] show ?thesis using run Inr by (auto split: agent_answer.splits)
  qed (use run in simp)
qed


theorem invalidate_exact_witness:
  "sv_cache (invalidate ''prod'' (snd (adapter_for_target log_ports (target_of ''prod'') (log_service ''shut''))))
     (cache_key \<lparr>tg_connection = ''prod'', tg_database = Some ''x''\<rparr>) = None"
  using invalidate_exact [of "\<lparr>tg_connection = ''prod'', tg_database = Some ''x''\<rparr>" "''prod''"] by simp

definition described_schema :: table_schema where
  "described_schema = \<lparr>ts_table = table_unqualified ''t'', ts_columns = [\<lparr>ci_name = ''id'', ci_declared_type = None, ci_nullable = False, ci_primary_key = True, ci_ordinal = 0, ci_default_value = None\<rparr>],
     ts_primary_key = [''id'']\<rparr>"

definition described_adapter :: "string list adapter" where
  "described_adapter = log_adapter\<lparr>ad_describe_table := (\<lambda>_. io_of (Inr described_schema))\<rparr>"

definition described_ports :: "(string list, string \<times> string, unit) ports" where
  "described_ports = log_ports\<lparr>po_drivers := log_drivers\<lparr>dr_turso_local :=
     (\<lambda>_. io_of (Inr \<lparr>be_adapter = described_adapter, be_history = None\<rparr>))\<rparr>\<rparr>"

theorem search_finds_all_witness:
  "\<exists>view. fst (search_schema described_ports (target_of ''prod'') ''ID'' (log_service ''shut'')) = Inr view \<and>
     map sm_table (sc_matches view) = [table_unqualified ''t'']"
proof -
  let ?b = "\<lparr>be_adapter = described_adapter, be_history = None\<rparr>"
  let ?s = "log_service ''shut''"
  have parsed: "connections_parse log_codec ''shut'' = Inr (sample_file [log_entry False])" by code_simp
  obtain t where load: "load_connection_file described_ports ?s = (Inr (sample_file [log_entry False]), t)"
      and t: "sv_world t = []"
    by (simp add: load_connection_file_def connections_load_def read_to_string_def next_fault_def described_ports_def
        log_ports_def log_service_def service_new_def restart_def parsed)
  have config: "target_backend described_ports (target_of ''prod'') (log_entry False) t = Inr (Bc_Turso ''p.db'', None)"
    by (simp add: target_backend_def entry_to_backend_def log_entry_def target_of_def target_database_def
        with_listing_default_def configured_database_def)
  have dialled: "connect_adapter (po_urls described_ports) (po_drivers described_ports) (Bc_Turso ''p.db'') [] = (Inr ?b, [])"
    by (simp add: connect_adapter_def pinged_def described_ports_def log_drivers_def described_adapter_def log_adapter_def
        adapter_defaults_def io_bind_def io_of_def)
  have ids: "ce_id (log_entry False) = ''prod''" "tg_connection (target_of ''prod'') = ''prod''"
    by (simp_all add: log_entry_def target_of_def)
  have same: "t\<lparr>sv_world := []\<rparr> = t" using t by (cases t) simp
  have run: "adapter_for_target described_ports (target_of ''prod'') ?s =
      remember described_ports (target_of ''prod'') None ?b t"
    using t dialled ids
    by (simp add: adapter_for_target_def log_service_def service_new_def connect_target_def load [unfolded log_service_def service_new_def]
        io_bind_def io_of_def dial_entry_def config find_connection_def sample_file_def connections_empty_def on_world_def same)
  then have run: "adapter_for_target described_ports (target_of ''prod'') ?s = (Inr ?b, snd (remember described_ports (target_of ''prod'') None ?b t))"
    by (simp add: remember_def)
  have lists: "ad_list_tables (be_adapter ?b) w = (Inr [table_unqualified ''t''], w)"
    and describes: "ad_describe_table (be_adapter ?b) info w = (Inr described_schema, w)" for info w
    by (simp_all add: described_adapter_def log_adapter_def adapter_defaults_def io_of_def)
  have needle: "to_lowercase (trim ''ID'') = ''id''" by code_simp
  have found: "List.map_filter (\<lambda>i. match_table ''id'' i described_schema) [table_unqualified ''t''] =
      [\<lparr>sm_table = table_unqualified ''t'', sm_table_name_matched = False, sm_matched_columns = ts_columns described_schema\<rparr>]"
    by code_simp
  have "to_lowercase (trim ''ID'') \<noteq> []" by (simp add: needle)
  from search_finds_all [where schema = "\<lambda>_. described_schema", OF lists describes run refl this]
  obtain view where view: "fst (search_schema described_ports (target_of ''prod'') ''ID'' ?s) = Inr view"
      "sc_matches view = take MAX_SCHEMA_MATCHES (List.map_filter (\<lambda>i. match_table ''id'' i described_schema) [table_unqualified ''t''])"
    unfolding needle Let_def by blast
  then show ?thesis unfolding found by (simp add: MAX_SCHEMA_MATCHES_def)
qed

theorem mismatched_schemas_dial_nothing_witness:
  "sv_world (snd (diff_schemas export_host_ports ''prod'' ''a'' (log_service ''x''))) = []"
proof -
  obtain r s' where run: "diff_schemas export_host_ports ''prod'' ''a'' (log_service ''x'') = (r, s')"
    by (cases "diff_schemas export_host_ports ''prod'' ''a'' (log_service ''x'')")
  let ?file = "sample_file [log_entry False, sample_entry]\<lparr>cf_mcp_export := Some ''out''\<rparr>"
  have "find_connection ?file ''prod'' = Some (log_entry False)" "find_connection ?file ''a'' = Some sample_entry"
    by (simp_all add: find_connection_def sample_file_def connections_empty_def log_entry_def sample_entry_def)
  from mismatched_schemas_dial_nothing [OF export_store this _ run] run show ?thesis
    by (simp add: log_entry_def sample_entry_def log_service_def service_new_def)
qed

theorem existing_files_stay_witness:
  "dk_files (sv_disk (snd (serve log_host (Agent_Dump ''db1'' ''c'') (log_service ''shut'')))) log_path = Some ''shut''"
proof -
  obtain r s' where run: "serve log_host (Agent_Dump ''db1'' ''c'') (log_service ''shut'') = (r, s')"
    by (cases "serve log_host (Agent_Dump ''db1'' ''c'') (log_service ''shut'')")
  have "dk_files (sv_disk (log_service ''shut'')) log_path = Some ''shut''"
    by (simp add: log_service_def service_new_def restart_def)
  with existing_files_stay [OF run, of "''db1''" "''c''" "[]" log_path] run show ?thesis by simp
qed

theorem passphrase_stays_hidden_witness:
  "\<exists>out. fst (export_connections export_host_ports (ho_export log_host) (replicate 30 7) (Inr ''now'') [''prod''] (log_service ''x'')) = Inr out \<and>
     fst (export_connections export_host_ports (ho_export log_host) (replicate 30 8) (Inr ''now'') [''prod''] (log_service ''x'')) = Inr out"
proof -
  obtain r s1 where one: "export_connections export_host_ports (ho_export log_host) (replicate 30 7) (Inr ''now'') [''prod'']
      (log_service ''x'') = (r, s1)"
    by (cases "export_connections export_host_ports (ho_export log_host) (replicate 30 7) (Inr ''now'') [''prod''] (log_service ''x'')")
  obtain r' s2 where two: "export_connections export_host_ports (ho_export log_host) (replicate 30 8) (Inr ''now'') [''prod'']
      (log_service ''x'') = (r', s2)"
    by (cases "export_connections export_host_ports (ho_export log_host) (replicate 30 8) (Inr ''now'') [''prod''] (log_service ''x'')")
  have "case fst (export_connections export_host_ports (ho_export log_host) (replicate 30 7) (Inr ''now'') [''prod'']
      (log_service ''x'')) of Inl _ \<Rightarrow> False | Inr _ \<Rightarrow> True"
    "case fst (export_connections export_host_ports (ho_export log_host) (replicate 30 8) (Inr ''now'') [''prod'']
      (log_service ''x'')) of Inl _ \<Rightarrow> False | Inr _ \<Rightarrow> True"
    by code_simp+
  then obtain x y where ok: "r = Inr x" "r' = Inr y" using one two by (auto split: sum.splits)
  from passphrase_stays_hidden [OF one [unfolded ok(1)] two [unfolded ok(2)]] show ?thesis
    using one two ok by simp
qed

end
