(* ===== verification/Ai_Provider.thy ===== *)
theory Ai_Provider
  imports Sql_Policy Connection_Bundle
begin

text \<open>
  The assistant's providers: the contract of crate \<open>dbboard-ai\<close> (errors, requests, responses,
  stream events) and the parts of \<open>dbboard-anthropic\<close> and \<open>dbboard-openai\<close> that build a request and
  read an answer. The two crates carry the same helpers word for word (prompt rendering, the cut of an
  error text, the loopback test); those are defined once. The HTTP client, the typed JSON readers that
  \<open>serde\<close> derives and the lossy reading of bytes are parameters.
\<close>

section \<open>Errors, requests, answers\<close>

datatype ai_error =
    Ai_Configuration string
  | Ai_Network string
  | Ai_Provider_Error string
  | Ai_Quota string
  | Ai_Cancelled

fun ai_error_display :: "ai_error \<Rightarrow> string" where
  "ai_error_display (Ai_Configuration m) = ''ai configuration error: '' @ m"
| "ai_error_display (Ai_Network m) = ''ai network error: '' @ m"
| "ai_error_display (Ai_Provider_Error m) = ''ai provider error: '' @ m"
| "ai_error_display (Ai_Quota m) = ''ai quota exceeded: '' @ m"
| "ai_error_display Ai_Cancelled = ''ai request cancelled''"

record explain_request =
  er_sql :: string
  er_dialect :: "string option"

record suggest_request =
  sr_prompt :: string
  sr_dialect :: "string option"
  sr_schema :: "table_info list"
  sr_full_schema :: "table_schema list option"

record ai_response =
  ar_text :: string
  ar_tokens_in :: u32
  ar_tokens_out :: u32
  ar_provider :: string
  ar_model :: string

record ai_capabilities =
  has_streaming :: bool
  has_function_calling :: bool

datatype stop_reason = End_Turn | Max_Tokens | Stop_Sequence | Tool_Use | Refusal | Other_Reason string

datatype stream_event =
    Message_Start u32
  | Text_Delta string
  | Usage u32 u32
  | Message_Stop stop_reason
  | Stream_Error ai_error

text \<open>What the trait's own streaming methods make of an answer that came in one piece.\<close>

definition default_chunks_from_response :: "ai_response \<Rightarrow> (ai_error + stream_event) list" where
  "default_chunks_from_response resp =
     [Inr (Text_Delta (ar_text resp)),
      Inr (Usage (ar_tokens_in resp) (ar_tokens_out resp)),
      Inr (Message_Stop End_Turn)]"

section \<open>Rendering the schema\<close>

definition qualify :: "table_info \<Rightarrow> string" where
  "qualify table =
     (case ti_schema table of Some schema \<Rightarrow> schema @ ''.'' @ ti_name table | None \<Rightarrow> ti_name table)"

definition newline :: string where "newline = [CHR 0x0A]"

definition column_line :: "column_info \<Rightarrow> string" where
  "column_line column =
     ''  '' @ ci_name column
     @ (case ci_declared_type column of Some declared \<Rightarrow> '' '' @ declared | None \<Rightarrow> [])
     @ (if \<not> ci_nullable column then '' NOT NULL'' else [])
     @ (case ci_default_value column of Some d \<Rightarrow> '' DEFAULT '' @ d | None \<Rightarrow> [])"

definition render_table_schema :: "table_schema \<Rightarrow> string" where
  "render_table_schema schema =
     (let columns = map column_line (ts_columns schema);
          body = columns @ (if ts_primary_key schema \<noteq> []
            then [''  PRIMARY KEY ('' @ join '', '' (ts_primary_key schema) @ '')''] else [])
      in ''CREATE TABLE '' @ qualify (ts_table schema) @ '' ('' @ newline
         @ join ('','' @ newline) body @ newline @ '');'' @ newline)"

text \<open>The text of the user's message in either kind of request.\<close>

definition explain_text :: "explain_request \<Rightarrow> string" where
  "explain_text req =
     (case er_dialect req of
        Some dialect \<Rightarrow> ''SQL ('' @ dialect @ ''):'' @ newline @ er_sql req
      | None \<Rightarrow> ''SQL:'' @ newline @ er_sql req)"

definition tables_text :: "suggest_request \<Rightarrow> string" where
  "tables_text req =
     (let names =
        (if sr_schema req = [] then ''(no tables introspected)'' @ newline
         else concat (map (\<lambda>table. ''- '' @ qualify table @ newline) (sr_schema req)))
      in case sr_full_schema req of
           Some full \<Rightarrow> if full \<noteq> [] then concat (map render_table_schema full) else names
         | None \<Rightarrow> names)"

definition suggest_text :: "suggest_request \<Rightarrow> string" where
  "suggest_text req =
     ''Tables:'' @ newline @ tables_text req
     @ (case sr_dialect req of Some dialect \<Rightarrow> newline @ ''Dialect: '' @ dialect @ newline | None \<Rightarrow> [])
     @ newline @ ''Request: '' @ sr_prompt req"

definition EXPLAIN_SYSTEM_PROMPT :: string where
  "EXPLAIN_SYSTEM_PROMPT = ''You are a SQL expert. Explain the given SQL statement in plain English. '' @
     ''Be concise (1-3 sentences) and do not restate the SQL verbatim.''"

definition SUGGEST_SYSTEM_PROMPT :: string where
  "SUGGEST_SYSTEM_PROMPT = ''You are a SQL expert. Generate a single SQL statement that answers the user'' @ [CHR 0x27] @ ''s request, '' @
     ''using only the tables listed. Reply with the SQL only '' @ EM_DASH @ '' no commentary, no markdown fences.''"

section \<open>Error texts\<close>

definition MAX_ERROR_DETAIL :: nat where "MAX_ERROR_DETAIL = 2048"

text \<open>The ellipsis, as its three UTF-8 bytes.\<close>

definition ellipsis :: string where "ellipsis = [CHR 0xE2, CHR 0x80, CHR 0xA6]"

text \<open>A cut at a byte offset: the loop walks down to the next character boundary.\<close>

definition is_char_boundary :: "string \<Rightarrow> nat \<Rightarrow> bool" where
  "is_char_boundary s n \<longleftrightarrow> n \<in> set (map byte_len (prefixes s))"

fun floor_boundary :: "string \<Rightarrow> nat \<Rightarrow> nat" where
  "floor_boundary s 0 = 0"
| "floor_boundary s (Suc n) = (if is_char_boundary s (Suc n) then Suc n else floor_boundary s n)"

text \<open>The slice up to a byte offset that is a boundary.\<close>

fun text_upto :: "nat \<Rightarrow> string \<Rightarrow> string" where
  "text_upto n [] = []"
| "text_upto n (c # s) = (if byte_len [c] \<le> n then c # text_upto (n - byte_len [c]) s else [])"

definition truncate_to_owned :: "string \<Rightarrow> string" where
  "truncate_to_owned text =
     (if byte_len text \<le> MAX_ERROR_DETAIL then text
      else text_upto (floor_boundary text MAX_ERROR_DETAIL) text @ ellipsis)"

record api_error =
  ae_kind :: string
  ae_message :: string

definition error_detail :: "api_error \<Rightarrow> string" where
  "error_detail e =
     (if ae_kind e = [] then ae_message e else ''['' @ ae_kind e @ ''] '' @ ae_message e)"

section \<open>What the providers take from other crates\<close>

type_synonym bytes = "8 word list"

datatype response_block = Text_Block string | Other_Block

record messages_response =
  mr_content :: "response_block list"
  mr_input_tokens :: u32
  mr_output_tokens :: u32

text \<open>Each choice of a chat answer by the content of its message, when it has one.\<close>

record chat_response =
  cr_contents :: "string option list"
  cr_prompt_tokens :: u32
  cr_completion_tokens :: u32

record message_delta =
  md_stop_reason :: "string option"
  md_output_tokens :: "u32 option"

record chunk_choice =
  cc_content :: "string option"
  cc_finish_reason :: "string option"

record chat_chunk =
  ck_choices :: "chunk_choice list"
  ck_usage :: "(u32 \<times> u32) option"

text \<open>The derived readers: the text of the error, or the value.\<close>

record ai_wire =
  lossy :: "bytes \<Rightarrow> string"
  read_messages :: "bytes \<Rightarrow> string + messages_response"
  read_chat :: "bytes \<Rightarrow> string + chat_response"
  read_envelope :: "bytes \<Rightarrow> string + api_error option"
  read_start :: "string \<Rightarrow> string + u32"
  read_delta :: "string \<Rightarrow> string + string option"
  read_message_delta :: "string \<Rightarrow> string + message_delta"
  read_stream_error :: "string \<Rightarrow> string + api_error"
  read_chunk :: "string \<Rightarrow> string + chat_chunk"

record http_client =
  hc_https_only :: bool

record ai_post =
  ap_url :: string
  ap_headers :: "(string \<times> string) list"
  ap_body :: json

text \<open>A transport failure, by its text without the address.\<close>

record http_failure =
  hf_timed_out :: bool
  hf_text :: string

datatype sse_failure =
    Sse_Ended
  | Sse_Transport string
  | Sse_Status nat "http_failure + bytes"
  | Sse_Content_Type string
  | Sse_Parser string
  | Sse_Utf8 string
  | Sse_Last_Event_Id string

datatype sse_item =
    Sse_Open
  | Sse_Message string string
  | Sse_Failure sse_failure

record ai_network =
  build_client :: "bool \<Rightarrow> string + http_client"
  send_post :: "http_client \<Rightarrow> ai_post \<Rightarrow> http_failure + nat \<times> (http_failure + bytes)"
  event_source :: "http_client \<Rightarrow> ai_post \<Rightarrow> string + sse_item list"

definition body_error_detail :: "ai_wire \<Rightarrow> bytes \<Rightarrow> string" where
  "body_error_detail wire body =
     (case read_envelope wire body of
        Inr (Some e) \<Rightarrow> truncate_to_owned (error_detail e)
      | _ \<Rightarrow> truncate_to_owned (lossy wire body))"

definition is_localhost :: "string \<Rightarrow> bool" where
  "is_localhost base \<longleftrightarrow> starts_with ''http://127.0.0.1'' base \<or> starts_with ''http://localhost'' base
     \<or> starts_with ''http://[::1]'' base"

definition trim_slashes :: "string \<Rightarrow> string" where
  "trim_slashes base = rev (dropWhile (\<lambda>c. c = CHR 0x2F) (rev base))"

section \<open>Anthropic\<close>

definition ANTHROPIC_ID :: string where "ANTHROPIC_ID = ''anthropic''"
definition ANTHROPIC_BASE_URL :: string where "ANTHROPIC_BASE_URL = ''https://api.anthropic.com''"
definition ANTHROPIC_MODEL :: string where "ANTHROPIC_MODEL = ''claude-sonnet-5''"
definition ANTHROPIC_VERSION :: string where "ANTHROPIC_VERSION = ''2023-06-01''"
definition DEFAULT_MAX_TOKENS :: u32 where "DEFAULT_MAX_TOKENS = 1024"

record ai_config =
  ac_api_key :: string
  ac_model :: string
  ac_base_url :: "string option"

text \<open>A provider of either crate: its client, the address it posts to, the model and the key.\<close>

record provider_state =
  pv_client :: http_client
  pv_url :: string
  pv_model :: string
  pv_api_key :: string

definition build_messages_url :: "string \<Rightarrow> string" where
  "build_messages_url base = trim_slashes base @ ''/v1/messages''"

definition anthropic_with_config :: "ai_network \<Rightarrow> ai_config \<Rightarrow> ai_error + provider_state" where
  "anthropic_with_config net config =
     (if trim (ac_api_key config) = [] then Inl (Ai_Configuration ''anthropic api key is empty'')
      else if trim (ac_model config) = [] then Inl (Ai_Configuration ''anthropic model id is empty'')
      else let base = (case ac_base_url config of Some b \<Rightarrow> b | None \<Rightarrow> ANTHROPIC_BASE_URL)
        in case build_client net (\<not> is_localhost base) of
             Inl e \<Rightarrow> Inl (Ai_Configuration e)
           | Inr client \<Rightarrow> Inr \<lparr>pv_client = client, pv_url = build_messages_url base,
               pv_model = ac_model config, pv_api_key = ac_api_key config\<rparr>)"

definition anthropic_new :: "ai_network \<Rightarrow> string \<Rightarrow> string \<Rightarrow> ai_error + provider_state" where
  "anthropic_new net key model =
     anthropic_with_config net \<lparr>ac_api_key = key, ac_model = model, ac_base_url = None\<rparr>"

definition anthropic_with_default_model :: "ai_network \<Rightarrow> string \<Rightarrow> ai_error + provider_state" where
  "anthropic_with_default_model net key = anthropic_new net key ANTHROPIC_MODEL"

record request_message =
  rm_role :: string
  rm_content :: string

record messages_request =
  mq_model :: string
  mq_max_tokens :: u32
  mq_system :: "string option"
  mq_messages :: "request_message list"
  mq_stream :: bool

definition message_json :: "request_message \<Rightarrow> json" where
  "message_json m = JObject [(''role'', JString (rm_role m)), (''content'', JString (rm_content m))]"

definition messages_json :: "messages_request \<Rightarrow> json" where
  "messages_json q = JObject
     ([(''model'', JString (mq_model q)), (''max_tokens'', JNumber (Num_Int (uint (mq_max_tokens q))))]
      @ (case mq_system q of Some s \<Rightarrow> [(''system'', JString s)] | None \<Rightarrow> [])
      @ [(''messages'', JArray (map message_json (mq_messages q)))]
      @ (if mq_stream q then [(''stream'', JBool True)] else []))"

definition anthropic_explain_request :: "string \<Rightarrow> explain_request \<Rightarrow> messages_request" where
  "anthropic_explain_request model req =
     \<lparr>mq_model = model, mq_max_tokens = DEFAULT_MAX_TOKENS, mq_system = Some EXPLAIN_SYSTEM_PROMPT,
      mq_messages = [\<lparr>rm_role = ''user'', rm_content = explain_text req\<rparr>], mq_stream = False\<rparr>"

definition anthropic_suggest_request :: "string \<Rightarrow> suggest_request \<Rightarrow> messages_request" where
  "anthropic_suggest_request model req =
     \<lparr>mq_model = model, mq_max_tokens = DEFAULT_MAX_TOKENS, mq_system = Some SUGGEST_SYSTEM_PROMPT,
      mq_messages = [\<lparr>rm_role = ''user'', rm_content = suggest_text req\<rparr>], mq_stream = False\<rparr>"

definition anthropic_post :: "provider_state \<Rightarrow> messages_request \<Rightarrow> ai_post" where
  "anthropic_post pv q =
     \<lparr>ap_url = pv_url pv,
      ap_headers = [(''x-api-key'', pv_api_key pv), (''anthropic-version'', ANTHROPIC_VERSION)],
      ap_body = messages_json q\<rparr>"

definition anthropic_transport_error :: "http_failure \<Rightarrow> ai_error" where
  "anthropic_transport_error err =
     (if hf_timed_out err then Ai_Network (''anthropic request timed out: '' @ hf_text err)
      else Ai_Network (''anthropic transport error: '' @ hf_text err))"

fun block_text :: "response_block \<Rightarrow> string" where
  "block_text (Text_Block text) = text"
| "block_text Other_Block = []"

definition anthropic_parsed_to_response :: "messages_response \<Rightarrow> string \<Rightarrow> ai_error + ai_response" where
  "anthropic_parsed_to_response parsed model =
     (let combined = concat (map block_text (mr_content parsed))
      in if combined = [] then Inl (Ai_Provider_Error ''anthropic returned no text content in response'')
         else Inr \<lparr>ar_text = combined, ar_tokens_in = mr_input_tokens parsed,
           ar_tokens_out = mr_output_tokens parsed, ar_provider = ANTHROPIC_ID, ar_model = model\<rparr>)"

definition anthropic_error_from :: "ai_wire \<Rightarrow> nat \<Rightarrow> bytes \<Rightarrow> ai_error" where
  "anthropic_error_from wire status body =
     Ai_Provider_Error (''anthropic api error (status '' @ show_nat status @ ''): '' @ body_error_detail wire body)"

definition call_messages ::
    "ai_network \<Rightarrow> ai_wire \<Rightarrow> provider_state \<Rightarrow> messages_request \<Rightarrow> ai_error + ai_response" where
  "call_messages net wire pv q =
     (case send_post net (pv_client pv) (anthropic_post pv q) of
        Inl e \<Rightarrow> Inl (anthropic_transport_error e)
      | Inr (status, Inl e) \<Rightarrow> Inl (anthropic_transport_error e)
      | Inr (status, Inr body) \<Rightarrow>
          if 200 \<le> status \<and> status < 300
          then (case read_messages wire body of
             Inl e \<Rightarrow> Inl (Ai_Provider_Error (''malformed anthropic response (status '' @ show_nat status
               @ ''): '' @ e @ '' ['' @ truncate_to_owned (lossy wire body) @ '']''))
           | Inr parsed \<Rightarrow> anthropic_parsed_to_response parsed (pv_model pv))
          else Inl (anthropic_error_from wire status body))"

definition anthropic_capabilities :: ai_capabilities where
  "anthropic_capabilities = \<lparr>has_streaming = True, has_function_calling = False\<rparr>"

definition anthropic_explain ::
    "ai_network \<Rightarrow> ai_wire \<Rightarrow> provider_state \<Rightarrow> explain_request \<Rightarrow> ai_error + ai_response" where
  "anthropic_explain net wire pv req =
     call_messages net wire pv (anthropic_explain_request (pv_model pv) req)"

definition anthropic_suggest_sql ::
    "ai_network \<Rightarrow> ai_wire \<Rightarrow> provider_state \<Rightarrow> suggest_request \<Rightarrow> ai_error + ai_response" where
  "anthropic_suggest_sql net wire pv req =
     call_messages net wire pv (anthropic_suggest_request (pv_model pv) req)"

definition redacted :: string where "redacted = ''<redacted>''"

definition anthropic_debug :: "provider_state \<Rightarrow> string" where
  "anthropic_debug pv =
     ''AnthropicProvider { messages_url: '' @ debug_string (pv_url pv) @ '', model: ''
     @ debug_string (pv_model pv) @ '', api_key: '' @ debug_string redacted @ '', .. }''"

section \<open>OpenAI\<close>

definition OPENAI_ID :: string where "OPENAI_ID = ''openai''"
definition OPENAI_BASE_URL :: string where "OPENAI_BASE_URL = ''https://api.openai.com''"
definition OPENAI_MODEL :: string where "OPENAI_MODEL = ''gpt-4o''"

definition build_completions_url :: "string \<Rightarrow> string" where
  "build_completions_url base = trim_slashes base @ ''/v1/chat/completions''"

definition openai_with_config :: "ai_network \<Rightarrow> ai_config \<Rightarrow> ai_error + provider_state" where
  "openai_with_config net config =
     (if trim (ac_api_key config) = [] then Inl (Ai_Configuration ''openai api key is empty'')
      else if trim (ac_model config) = [] then Inl (Ai_Configuration ''openai model id is empty'')
      else let base = (case ac_base_url config of Some b \<Rightarrow> b | None \<Rightarrow> OPENAI_BASE_URL)
        in case build_client net (\<not> is_localhost base) of
             Inl e \<Rightarrow> Inl (Ai_Configuration e)
           | Inr client \<Rightarrow> Inr \<lparr>pv_client = client, pv_url = build_completions_url base,
               pv_model = ac_model config, pv_api_key = ac_api_key config\<rparr>)"

definition openai_new :: "ai_network \<Rightarrow> string \<Rightarrow> string \<Rightarrow> ai_error + provider_state" where
  "openai_new net key model =
     openai_with_config net \<lparr>ac_api_key = key, ac_model = model, ac_base_url = None\<rparr>"

definition openai_with_default_model :: "ai_network \<Rightarrow> string \<Rightarrow> ai_error + provider_state" where
  "openai_with_default_model net key = openai_new net key OPENAI_MODEL"

text \<open>The options of a streaming request ask for the usage frame; the option is that flag.\<close>

record chat_request =
  cq_model :: string
  cq_messages :: "request_message list"
  cq_stream :: bool
  cq_include_usage :: "bool option"

definition chat_json :: "chat_request \<Rightarrow> json" where
  "chat_json q = JObject
     ([(''model'', JString (cq_model q)), (''messages'', JArray (map message_json (cq_messages q)))]
      @ (if cq_stream q then [(''stream'', JBool True)] else [])
      @ (case cq_include_usage q of
           Some b \<Rightarrow> [(''stream_options'', JObject [(''include_usage'', JBool b)])] | None \<Rightarrow> []))"

definition enable_streaming :: "chat_request \<Rightarrow> chat_request" where
  "enable_streaming q = q\<lparr>cq_stream := True, cq_include_usage := Some True\<rparr>"

definition openai_explain_request :: "string \<Rightarrow> explain_request \<Rightarrow> chat_request" where
  "openai_explain_request model req =
     \<lparr>cq_model = model,
      cq_messages = [\<lparr>rm_role = ''system'', rm_content = EXPLAIN_SYSTEM_PROMPT\<rparr>,
                     \<lparr>rm_role = ''user'', rm_content = explain_text req\<rparr>],
      cq_stream = False, cq_include_usage = None\<rparr>"

definition openai_suggest_request :: "string \<Rightarrow> suggest_request \<Rightarrow> chat_request" where
  "openai_suggest_request model req =
     \<lparr>cq_model = model,
      cq_messages = [\<lparr>rm_role = ''system'', rm_content = SUGGEST_SYSTEM_PROMPT\<rparr>,
                     \<lparr>rm_role = ''user'', rm_content = suggest_text req\<rparr>],
      cq_stream = False, cq_include_usage = None\<rparr>"

definition openai_post :: "provider_state \<Rightarrow> chat_request \<Rightarrow> ai_post" where
  "openai_post pv q =
     \<lparr>ap_url = pv_url pv, ap_headers = [(''Authorization'', ''Bearer '' @ pv_api_key pv)],
      ap_body = chat_json q\<rparr>"

definition openai_transport_error :: "http_failure \<Rightarrow> ai_error" where
  "openai_transport_error err =
     (if hf_timed_out err then Ai_Network (''openai request timed out: '' @ hf_text err)
      else Ai_Network (''openai transport error: '' @ hf_text err))"

definition openai_parsed_to_response :: "chat_response \<Rightarrow> string \<Rightarrow> ai_error + ai_response" where
  "openai_parsed_to_response parsed model =
     (let combined = concat (map (\<lambda>c. case c of Some text \<Rightarrow> text | None \<Rightarrow> []) (cr_contents parsed))
      in if combined = [] then Inl (Ai_Provider_Error ''openai returned no text content in response'')
         else Inr \<lparr>ar_text = combined, ar_tokens_in = cr_prompt_tokens parsed,
           ar_tokens_out = cr_completion_tokens parsed, ar_provider = OPENAI_ID, ar_model = model\<rparr>)"

definition openai_error_from :: "ai_wire \<Rightarrow> nat \<Rightarrow> bytes \<Rightarrow> ai_error" where
  "openai_error_from wire status body =
     Ai_Provider_Error (''openai api error (status '' @ show_nat status @ ''): '' @ body_error_detail wire body)"

definition call_completions ::
    "ai_network \<Rightarrow> ai_wire \<Rightarrow> provider_state \<Rightarrow> chat_request \<Rightarrow> ai_error + ai_response" where
  "call_completions net wire pv q =
     (case send_post net (pv_client pv) (openai_post pv q) of
        Inl e \<Rightarrow> Inl (openai_transport_error e)
      | Inr (status, Inl e) \<Rightarrow> Inl (openai_transport_error e)
      | Inr (status, Inr body) \<Rightarrow>
          if 200 \<le> status \<and> status < 300
          then (case read_chat wire body of
             Inl e \<Rightarrow> Inl (Ai_Provider_Error (''malformed openai response (status '' @ show_nat status
               @ ''): '' @ e @ '' ['' @ truncate_to_owned (lossy wire body) @ '']''))
           | Inr parsed \<Rightarrow> openai_parsed_to_response parsed (pv_model pv))
          else Inl (openai_error_from wire status body))"

definition openai_capabilities :: ai_capabilities where
  "openai_capabilities = \<lparr>has_streaming = True, has_function_calling = False\<rparr>"

definition openai_explain ::
    "ai_network \<Rightarrow> ai_wire \<Rightarrow> provider_state \<Rightarrow> explain_request \<Rightarrow> ai_error + ai_response" where
  "openai_explain net wire pv req =
     call_completions net wire pv (openai_explain_request (pv_model pv) req)"

definition openai_suggest_sql ::
    "ai_network \<Rightarrow> ai_wire \<Rightarrow> provider_state \<Rightarrow> suggest_request \<Rightarrow> ai_error + ai_response" where
  "openai_suggest_sql net wire pv req =
     call_completions net wire pv (openai_suggest_request (pv_model pv) req)"

definition openai_debug :: "provider_state \<Rightarrow> string" where
  "openai_debug pv =
     ''OpenAiProvider { completions_url: '' @ debug_string (pv_url pv) @ '', model: ''
     @ debug_string (pv_model pv) @ '', api_key: '' @ debug_string redacted @ '', .. }''"

end
