(* ===== verification/Ai_Stream.thy ===== *)
theory Ai_Stream
  imports Ai_Provider
begin

text \<open>
  The streams of the two providers (\<open>stream.rs\<close> of \<open>dbboard-anthropic\<close> and \<open>dbboard-openai\<close>): the items
  an event source yields are folded into the normalized events of the contract. The items still to come
  are a list; a closed source yields nothing more. Both crates drive the same loop with a parser of
  their own, so the loop is defined once, over the parser and the reading of a failure.
\<close>

section \<open>The loop\<close>

datatype parse_outcome = Emit stream_event | Filter | Stop | Parse_Error ai_error

record stream_state =
  ss_items :: "sse_item list"
  ss_input_tokens :: u32
  ss_stop_reason :: stop_reason
  ss_closed :: bool

definition stream_new :: "sse_item list \<Rightarrow> stream_state" where
  "stream_new items =
     \<lparr>ss_items = items, ss_input_tokens = 0, ss_stop_reason = End_Turn, ss_closed = False\<rparr>"

type_synonym sse_parser = "string \<Rightarrow> string \<Rightarrow> stream_state \<Rightarrow> parse_outcome \<times> stream_state"
type_synonym stream_step = "((ai_error + stream_event) \<times> stream_state) option"

text \<open>Closing the source drops what it has left.\<close>

definition shut_source :: "stream_state \<Rightarrow> stream_state" where
  "shut_source st = st\<lparr>ss_closed := True, ss_items := []\<rparr>"

fun stream_loop ::
    "sse_parser \<Rightarrow> (sse_failure \<Rightarrow> ai_error) \<Rightarrow> sse_item list \<Rightarrow> stream_state \<Rightarrow> stream_step" where
  "stream_loop parse mapped [] st = None"
| "stream_loop parse mapped (Sse_Open # items) st = stream_loop parse mapped items st"
| "stream_loop parse mapped (Sse_Message event data # items) st =
     (case parse event data st of
        (Emit evt, st') \<Rightarrow> Some (Inr evt, st'\<lparr>ss_items := items\<rparr>)
      | (Filter, st') \<Rightarrow> stream_loop parse mapped items st'
      | (Stop, st') \<Rightarrow> Some (Inr (Message_Stop (ss_stop_reason st')), shut_source st')
      | (Parse_Error e, st') \<Rightarrow> Some (Inl e, shut_source st'))"
| "stream_loop parse mapped (Sse_Failure err # items) st =
     (if err = Sse_Ended
      then Some (Inr (Message_Stop (ss_stop_reason st)), st\<lparr>ss_closed := True, ss_items := items\<rparr>)
      else Some (Inl (mapped err), shut_source st))"

definition stream_next :: "sse_parser \<Rightarrow> (sse_failure \<Rightarrow> ai_error) \<Rightarrow> stream_state \<Rightarrow> stream_step" where
  "stream_next parse mapped st =
     (if ss_closed st then None else stream_loop parse mapped (ss_items st) st)"

text \<open>What a stream yields until it ends: every step closes it or leaves fewer items.\<close>

definition stream_left :: "stream_state \<Rightarrow> nat" where
  "stream_left st = (if ss_closed st then 0 else Suc (length (ss_items st)))"

lemma stream_loop_left:
  "stream_loop parse mapped items st = Some (r, st') \<Longrightarrow>
     ss_closed st' \<or> length (ss_items st') < length items"
  by (induction parse mapped items st rule: stream_loop.induct)
    (auto simp: shut_source_def split: prod.splits parse_outcome.splits if_splits)

lemma stream_next_left:
  "stream_next parse mapped st = Some (r, st') \<Longrightarrow> stream_left st' < stream_left st"
  by (auto simp: stream_next_def stream_left_def split: if_splits dest: stream_loop_left)

function stream_events ::
    "sse_parser \<Rightarrow> (sse_failure \<Rightarrow> ai_error) \<Rightarrow> stream_state \<Rightarrow> (ai_error + stream_event) list" where
  "stream_events parse mapped st =
     (case stream_next parse mapped st of
        None \<Rightarrow> []
      | Some (r, st') \<Rightarrow> r # stream_events parse mapped st')"
  by pat_completeness auto
termination
  by (relation "measure (\<lambda>(parse, mapped, st). stream_left st)") (auto dest: stream_next_left)

declare stream_events.simps [simp del]

section \<open>Anthropic\<close>

definition map_stop_reason :: "string \<Rightarrow> stop_reason" where
  "map_stop_reason raw =
     (if raw = ''end_turn'' then End_Turn
      else if raw = ''max_tokens'' then Max_Tokens
      else if raw = ''stop_sequence'' then Stop_Sequence
      else if raw = ''tool_use'' then Tool_Use
      else if raw = ''refusal'' then Refusal
      else Other_Reason raw)"

definition parse_message_start :: "ai_wire \<Rightarrow> string \<Rightarrow> stream_state \<Rightarrow> parse_outcome \<times> stream_state" where
  "parse_message_start wire data st =
     (case read_start wire data of
        Inr tokens \<Rightarrow> (Emit (Message_Start tokens), st\<lparr>ss_input_tokens := tokens\<rparr>)
      | Inl e \<Rightarrow> (Parse_Error (Ai_Provider_Error
          (''anthropic streaming: malformed message_start payload: '' @ e)), st))"

definition parse_content_block_delta :: "ai_wire \<Rightarrow> string \<Rightarrow> parse_outcome" where
  "parse_content_block_delta wire data =
     (case read_delta wire data of
        Inr (Some text) \<Rightarrow> Emit (Text_Delta text)
      | Inr None \<Rightarrow> Filter
      | Inl e \<Rightarrow> Parse_Error (Ai_Provider_Error
          (''anthropic streaming: malformed content_block_delta payload: '' @ e)))"

definition parse_message_delta :: "ai_wire \<Rightarrow> string \<Rightarrow> stream_state \<Rightarrow> parse_outcome \<times> stream_state" where
  "parse_message_delta wire data st =
     (case read_message_delta wire data of
        Inl e \<Rightarrow> (Parse_Error (Ai_Provider_Error
          (''anthropic streaming: malformed message_delta payload: '' @ e)), st)
      | Inr parsed \<Rightarrow>
          let st' = (case md_stop_reason parsed of
                Some reason \<Rightarrow> st\<lparr>ss_stop_reason := map_stop_reason reason\<rparr> | None \<Rightarrow> st)
          in case md_output_tokens parsed of
               Some tokens \<Rightarrow> (Emit (Usage (ss_input_tokens st') tokens), st')
             | None \<Rightarrow> (Filter, st'))"

definition parse_stream_error :: "ai_wire \<Rightarrow> string \<Rightarrow> parse_outcome" where
  "parse_stream_error wire data =
     (case read_stream_error wire data of
        Inl e \<Rightarrow> Emit (Stream_Error (Ai_Provider_Error (''anthropic streaming: malformed error event: '' @ e)))
      | Inr payload \<Rightarrow>
          let combined = error_detail payload;
              detail = (if MAX_ERROR_DETAIL < byte_len combined then truncate_to_owned combined else combined)
          in Emit (Stream_Error (Ai_Provider_Error (''anthropic streaming error: '' @ detail))))"

definition anthropic_parse :: "ai_wire \<Rightarrow> sse_parser" where
  "anthropic_parse wire event data st =
     (if event = ''message_start'' then parse_message_start wire data st
      else if event = ''content_block_delta'' then (parse_content_block_delta wire data, st)
      else if event = ''message_delta'' then parse_message_delta wire data st
      else if event = ''message_stop'' then (Stop, st)
      else if event = ''error'' then (parse_stream_error wire data, st)
      else (Filter, st))"

text \<open>
  The reading of a failure; the one status arm is the one that reads the body, the other being out of
  reach. The content type stands with the quotes of its \<open>Debug\<close> form.
\<close>

fun anthropic_map_error :: "ai_wire \<Rightarrow> sse_failure \<Rightarrow> ai_error" where
  "anthropic_map_error wire (Sse_Status code body) = Ai_Provider_Error
     (''anthropic streaming error (status '' @ show_nat code @ ''): ''
      @ (case body of Inr bytes \<Rightarrow> body_error_detail wire bytes | Inl _ \<Rightarrow> ''no response body''))"
| "anthropic_map_error wire (Sse_Transport e) = Ai_Network (''anthropic streaming transport error: '' @ e)"
| "anthropic_map_error wire (Sse_Content_Type v) = Ai_Provider_Error
     (''anthropic streaming: invalid content-type '' @ debug_string v)"
| "anthropic_map_error wire (Sse_Parser e) = Ai_Provider_Error (''anthropic streaming SSE parse error: '' @ e)"
| "anthropic_map_error wire (Sse_Utf8 e) = Ai_Provider_Error (''anthropic streaming utf8 error: '' @ e)"
| "anthropic_map_error wire (Sse_Last_Event_Id i) = Ai_Provider_Error
     (''anthropic streaming: invalid last-event-id '' @ i)"
| "anthropic_map_error wire Sse_Ended = Ai_Provider_Error ''anthropic streaming ended unexpectedly''"

definition anthropic_stream :: "ai_wire \<Rightarrow> sse_item list \<Rightarrow> (ai_error + stream_event) list" where
  "anthropic_stream wire items =
     stream_events (anthropic_parse wire) (anthropic_map_error wire) (stream_new items)"

definition anthropic_open_stream ::
    "ai_network \<Rightarrow> ai_wire \<Rightarrow> provider_state \<Rightarrow> messages_request \<Rightarrow> ai_error + (ai_error + stream_event) list" where
  "anthropic_open_stream net wire pv q =
     (case event_source net (pv_client pv) (anthropic_post pv q) of
        Inl e \<Rightarrow> Inl (Ai_Configuration (''anthropic streaming: cannot prepare request: '' @ e))
      | Inr items \<Rightarrow> Inr (anthropic_stream wire items))"

definition anthropic_stream_explain ::
    "ai_network \<Rightarrow> ai_wire \<Rightarrow> provider_state \<Rightarrow> explain_request \<Rightarrow> ai_error + (ai_error + stream_event) list" where
  "anthropic_stream_explain net wire pv req =
     anthropic_open_stream net wire pv ((anthropic_explain_request (pv_model pv) req)\<lparr>mq_stream := True\<rparr>)"

definition anthropic_stream_suggest_sql ::
    "ai_network \<Rightarrow> ai_wire \<Rightarrow> provider_state \<Rightarrow> suggest_request \<Rightarrow> ai_error + (ai_error + stream_event) list" where
  "anthropic_stream_suggest_sql net wire pv req =
     anthropic_open_stream net wire pv ((anthropic_suggest_request (pv_model pv) req)\<lparr>mq_stream := True\<rparr>)"

section \<open>OpenAI\<close>

definition DONE_SENTINEL :: string where "DONE_SENTINEL = ''[DONE]''"

definition map_finish_reason :: "string \<Rightarrow> stop_reason" where
  "map_finish_reason raw =
     (if raw = ''stop'' then End_Turn
      else if raw = ''length'' then Max_Tokens
      else if raw = ''tool_calls'' \<or> raw = ''function_call'' then Tool_Use
      else if raw = ''content_filter'' then Refusal
      else Other_Reason raw)"

definition nonempty_content :: "chunk_choice \<Rightarrow> string option" where
  "nonempty_content c =
     (case cc_content c of Some t \<Rightarrow> if t \<noteq> [] then Some t else None | None \<Rightarrow> None)"

definition parse_chunk :: "ai_wire \<Rightarrow> string \<Rightarrow> stream_state \<Rightarrow> parse_outcome \<times> stream_state" where
  "parse_chunk wire data st =
     (case read_chunk wire data of
        Inl e \<Rightarrow> (Parse_Error (Ai_Provider_Error (''openai streaming: malformed chunk payload: '' @ e)), st)
      | Inr chunk \<Rightarrow>
          let st' = (case Option.bind (get (ck_choices chunk) 0) cc_finish_reason of
                Some reason \<Rightarrow> st\<lparr>ss_stop_reason := map_finish_reason reason\<rparr> | None \<Rightarrow> st)
          in case find_map nonempty_content (ck_choices chunk) of
               Some text \<Rightarrow> (Emit (Text_Delta text), st')
             | None \<Rightarrow>
                 (case ck_usage chunk of
                    Some (tokens_in, tokens_out) \<Rightarrow> (Emit (Usage tokens_in tokens_out), st')
                  | None \<Rightarrow> (Filter, st')))"

definition openai_parse :: "ai_wire \<Rightarrow> sse_parser" where
  "openai_parse wire event data st =
     (if trim data = DONE_SENTINEL then (Stop, st) else parse_chunk wire data st)"

fun openai_map_error :: "ai_wire \<Rightarrow> sse_failure \<Rightarrow> ai_error" where
  "openai_map_error wire (Sse_Status code body) = Ai_Provider_Error
     (''openai streaming error (status '' @ show_nat code @ ''): ''
      @ (case body of Inr bytes \<Rightarrow> body_error_detail wire bytes | Inl _ \<Rightarrow> ''no response body''))"
| "openai_map_error wire (Sse_Transport e) = Ai_Network (''openai streaming transport error: '' @ e)"
| "openai_map_error wire (Sse_Content_Type v) = Ai_Provider_Error
     (''openai streaming: invalid content-type '' @ debug_string v)"
| "openai_map_error wire (Sse_Parser e) = Ai_Provider_Error (''openai streaming SSE parse error: '' @ e)"
| "openai_map_error wire (Sse_Utf8 e) = Ai_Provider_Error (''openai streaming utf8 error: '' @ e)"
| "openai_map_error wire (Sse_Last_Event_Id i) = Ai_Provider_Error
     (''openai streaming: invalid last-event-id '' @ i)"
| "openai_map_error wire Sse_Ended = Ai_Provider_Error ''openai streaming ended unexpectedly''"

definition openai_stream :: "ai_wire \<Rightarrow> sse_item list \<Rightarrow> (ai_error + stream_event) list" where
  "openai_stream wire items = stream_events (openai_parse wire) (openai_map_error wire) (stream_new items)"

definition openai_open_stream ::
    "ai_network \<Rightarrow> ai_wire \<Rightarrow> provider_state \<Rightarrow> chat_request \<Rightarrow> ai_error + (ai_error + stream_event) list" where
  "openai_open_stream net wire pv q =
     (case event_source net (pv_client pv) (openai_post pv q) of
        Inl e \<Rightarrow> Inl (Ai_Configuration (''openai streaming: cannot prepare request: '' @ e))
      | Inr items \<Rightarrow> Inr (openai_stream wire items))"

definition openai_stream_explain ::
    "ai_network \<Rightarrow> ai_wire \<Rightarrow> provider_state \<Rightarrow> explain_request \<Rightarrow> ai_error + (ai_error + stream_event) list" where
  "openai_stream_explain net wire pv req =
     openai_open_stream net wire pv (enable_streaming (openai_explain_request (pv_model pv) req))"

definition openai_stream_suggest_sql ::
    "ai_network \<Rightarrow> ai_wire \<Rightarrow> provider_state \<Rightarrow> suggest_request \<Rightarrow> ai_error + (ai_error + stream_event) list" where
  "openai_stream_suggest_sql net wire pv req =
     openai_open_stream net wire pv (enable_streaming (openai_suggest_request (pv_model pv) req))"

section \<open>The provider behind the trait\<close>

datatype ai_provider = Anthropic_Provider provider_state | Openai_Provider provider_state

fun provider_id :: "ai_provider \<Rightarrow> string" where
  "provider_id (Anthropic_Provider _) = ANTHROPIC_ID"
| "provider_id (Openai_Provider _) = OPENAI_ID"

fun provider_identity :: "ai_provider \<Rightarrow> string \<times> string" where
  "provider_identity (Anthropic_Provider pv) = (ANTHROPIC_ID, pv_model pv)"
| "provider_identity (Openai_Provider pv) = (OPENAI_ID, pv_model pv)"

fun provider_capabilities :: "ai_provider \<Rightarrow> ai_capabilities" where
  "provider_capabilities (Anthropic_Provider _) = anthropic_capabilities"
| "provider_capabilities (Openai_Provider _) = openai_capabilities"

fun stream_explain ::
    "ai_network \<Rightarrow> ai_wire \<Rightarrow> ai_provider \<Rightarrow> explain_request \<Rightarrow> ai_error + (ai_error + stream_event) list" where
  "stream_explain net wire (Anthropic_Provider pv) req = anthropic_stream_explain net wire pv req"
| "stream_explain net wire (Openai_Provider pv) req = openai_stream_explain net wire pv req"

fun stream_suggest_sql ::
    "ai_network \<Rightarrow> ai_wire \<Rightarrow> ai_provider \<Rightarrow> suggest_request \<Rightarrow> ai_error + (ai_error + stream_event) list" where
  "stream_suggest_sql net wire (Anthropic_Provider pv) req = anthropic_stream_suggest_sql net wire pv req"
| "stream_suggest_sql net wire (Openai_Provider pv) req = openai_stream_suggest_sql net wire pv req"

end
