(* ===== verification/Ai_Proofs.thy ===== *)
theory Ai_Proofs
  imports Ai_Stream
begin

text \<open>
  What the streams of the two providers promise: they end once, with what was said before the end and
  nothing else. The loop's part of it is proved over any parser that keeps to a contract, which both
  parsers are shown to do.
\<close>

section \<open>The contract of a parser\<close>

fun event_text :: "ai_error + stream_event \<Rightarrow> string" where
  "event_text (Inr (Text_Delta t)) = t"
| "event_text _ = []"

fun terminal :: "ai_error + stream_event \<Rightarrow> bool" where
  "terminal (Inr (Message_Stop _)) = True"
| "terminal (Inl _) = True"
| "terminal _ = False"

text \<open>What one message says, and whether it is the last one, read off the message alone.\<close>

fun item_final :: "(string \<Rightarrow> string \<Rightarrow> bool) \<Rightarrow> sse_item \<Rightarrow> bool" where
  "item_final final Sse_Open = False"
| "item_final final (Sse_Message event data) = final event data"
| "item_final final (Sse_Failure _) = True"

fun item_said :: "(string \<Rightarrow> string \<Rightarrow> string) \<Rightarrow> sse_item \<Rightarrow> string" where
  "item_said said (Sse_Message event data) = said event data"
| "item_said said _ = []"

definition heard :: "(string \<Rightarrow> string \<Rightarrow> bool) \<Rightarrow> sse_item list \<Rightarrow> sse_item list" where
  "heard final items = takeWhile (\<lambda>i. \<not> item_final final i) items"

definition spoken ::
    "(string \<Rightarrow> string \<Rightarrow> string) \<Rightarrow> (string \<Rightarrow> string \<Rightarrow> bool) \<Rightarrow> sse_item list \<Rightarrow> string" where
  "spoken said final items = concat (map (item_said said) (heard final items))"

definition ends_once :: "(string \<Rightarrow> string \<Rightarrow> bool) \<Rightarrow> sse_item list \<Rightarrow> (ai_error + stream_event) list \<Rightarrow> bool" where
  "ends_once final items events \<longleftrightarrow>
     (if list_ex (item_final final) items
      then events \<noteq> [] \<and> terminal (last events) \<and> list_all (\<lambda>e. \<not> terminal e) (butlast events)
      else list_all (\<lambda>e. \<not> terminal e) events)"

lemma heard_simps [simp]:
  "heard final [] = []"
  "heard final (i # items) = (if item_final final i then [] else i # heard final items)"
  by (simp_all add: heard_def)

lemma spoken_simps [simp]:
  "spoken said final [] = []"
  "spoken said final (i # items) =
     (if item_final final i then [] else item_said said i @ spoken said final items)"
  by (simp_all add: spoken_def)

locale sse_contract =
  fixes parse :: sse_parser
    and said :: "string \<Rightarrow> string \<Rightarrow> string"
    and final :: "string \<Rightarrow> string \<Rightarrow> bool"
  assumes emits: "parse event data st = (Emit e, st') \<Longrightarrow>
      \<not> final event data \<and> \<not> terminal (Inr e) \<and> event_text (Inr e) = said event data"
    and filters: "parse event data st = (Filter, st') \<Longrightarrow> \<not> final event data \<and> said event data = []"
    and stops: "parse event data st = (Stop, st') \<Longrightarrow> final event data"
    and refuses: "parse event data st = (Parse_Error err, st') \<Longrightarrow> final event data"
    and stays_open: "parse event data st = (r, st') \<Longrightarrow> ss_closed st' = ss_closed st"
begin

lemma stream_loop_None:
  "stream_loop parse mapped items st = None \<Longrightarrow>
     spoken said final items = [] \<and> \<not> list_ex (item_final final) items"
proof (induction items arbitrary: st)
  case (Cons i items)
  then show ?case
    by (cases i) (auto dest: filters split: prod.splits parse_outcome.splits if_splits)
qed simp

lemma stream_loop_Some:
  "stream_loop parse mapped items st = Some (r, st') \<Longrightarrow> \<not> ss_closed st \<Longrightarrow>
     (if ss_closed st'
      then terminal r \<and> spoken said final items = [] \<and> list_ex (item_final final) items
      else \<not> terminal r \<and> spoken said final items = event_text r @ spoken said final (ss_items st') \<and>
        (list_ex (item_final final) items \<longleftrightarrow> list_ex (item_final final) (ss_items st')))"
proof (induction items arbitrary: st)
  case (Cons i items)
  show ?case
  proof (cases i)
    case (Sse_Message event data)
    obtain out st1 where p: "parse event data st = (out, st1)" by (cases "parse event data st")
    have closed: "\<not> ss_closed st1" using stays_open [OF p] Cons.prems(2) by simp
    show ?thesis
    proof (cases out)
      case Filter
      then have "stream_loop parse mapped items st1 = Some (r, st')"
        using Cons.prems(1) p Sse_Message by simp
      then show ?thesis using Cons.IH [OF _ closed] filters p Filter Sse_Message by auto
    next
      case (Emit e)
      then show ?thesis using Cons.prems(1) p Sse_Message emits [of event data st e st1] closed by auto
    next
      case Stop
      then show ?thesis using Cons.prems(1) p Sse_Message stops by (auto simp: shut_source_def)
    next
      case (Parse_Error e)
      then show ?thesis using Cons.prems(1) p Sse_Message refuses by (auto simp: shut_source_def)
    qed
  next
    case Sse_Open
    then show ?thesis using Cons.IH Cons.prems by simp
  next
    case (Sse_Failure err)
    then show ?thesis using Cons.prems by (auto simp: shut_source_def split: if_splits)
  qed
qed simp

lemma events_spoken:
  "\<not> ss_closed st \<Longrightarrow> concat (map event_text (stream_events parse mapped st)) = spoken said final (ss_items st)
     \<and> ends_once final (ss_items st) (stream_events parse mapped st)"
proof (induction "stream_left st" arbitrary: st rule: less_induct)
  case less
  show ?case
  proof (cases "stream_loop parse mapped (ss_items st) st")
    case None
    then show ?thesis using less(2) stream_loop_None [OF None]
      by (simp add: stream_events.simps [of parse] stream_next_def ends_once_def)
  next
    case (Some x)
    obtain r st' where x: "x = (r, st')" by (cases x)
    let ?rest = "stream_events parse mapped st'"
    have step: "stream_next parse mapped st = Some (r, st')"
      using Some x less(2) by (simp add: stream_next_def)
    then have whole: "stream_events parse mapped st = r # ?rest"
      by (simp add: stream_events.simps [of parse mapped st])
    have told: "if ss_closed st'
      then terminal r \<and> spoken said final (ss_items st) = [] \<and> list_ex (item_final final) (ss_items st)
      else \<not> terminal r \<and> spoken said final (ss_items st) = event_text r @ spoken said final (ss_items st') \<and>
        (list_ex (item_final final) (ss_items st) \<longleftrightarrow> list_ex (item_final final) (ss_items st'))"
      using stream_loop_Some [of mapped "ss_items st" st r st'] Some x less(2) by simp
    show ?thesis
    proof (cases "ss_closed st'")
      case True
      then have "?rest = []" by (simp add: stream_events.simps [of parse mapped st'] stream_next_def)
      moreover have "event_text r = []" if "terminal r"
        using that by (cases r rule: terminal.cases) auto
      ultimately show ?thesis using told True whole by (simp add: ends_once_def)
    next
      case False
      then have "concat (map event_text ?rest) = spoken said final (ss_items st') \<and>
          ends_once final (ss_items st') ?rest"
        using less(1) [OF stream_next_left [OF step]] by simp
      then show ?thesis using told False whole by (auto simp: ends_once_def)
    qed
  qed
qed

end

section \<open>Both parsers keep to it\<close>

definition anthropic_said :: "ai_wire \<Rightarrow> string \<Rightarrow> string \<Rightarrow> string" where
  "anthropic_said wire event data =
     (if event = ''content_block_delta''
      then (case read_delta wire data of Inr (Some text) \<Rightarrow> text | _ \<Rightarrow> []) else [])"

definition anthropic_final :: "ai_wire \<Rightarrow> string \<Rightarrow> string \<Rightarrow> bool" where
  "anthropic_final wire event data \<longleftrightarrow> event = ''message_stop''
     \<or> event = ''message_start'' \<and> \<not> is_ok (read_start wire data)
     \<or> event = ''content_block_delta'' \<and> \<not> is_ok (read_delta wire data)
     \<or> event = ''message_delta'' \<and> \<not> is_ok (read_message_delta wire data)"

definition openai_said :: "ai_wire \<Rightarrow> string \<Rightarrow> string \<Rightarrow> string" where
  "openai_said wire event data =
     (case read_chunk wire data of
        Inr chunk \<Rightarrow> (case find_map nonempty_content (ck_choices chunk) of Some t \<Rightarrow> t | None \<Rightarrow> [])
      | Inl _ \<Rightarrow> [])"

definition openai_final :: "ai_wire \<Rightarrow> string \<Rightarrow> string \<Rightarrow> bool" where
  "openai_final wire event data \<longleftrightarrow> trim data = DONE_SENTINEL \<or> \<not> is_ok (read_chunk wire data)"

lemmas anthropic_parse_defs = anthropic_parse_def anthropic_said_def anthropic_final_def
  parse_message_start_def parse_content_block_delta_def parse_message_delta_def parse_stream_error_def

lemmas openai_parse_defs = openai_parse_def openai_said_def openai_final_def parse_chunk_def

interpretation anthropic_sse: sse_contract "anthropic_parse wire" "anthropic_said wire" "anthropic_final wire"
  for wire
  by unfold_locales
    (auto simp: anthropic_parse_defs Let_def split: if_splits sum.splits option.splits)

interpretation openai_sse: sse_contract "openai_parse wire" "openai_said wire" "openai_final wire"
  for wire
  by unfold_locales
    (auto simp: openai_parse_defs Let_def split: if_splits sum.splits option.splits)

lemma anthropic_stream_told:
  "concat (map event_text (anthropic_stream wire items)) = spoken (anthropic_said wire) (anthropic_final wire) items"
  "ends_once (anthropic_final wire) items (anthropic_stream wire items)"
  using anthropic_sse.events_spoken [of "stream_new items" wire "anthropic_map_error wire"]
  by (simp_all add: anthropic_stream_def stream_new_def)

lemma openai_stream_told:
  "concat (map event_text (openai_stream wire items)) = spoken (openai_said wire) (openai_final wire) items"
  "ends_once (openai_final wire) items (openai_stream wire items)"
  using openai_sse.events_spoken [of "stream_new items" wire "openai_map_error wire"]
  by (simp_all add: openai_stream_def stream_new_def)

end
