(* ===== verification/Ai_Store.thy ===== *)
theory Ai_Store
  imports Connection_Admin
begin

text \<open>
  The assistant's store in crate \<open>dbboard-config\<close>: the file of providers, its validation and atomic save
  (\<open>ai_store.rs\<close>), and the admin that keeps the file and the keyring together (\<open>ai_settings.rs\<close>). TOML is
  the parameter \<open>toml\<close>; the admin carries the disk and the keyring it works on, with the faults to come.
\<close>

section \<open>The file\<close>

definition AI_CONFIG_VERSION :: "32 word" where "AI_CONFIG_VERSION = 1"

datatype ai_provider_kind =
    Anthropic_Kind "string option" string
  | Openai_Kind "string option" string

record ai_provider_entry =
  ape_id :: string
  ape_name :: string
  ape_kind :: ai_provider_kind

record ai_provider_file =
  apf_version :: "32 word"
  apf_active_id :: "string option"
  apf_providers :: "ai_provider_entry list"

datatype ai_settings_error =
    As_Parse string
  | As_Unsupported_Version "32 word"
  | As_Duplicate_Id string
  | As_Unknown_Active_Id string
  | As_Io io_error
  | As_Serialize string
  | As_No_Config_Dir
  | As_Secret secret_error
  | As_Not_Found string
  | As_Kind_Mismatch string

fun ai_settings_error_display :: "(io_error \<Rightarrow> string) \<Rightarrow> ai_settings_error \<Rightarrow> string" where
  "ai_settings_error_display io (As_Parse e) = ''ai settings parse failed: '' @ e"
| "ai_settings_error_display io (As_Unsupported_Version v) =
     ''unsupported ai settings version: '' @ show_nat (unat v) @ '' (only version '' @
       show_nat (unat AI_CONFIG_VERSION) @ '' is supported)''"
| "ai_settings_error_display io (As_Duplicate_Id i) = ''duplicate ai provider id: '' @ i"
| "ai_settings_error_display io (As_Unknown_Active_Id i) =
     ''active_id refers to an unknown provider id: '' @ i"
| "ai_settings_error_display io (As_Io e) = ''ai settings io failed: '' @ io e"
| "ai_settings_error_display io (As_Serialize e) = ''ai settings serialize failed: '' @ e"
| "ai_settings_error_display io As_No_Config_Dir = ''could not resolve a per-user config directory''"
| "ai_settings_error_display io (As_Secret e) = ''ai settings secret failed: '' @ secret_error_display e"
| "ai_settings_error_display io (As_Not_Found i) = ''no ai provider entry with id: '' @ i"
| "ai_settings_error_display io (As_Kind_Mismatch i) =
     ''ai provider '' @ i @ '' kind cannot change on update''"

text \<open>The ids seen, or the first that comes twice.\<close>

fun check_provider_ids :: "string set \<Rightarrow> ai_provider_entry list \<Rightarrow> ai_settings_error + string set" where
  "check_provider_ids seen [] = Inr seen"
| "check_provider_ids seen (entry # entries) =
     (if ape_id entry \<in> seen then Inl (As_Duplicate_Id (ape_id entry))
      else check_provider_ids (insert (ape_id entry) seen) entries)"

definition ai_file_parse :: "ai_provider_file codec \<Rightarrow> string \<Rightarrow> ai_settings_error + ai_provider_file" where
  "ai_file_parse toml input =
     (case of_text toml input of
        Inl e \<Rightarrow> Inl (As_Parse e)
      | Inr file \<Rightarrow>
          if apf_version file \<noteq> AI_CONFIG_VERSION then Inl (As_Unsupported_Version (apf_version file))
          else case check_provider_ids {} (apf_providers file) of
            Inl e \<Rightarrow> Inl e
          | Inr seen \<Rightarrow>
              (case apf_active_id file of
                 Some active \<Rightarrow> if active \<notin> seen then Inl (As_Unknown_Active_Id active) else Inr file
               | None \<Rightarrow> Inr file))"

definition ai_file_empty :: ai_provider_file where
  "ai_file_empty = \<lparr>apf_version = AI_CONFIG_VERSION, apf_active_id = None, apf_providers = []\<rparr>"

definition default_ai_providers_path :: "string option \<Rightarrow> string option \<Rightarrow> ai_settings_error + file_path" where
  "default_ai_providers_path platform configured =
     (case config_dir_from platform configured of
        Inl _ \<Rightarrow> Inl As_No_Config_Dir
      | Inr dir \<Rightarrow> Inr \<lparr>fp_parent = Some dir, fp_name = Some ''ai-providers.toml''\<rparr>)"

definition ai_file_load ::
    "ai_provider_file codec \<Rightarrow> file_path \<Rightarrow> disk \<Rightarrow> (ai_settings_error + ai_provider_file) \<times> disk" where
  "ai_file_load toml path d =
     (case read_to_string path d of
        (Inr contents, d') \<Rightarrow> (ai_file_parse toml contents, d')
      | (Inl Not_Found, d') \<Rightarrow> (Inr ai_file_empty, d')
      | (Inl e, d') \<Rightarrow> (Inl (As_Io e), d'))"

definition ap_write_new_file :: "file_path \<Rightarrow> string \<Rightarrow> unit disk_op" where
  "ap_write_new_file path contents =
     io_bind (create_new_user_only path) (\<lambda>_. io_bind (write_all path contents) (\<lambda>_. sync_all))"

definition ai_file_save ::
    "ai_provider_file codec \<Rightarrow> file_path \<Rightarrow> ai_provider_file \<Rightarrow> disk \<Rightarrow> (ai_settings_error + unit) \<times> disk" where
  "ai_file_save toml path file =
     (case to_text toml file of
        Inl e \<Rightarrow> io_of (Inl (As_Serialize e))
      | Inr contents \<Rightarrow> io_map_err As_Io (replace_file ap_write_new_file ''.ai-providers.toml'' path contents))"

section \<open>The admin\<close>

record ai_admin =
  aa_path :: file_path
  aa_file :: ai_provider_file
  aa_disk :: disk
  aa_keys :: "string \<rightharpoonup> string"
  aa_key_faults :: "string option list"

type_synonym 'a ai_admin_op = "ai_admin \<Rightarrow> (ai_settings_error + 'a) \<times> ai_admin"

definition ai_key_call ::
    "string \<Rightarrow> ((string \<rightharpoonup> string) \<Rightarrow> (secret_error + 'a) \<times> (string \<rightharpoonup> string)) \<Rightarrow>
     ai_admin \<Rightarrow> (secret_error + 'a) \<times> ai_admin" where
  "ai_key_call key_ref effect s =
     (case aa_key_faults s of
        Some source # faults \<Rightarrow> (Inl (Secret_Backend key_ref source), s\<lparr>aa_key_faults := faults\<rparr>)
      | faults \<Rightarrow>
          (case effect (aa_keys s) of
             (r, keys) \<Rightarrow> (r, s\<lparr>aa_keys := keys, aa_key_faults := tl faults\<rparr>)))"

definition ai_key_get :: "string \<Rightarrow> ai_admin \<Rightarrow> (secret_error + string) \<times> ai_admin" where
  "ai_key_get key_ref = ai_key_call key_ref (\<lambda>keys. (ok_or (Secret_Not_Found key_ref) (keys key_ref), keys))"

definition ai_key_set :: "string \<Rightarrow> string \<Rightarrow> ai_admin \<Rightarrow> (secret_error + unit) \<times> ai_admin" where
  "ai_key_set key_ref secret = ai_key_call key_ref (\<lambda>keys. (Inr (), keys(key_ref \<mapsto> secret)))"

definition ai_key_delete :: "string \<Rightarrow> ai_admin \<Rightarrow> (secret_error + unit) \<times> ai_admin" where
  "ai_key_delete key_ref = ai_key_call key_ref (\<lambda>keys.
     if keys key_ref = None then (Inl (Secret_Not_Found key_ref), keys) else (Inr (), keys(key_ref := None)))"

text \<open>\<open>let _ =\<close> over a list of keyring calls: each is made, whatever the one before answered.\<close>

fun ai_each :: "('a \<Rightarrow> ai_admin \<Rightarrow> ai_admin) \<Rightarrow> 'a list \<Rightarrow> ai_admin \<Rightarrow> ai_admin" where
  "ai_each f [] s = s"
| "ai_each f (x # xs) s = ai_each f xs (f x s)"

definition ai_save :: "ai_provider_file codec \<Rightarrow> ai_provider_file \<Rightarrow> unit ai_admin_op" where
  "ai_save toml file s =
     (case ai_file_save toml (aa_path s) file (aa_disk s) of (r, d) \<Rightarrow> (r, s\<lparr>aa_disk := d\<rparr>))"

definition ai_admin_open ::
    "ai_provider_file codec \<Rightarrow> file_path \<Rightarrow> (string \<rightharpoonup> string) \<Rightarrow> string option list \<Rightarrow> disk \<Rightarrow>
     (ai_settings_error + ai_admin) \<times> disk" where
  "ai_admin_open toml path keys faults d =
     (case ai_file_load toml path d of
        (Inl e, d') \<Rightarrow> (Inl e, d')
      | (Inr file, d') \<Rightarrow>
          (Inr \<lparr>aa_path = path, aa_file = file, aa_disk = d', aa_keys = keys, aa_key_faults = faults\<rparr>, d'))"

definition ai_entries :: "ai_admin \<Rightarrow> ai_provider_entry list" where
  "ai_entries s = apf_providers (aa_file s)"

definition ai_active_id :: "ai_admin \<Rightarrow> string option" where
  "ai_active_id s = apf_active_id (aa_file s)"

definition ai_find_index :: "ai_provider_file \<Rightarrow> string \<Rightarrow> nat option" where
  "ai_find_index file i = position (\<lambda>e. ape_id e = i) (apf_providers file)"

definition ai_keyring_ref :: "string \<Rightarrow> string \<Rightarrow> string" where
  "ai_keyring_ref i field = ''dbboard.ai.'' @ i @ ''.'' @ field"

fun ai_keyring_refs_in :: "ai_provider_kind \<Rightarrow> string list" where
  "ai_keyring_refs_in (Anthropic_Kind _ r) = [r]"
| "ai_keyring_refs_in (Openai_Kind _ r) = [r]"

datatype ai_kind_draft = Anthropic_Draft "string option" string | Openai_Draft "string option" string

record ai_provider_draft =
  apd_id :: string
  apd_name :: string
  apd_kind :: ai_kind_draft

datatype ai_kind_edit =
    Anthropic_Edit "string option" secret_field
  | Openai_Edit "string option" secret_field

record ai_provider_edit =
  apx_name :: string
  apx_kind :: ai_kind_edit

fun ai_build_kind_for_add :: "string \<Rightarrow> ai_kind_draft \<Rightarrow> ai_provider_kind \<times> (string \<times> string) list" where
  "ai_build_kind_for_add i (Anthropic_Draft model api_key) =
     (Anthropic_Kind model (ai_keyring_ref i ''api_key''), [(ai_keyring_ref i ''api_key'', api_key)])"
| "ai_build_kind_for_add i (Openai_Draft model api_key) =
     (Openai_Kind model (ai_keyring_ref i ''api_key''), [(ai_keyring_ref i ''api_key'', api_key)])"

text \<open>The writes of an add: the first failure ends the call where it stands.\<close>

fun ai_write_secrets :: "(string \<times> string) list \<Rightarrow> unit ai_admin_op" where
  "ai_write_secrets [] s = (Inr (), s)"
| "ai_write_secrets ((key_ref, secret) # writes) s =
     (case ai_key_set key_ref secret s of
        (Inl e, s') \<Rightarrow> (Inl (As_Secret e), s')
      | (Inr _, s') \<Rightarrow> ai_write_secrets writes s')"

definition ai_add :: "ai_provider_file codec \<Rightarrow> ai_provider_draft \<Rightarrow> ai_provider_entry ai_admin_op" where
  "ai_add toml draft s =
     (if ai_find_index (aa_file s) (apd_id draft) \<noteq> None then (Inl (As_Duplicate_Id (apd_id draft)), s)
      else
        let (kind, writes) = ai_build_kind_for_add (apd_id draft) (apd_kind draft);
            entry = \<lparr>ape_id = apd_id draft, ape_name = apd_name draft, ape_kind = kind\<rparr>;
            new_file = (aa_file s)\<lparr>apf_providers := apf_providers (aa_file s) @ [entry]\<rparr>
        in case ai_write_secrets writes s of
             (Inl e, s1) \<Rightarrow> (Inl e, s1)
           | (Inr _, s1) \<Rightarrow>
               (case ai_save toml new_file s1 of
                  (Inl e, s2) \<Rightarrow> (Inl e, ai_each (\<lambda>w s. snd (ai_key_delete (fst w) s)) writes s2)
                | (Inr _, s2) \<Rightarrow> (Inr entry, s2\<lparr>aa_file := new_file\<rparr>)))"

text \<open>A write of an update remembers what it replaced.\<close>

definition ai_apply_secret_write :: "string \<Rightarrow> string \<Rightarrow> (string \<times> string option) ai_admin_op" where
  "ai_apply_secret_write key_ref secret s =
     (let write = (\<lambda>old s. case ai_key_set key_ref secret s of
            (Inl e, s') \<Rightarrow> (Inl (As_Secret e), s')
          | (Inr _, s') \<Rightarrow> (Inr (key_ref, old), s'))
      in case ai_key_get key_ref s of
           (Inr old, s') \<Rightarrow> write (Some old) s'
         | (Inl (Secret_Not_Found _), s') \<Rightarrow> write None s'
         | (Inl e, s') \<Rightarrow> (Inl (As_Secret e), s'))"

definition ai_apply_api_key :: "string \<Rightarrow> secret_field \<Rightarrow> (string \<times> string option) list ai_admin_op" where
  "ai_apply_api_key key_ref field =
     (case field of
        Keep_Secret \<Rightarrow> io_of (Inr [])
      | Set_Secret secret \<Rightarrow> io_bind (ai_apply_secret_write key_ref secret) (\<lambda>w. io_of (Inr [w])))"

fun ai_apply_update_kind ::
    "string \<Rightarrow> ai_provider_kind \<Rightarrow> ai_kind_edit \<Rightarrow> (ai_provider_kind \<times> (string \<times> string option) list) ai_admin_op" where
  "ai_apply_update_kind i (Anthropic_Kind _ key_ref) (Anthropic_Edit model api_key) =
     io_bind (ai_apply_api_key key_ref api_key) (\<lambda>applied. io_of (Inr (Anthropic_Kind model key_ref, applied)))"
| "ai_apply_update_kind i (Openai_Kind _ key_ref) (Openai_Edit model api_key) =
     io_bind (ai_apply_api_key key_ref api_key) (\<lambda>applied. io_of (Inr (Openai_Kind model key_ref, applied)))"
| "ai_apply_update_kind i _ _ = io_of (Inl (As_Kind_Mismatch i))"

definition ai_restore_write :: "string \<times> string option \<Rightarrow> ai_admin \<Rightarrow> ai_admin" where
  "ai_restore_write w s =
     (case w of
        (key_ref, Some old) \<Rightarrow> snd (ai_key_set key_ref old s)
      | (key_ref, None) \<Rightarrow> snd (ai_key_delete key_ref s))"

definition ai_update ::
    "ai_provider_file codec \<Rightarrow> string \<Rightarrow> ai_provider_edit \<Rightarrow> ai_provider_entry ai_admin_op" where
  "ai_update toml i draft s =
     (case ai_find_index (aa_file s) i of
        None \<Rightarrow> (Inl (As_Not_Found i), s)
      | Some idx \<Rightarrow>
          (case ai_apply_update_kind i (ape_kind (apf_providers (aa_file s) ! idx)) (apx_kind draft) s of
             (Inl e, s1) \<Rightarrow> (Inl e, s1)
           | (Inr (kind, applied), s1) \<Rightarrow>
               let entry = \<lparr>ape_id = i, ape_name = apx_name draft, ape_kind = kind\<rparr>;
                   new_file = (aa_file s1)\<lparr>apf_providers := (apf_providers (aa_file s1))[idx := entry]\<rparr>
               in case ai_save toml new_file s1 of
                    (Inl e, s2) \<Rightarrow> (Inl e, ai_each ai_restore_write applied s2)
                  | (Inr _, s2) \<Rightarrow> (Inr entry, s2\<lparr>aa_file := new_file\<rparr>)))"

definition ai_without :: "nat \<Rightarrow> string \<Rightarrow> ai_provider_file \<Rightarrow> ai_provider_file" where
  "ai_without idx i file = file\<lparr>
     apf_active_id := (if apf_active_id file = Some i then None else apf_active_id file),
     apf_providers := take idx (apf_providers file) @ drop (Suc idx) (apf_providers file)\<rparr>"

definition ai_delete :: "ai_provider_file codec \<Rightarrow> string \<Rightarrow> unit ai_admin_op" where
  "ai_delete toml i s =
     (case ai_find_index (aa_file s) i of
        None \<Rightarrow> (Inl (As_Not_Found i), s)
      | Some idx \<Rightarrow>
          let removed = apf_providers (aa_file s) ! idx;
              new_file = ai_without idx i (aa_file s)
          in case ai_save toml new_file s of
               (Inl e, s1) \<Rightarrow> (Inl e, s1)
             | (Inr _, s1) \<Rightarrow>
                 (Inr (), ai_each (\<lambda>r s. snd (ai_key_delete r s)) (ai_keyring_refs_in (ape_kind removed))
                   (s1\<lparr>aa_file := new_file\<rparr>)))"

definition ai_set_active :: "ai_provider_file codec \<Rightarrow> string option \<Rightarrow> unit ai_admin_op" where
  "ai_set_active toml target s =
     (case target of
        Some i \<Rightarrow>
          if ai_find_index (aa_file s) i = None then (Inl (As_Not_Found i), s)
          else io_bind (ai_save toml ((aa_file s)\<lparr>apf_active_id := target\<rparr>))
            (\<lambda>_ s'. (Inr (), s'\<lparr>aa_file := (aa_file s')\<lparr>apf_active_id := target\<rparr>\<rparr>)) s
      | None \<Rightarrow>
          io_bind (ai_save toml ((aa_file s)\<lparr>apf_active_id := None\<rparr>))
            (\<lambda>_ s'. (Inr (), s'\<lparr>aa_file := (aa_file s')\<lparr>apf_active_id := None\<rparr>\<rparr>)) s)"

end
