(* ===== verification/Ai_Desktop.thy ===== *)
theory Ai_Desktop
  imports Ai_Stream Ai_Store Mcp_Tools
begin

text \<open>
  The assistant in the desktop app (\<open>ai/mod.rs\<close>, \<open>ai/providers.rs\<close>): the live provider in its slot, the
  admin behind the management commands, the two requests and their cancellation. Lines written to the
  standard error are not kept. The user can press cancel at any time: a run is given the presses that
  fall before the stream is driven, and before each of its events.
\<close>

section \<open>State\<close>

record ai_state =
  as_slot :: "ai_provider option"
  as_admin :: "ai_admin option"
  as_cancel :: bool

text \<open>A model typed as blanks counts as none.\<close>

definition none_if_blank :: "string option \<Rightarrow> string option" where
  "none_if_blank v = (case v of Some s \<Rightarrow> if trim s \<noteq> [] then Some s else None | None \<Rightarrow> None)"

definition secret_field :: "string option \<Rightarrow> secret_field" where
  "secret_field v = (case v of Some s \<Rightarrow> if trim s \<noteq> [] then Set_Secret s else Keep_Secret | None \<Rightarrow> Keep_Secret)"

definition map_err :: "('e \<Rightarrow> 'f) \<Rightarrow> 'e + 'a \<Rightarrow> 'f + 'a" where
  "map_err f r = (case r of Inl e \<Rightarrow> Inl (f e) | Inr x \<Rightarrow> Inr x)"

definition make_anthropic :: "ai_network \<Rightarrow> string \<Rightarrow> string option \<Rightarrow> ai_error + ai_provider" where
  "make_anthropic net key model =
     rmap Anthropic_Provider
       (case model of Some m \<Rightarrow> anthropic_new net key m | None \<Rightarrow> anthropic_with_default_model net key)"

definition make_openai :: "ai_network \<Rightarrow> string \<Rightarrow> string option \<Rightarrow> ai_error + ai_provider" where
  "make_openai net key model =
     rmap Openai_Provider
       (case model of Some m \<Rightarrow> openai_new net key m | None \<Rightarrow> openai_with_default_model net key)"

definition look_up_api_key :: "string \<Rightarrow> ai_admin \<Rightarrow> (string + string) \<times> ai_admin" where
  "look_up_api_key key_ref =
     io_map_err (\<lambda>e. ''api key lookup failed for '' @ key_ref @ '': '' @ secret_error_display e) (ai_key_get key_ref)"

fun build_provider_for_kind ::
    "ai_network \<Rightarrow> ai_provider_kind \<Rightarrow> ai_admin \<Rightarrow> (string + ai_provider) \<times> ai_admin" where
  "build_provider_for_kind net (Anthropic_Kind model key_ref) =
     io_bind (look_up_api_key key_ref)
       (\<lambda>key. io_of (map_err ai_error_display (make_anthropic net key (none_if_blank model))))"
| "build_provider_for_kind net (Openai_Kind model key_ref) =
     io_bind (look_up_api_key key_ref)
       (\<lambda>key. io_of (map_err ai_error_display (make_openai net key (none_if_blank model))))"

definition entry_kind :: "ai_admin \<Rightarrow> string \<Rightarrow> ai_provider_kind option" where
  "entry_kind admin i = map_option ape_kind (find (\<lambda>e. ape_id e = i) (ai_entries admin))"

text \<open>The chain at startup: the environment, else the active entry, else nothing.\<close>

definition resolve_initial_provider ::
    "ai_network \<Rightarrow> string option \<Rightarrow> string option \<Rightarrow> ai_admin option \<Rightarrow> ai_provider option \<times> ai_admin option" where
  "resolve_initial_provider net env_api_key env_model admin =
     (case none_if_blank (map_option trim env_api_key) of
        Some key \<Rightarrow>
          ((case make_anthropic net key (none_if_blank (map_option trim env_model)) of
              Inr pv \<Rightarrow> Some pv | Inl _ \<Rightarrow> None), admin)
      | None \<Rightarrow>
          (case admin of
             None \<Rightarrow> (None, None)
           | Some s \<Rightarrow>
               (case Option.bind (ai_active_id s) (entry_kind s) of
                  None \<Rightarrow> (None, Some s)
                | Some kind \<Rightarrow>
                    (case build_provider_for_kind net kind s of
                       (Inr pv, s') \<Rightarrow> (Some pv, Some s')
                     | (Inl _, s') \<Rightarrow> (None, Some s')))))"

definition ai_bootstrap ::
    "ai_network \<Rightarrow> ai_provider_file codec \<Rightarrow> ai_settings_error + file_path \<Rightarrow> string option \<Rightarrow> string option \<Rightarrow>
     (string \<rightharpoonup> string) \<Rightarrow> string option list \<Rightarrow> disk \<Rightarrow> ai_state" where
  "ai_bootstrap net toml path env_api_key env_model keys faults d =
     (let admin = (case path of
            Inl _ \<Rightarrow> None
          | Inr p \<Rightarrow> (case fst (ai_admin_open toml p keys faults d) of Inr a \<Rightarrow> Some a | Inl _ \<Rightarrow> None))
      in case resolve_initial_provider net env_api_key env_model admin of
           (pv, admin') \<Rightarrow> \<lparr>as_slot = pv, as_admin = admin', as_cancel = False\<rparr>)"

section \<open>The dialect of a connection\<close>

fun kind_adapter_id :: "connection_kind \<Rightarrow> string" where
  "kind_adapter_id (Turso _) = ''turso''"
| "kind_adapter_id (Turso_Remote _ _) = ''turso''"
| "kind_adapter_id (D1 _ _ _ _) = ''d1''"
| "kind_adapter_id (connection_kind.Postgres _) = ''postgres''"
| "kind_adapter_id (My_Sql _) = ''mysql''"
| "kind_adapter_id (Neon _) = ''neon''"
| "kind_adapter_id (Supabase _) = ''supabase''"
| "kind_adapter_id (Aurora_Dsql _) = ''aurora-dsql''"
| "kind_adapter_id (Aurora_Dsql_Iam _ _ _ _ _ _) = ''aurora-dsql''"
| "kind_adapter_id (Firestore _ _ _ _) = ''firestore''"
| "kind_adapter_id (Mongo_Db _ _) = ''mongodb''"
| "kind_adapter_id (Redis _ _ _) = ''redis''"

definition dialect_label_for_kind :: "connection_kind \<Rightarrow> string option" where
  "dialect_label_for_kind kind =
     map_option (\<lambda>d. case d of Sqlite \<Rightarrow> ''sqlite'' | sql_dialect.Postgres \<Rightarrow> ''postgres'' | MySql \<Rightarrow> ''mysql'')
       (dialect_for_adapter_id (kind_adapter_id kind))"

definition dialect_for_connection :: "connection_entry list \<Rightarrow> string \<Rightarrow> string option" where
  "dialect_for_connection entries i =
     Option.bind (find (\<lambda>e. ce_id e = i) entries) (\<lambda>e. dialect_label_for_kind (ce_kind e))"

section \<open>Driving a stream\<close>

record stream_acc =
  sa_text :: string
  sa_tokens_in :: u32
  sa_tokens_out :: u32

definition stream_acc_new :: stream_acc where
  "stream_acc_new = \<lparr>sa_text = [], sa_tokens_in = 0, sa_tokens_out = 0\<rparr>"

text \<open>The counts replace one another; the answer is the text to append, if any.\<close>

fun acc_apply :: "stream_event \<Rightarrow> stream_acc \<Rightarrow> string option \<times> stream_acc" where
  "acc_apply (Message_Start tokens_in) acc = (None, acc\<lparr>sa_tokens_in := tokens_in\<rparr>)"
| "acc_apply (Text_Delta delta) acc = (Some delta, acc\<lparr>sa_text := sa_text acc @ delta\<rparr>)"
| "acc_apply (Usage tokens_in tokens_out) acc =
     (None, acc\<lparr>sa_tokens_in := tokens_in, sa_tokens_out := tokens_out\<rparr>)"
| "acc_apply (Message_Stop _) acc = (None, acc)"
| "acc_apply (Stream_Error _) acc = (None, acc)"

record ai_chunk =
  ch_text_delta :: string
  ch_tokens_in :: u32
  ch_tokens_out :: u32

record ai_outcome =
  ao_text :: string
  ao_tokens_in :: u32
  ao_tokens_out :: u32
  ao_cancelled :: bool
  ao_prefetch_warnings :: u32

definition outcome_of :: "stream_acc \<Rightarrow> bool \<Rightarrow> u32 \<Rightarrow> ai_outcome" where
  "outcome_of acc cancelled warnings =
     \<lparr>ao_text = sa_text acc, ao_tokens_in = sa_tokens_in acc, ao_tokens_out = sa_tokens_out acc,
      ao_cancelled = cancelled, ao_prefetch_warnings = warnings\<rparr>"

text \<open>The chunk emitted for an event.\<close>

definition chunk_of :: "stream_event \<Rightarrow> stream_acc \<Rightarrow> ai_chunk" where
  "chunk_of event acc =
     (case acc_apply event acc of
        (delta, acc') \<Rightarrow> \<lparr>ch_text_delta = (case delta of Some t \<Rightarrow> t | None \<Rightarrow> []),
          ch_tokens_in = sa_tokens_in acc', ch_tokens_out = sa_tokens_out acc'\<rparr>)"

fun item_error :: "ai_error + stream_event \<Rightarrow> ai_error option" where
  "item_error (Inl e) = Some e"
| "item_error (Inr (Stream_Error e)) = Some e"
| "item_error (Inr _) = None"

fun is_message_stop :: "stream_event \<Rightarrow> bool" where
  "is_message_stop (Message_Stop _) = True"
| "is_message_stop _ = False"

text \<open>
  The loop, over the events with the presses that came before each: the answer, the chunks emitted to
  the window and the flag it leaves.
\<close>

fun drive_loop ::
    "u32 \<Rightarrow> bool \<Rightarrow> stream_acc \<Rightarrow> (bool \<times> (ai_error + stream_event)) list \<Rightarrow>
     (string + ai_outcome) \<times> ai_chunk list \<times> bool" where
  "drive_loop warnings cancel acc [] = (Inr (outcome_of acc False warnings), [], cancel)"
| "drive_loop warnings cancel acc ((pressed, item) # rest) =
     (if cancel \<or> pressed then (Inr (outcome_of acc True warnings), [], True)
      else case item_error item of
        Some e \<Rightarrow> (Inl (ai_error_display e), [], False)
      | None \<Rightarrow>
          let event = projr item; acc' = snd (acc_apply event acc)
          in if is_message_stop event then (Inr (outcome_of acc' False warnings), [chunk_of event acc], False)
             else case drive_loop warnings False acc' rest of
               (r, emitted, cancel') \<Rightarrow> (r, chunk_of event acc # emitted, cancel'))"

text \<open>The presses before each event, as many as there are; the flag is cleared before the first.\<close>

fun with_presses :: "bool list \<Rightarrow> 'a list \<Rightarrow> (bool \<times> 'a) list" where
  "with_presses presses [] = []"
| "with_presses [] (x # xs) = (False, x) # with_presses [] xs"
| "with_presses (b # bs) (x # xs) = (b, x) # with_presses bs xs"

definition drive_stream ::
    "u32 \<Rightarrow> bool list \<Rightarrow> (ai_error + stream_event) list \<Rightarrow> ai_state \<Rightarrow>
     (string + ai_outcome) \<times> ai_chunk list \<times> ai_state" where
  "drive_stream warnings presses events st =
     (case drive_loop warnings False stream_acc_new (with_presses presses events) of
        (r, emitted, cancel) \<Rightarrow> (r, emitted, st\<lparr>as_cancel := cancel\<rparr>))"

section \<open>Commands\<close>

record ai_status =
  st_active :: bool
  st_provider_label :: "string option"
  st_has_streaming :: bool
  st_can_manage :: bool

definition ai_status :: "ai_state \<Rightarrow> ai_status" where
  "ai_status st =
     (case as_slot st of
        Some pv \<Rightarrow>
          (case provider_identity pv of
             (name, model) \<Rightarrow>
               \<lparr>st_active = True,
                st_provider_label = Some (if trim model = [] then name else name @ '' '' @ [CHR 0xB7] @ '' '' @ model),
                st_has_streaming = has_streaming (provider_capabilities pv),
                st_can_manage = as_admin st \<noteq> None\<rparr>)
      | None \<Rightarrow> \<lparr>st_active = False, st_provider_label = None, st_has_streaming = False,
          st_can_manage = as_admin st \<noteq> None\<rparr>)"

definition cancel_ai :: "ai_state \<Rightarrow> ai_state" where
  "cancel_ai st = st\<lparr>as_cancel := True\<rparr>"

text \<open>What the user does while the request is being opened.\<close>

definition while_opening :: "bool \<Rightarrow> ai_state \<Rightarrow> ai_state" where
  "while_opening pressed st = (if pressed then cancel_ai st else st)"

definition NO_PROVIDER :: string where "NO_PROVIDER = ''no AI provider is configured''"

definition ai_explain ::
    "ai_network \<Rightarrow> ai_wire \<Rightarrow> connection_entry list \<Rightarrow> string option \<Rightarrow> string \<Rightarrow> bool \<Rightarrow> bool list \<Rightarrow> ai_state \<Rightarrow>
     (string + ai_outcome) \<times> ai_chunk list \<times> ai_state" where
  "ai_explain net wire entries connection sql early presses st =
     (case as_slot st of
        None \<Rightarrow> (Inl NO_PROVIDER, [], st)
      | Some pv \<Rightarrow>
          (case stream_explain net wire pv
              \<lparr>er_sql = sql, er_dialect = Option.bind connection (dialect_for_connection entries)\<rparr> of
             Inl e \<Rightarrow> (Inl (ai_error_display e), [], while_opening early st)
           | Inr events \<Rightarrow> drive_stream 0 presses events (while_opening early st)))"

text \<open>Each table's description, and how many could not be had.\<close>

fun prefetch ::
    "('w, 'u, 'x) ports \<Rightarrow> string \<Rightarrow> table_info list \<Rightarrow> u32 \<Rightarrow> table_schema list \<Rightarrow>
     'w service \<Rightarrow> (table_schema list \<times> u32) \<times> 'w service" where
  "prefetch p i [] warnings described s = ((described, warnings), s)"
| "prefetch p i (table # tables) warnings described s =
     (case describe_table p (target_of i) (ti_schema table) (ti_name table) s of
        (Inr ts, s') \<Rightarrow> prefetch p i tables warnings (described @ [ts]) s'
      | (Inl _, s') \<Rightarrow> prefetch p i tables (warnings + 1) described s')"

definition suggest_prefetch ::
    "('w, 'u, 'x) ports \<Rightarrow> string \<Rightarrow> bool \<Rightarrow> table_info list \<Rightarrow>
     'w service \<Rightarrow> (table_schema list option \<times> u32) \<times> 'w service" where
  "suggest_prefetch p i details schema s =
     (if details \<and> schema \<noteq> []
      then (case prefetch p i schema 0 [] s of ((described, warnings), s') \<Rightarrow> ((Some described, warnings), s'))
      else ((None, 0), s))"

definition ai_suggest ::
    "ai_network \<Rightarrow> ai_wire \<Rightarrow> ('w, 'u, 'x) ports \<Rightarrow> connection_entry list \<Rightarrow> string \<Rightarrow> string \<Rightarrow> bool \<Rightarrow>
     bool \<Rightarrow> bool list \<Rightarrow> ai_state \<Rightarrow> 'w service \<Rightarrow>
     ((string + ai_outcome) \<times> ai_chunk list \<times> ai_state) \<times> 'w service" where
  "ai_suggest net wire p entries i prompt details early presses st s =
     (case as_slot st of
        None \<Rightarrow> ((Inl NO_PROVIDER, [], st), s)
      | Some pv \<Rightarrow>
          (case list_tables p (target_of i) s of
             (Inl e, s1) \<Rightarrow> ((Inl (service_error_display (po_io_text p) e), [], while_opening early st), s1)
           | (Inr schema, s1) \<Rightarrow>
               (case suggest_prefetch p i details schema s1 of
                  ((full, warnings), s2) \<Rightarrow>
                    (case stream_suggest_sql net wire pv
                        \<lparr>sr_prompt = prompt, sr_dialect = dialect_for_connection entries i,
                         sr_schema = schema, sr_full_schema = full\<rparr> of
                       Inl e \<Rightarrow> ((Inl (ai_error_display e), [], while_opening early st), s2)
                     | Inr events \<Rightarrow> (drive_stream warnings presses events (while_opening early st), s2)))))"

section \<open>Managing the providers\<close>

type_synonym 'a ai_command = "ai_state \<Rightarrow> (string + 'a) \<times> ai_state"

definition NO_STORAGE :: string where
  "NO_STORAGE = ''AI provider storage is unavailable on this host''"

definition no_such_provider :: "string \<Rightarrow> string" where
  "no_such_provider i = ''no AI provider with id '' @ [CHR 0x22] @ i @ [CHR 0x22]"

record ai_provider_view =
  av_id :: string
  av_name :: string
  av_kind :: string
  av_model :: "string option"
  av_active :: bool

fun kind_view :: "ai_provider_kind \<Rightarrow> string \<times> string option" where
  "kind_view (Anthropic_Kind model _) = (''anthropic'', model)"
| "kind_view (Openai_Kind model _) = (''openai'', model)"

definition provider_view :: "string option \<Rightarrow> ai_provider_entry \<Rightarrow> ai_provider_view" where
  "provider_view active e =
     \<lparr>av_id = ape_id e, av_name = ape_name e, av_kind = fst (kind_view (ape_kind e)),
      av_model = snd (kind_view (ape_kind e)), av_active = (active = Some (ape_id e))\<rparr>"

definition list_ai_providers :: "ai_provider_view list ai_command" where
  "list_ai_providers st =
     (case as_admin st of
        None \<Rightarrow> (Inl NO_STORAGE, st)
      | Some s \<Rightarrow> (Inr (map (provider_view (ai_active_id s)) (ai_entries s)), st))"

datatype ai_kind_input =
    Anthropic_Input "string option" "string option"
  | Openai_Input "string option" "string option"

definition require_key :: "string option \<Rightarrow> string + string" where
  "require_key api_key = ok_or ''an API key is required to add a provider'' (none_if_blank api_key)"

fun to_add_kind :: "ai_kind_input \<Rightarrow> string + ai_kind_draft" where
  "to_add_kind (Anthropic_Input model api_key) = rmap (Anthropic_Draft (none_if_blank model)) (require_key api_key)"
| "to_add_kind (Openai_Input model api_key) = rmap (Openai_Draft (none_if_blank model)) (require_key api_key)"

fun to_edit_kind :: "ai_provider_kind \<Rightarrow> string option \<Rightarrow> secret_field \<Rightarrow> ai_kind_edit" where
  "to_edit_kind (Anthropic_Kind _ _) model api_key = Anthropic_Edit model api_key"
| "to_edit_kind (Openai_Kind _ _) model api_key = Openai_Edit model api_key"

text \<open>A call of the admin, with its error as text.\<close>

definition ai_say :: "(io_error \<Rightarrow> string) \<Rightarrow> (ai_settings_error + 'a) \<times> ai_admin \<Rightarrow> ai_state \<Rightarrow> (string + unit) \<times> ai_state" where
  "ai_say io answer st =
     (case answer of
        (Inl e, s) \<Rightarrow> (Inl (ai_settings_error_display io e), st\<lparr>as_admin := Some s\<rparr>)
      | (Inr _, s) \<Rightarrow> (Inr (), st\<lparr>as_admin := Some s\<rparr>))"

definition add_ai_provider ::
    "ai_provider_file codec \<Rightarrow> (io_error \<Rightarrow> string) \<Rightarrow> string \<Rightarrow> string \<Rightarrow> ai_kind_input \<Rightarrow> unit ai_command" where
  "add_ai_provider toml io i name kind st =
     (case to_add_kind kind of
        Inl e \<Rightarrow> (Inl e, st)
      | Inr draft \<Rightarrow>
          (case as_admin st of
             None \<Rightarrow> (Inl NO_STORAGE, st)
           | Some s \<Rightarrow> ai_say io (ai_add toml \<lparr>apd_id = i, apd_name = name, apd_kind = draft\<rparr> s) st))"

text \<open>The slot after an edit or a delete: empty with no active entry, else rebuilt from it.\<close>

definition resync_active_slot :: "ai_network \<Rightarrow> ai_state \<Rightarrow> ai_state" where
  "resync_active_slot net st =
     (case as_admin st of
        None \<Rightarrow> st
      | Some s \<Rightarrow>
          (case ai_active_id s of
             None \<Rightarrow> st\<lparr>as_slot := None\<rparr>
           | Some i \<Rightarrow>
               (case entry_kind s i of
                  None \<Rightarrow> st
                | Some kind \<Rightarrow>
                    (case build_provider_for_kind net kind s of
                       (Inr pv, s') \<Rightarrow> st\<lparr>as_slot := Some pv, as_admin := Some s'\<rparr>
                     | (Inl _, s') \<Rightarrow> st\<lparr>as_admin := Some s'\<rparr>))))"

definition then_resync :: "ai_network \<Rightarrow> (string + unit) \<times> ai_state \<Rightarrow> (string + unit) \<times> ai_state" where
  "then_resync net answer =
     (case answer of (Inl e, st) \<Rightarrow> (Inl e, st) | (Inr _, st) \<Rightarrow> (Inr (), resync_active_slot net st))"

definition update_ai_provider ::
    "ai_network \<Rightarrow> ai_provider_file codec \<Rightarrow> (io_error \<Rightarrow> string) \<Rightarrow> string \<Rightarrow> string \<Rightarrow> string option \<Rightarrow> string option \<Rightarrow>
     unit ai_command" where
  "update_ai_provider net toml io i name model api_key st =
     (case as_admin st of
        None \<Rightarrow> (Inl NO_STORAGE, st)
      | Some s \<Rightarrow>
          (case entry_kind s i of
             None \<Rightarrow> (Inl (no_such_provider i), st)
           | Some kind \<Rightarrow>
               then_resync net (ai_say io (ai_update toml i
                 \<lparr>apx_name = name, apx_kind = to_edit_kind kind (none_if_blank model) (secret_field api_key)\<rparr> s) st)))"

definition delete_ai_provider ::
    "ai_network \<Rightarrow> ai_provider_file codec \<Rightarrow> (io_error \<Rightarrow> string) \<Rightarrow> string \<Rightarrow> unit ai_command" where
  "delete_ai_provider net toml io i st =
     (case as_admin st of
        None \<Rightarrow> (Inl NO_STORAGE, st)
      | Some s \<Rightarrow> then_resync net (ai_say io (ai_delete toml i s) st))"

text \<open>
  Activating builds the provider first; once it is in the slot, a failure to record it is only logged.
  Clearing empties the slot, then reports a failure to record it.
\<close>

definition set_active_ai_provider ::
    "ai_network \<Rightarrow> ai_provider_file codec \<Rightarrow> (io_error \<Rightarrow> string) \<Rightarrow> string option \<Rightarrow> unit ai_command" where
  "set_active_ai_provider net toml io target st =
     (case as_admin st of
        None \<Rightarrow> (Inl NO_STORAGE, st)
      | Some s \<Rightarrow>
          (case target of
             None \<Rightarrow> ai_say io (ai_set_active toml None s) (st\<lparr>as_slot := None\<rparr>)
           | Some i \<Rightarrow>
               (case entry_kind s i of
                  None \<Rightarrow> (Inl (no_such_provider i), st)
                | Some kind \<Rightarrow>
                    (case build_provider_for_kind net kind s of
                       (Inl e, s1) \<Rightarrow> (Inl e, st\<lparr>as_admin := Some s1\<rparr>)
                     | (Inr pv, s1) \<Rightarrow>
                         (Inr (), st\<lparr>as_slot := Some pv, as_admin := Some (snd (ai_set_active toml (Some i) s1))\<rparr>)))))"

end
