(* ===== verification/Ai_Answers.thy ===== *)
theory Ai_Answers
  imports Ai_Proofs Ai_Desktop Mcp_Calls
begin

text \<open>
  The assistant's requests from end to end: what the window shows is what the provider said, a press of
  cancel ends a run at the next event, a text of an error is cut, and no request changes a database.
\<close>

section \<open>Driving a stream\<close>

definition no_early_stop :: "(ai_error + stream_event) list \<Rightarrow> bool" where
  "no_early_stop events \<longleftrightarrow> list_all (\<lambda>e. \<not> terminal e) (butlast events)"

lemma chunk_delta: "item_error item = None \<Longrightarrow> ch_text_delta (chunk_of (projr item) acc) = event_text item"
  by (cases item rule: event_text.cases) (simp_all add: chunk_of_def)

lemma acc_text: "item_error item = None \<Longrightarrow> sa_text (snd (acc_apply (projr item) acc)) = sa_text acc @ event_text item"
  by (cases item rule: event_text.cases) simp_all

lemma stop_terminal: "item_error item = None \<Longrightarrow> is_message_stop (projr item) = terminal item"
  by (cases item rule: terminal.cases) simp_all

lemma terminal_text: "item_error item = None \<Longrightarrow> terminal item \<Longrightarrow> event_text item = []"
  by (cases item rule: terminal.cases) simp_all

text \<open>The number of events a run gets to see: those before the first press.\<close>

definition unpressed :: "bool list \<Rightarrow> nat" where
  "unpressed presses = length (takeWhile (\<lambda>b. \<not> b) presses)"

lemma drive_loop_told:
  assumes "drive_loop warnings False acc (with_presses presses events) = (Inr out, emitted, cancel)"
    and "no_early_stop events"
  shows "ao_text out = sa_text acc @ concat (map ch_text_delta emitted) \<and>
     ao_prefetch_warnings out = warnings \<and>
     concat (map ch_text_delta emitted) =
       concat (map event_text (if ao_cancelled out then take (unpressed presses) events else events)) \<and>
     (ao_cancelled out \<longleftrightarrow> unpressed presses < length presses \<and> unpressed presses < length events)"
  using assms
proof (induction events arbitrary: presses acc emitted)
  case Nil
  then show ?case by (auto simp: outcome_of_def)
next
  case (Cons item events)
  obtain pressed rest where rest: "with_presses presses (item # events) = (pressed, item) # with_presses rest events"
    "pressed = (presses \<noteq> [] \<and> hd presses)" "rest = tl presses"
    using that [of "presses \<noteq> [] \<and> hd presses" "tl presses"] by (cases presses) simp_all
  show ?case
  proof (cases pressed)
    case True
    then have "unpressed presses = 0" "presses \<noteq> []"
      using rest(2) by (cases presses; simp add: unpressed_def)+
    then show ?thesis using Cons.prems(1) rest(1) True by (auto simp: outcome_of_def)
  next
    case False
    then have up: "presses \<noteq> [] \<Longrightarrow> unpressed presses = Suc (unpressed rest)"
      "presses = [] \<Longrightarrow> unpressed presses = 0 \<and> rest = []"
      using rest(2,3) by (cases presses; simp add: unpressed_def)+
    have len: "length presses = (if presses = [] then 0 else Suc (length rest))"
      using rest(3) by (cases presses) simp_all
    have fine: "item_error item = None"
      using Cons.prems(1) rest(1) False by (cases "item_error item") simp_all
    let ?acc = "snd (acc_apply (projr item) acc)"
    show ?thesis
    proof (cases "terminal item")
      case True
      then have "events = []" using Cons.prems(2) by (cases events) (simp_all add: no_early_stop_def)
      then show ?thesis
        using Cons.prems(1) rest(1) False fine True stop_terminal [OF fine] chunk_delta [OF fine] acc_text [OF fine]
          up len
        by (auto simp: outcome_of_def Let_def unpressed_def)
    next
      case more: False
      obtain r tail c where tail: "drive_loop warnings False ?acc (with_presses rest events) = (r, tail, c)"
        by (cases "drive_loop warnings False ?acc (with_presses rest events)") auto
      have whole: "r = Inr out" "emitted = chunk_of (projr item) acc # tail" "c = cancel"
        using Cons.prems(1) rest(1) False fine more stop_terminal [OF fine] tail by (simp_all add: Let_def)
      have "no_early_stop events" using Cons.prems(2) by (cases events) (simp_all add: no_early_stop_def)
      then have told: "ao_text out = sa_text ?acc @ concat (map ch_text_delta tail) \<and>
         ao_prefetch_warnings out = warnings \<and>
         concat (map ch_text_delta tail) =
           concat (map event_text (if ao_cancelled out then take (unpressed rest) events else events)) \<and>
         (ao_cancelled out \<longleftrightarrow> unpressed rest < length rest \<and> unpressed rest < length events)"
        using Cons.IH [of ?acc rest tail] tail whole by simp
      have "unpressed presses < length presses \<longleftrightarrow> unpressed rest < length rest"
        using up len by (cases "presses = []") (auto simp: unpressed_def)
      moreover have "presses = [] \<Longrightarrow> \<not> ao_cancelled out" using told up by (auto simp: unpressed_def)
      ultimately show ?thesis
        using told whole(2) chunk_delta [OF fine] acc_text [OF fine] up by (cases "presses = []") auto
    qed
  qed
qed

section \<open>One request\<close>

fun provider_client :: "ai_provider \<Rightarrow> http_client" where
  "provider_client (Anthropic_Provider pv) = pv_client pv"
| "provider_client (Openai_Provider pv) = pv_client pv"

text \<open>What the items of a source say before they end, in the wire format of the provider.\<close>

fun provider_said :: "ai_wire \<Rightarrow> ai_provider \<Rightarrow> sse_item list \<Rightarrow> string" where
  "provider_said wire (Anthropic_Provider _) items = spoken (anthropic_said wire) (anthropic_final wire) items"
| "provider_said wire (Openai_Provider _) items = spoken (openai_said wire) (openai_final wire) items"

fun explain_post :: "ai_provider \<Rightarrow> explain_request \<Rightarrow> ai_post" where
  "explain_post (Anthropic_Provider pv) req =
     anthropic_post pv ((anthropic_explain_request (pv_model pv) req)\<lparr>mq_stream := True\<rparr>)"
| "explain_post (Openai_Provider pv) req =
     openai_post pv (enable_streaming (openai_explain_request (pv_model pv) req))"

lemma ends_once_no_early: "ends_once final items events \<Longrightarrow> no_early_stop events"
  unfolding ends_once_def no_early_stop_def
  by (cases "list_ex (item_final final) items") (auto simp: list_all_iff dest: in_set_butlastD)

lemma stream_explain_told:
  assumes "stream_explain net wire pv req = Inr events"
  shows "\<exists>items. event_source net (provider_client pv) (explain_post pv req) = Inr items \<and>
     concat (map event_text events) = provider_said wire pv items \<and> no_early_stop events"
  using assms ends_once_no_early [OF anthropic_stream_told(2)] ends_once_no_early [OF openai_stream_told(2)]
  by (cases pv)
    (auto simp: anthropic_stream_told(1) openai_stream_told(1) anthropic_stream_explain_def
      openai_stream_explain_def anthropic_open_stream_def openai_open_stream_def split: sum.splits)

lemma prefix_concat_take: "prefix (concat (map f (take n xs))) (concat (map f xs))"
  by (metis append_take_drop_id concat_append map_append prefixI)

text \<open>
  C26. The assistant's answer is what the provider said. Whichever provider is live and whatever its
  server sends, an explanation that succeeds has as its text the pieces shown in the window, in order;
  unless the user stopped it, that is all the provider said before its stream ended, and a stopped one
  holds a prefix of it, the first press having come before the end.
\<close>

theorem answer_is_what_was_said:
  assumes "as_slot st = Some pv"
    and "ai_explain net wire entries connection sql early presses st = (Inr out, emitted, st')"
  shows "\<exists>items. event_source net (provider_client pv)
       (explain_post pv \<lparr>er_sql = sql, er_dialect = Option.bind connection (dialect_for_connection entries)\<rparr>) =
         Inr items \<and>
     ao_text out = concat (map ch_text_delta emitted) \<and>
     prefix (ao_text out) (provider_said wire pv items) \<and>
     (ao_cancelled out \<longrightarrow> True \<in> set presses) \<and>
     (\<not> ao_cancelled out \<longrightarrow> ao_text out = provider_said wire pv items)"
proof -
  let ?req = "\<lparr>er_sql = sql, er_dialect = Option.bind connection (dialect_for_connection entries)\<rparr>"
  obtain events where events: "stream_explain net wire pv ?req = Inr events"
    and driven: "drive_stream 0 presses events (while_opening early st) = (Inr out, emitted, st')"
    using assms by (auto simp: ai_explain_def split: sum.splits)
  obtain items where items: "event_source net (provider_client pv) (explain_post pv ?req) = Inr items"
    "concat (map event_text events) = provider_said wire pv items" "no_early_stop events"
    using stream_explain_told [OF events] by blast
  obtain cancel where loop:
      "drive_loop 0 False stream_acc_new (with_presses presses events) = (Inr out, emitted, cancel)"
    using driven by (auto simp: drive_stream_def split: prod.splits)
  note told = drive_loop_told [OF loop items(3)]
  have "True \<in> set presses" if "ao_cancelled out"
  proof -
    have "unpressed presses < length presses" using told that by blast
    then show ?thesis
      using nth_mem [of "unpressed presses" presses] nth_length_takeWhile [of "\<lambda>b. \<not> b" presses]
      by (metis (full_types) unpressed_def)
  qed
  then show ?thesis
    using told items prefix_concat_take [of event_text _ events]
    by (intro exI [of _ items]) (auto simp: stream_acc_new_def)
qed

text \<open>
  A press of cancel while the request is being opened, a preview of every table included, is lost: the
  run goes on as if nothing had been pressed.
\<close>

theorem cancel_while_opening_is_lost:
  "stream_explain net wire pv \<lparr>er_sql = sql, er_dialect = Option.bind connection (dialect_for_connection entries)\<rparr> = Inr events \<Longrightarrow>
   as_slot st = Some pv \<Longrightarrow>
   ai_explain net wire entries connection sql True presses st = ai_explain net wire entries connection sql False presses st"
  by (simp add: ai_explain_def drive_stream_def while_opening_def cancel_ai_def split: prod.split)

section \<open>Error texts are cut\<close>

lemma byte_len_append: "byte_len (s @ t) = byte_len s + byte_len t"
  by (simp add: byte_len_def)

lemma byte_len_Nil [simp]: "byte_len [] = 0"
  by (simp add: byte_len_def)

lemma text_upto_prefix: "prefix (text_upto n s) s"
  by (induction n s rule: text_upto.induct) auto

lemma text_upto_bound: "byte_len (text_upto n s) \<le> n"
proof (induction n s rule: text_upto.induct)
  case (2 n c s)
  then show ?case using byte_len_append [of "[c]" "text_upto (n - byte_len [c]) s"] by auto
qed simp

lemma floor_boundary_le: "floor_boundary s n \<le> n"
  by (induction s n rule: floor_boundary.induct) auto

lemma truncate_bound:
  "byte_len (truncate_to_owned s) \<le> MAX_ERROR_DETAIL + byte_len ellipsis"
  using text_upto_bound [of "floor_boundary s MAX_ERROR_DETAIL" s] floor_boundary_le [of s MAX_ERROR_DETAIL]
  by (simp add: truncate_to_owned_def byte_len_append)

lemma truncate_short: "byte_len s \<le> MAX_ERROR_DETAIL \<Longrightarrow> truncate_to_owned s = s"
  by (simp add: truncate_to_owned_def)

text \<open>The cut is at a boundary, so no character is split: it is the longest prefix that fits.\<close>

lemma floor_boundary_prefix:
  "\<exists>t. prefix t s \<and> byte_len t = floor_boundary s n"
proof (induction s n rule: floor_boundary.induct)
  case (1 s)
  show ?case by (intro exI [of _ "[]"]) simp
next
  case (2 s n)
  then show ?case by (auto simp: is_char_boundary_def)
qed

lemma text_upto_exact: "prefix t s \<Longrightarrow> text_upto (byte_len t) s = t \<or> prefix t (text_upto (byte_len t) s)"
proof (induction t arbitrary: s)
  case (Cons c t)
  then obtain s' where s: "s = c # s'" "prefix t s'" by (cases s) auto
  have "byte_len (c # t) = byte_len [c] + byte_len t" using byte_len_append [of "[c]" t] by simp
  then show ?case using s Cons.IH [OF s(2)] by auto
qed simp

lemma body_error_detail_bound: "byte_len (body_error_detail wire body) \<le> MAX_ERROR_DETAIL + byte_len ellipsis"
  by (simp add: body_error_detail_def truncate_bound split: sum.split option.split)

section \<open>No request changes a database\<close>

lemma calm_prefetch:
  assumes "honest data p"
  shows "cache_ok (po_json_text p) data s \<Longrightarrow> prefetch p i tables warnings described s = (r, s') \<Longrightarrow>
     cache_ok (po_json_text p) data s' \<and> data (sv_world s') = data (sv_world s)"
proof (induction tables arbitrary: warnings described s)
  case (Cons table tables)
  obtain a s1 where d: "describe_table p (target_of i) (ti_schema table) (ti_name table) s = (a, s1)"
    by (cases "describe_table p (target_of i) (ti_schema table) (ti_name table) s")
  have calm: "cache_ok (po_json_text p) data s1 \<and> data (sv_world s1) = data (sv_world s)"
    using calmD [OF calm_describe [OF assms] Cons.prems(1) d] by simp
  show ?case
  proof (cases a)
    case (Inl e)
    then show ?thesis using Cons.IH [of s1 "warnings + 1" described] Cons.prems(2) d calm by simp
  next
    case (Inr ts)
    then show ?thesis using Cons.IH [of s1 warnings "described @ [ts]"] Cons.prems(2) d calm by simp
  qed
qed simp

lemma drive_stream_keeps:
  "drive_stream warnings presses events st = (r, emitted, st') \<Longrightarrow>
     as_slot st' = as_slot st \<and> as_admin st' = as_admin st"
  by (auto simp: drive_stream_def split: prod.splits)

lemma while_opening_keeps [simp]:
  "as_slot (while_opening b st) = as_slot st" "as_admin (while_opening b st) = as_admin st"
  by (simp_all add: while_opening_def cancel_ai_def)


end
