(* ===== verification/Ai_Store_Proofs.thy ===== *)
theory Ai_Store_Proofs
  imports Ai_Store Connection_Proofs
begin

text \<open>
  The assistant's admin keeps its two stores together: what each keyring call may change, what a save
  leaves on disk, and that every operation keeps the file well-formed, in step with the disk and backed
  by the keyring, whatever fails under it.
\<close>

section \<open>The keyring alone\<close>

definition ai_step :: "string set \<Rightarrow> ai_admin \<Rightarrow> ai_admin \<Rightarrow> bool" where
  "ai_step K s s' \<longleftrightarrow> aa_path s' = aa_path s \<and> aa_file s' = aa_file s \<and> aa_disk s' = aa_disk s \<and>
     (\<forall>k. k \<notin> K \<longrightarrow> aa_keys s' k = aa_keys s k) \<and> (aa_key_faults s = [] \<longrightarrow> aa_key_faults s' = [])"

lemma ai_step_refl [simp]: "ai_step K s s"
  by (simp add: ai_step_def)

lemma ai_step_trans: "ai_step K s s' \<Longrightarrow> ai_step K s' s'' \<Longrightarrow> ai_step K s s''"
  by (simp add: ai_step_def)

lemma ai_key_get_spec:
  assumes "ai_key_get r s = (res, s')"
  shows "ai_step {} s s'" "res = Inr old \<Longrightarrow> aa_keys s r = Some old"
    "res = Inl (Secret_Not_Found x) \<Longrightarrow> aa_keys s r = None"
    "aa_key_faults s = [] \<Longrightarrow> res = ok_or (Secret_Not_Found r) (aa_keys s r)"
  using assms by (auto simp: ai_key_get_def ai_key_call_def ai_step_def split: list.splits option.splits)
    (cases "aa_keys s r"; auto)+

lemma ai_key_set_spec:
  assumes "ai_key_set r v s = (res, s')"
  shows "ai_step {r} s s'" "aa_keys s' = (if is_ok res then (aa_keys s)(r \<mapsto> v) else aa_keys s)"
    "aa_key_faults s = [] \<Longrightarrow> res = Inr ()"
  using assms by (auto simp: ai_key_set_def ai_key_call_def ai_step_def split: list.splits option.splits)

lemma ai_key_delete_spec:
  assumes "ai_key_delete r s = (res, s')"
  shows "ai_step {r} s s'" "aa_key_faults s = [] \<Longrightarrow> aa_keys s' r = None"
  using assms by (auto simp: ai_key_delete_def ai_key_call_def ai_step_def split: list.splits option.splits if_splits)

section \<open>Saving\<close>

definition ai_stored :: "ai_provider_file codec \<Rightarrow> ai_admin \<Rightarrow> ai_settings_error + ai_provider_file" where
  "ai_stored toml s = fst (ai_file_load toml (aa_path s) (restart (dk_files (aa_disk s))))"

definition ai_valid :: "ai_provider_file \<Rightarrow> bool" where
  "ai_valid file \<longleftrightarrow> apf_version file = AI_CONFIG_VERSION \<and> distinct (map ape_id (apf_providers file)) \<and>
     set_option (apf_active_id file) \<subseteq> ape_id ` set (apf_providers file)"

lemma check_provider_ids_ok:
  "check_provider_ids seen es = Inr ids \<longleftrightarrow>
     distinct (map ape_id es) \<and> seen \<inter> ape_id ` set es = {} \<and> ids = seen \<union> ape_id ` set es"
  by (induction es arbitrary: seen) auto

lemma ai_file_parse_valid: "ai_file_parse toml text = Inr file \<Longrightarrow> ai_valid file"
  by (auto simp: ai_file_parse_def ai_valid_def check_provider_ids_ok split: sum.splits if_splits option.splits)

lemma ai_file_parse_ok: "of_text toml text = Inr file \<Longrightarrow> ai_valid file \<Longrightarrow> ai_file_parse toml text = Inr file"
proof -
  assume parsed: "of_text toml text = Inr file" "ai_valid file"
  then have "check_provider_ids {} (apf_providers file) = Inr (ape_id ` set (apf_providers file))"
    by (simp add: check_provider_ids_ok ai_valid_def)
  with parsed show ?thesis by (auto simp: ai_file_parse_def ai_valid_def split: option.split)
qed

lemma ai_stored_cases:
  "ai_stored toml s = (case dk_files (aa_disk s) (aa_path s) of
      None \<Rightarrow> Inr ai_file_empty | Some contents \<Rightarrow> ai_file_parse toml contents)"
  by (simp add: ai_stored_def ai_file_load_def restart_def read_to_string_def next_fault_def split: option.split)

interpretation ai_writer: new_file_writer ap_write_new_file
proof
  show "keeps_to tmp (ap_write_new_file tmp contents)" for tmp contents
    unfolding ap_write_new_file_def by (intro keeps_to_bind) auto
  show "dk_files d' tmp = Some contents" if "ap_write_new_file tmp contents d = (Inr u, d')" for tmp contents d u d'
    using that by (auto simp: ap_write_new_file_def io_bind_pair dest!: sync_all_files write_all_written)
qed

lemma ai_save_spec:
  assumes "ai_save toml file s = (r, s')"
  shows "aa_path s' = aa_path s" "aa_file s' = aa_file s" "aa_keys s' = aa_keys s" "aa_key_faults s' = aa_key_faults s"
    "r = Inl e \<Longrightarrow> ai_stored toml s' = ai_stored toml s"
    "r = Inr u \<Longrightarrow> faithful_codec toml \<Longrightarrow> ai_valid file \<Longrightarrow> ai_stored toml s' = Inr file"
proof -
  obtain d where d: "ai_file_save toml (aa_path s) file (aa_disk s) = (r, d)" "s' = s\<lparr>aa_disk := d\<rparr>"
    using assms by (auto simp: ai_save_def split: prod.splits)
  show "aa_path s' = aa_path s" "aa_file s' = aa_file s" "aa_keys s' = aa_keys s" "aa_key_faults s' = aa_key_faults s"
    using d(2) by simp_all
  show "ai_stored toml s' = ai_stored toml s" if err: "r = Inl e"
  proof (cases "to_text toml file")
    case (Inl m)
    then show ?thesis using d by (auto simp: ai_file_save_def io_of_def)
  next
    case (Inr contents)
    then obtain e' where
        "replace_file ap_write_new_file ''.ai-providers.toml'' (aa_path s) contents (aa_disk s) = (Inl e', d)"
      using d(1) err by (auto simp: ai_file_save_def io_map_err_def split: prod.splits sum.splits)
    then have "dk_files d (aa_path s) = dk_files (aa_disk s) (aa_path s)"
      by (rule ai_writer.replace_file_failed)
    then show ?thesis using d(2) by (simp add: ai_stored_cases)
  qed
  show "ai_stored toml s' = Inr file" if "r = Inr u" "faithful_codec toml" "ai_valid file"
  proof (cases "to_text toml file")
    case (Inl m)
    then show ?thesis using d that by (simp add: ai_file_save_def io_of_def)
  next
    case (Inr contents)
    then have
        "replace_file ap_write_new_file ''.ai-providers.toml'' (aa_path s) contents (aa_disk s) = (Inr (), d)"
      using d(1) that(1) by (auto simp: ai_file_save_def io_map_err_def split: prod.splits sum.splits)
    then have "dk_files d (aa_path s) = Some contents"
      by (rule ai_writer.replace_file_written)
    then show ?thesis using d(2) Inr that(2,3)
      by (simp add: ai_stored_cases ai_file_parse_ok faithful_codec_def)
  qed
qed

section \<open>Soundness\<close>

abbreviation ai_ref :: "string \<Rightarrow> string" where
  "ai_ref i \<equiv> ai_keyring_ref i ''api_key''"

lemma ai_ref_keyring: "ai_ref i = keyring_ref (''ai.'' @ i) ''api_key''"
  by (simp add: ai_keyring_ref_def keyring_ref_def)

lemma ai_ref_inj: "ai_ref i = ai_ref j \<longleftrightarrow> i = j"
  by (simp add: ai_keyring_ref_def)

lemma ai_ref_not_slot: "ai_ref i \<notin> slots j"
proof
  assume "ai_ref i \<in> slots j"
  then obtain f where "f \<in> set SECRET_FIELDS" "keyring_ref (''ai.'' @ i) ''api_key'' = keyring_ref j f"
    by (auto simp: slots_def ai_ref_keyring)
  then have "f = ''api_key''" "f \<in> set SECRET_FIELDS"
    using keyring_ref_inj [of "''ai.'' @ i" "''api_key''" j f] fields_without_dot by auto
  then show False by (simp add: field_defs)
qed

definition ai_minted :: "ai_provider_file \<Rightarrow> bool" where
  "ai_minted file \<longleftrightarrow> (\<forall>e\<in>set (apf_providers file). ai_keyring_refs_in (ape_kind e) = [ai_ref (ape_id e)])"

definition ai_backed :: "ai_provider_file \<Rightarrow> (string \<rightharpoonup> string) \<Rightarrow> bool" where
  "ai_backed file keys \<longleftrightarrow> (\<forall>e\<in>set (apf_providers file). keys (ai_ref (ape_id e)) \<noteq> None)"

definition ai_sound :: "ai_provider_file codec \<Rightarrow> ai_admin \<Rightarrow> bool" where
  "ai_sound toml s \<longleftrightarrow> ai_valid (aa_file s) \<and> ai_minted (aa_file s) \<and> ai_backed (aa_file s) (aa_keys s) \<and>
     ai_stored toml s = Inr (aa_file s)"

text \<open>What a failed call leaves: both files as they were, and no key lost.\<close>

definition ai_left_alone :: "ai_provider_file codec \<Rightarrow> ai_admin \<Rightarrow> ai_admin \<Rightarrow> bool" where
  "ai_left_alone toml s s' \<longleftrightarrow> aa_file s' = aa_file s \<and> ai_stored toml s' = ai_stored toml s \<and>
     (aa_key_faults s = [] \<longrightarrow> (\<forall>e\<in>set (apf_providers (aa_file s)).
        aa_keys s' (ai_ref (ape_id e)) = aa_keys s (ai_ref (ape_id e))))"

text \<open>One call, by whether it failed; either way only slots of the assistant change.\<close>

definition ai_call_ok :: "ai_provider_file codec \<Rightarrow> ai_admin \<Rightarrow> bool \<Rightarrow> ai_admin \<Rightarrow> bool" where
  "ai_call_ok toml s fine s' \<longleftrightarrow> ai_sound toml s' \<and> (\<not> fine \<longrightarrow> ai_left_alone toml s s') \<and>
     aa_path s' = aa_path s \<and> (\<forall>k. k \<notin> range ai_ref \<longrightarrow> aa_keys s' k = aa_keys s k)"

lemma ai_backed_update: "ai_backed file keys \<Longrightarrow> ai_backed file (keys(r \<mapsto> v))"
  by (auto simp: ai_backed_def)

lemma ai_call_ok_refl: "ai_sound toml s \<Longrightarrow> ai_call_ok toml s fine s"
  by (simp add: ai_call_ok_def ai_left_alone_def)

lemma ai_stored_cong: "aa_path s' = aa_path s \<Longrightarrow> aa_disk s' = aa_disk s \<Longrightarrow> ai_stored toml s' = ai_stored toml s"
  by (simp add: ai_stored_def)

lemma ai_find_index_Some:
  "ai_find_index file i = Some idx \<Longrightarrow> idx < length (apf_providers file) \<and> ape_id (apf_providers file ! idx) = i"
  by (auto simp: ai_find_index_def dest: position_Some)

lemma ai_find_index_None: "ai_find_index file i = None \<longleftrightarrow> i \<notin> ape_id ` set (apf_providers file)"
  by (auto simp: ai_find_index_def position_None)

text \<open>A save that fails, or succeeds with a well-made file.\<close>

lemma ai_save_call:
  assumes "ai_save toml file s = (r, s')" "ai_sound toml s" "faithful_codec toml"
    and "ai_valid file" "ai_minted file" "ai_backed file (aa_keys s)"
  shows "r = Inl e \<Longrightarrow> ai_call_ok toml s False s'"
    "r = Inr u \<Longrightarrow> ai_call_ok toml s True (s'\<lparr>aa_file := file\<rparr>)"
proof -
  note spec = ai_save_spec [OF assms(1)]
  show "ai_call_ok toml s False s'" if "r = Inl e"
    using spec that assms(2) by (simp add: ai_call_ok_def ai_sound_def ai_left_alone_def)
  show "ai_call_ok toml s True (s'\<lparr>aa_file := file\<rparr>)" if "r = Inr u"
    using spec that assms(2-)
    by (simp add: ai_call_ok_def ai_sound_def ai_stored_cong [of "s'\<lparr>aa_file := file\<rparr>" s'])
qed

section \<open>The operations\<close>

lemma ai_set_active_ok:
  assumes "ai_sound toml s" "faithful_codec toml" "ai_set_active toml target s = (r, s')"
  shows "ai_call_ok toml s (is_ok r) s'"
proof (cases "\<exists>i. target = Some i \<and> ai_find_index (aa_file s) i = None")
  case True
  then show ?thesis using assms ai_call_ok_refl by (auto simp: ai_set_active_def)
next
  case False
  let ?file = "(aa_file s)\<lparr>apf_active_id := target\<rparr>"
  have ok: "ai_valid ?file" "ai_minted ?file" "ai_backed ?file (aa_keys s)"
    using assms(1) False
    by (auto simp: ai_sound_def ai_valid_def ai_minted_def ai_backed_def ai_find_index_None)
  obtain r1 s1 where save: "ai_save toml ?file s = (r1, s1)" by (cases "ai_save toml ?file s")
  have "ai_set_active toml target s = (case r1 of Inl e \<Rightarrow> (Inl e, s1) | Inr _ \<Rightarrow> (Inr (), s1\<lparr>aa_file := ?file\<rparr>))"
    using False save ai_save_spec(2) [OF save]
    by (auto simp: ai_set_active_def io_bind_def split: option.splits sum.splits)
  then show ?thesis
    using ai_save_call [OF save assms(1,2) ok] assms(3) by (auto split: sum.splits)
qed

text \<open>A call that changed the slot of one id and nothing else, and stopped.\<close>

lemma ai_stopped:
  assumes "ai_sound toml s"
    and "aa_path s' = aa_path s" "aa_file s' = aa_file s" "ai_stored toml s' = ai_stored toml s"
    and "\<And>k. k \<noteq> ai_ref i \<Longrightarrow> aa_keys s' k = aa_keys s k"
    and "i \<in> ape_id ` set (apf_providers (aa_file s)) \<Longrightarrow> aa_keys s' (ai_ref i) \<noteq> None \<and>
      (aa_key_faults s = [] \<longrightarrow> aa_keys s' (ai_ref i) = aa_keys s (ai_ref i))"
  shows "ai_call_ok toml s False s'"
proof -
  have key: "aa_keys s' (ai_ref (ape_id e)) \<noteq> None \<and>
      (aa_key_faults s = [] \<longrightarrow> aa_keys s' (ai_ref (ape_id e)) = aa_keys s (ai_ref (ape_id e)))"
    if "e \<in> set (apf_providers (aa_file s))" for e
  proof (cases "ape_id e = i")
    case True
    then show ?thesis using assms(6) that by auto
  next
    case False
    then show ?thesis using assms(1,5) that by (simp add: ai_ref_inj ai_sound_def ai_backed_def)
  qed
  have "aa_keys s' k = aa_keys s k" if "k \<notin> range ai_ref" for k
    using assms(5) [of k] that by blast
  then show ?thesis
    using assms(1-4) key by (auto simp: ai_call_ok_def ai_left_alone_def ai_sound_def ai_backed_def)
qed

lemma ai_build_kind_refs:
  "ai_build_kind_for_add i d = (kind, writes) \<Longrightarrow>
     \<exists>v. writes = [(ai_ref i, v)] \<and> ai_keyring_refs_in kind = [ai_ref i]"
  by (cases d) auto

lemma ai_add_ok:
  assumes "ai_sound toml s" "faithful_codec toml" "ai_add toml draft s = (r, s')"
  shows "ai_call_ok toml s (is_ok r) s'"
proof (cases "ai_find_index (aa_file s) (apd_id draft)")
  case (Some idx)
  then show ?thesis using assms ai_call_ok_refl by (auto simp: ai_add_def)
next
  case None
  let ?i = "apd_id draft"
  obtain kind writes where b: "ai_build_kind_for_add ?i (apd_kind draft) = (kind, writes)"
    by (cases "ai_build_kind_for_add ?i (apd_kind draft)")
  then obtain v where v: "writes = [(ai_ref ?i, v)]" "ai_keyring_refs_in kind = [ai_ref ?i]"
    using ai_build_kind_refs by blast
  let ?entry = "\<lparr>ape_id = ?i, ape_name = apd_name draft, ape_kind = kind\<rparr>"
  let ?file = "(aa_file s)\<lparr>apf_providers := apf_providers (aa_file s) @ [?entry]\<rparr>"
  have fresh: "?i \<notin> ape_id ` set (apf_providers (aa_file s))" using None by (simp add: ai_find_index_None)
  obtain a s1 where set: "ai_key_set (ai_ref ?i) v s = (a, s1)" by (cases "ai_key_set (ai_ref ?i) v s")
  note written = ai_key_set_spec [OF set]
  have other: "aa_keys s1 k = aa_keys s k" if "k \<noteq> ai_ref ?i" for k
    using written(1) that by (simp add: ai_step_def)
  have same: "aa_path s1 = aa_path s" "aa_file s1 = aa_file s" "aa_disk s1 = aa_disk s"
    using written(1) by (simp_all add: ai_step_def)
  show ?thesis
  proof (cases a)
    case (Inl e)
    then have "s' = s1" "r = Inl (As_Secret e)"
      using assms(3) None b v(1) set by (simp_all add: ai_add_def Let_def)
    moreover have "ai_call_ok toml s False s1"
      by (rule ai_stopped [OF assms(1), where i = ?i]) (use same other fresh in \<open>simp_all add: ai_stored_def\<close>)
    ultimately show ?thesis by simp
  next
    case (Inr u)
    obtain c s2 where save: "ai_save toml ?file s1 = (c, s2)" by (cases "ai_save toml ?file s1")
    note saved = ai_save_spec [OF save]
    show ?thesis
    proof (cases c)
      case (Inl e)
      obtain d s3 where del: "ai_key_delete (ai_ref ?i) s2 = (d, s3)"
        by (cases "ai_key_delete (ai_ref ?i) s2")
      have "s' = s3" "r = Inl e"
        using assms(3) None b v(1) set Inr save Inl same(2) del by (simp_all add: ai_add_def Let_def)
      moreover have "ai_call_ok toml s False s3"
      proof (rule ai_stopped [OF assms(1), where i = ?i])
        note gone = ai_key_delete_spec(1) [OF del, unfolded ai_step_def]
        show "aa_path s3 = aa_path s" "aa_file s3 = aa_file s" using gone saved same by simp_all
        show "ai_stored toml s3 = ai_stored toml s"
          using saved(5) [OF Inl] gone same by (simp add: ai_stored_def)
        show "aa_keys s3 k = aa_keys s k" if "k \<noteq> ai_ref ?i" for k using gone saved(3) other that by simp
      qed (use fresh in blast)
      ultimately show ?thesis by simp
    next
      case (Inr w)
      have result: "s' = s2\<lparr>aa_file := ?file\<rparr>" "r = Inr ?entry"
        using assms(3) None b v(1) set \<open>a = Inr u\<close> save Inr same(2) by (simp_all add: ai_add_def Let_def)
      have s1: "ai_sound toml s1" "aa_keys s1 (ai_ref ?i) \<noteq> None"
        using assms(1) written(2) same \<open>a = Inr u\<close> ai_stored_cong [of s1 s]
        by (simp_all add: ai_sound_def ai_backed_update)
      have "ai_valid ?file"
        using assms(1) fresh by (auto simp: ai_sound_def ai_valid_def)
      moreover have "ai_minted ?file"
        using assms(1) v(2) by (simp add: ai_sound_def ai_minted_def)
      moreover have "ai_backed ?file (aa_keys s1)"
        using s1 same(2) by (simp add: ai_sound_def ai_backed_def)
      ultimately have "ai_call_ok toml s1 True (s2\<lparr>aa_file := ?file\<rparr>)"
        using ai_save_call(2) [OF save s1(1) assms(2)] Inr by simp
      then have "ai_call_ok toml s True (s2\<lparr>aa_file := ?file\<rparr>)"
        unfolding ai_call_ok_def
      proof (intro conjI allI impI)
        show "aa_keys (s2\<lparr>aa_file := ?file\<rparr>) k = aa_keys s k" if "k \<notin> range ai_ref" for k
        proof -
          have "k \<noteq> ai_ref ?i" using that by blast
          then show ?thesis using saved(3) other by simp
        qed
      qed (use same(1) in \<open>simp_all add: ai_call_ok_def\<close>)
      then show ?thesis using result by simp
    qed
  qed
qed

lemma ai_apply_update_kind_cases:
  assumes "ai_apply_update_kind i kind edit s = (r, s')"
  obtains (mismatch) "r = Inl (As_Kind_Mismatch i)" "s' = s"
  | (kept) key_ref kind' where "r = Inr (kind', [])" "s' = s"
      "ai_keyring_refs_in kind = [key_ref]" "ai_keyring_refs_in kind' = [key_ref]"
  | (written) key_ref kind' secret old where "r = Inr (kind', [(key_ref, old)])"
      "ai_keyring_refs_in kind = [key_ref]" "ai_keyring_refs_in kind' = [key_ref]"
      "ai_apply_secret_write key_ref secret s = (Inr (key_ref, old), s')"
  | (failed) key_ref secret e where "r = Inl e" "ai_keyring_refs_in kind = [key_ref]"
      "ai_apply_secret_write key_ref secret s = (Inl e, s')"
proof -
  have shape: "a = key_ref" if "ai_apply_secret_write key_ref secret s = (Inr (a, b), s'')"
    for key_ref secret a b s''
    using that by (auto simp: ai_apply_secret_write_def Let_def split: prod.splits sum.splits secret_error.splits)
  have "r = Inl (As_Kind_Mismatch i) \<and> s' = s \<or> (\<exists>key_ref kind' api_key.
      ai_keyring_refs_in kind = [key_ref] \<and> ai_keyring_refs_in kind' = [key_ref] \<and>
      io_bind (ai_apply_api_key key_ref api_key) (\<lambda>applied. io_of (Inr (kind', applied))) s = (r, s'))"
    using assms by (cases kind; cases edit) (auto simp: io_of_def)
  then consider "r = Inl (As_Kind_Mismatch i)" "s' = s"
    | key_ref kind' api_key where "ai_keyring_refs_in kind = [key_ref]" "ai_keyring_refs_in kind' = [key_ref]"
      "io_bind (ai_apply_api_key key_ref api_key) (\<lambda>applied. io_of (Inr (kind', applied))) s = (r, s')"
    by blast
  then show ?thesis
  proof cases
    case 1
    then show ?thesis by (rule mismatch)
  next
    case 2
    show ?thesis
    proof (cases api_key)
      case Keep_Secret
      then show ?thesis using 2 kept [of kind' key_ref] by (simp add: ai_apply_api_key_def io_bind_def io_of_def)
    next
      case (Set_Secret secret)
      obtain a s1 where w: "ai_apply_secret_write key_ref secret s = (a, s1)"
        by (cases "ai_apply_secret_write key_ref secret s")
      show ?thesis
      proof (cases a)
        case (Inl e)
        then show ?thesis using 2 Set_Secret w failed [of e key_ref secret]
          by (simp add: ai_apply_api_key_def io_bind_def)
      next
        case (Inr p)
        obtain k old where p: "p = (k, old)" by (cases p)
        then have "k = key_ref" using w Inr shape by blast
        then show ?thesis using 2 Set_Secret w Inr p written [of kind' key_ref old secret]
          by (simp add: ai_apply_api_key_def io_bind_def io_of_def)
      qed
    qed
  qed
qed

lemma ai_apply_secret_write_spec:
  assumes "ai_apply_secret_write key_ref secret s = (r, s')"
  shows "ai_step {key_ref} s s'"
    "r = Inl e \<Longrightarrow> aa_keys s' = aa_keys s"
    "r = Inr (k, old) \<Longrightarrow> aa_keys s' = (aa_keys s)(key_ref \<mapsto> secret) \<and> old = aa_keys s key_ref"
proof -
  obtain g s1 where get: "ai_key_get key_ref s = (g, s1)" by (cases "ai_key_get key_ref s")
  obtain w s2 where set: "ai_key_set key_ref secret s1 = (w, s2)" by (cases "ai_key_set key_ref secret s1")
  note got = ai_key_get_spec [OF get] and put = ai_key_set_spec [OF set]
  have keys: "aa_keys s1 = aa_keys s" using got(1) by (auto simp: ai_step_def)
  have step: "ai_step {key_ref} s s1" using got(1) by (simp add: ai_step_def)
  have step2: "ai_step {key_ref} s s2" using ai_step_trans [OF step put(1)] .
  note unfolded = assms [unfolded ai_apply_secret_write_def Let_def get set prod.case]
  show "ai_step {key_ref} s s'"
    using unfolded step step2 by (auto simp: set split: sum.splits secret_error.splits)
  show "aa_keys s' = aa_keys s" if "r = Inl e"
    using unfolded that put(2) keys by (auto simp: set split: sum.splits secret_error.splits)
  show "aa_keys s' = (aa_keys s)(key_ref \<mapsto> secret) \<and> old = aa_keys s key_ref" if "r = Inr (k, old)"
    using unfolded that put(2) keys got(2,3) by (auto simp: set split: sum.splits secret_error.splits)
qed

lemma ai_restore_spec:
  assumes "ai_restore_write (key_ref, Some old) s = s'" "aa_keys s key_ref \<noteq> None"
  shows "ai_step {key_ref} s s'" "aa_keys s' key_ref \<noteq> None"
    "aa_key_faults s = [] \<Longrightarrow> aa_keys s' key_ref = Some old"
proof -
  obtain r s1 where set: "ai_key_set key_ref old s = (r, s1)" by (cases "ai_key_set key_ref old s")
  have "s' = s1" using assms(1) set by (simp add: ai_restore_write_def)
  then show "ai_step {key_ref} s s'" "aa_keys s' key_ref \<noteq> None"
    "aa_key_faults s = [] \<Longrightarrow> aa_keys s' key_ref = Some old"
    using ai_key_set_spec [OF set] assms(2) by auto
qed

text \<open>The entry an update or a delete is about.\<close>

lemma ai_entry_at:
  assumes "ai_sound toml s" "ai_find_index (aa_file s) i = Some idx"
  shows "ai_keyring_refs_in (ape_kind (apf_providers (aa_file s) ! idx)) = [ai_ref i]"
    "aa_keys s (ai_ref i) \<noteq> None" "idx < length (apf_providers (aa_file s))"
    "ape_id (apf_providers (aa_file s) ! idx) = i"
proof -
  show at: "idx < length (apf_providers (aa_file s))" "ape_id (apf_providers (aa_file s) ! idx) = i"
    using ai_find_index_Some [OF assms(2)] by auto
  then have "apf_providers (aa_file s) ! idx \<in> set (apf_providers (aa_file s))" by simp
  then show "ai_keyring_refs_in (ape_kind (apf_providers (aa_file s) ! idx)) = [ai_ref i]"
    "aa_keys s (ai_ref i) \<noteq> None"
    using assms(1) at(2) by (auto simp: ai_sound_def ai_minted_def ai_backed_def)
qed

lemma ids_list_update:
  "idx < length es \<Longrightarrow> ape_id e = ape_id (es ! idx) \<Longrightarrow> map ape_id (es[idx := e]) = map ape_id es"
  by (simp add: map_update list_update_same_conv)

lemma ai_file_with:
  assumes "ai_valid file" "ai_minted file" "ai_backed file keys" "idx < length (apf_providers file)"
    and "ape_id e = ape_id (apf_providers file ! idx)" "ai_keyring_refs_in (ape_kind e) = [ai_ref (ape_id e)]"
  shows "ai_valid (file\<lparr>apf_providers := (apf_providers file)[idx := e]\<rparr>)"
    "ai_minted (file\<lparr>apf_providers := (apf_providers file)[idx := e]\<rparr>)"
    "ai_backed (file\<lparr>apf_providers := (apf_providers file)[idx := e]\<rparr>) keys"
proof -
  note ids = ids_list_update [OF assms(4,5)]
  have id_set: "ape_id ` set ((apf_providers file)[idx := e]) = ape_id ` set (apf_providers file)"
    using ids by (metis list.set_map)
  show "ai_valid (file\<lparr>apf_providers := (apf_providers file)[idx := e]\<rparr>)"
    using assms(1) ids id_set by (simp add: ai_valid_def)
  have member: "x = e \<or> x \<in> set (apf_providers file)" if "x \<in> set ((apf_providers file)[idx := e])" for x
    using that set_update_subset_insert [of "apf_providers file" idx e] by auto
  show "ai_minted (file\<lparr>apf_providers := (apf_providers file)[idx := e]\<rparr>)"
    using assms(2,6) member by (auto simp: ai_minted_def)
  have "keys (ai_ref (ape_id e)) \<noteq> None"
    using assms(3,4,5) nth_mem [OF assms(4)] unfolding ai_backed_def by metis
  then show "ai_backed (file\<lparr>apf_providers := (apf_providers file)[idx := e]\<rparr>) keys"
    using assms(3) member by (auto simp: ai_backed_def)
qed

text \<open>The save at the end of an update, with the write it takes back when it fails.\<close>

lemma ai_update_end:
  assumes "ai_sound toml s" "faithful_codec toml"
    and "ai_find_index (aa_file s) i = Some idx" "ape_id entry = i" "ai_keyring_refs_in (ape_kind entry) = [ai_ref i]"
    and "ai_step {ai_ref i} s s1" "aa_keys s1 (ai_ref i) \<noteq> None"
    and "ai_save toml ((aa_file s)\<lparr>apf_providers := (apf_providers (aa_file s))[idx := entry]\<rparr>) s1 = (r, s2)"
    and "applied = [] \<and> aa_keys s1 = aa_keys s \<or>
      (\<exists>old. applied = [(ai_ref i, Some old)] \<and> aa_keys s (ai_ref i) = Some old)"
  shows "r = Inl e \<Longrightarrow> ai_call_ok toml s False (ai_each ai_restore_write applied s2)"
    "r = Inr u \<Longrightarrow> ai_call_ok toml s True
      (s2\<lparr>aa_file := (aa_file s)\<lparr>apf_providers := (apf_providers (aa_file s))[idx := entry]\<rparr>\<rparr>)"
proof -
  let ?file = "(aa_file s)\<lparr>apf_providers := (apf_providers (aa_file s))[idx := entry]\<rparr>"
  note saved = ai_save_spec [OF assms(8)] and at = ai_entry_at [OF assms(1,3)]
  have same: "aa_path s1 = aa_path s" "aa_file s1 = aa_file s" "aa_disk s1 = aa_disk s"
    "aa_key_faults s = [] \<Longrightarrow> aa_key_faults s1 = []"
    using assms(6) by (simp_all add: ai_step_def)
  have other: "aa_keys s1 k = aa_keys s k" if "k \<noteq> ai_ref i" for k
    using assms(6) that by (simp add: ai_step_def)
  have before: "ai_valid (aa_file s)" "ai_minted (aa_file s)"
    using assms(1) by (simp_all add: ai_sound_def)
  have backed: "ai_backed (aa_file s) (aa_keys s1)"
    using assms(1,7) other by (auto simp: ai_sound_def ai_backed_def) (metis ai_ref_inj)
  show "ai_call_ok toml s False (ai_each ai_restore_write applied s2)" if err: "r = Inl e"
  proof (cases "applied = []")
    case True
    then have "aa_keys s1 = aa_keys s" using assms(9) by auto
    then show ?thesis
      using True saved(5) [OF err] saved(1-3) same at(2)
      by (intro ai_stopped [OF assms(1), where i = i]) (simp_all add: ai_stored_def)
  next
    case False
    then obtain old where old: "applied = [(ai_ref i, Some old)]" "aa_keys s (ai_ref i) = Some old"
      using assms(9) by auto
    obtain s3 where s3: "ai_restore_write (ai_ref i, Some old) s2 = s3" by simp
    have "aa_keys s2 (ai_ref i) \<noteq> None" using assms(7) saved(3) by simp
    note restored = ai_restore_spec [OF s3 this]
    have "ai_call_ok toml s False s3"
    proof (rule ai_stopped [OF assms(1), where i = i])
      note moved = restored(1) [unfolded ai_step_def]
      show "aa_path s3 = aa_path s" "aa_file s3 = aa_file s" using moved saved same by simp_all
      show "ai_stored toml s3 = ai_stored toml s" using saved(5) [OF err] moved same by (simp add: ai_stored_def)
      show "aa_keys s3 k = aa_keys s k" if "k \<noteq> ai_ref i" for k using moved saved(3) other that by simp
      show "aa_keys s3 (ai_ref i) \<noteq> None \<and> (aa_key_faults s = [] \<longrightarrow> aa_keys s3 (ai_ref i) = aa_keys s (ai_ref i))"
        using restored(2,3) old(2) saved(4) same(4) by simp
    qed
    then show ?thesis using old(1) s3 by simp
  qed
  show "ai_call_ok toml s True (s2\<lparr>aa_file := ?file\<rparr>)" if fine: "r = Inr u"
  proof -
    have "ai_sound toml s1"
      using assms(1) backed same by (simp add: ai_sound_def ai_stored_def)
    moreover have "ai_valid ?file" "ai_minted ?file" "ai_backed ?file (aa_keys s1)"
      using ai_file_with [OF before backed at(3)] at(4) assms(4,5) by simp_all
    ultimately have "ai_call_ok toml s1 True (s2\<lparr>aa_file := ?file\<rparr>)"
      using ai_save_call(2) [OF assms(8)] assms(2) fine by simp
    moreover have "aa_keys s1 k = aa_keys s k" if "k \<notin> range ai_ref" for k
      using other that by blast
    ultimately show ?thesis using same(1) unfolding ai_call_ok_def by (metis (lifting))
  qed
qed

lemma ai_update_ok:
  assumes "ai_sound toml s" "faithful_codec toml" "ai_update toml i draft s = (r, s')"
  shows "ai_call_ok toml s (is_ok r) s'"
proof (cases "ai_find_index (aa_file s) i")
  case None
  then show ?thesis using assms ai_call_ok_refl by (auto simp: ai_update_def)
next
  case (Some idx)
  let ?kind = "ape_kind (apf_providers (aa_file s) ! idx)"
  note at = ai_entry_at [OF assms(1) Some]
  obtain a s1 where a: "ai_apply_update_kind i ?kind (apx_kind draft) s = (a, s1)"
    by (cases "ai_apply_update_kind i ?kind (apx_kind draft) s")
  have finish: "ai_call_ok toml s (is_ok r) s'"
    if kind: "a = Inr (kind', applied)" "ai_keyring_refs_in kind' = [ai_ref i]"
      and s1: "ai_step {ai_ref i} s s1" "aa_keys s1 (ai_ref i) \<noteq> None"
      and applied: "applied = [] \<and> aa_keys s1 = aa_keys s \<or>
        (\<exists>old. applied = [(ai_ref i, Some old)] \<and> aa_keys s (ai_ref i) = Some old)"
    for kind' applied
  proof -
    let ?entry = "\<lparr>ape_id = i, ape_name = apx_name draft, ape_kind = kind'\<rparr>"
    let ?file = "(aa_file s)\<lparr>apf_providers := (apf_providers (aa_file s))[idx := ?entry]\<rparr>"
    obtain b s2 where save: "ai_save toml ?file s1 = (b, s2)" by (cases "ai_save toml ?file s1")
    have whole: "(r, s') = (case b of Inl e \<Rightarrow> (Inl e, ai_each ai_restore_write applied s2)
        | Inr _ \<Rightarrow> (Inr ?entry, s2\<lparr>aa_file := ?file\<rparr>))"
      using assms(3) Some a kind(1) save s1(1) by (cases b) (simp_all add: ai_update_def Let_def ai_step_def)
    note ended = ai_update_end [OF assms(1,2) Some _ _ s1 save applied]
    show ?thesis using whole ended kind(2) by (cases b) simp_all
  qed
  show ?thesis
    using a
  proof (cases rule: ai_apply_update_kind_cases)
    case mismatch
    then show ?thesis using assms Some a ai_call_ok_refl by (simp add: ai_update_def)
  next
    case (kept key_ref kind')
    then show ?thesis using finish [of kind' "[]"] at by simp
  next
    case (written key_ref kind' secret old)
    then have "key_ref = ai_ref i" using at(1) by simp
    then show ?thesis
      using finish [of kind' "[(key_ref, old)]"] written ai_apply_secret_write_spec [OF written(4)] at(2) by auto
  next
    case (failed key_ref secret e)
    then have ref: "key_ref = ai_ref i" using at(1) by simp
    note tried = ai_apply_secret_write_spec [OF failed(3)]
    have "ai_call_ok toml s False s1"
      by (rule ai_stopped [OF assms(1), where i = i])
        (use tried(1,2) at(2) in \<open>simp_all add: ai_step_def ai_stored_def\<close>)
    moreover have "r = Inl e" "s' = s1" using assms(3) Some a failed(1) by (simp_all add: ai_update_def)
    ultimately show ?thesis by simp
  qed
qed

lemma ai_delete_ok:
  assumes "ai_sound toml s" "faithful_codec toml" "ai_delete toml i s = (r, s')"
  shows "ai_call_ok toml s (is_ok r) s'"
proof (cases "ai_find_index (aa_file s) i")
  case None
  then show ?thesis using assms ai_call_ok_refl by (auto simp: ai_delete_def)
next
  case (Some idx)
  let ?es = "apf_providers (aa_file s)"
  let ?file = "ai_without idx i (aa_file s)"
  note at = ai_entry_at [OF assms(1) Some]
  have split: "?es = take idx ?es @ ?es ! idx # drop (Suc idx) ?es" using at(3) by (rule id_take_nth_drop)
  have "distinct (map ape_id ?es)" using assms(1) by (simp add: ai_sound_def ai_valid_def)
  then have distinct: "distinct (map ape_id (take idx ?es @ drop (Suc idx) ?es))"
      "i \<notin> ape_id ` set (take idx ?es @ drop (Suc idx) ?es)"
    using at(4) by (subst (asm) split; force)+
  have ids: "ape_id ` set ?es = insert i (ape_id ` set (take idx ?es @ drop (Suc idx) ?es))"
    using at(4) by (subst split) simp
  have sub: "set (take idx ?es @ drop (Suc idx) ?es) \<subseteq> set ?es"
    by (simp add: set_take_subset set_drop_subset)
  have ok: "ai_valid ?file" "ai_minted ?file" "ai_backed ?file (aa_keys s)"
    using assms(1) distinct(1) ids sub
    by (auto simp: ai_without_def ai_sound_def ai_valid_def ai_minted_def ai_backed_def)
  obtain a s1 where save: "ai_save toml ?file s = (a, s1)" by (cases "ai_save toml ?file s")
  note saved = ai_save_spec [OF save] and called = ai_save_call [OF save assms(1,2) ok]
  show ?thesis
  proof (cases a)
    case (Inl e)
    then show ?thesis using assms(3) Some save called(1) [OF Inl] by (auto simp: ai_delete_def Let_def)
  next
    case (Inr u)
    obtain b s2 where del: "ai_key_delete (ai_ref i) (s1\<lparr>aa_file := ?file\<rparr>) = (b, s2)"
      by (cases "ai_key_delete (ai_ref i) (s1\<lparr>aa_file := ?file\<rparr>)")
    have result: "r = Inr ()" "s' = s2" using assms(3) Some save Inr at(1) del by (simp_all add: ai_delete_def Let_def)
    note gone = ai_key_delete_spec(1) [OF del, unfolded ai_step_def]
    have fine: "ai_call_ok toml s True (s1\<lparr>aa_file := ?file\<rparr>)" using called(2) Inr by simp
    have "aa_keys s2 (ai_ref (ape_id e)) = aa_keys s (ai_ref (ape_id e))" if "e \<in> set (apf_providers ?file)" for e
    proof -
      have "ape_id e \<noteq> i" using that distinct(2) by (auto simp: ai_without_def)
      then show ?thesis using gone saved(3) by (simp add: ai_ref_inj)
    qed
    then have "ai_backed ?file (aa_keys s2)" using ok(3) by (simp add: ai_backed_def)
    then have "ai_sound toml s2"
      using fine gone saved(1) by (auto simp: ai_call_ok_def ai_sound_def ai_stored_def)
    moreover have "aa_keys s2 k = aa_keys s k" if "k \<notin> range ai_ref" for k
    proof -
      have "k \<noteq> ai_ref i" using that by blast
      then show ?thesis using gone saved(3) by simp
    qed
    ultimately show ?thesis using result gone saved(1) by (simp add: ai_call_ok_def)
  qed
qed

section \<open>Sessions\<close>

datatype ai_request =
    Ask_Add ai_provider_draft
  | Ask_Update string ai_provider_edit
  | Ask_Delete string
  | Ask_Active "string option"

fun ai_perform :: "ai_provider_file codec \<Rightarrow> ai_request \<Rightarrow> ai_admin \<Rightarrow> (ai_settings_error + unit) \<times> ai_admin" where
  "ai_perform toml (Ask_Add draft) s = (case ai_add toml draft s of (r, s') \<Rightarrow> (rmap (\<lambda>_. ()) r, s'))"
| "ai_perform toml (Ask_Update i draft) s = (case ai_update toml i draft s of (r, s') \<Rightarrow> (rmap (\<lambda>_. ()) r, s'))"
| "ai_perform toml (Ask_Delete i) s = ai_delete toml i s"
| "ai_perform toml (Ask_Active target) s = ai_set_active toml target s"

lemma is_ok_rmap [simp]: "is_ok (rmap f r) = is_ok r"
  by (cases r) simp_all

lemma ai_perform_ok:
  assumes "ai_sound toml s" "faithful_codec toml"
  shows "ai_call_ok toml s (is_ok (fst (ai_perform toml req s))) (snd (ai_perform toml req s))"
  using ai_add_ok [OF assms] ai_update_ok [OF assms] ai_delete_ok [OF assms] ai_set_active_ok [OF assms]
  by (cases req) (simp_all split: prod.split)

fun ai_session :: "ai_provider_file codec \<Rightarrow> ai_request list \<Rightarrow> ai_admin \<Rightarrow> ai_admin" where
  "ai_session toml [] s = s"
| "ai_session toml (req # reqs) s = ai_session toml reqs (snd (ai_perform toml req s))"

lemma ai_session_ok:
  "ai_sound toml s \<Longrightarrow> faithful_codec toml \<Longrightarrow> ai_sound toml (ai_session toml reqs s) \<and>
     (\<forall>k. k \<notin> range ai_ref \<longrightarrow> aa_keys (ai_session toml reqs s) k = aa_keys s k)"
proof (induction reqs arbitrary: s)
  case (Cons req reqs)
  then show ?case using ai_perform_ok [of toml s req] by (simp add: ai_call_ok_def)
qed simp

end
