(* ===== verification/Ai_Slot.thy ===== *)
theory Ai_Slot
  imports Ai_Desktop Ai_Store_Proofs
begin

text \<open>
  The live provider and the store: on a host where files and keyring work, every management command
  leaves in the slot the provider of the active entry, built with its key. A provider that came from the
  environment is not one of those, and the first edit takes it away.
\<close>

section \<open>A host that works\<close>

definition ai_tmp :: "ai_admin \<Rightarrow> file_path" where
  "ai_tmp s = tmp_path_for ''.ai-providers.toml'' (aa_path s)"

definition working :: "ai_admin \<Rightarrow> bool" where
  "working s \<longleftrightarrow> aa_key_faults s = [] \<and> dk_faults (aa_disk s) = [] \<and> dk_files (aa_disk s) (ai_tmp s) = None"

definition total_codec :: "'f codec \<Rightarrow> bool" where
  "total_codec toml \<longleftrightarrow> faithful_codec toml \<and> (\<forall>f. is_ok (to_text toml f))"

definition client_builds :: "ai_network \<Rightarrow> bool" where
  "client_builds net \<longleftrightarrow> (\<forall>b. is_ok (build_client net b))"

definition usable_keys :: "ai_provider_file \<Rightarrow> (string \<rightharpoonup> string) \<Rightarrow> bool" where
  "usable_keys file keys \<longleftrightarrow>
     (\<forall>e\<in>set (apf_providers file). \<exists>k. keys (ai_ref (ape_id e)) = Some k \<and> trim k \<noteq> [])"

lemma ai_key_calls_working [simp]:
  assumes "aa_key_faults s = []"
  shows "ai_key_get r s = (ok_or (Secret_Not_Found r) (aa_keys s r), s)"
    "ai_key_set r v s = (Inr (), s\<lparr>aa_keys := (aa_keys s)(r \<mapsto> v)\<rparr>)"
    "aa_keys s r \<noteq> None \<Longrightarrow> ai_key_delete r s = (Inr (), s\<lparr>aa_keys := (aa_keys s)(r := None)\<rparr>)"
  using assms by (simp_all add: ai_key_get_def ai_key_set_def ai_key_delete_def ai_key_call_def)

lemma ai_save_working:
  assumes "working s" "total_codec toml"
  shows "\<exists>d. ai_save toml file' s = (Inr (), s\<lparr>aa_disk := d\<rparr>) \<and> working (s\<lparr>aa_disk := d\<rparr>)"
proof -
  obtain contents where contents: "to_text toml file' = Inr contents"
    using assms(2) by (auto simp: total_codec_def is_ok_iff)
  define tmp where "tmp = tmp_path_for ''.ai-providers.toml'' (aa_path s)"
  have free: "dk_files (aa_disk s) tmp = None" "dk_faults (aa_disk s) = []"
    using assms(1) by (simp_all add: working_def ai_tmp_def tmp_def)
  obtain d1 where d1: "make_parent (aa_path s) (aa_disk s) = (Inr (), d1)" "dk_faults d1 = []"
    "dk_files d1 = dk_files (aa_disk s)"
    using make_parent_fine [OF free(2)] by blast
  define d2 where "d2 = snd (ap_write_new_file tmp contents d1)"
  have d2: "ap_write_new_file tmp contents d1 = (Inr (), d2)" "dk_faults d2 = []"
    "dk_files d2 tmp = Some contents"
    using d1 free unfolding d2_def
    by (simp_all add: ap_write_new_file_def io_bind_def create_new_user_only_def sys_call_def write_all_def
        sync_all_def Let_def)
  obtain d where d: "rename_file tmp (aa_path s) d2 = (Inr (), d)" "dk_faults d = []" "dk_files d tmp = None"
    using d2 tmp_path_differs [of "''.ai-providers.toml''" "aa_path s"]
    by (auto simp: rename_file_cases tmp_def)
  have "replace_file ap_write_new_file ''.ai-providers.toml'' (aa_path s) contents (aa_disk s) = (Inr (), d)"
    using d1(1) d2(1) d(1) by (simp add: replace_file_def Let_def io_bind_def tmp_def)
  then have "ai_save toml file' s = (Inr (), s\<lparr>aa_disk := d\<rparr>)"
    by (simp add: ai_save_def ai_file_save_def contents io_map_err_def)
  moreover have "working (s\<lparr>aa_disk := d\<rparr>)"
    using assms(1) d by (simp add: working_def ai_tmp_def tmp_def)
  ultimately show ?thesis by blast
qed

section \<open>The provider of the active entry\<close>

definition live_provider :: "ai_network \<Rightarrow> ai_admin \<Rightarrow> ai_provider option" where
  "live_provider net s =
     Option.bind (Option.bind (ai_active_id s) (entry_kind s))
       (\<lambda>kind. case fst (build_provider_for_kind net kind s) of Inr pv \<Rightarrow> Some pv | Inl _ \<Rightarrow> None)"

lemma with_default_ok:
  assumes "client_builds net" "trim key \<noteq> []"
  shows "is_ok (make_anthropic net key (none_if_blank model))" "is_ok (make_openai net key (none_if_blank model))"
proof -
  have "is_ok (build_client net b)" for b using assms(1) by (simp add: client_builds_def)
  then obtain client where client: "build_client net b = Inr (client b)" for b
    unfolding is_ok_iff by metis
  have defaults: "trim ANTHROPIC_MODEL \<noteq> []" "trim OPENAI_MODEL \<noteq> []" by code_simp+
  show "is_ok (make_anthropic net key (none_if_blank model))"
    using assms(2) client defaults
    by (auto simp: make_anthropic_def none_if_blank_def anthropic_new_def anthropic_with_default_model_def
        anthropic_with_config_def split: option.split)
  show "is_ok (make_openai net key (none_if_blank model))"
    using assms(2) client defaults
    by (auto simp: make_openai_def none_if_blank_def openai_new_def openai_with_default_model_def
        openai_with_config_def split: option.split)
qed

lemma build_provider_working:
  assumes "aa_key_faults s = []" "client_builds net" "ai_keyring_refs_in kind = [r]"
    and "aa_keys s r = Some key" "trim key \<noteq> []"
  shows "\<exists>pv. build_provider_for_kind net kind s = (Inr pv, s)"
proof (cases kind)
  case (Anthropic_Kind model key_ref)
  obtain pv where "make_anthropic net key (none_if_blank model) = Inr pv"
    using with_default_ok(1) [OF assms(2,5)] is_ok_iff by metis
  then show ?thesis
    using Anthropic_Kind assms by (simp add: look_up_api_key_def io_map_err_def io_bind_def io_of_def map_err_def)
next
  case (Openai_Kind model key_ref)
  obtain pv where "make_openai net key (none_if_blank model) = Inr pv"
    using with_default_ok(2) [OF assms(2,5)] is_ok_iff by metis
  then show ?thesis
    using Openai_Kind assms by (simp add: look_up_api_key_def io_map_err_def io_bind_def io_of_def map_err_def)
qed

lemma find_append: "find P (xs @ ys) = (case find P xs of Some x \<Rightarrow> Some x | None \<Rightarrow> find P ys)"
  by (induction xs) auto

lemma find_position: "find P xs = map_option ((!) xs) (position P xs)"
  by (induction xs) (auto simp: option.map_comp comp_def)

lemma entry_kind_at:
  "entry_kind s i = map_option (\<lambda>idx. ape_kind (apf_providers (aa_file s) ! idx)) (ai_find_index (aa_file s) i)"
  by (simp add: entry_kind_def ai_entries_def ai_find_index_def find_position option.map_comp comp_def)

lemma entry_kind_Some:
  "entry_kind s i = Some kind \<Longrightarrow> \<exists>e\<in>set (ai_entries s). ape_id e = i \<and> ape_kind e = kind"
  by (auto simp: entry_kind_def find_Some_iff)

lemma entry_kind_None: "entry_kind s i = None \<longleftrightarrow> i \<notin> ape_id ` set (ai_entries s)"
  by (auto simp: entry_kind_def find_None_iff)

text \<open>An entry of a sound store whose keys are usable can be brought to life.\<close>

lemma entry_builds:
  assumes "ai_sound toml s" "working s" "client_builds net" "usable_keys (aa_file s) (aa_keys s)"
    and "entry_kind s i = Some kind"
  shows "\<exists>pv. build_provider_for_kind net kind s = (Inr pv, s)"
proof -
  obtain e where e: "e \<in> set (apf_providers (aa_file s))" "ape_id e = i" "ape_kind e = kind"
    using entry_kind_Some [OF assms(5)] by (auto simp: ai_entries_def)
  moreover obtain k where "aa_keys s (ai_ref i) = Some k" "trim k \<noteq> []"
    using assms(4) e by (auto simp: usable_keys_def)
  ultimately show ?thesis
    using assms(1-3) by (intro build_provider_working) (auto simp: ai_sound_def ai_minted_def working_def)
qed

definition slot_in_step :: "ai_network \<Rightarrow> ai_provider_file codec \<Rightarrow> ai_state \<Rightarrow> bool" where
  "slot_in_step net toml st \<longleftrightarrow> (\<exists>s. as_admin st = Some s \<and> ai_sound toml s \<and> working s \<and>
     usable_keys (aa_file s) (aa_keys s) \<and> as_slot st = live_provider net s)"

lemma resync_in_step:
  assumes "as_admin st = Some s" "ai_sound toml s" "working s" "usable_keys (aa_file s) (aa_keys s)" "client_builds net"
  shows "slot_in_step net toml (resync_active_slot net st)"
proof (cases "ai_active_id s")
  case None
  then show ?thesis
    using assms by (auto simp: slot_in_step_def resync_active_slot_def live_provider_def)
next
  case (Some i)
  then have "i \<in> ape_id ` set (ai_entries s)"
    using assms(2) by (auto simp: ai_sound_def ai_valid_def ai_active_id_def ai_entries_def)
  then obtain kind where kind: "entry_kind s i = Some kind" using entry_kind_None by fastforce
  obtain pv where "build_provider_for_kind net kind s = (Inr pv, s)"
    using entry_builds [OF assms(2,3,5,4) kind] by blast
  then show ?thesis
    using assms Some kind by (auto simp: slot_in_step_def resync_active_slot_def live_provider_def)
qed

lemma build_provider_cong:
  assumes "aa_key_faults s = []" "aa_key_faults s' = []" "ai_keyring_refs_in kind = [r]" "aa_keys s' r = aa_keys s r"
  shows "fst (build_provider_for_kind net kind s') = fst (build_provider_for_kind net kind s)"
  using assms by (cases kind)
    (cases "aa_keys s r"; simp add: look_up_api_key_def io_map_err_def io_bind_def io_of_def)+

section \<open>Each command\<close>

lemma ai_say_admin: "ai_say io (r, s) st = (answer, st') \<Longrightarrow>
    as_admin st' = Some s \<and> as_slot st' = as_slot st \<and> is_ok answer = is_ok r"
  by (auto simp: ai_say_def split: sum.splits)

lemma add_in_step:
  assumes "slot_in_step net toml st" "total_codec toml" "add_ai_provider toml io i name kind st = (r, st')"
  shows "slot_in_step net toml st'"
proof (cases "to_add_kind kind")
  case (Inl e)
  then show ?thesis using assms(1,3) by (simp add: add_ai_provider_def)
next
  case (Inr draft)
  obtain s where s: "as_admin st = Some s" "ai_sound toml s" "working s" "usable_keys (aa_file s) (aa_keys s)"
    "as_slot st = live_provider net s"
    using assms(1) by (auto simp: slot_in_step_def)
  obtain k v where built: "ai_build_kind_for_add i draft = (k, [(ai_ref i, v)])" "ai_keyring_refs_in k = [ai_ref i]"
      "trim v \<noteq> []"
    using Inr by (cases kind) (auto simp: require_key_def none_if_blank_def split: option.splits if_splits)
  let ?draft = "\<lparr>apd_id = i, apd_name = name, apd_kind = draft\<rparr>"
  obtain a s' where added: "ai_add toml ?draft s = (a, s')" by (cases "ai_add toml ?draft s")
  have st': "as_admin st' = Some s'" "as_slot st' = as_slot st"
    using assms(3) Inr s(1) added ai_say_admin [of io a s' st r st'] by (simp_all add: add_ai_provider_def)
  have sound: "ai_sound toml s'"
    using ai_add_ok [OF s(2) _ added] assms(2) by (simp add: ai_call_ok_def total_codec_def)
  show ?thesis
  proof (cases "ai_find_index (aa_file s) i")
    case (Some idx)
    then show ?thesis using added s st' by (auto simp: ai_add_def slot_in_step_def)
  next
    case None
    let ?entry = "\<lparr>ape_id = i, ape_name = name, ape_kind = k\<rparr>"
    let ?file = "(aa_file s)\<lparr>apf_providers := apf_providers (aa_file s) @ [?entry]\<rparr>"
    let ?s1 = "s\<lparr>aa_keys := (aa_keys s)(ai_ref i \<mapsto> v)\<rparr>"
    have "working ?s1" using s(3) by (simp add: working_def ai_tmp_def)
    then obtain d where d: "ai_save toml ?file ?s1 = (Inr (), ?s1\<lparr>aa_disk := d\<rparr>)" "working (?s1\<lparr>aa_disk := d\<rparr>)"
      using ai_save_working assms(2) by blast
    have s': "s' = ?s1\<lparr>aa_disk := d, aa_file := ?file\<rparr>"
      using added None built(1) d(1) s(3) by (simp add: ai_add_def Let_def working_def)
    have fresh: "i \<notin> ape_id ` set (apf_providers (aa_file s))" using None by (simp add: ai_find_index_None)
    have "working s'" using d(2) by (simp add: s' working_def ai_tmp_def)
    moreover have "usable_keys (aa_file s') (aa_keys s')"
      using s(4) built(3) fresh by (auto simp: s' usable_keys_def ai_ref_inj)
    moreover have "live_provider net s' = live_provider net s"
    proof (cases "ai_active_id s")
      case None
      then show ?thesis by (simp add: live_provider_def s' ai_active_id_def)
    next
      case (Some j)
      then obtain e where e: "entry_kind s j = Some e"
        using s(2) entry_kind_None [of s j] by (auto simp: ai_sound_def ai_valid_def ai_active_id_def ai_entries_def)
      then have "entry_kind s' j = Some e"
        by (auto simp: entry_kind_def ai_entries_def s' find_append split: option.split)
      moreover have "j \<noteq> i" "ai_keyring_refs_in e = [ai_ref j]"
        using entry_kind_Some [OF e] fresh s(2) by (auto simp: ai_entries_def ai_sound_def ai_minted_def)
      moreover have "ai_active_id s' = Some j" using Some by (simp add: s' ai_active_id_def)
      moreover have "aa_key_faults s' = []" "aa_key_faults s = []" using s(3) by (simp_all add: s' working_def)
      ultimately show ?thesis
        using Some e build_provider_cong [of s s' e "ai_ref j" net]
        by (simp add: live_provider_def s' ai_ref_inj)
    qed
    ultimately show ?thesis using st' s(5) sound by (auto simp: slot_in_step_def)
  qed
qed

text \<open>An edit on a working host: the key is replaced when one was typed, and the file saved.\<close>

lemma ai_update_working:
  assumes "ai_sound toml s" "working s" "total_codec toml" "usable_keys (aa_file s) (aa_keys s)"
    and "entry_kind s i = Some kind"
    and "ai_update toml i \<lparr>apx_name = name, apx_kind = to_edit_kind kind model (secret_field api_key)\<rparr> s = (r, s')"
  shows "is_ok r \<and> working s' \<and> usable_keys (aa_file s') (aa_keys s')"
proof -
  obtain idx where idx: "ai_find_index (aa_file s) i = Some idx" "kind = ape_kind (apf_providers (aa_file s) ! idx)"
    using assms(5) by (auto simp: entry_kind_at)
  note at = ai_entry_at [OF assms(1) idx(1)]
  have ref: "ai_keyring_refs_in kind = [ai_ref i]" using at(1) idx(2) by simp
  define keys where "keys = (case secret_field api_key of
      Keep_Secret \<Rightarrow> aa_keys s | Set_Secret v \<Rightarrow> (aa_keys s)(ai_ref i \<mapsto> v))"
  obtain old where old: "aa_keys s (ai_ref i) = Some old" using at(2) by blast
  obtain kind' applied where applied:
      "ai_apply_update_kind i kind (to_edit_kind kind model (secret_field api_key)) s =
        (Inr (kind', applied), s\<lparr>aa_keys := keys\<rparr>)"
    using ref old assms(2)
    by (cases kind; cases "secret_field api_key")
      (simp_all add: keys_def ai_apply_api_key_def ai_apply_secret_write_def Let_def io_bind_def io_of_def working_def)
  let ?entry = "\<lparr>ape_id = i, ape_name = name, ape_kind = kind'\<rparr>"
  let ?file = "(aa_file s)\<lparr>apf_providers := (apf_providers (aa_file s))[idx := ?entry]\<rparr>"
  have "working (s\<lparr>aa_keys := keys\<rparr>)" using assms(2) by (simp add: working_def ai_tmp_def)
  then obtain d where d: "ai_save toml ?file (s\<lparr>aa_keys := keys\<rparr>) = (Inr (), s\<lparr>aa_keys := keys, aa_disk := d\<rparr>)"
      "working (s\<lparr>aa_keys := keys, aa_disk := d\<rparr>)"
    using ai_save_working [OF _ assms(3)] by blast
  have s': "s' = s\<lparr>aa_keys := keys, aa_disk := d, aa_file := ?file\<rparr>" "is_ok r"
    using assms(6) idx applied d(1) by (auto simp: ai_update_def Let_def)
  have typed: "\<exists>v. keys (ai_ref i) = Some v \<and> trim v \<noteq> []"
  proof (cases "secret_field api_key")
    case Keep_Secret
    have "apf_providers (aa_file s) ! idx \<in> set (apf_providers (aa_file s))" using at(3) by simp
    then show ?thesis using assms(4) at(4) Keep_Secret unfolding keys_def usable_keys_def by fastforce
  next
    case (Set_Secret v)
    then show ?thesis by (auto simp: keys_def secret_field_def split: option.splits if_splits)
  qed
  have "\<exists>v. keys (ai_ref (ape_id e)) = Some v \<and> trim v \<noteq> []" if "e \<in> set (apf_providers ?file)" for e
  proof (cases "ape_id e = i")
    case True
    then show ?thesis using typed by simp
  next
    case False
    then have "e \<in> set (apf_providers (aa_file s))"
      using that set_update_subset_insert [of "apf_providers (aa_file s)" idx ?entry] by auto
    then have "\<exists>v. aa_keys s (ai_ref (ape_id e)) = Some v \<and> trim v \<noteq> []"
      using assms(4) by (simp add: usable_keys_def)
    moreover have "keys (ai_ref (ape_id e)) = aa_keys s (ai_ref (ape_id e))"
      using False by (simp add: keys_def ai_ref_inj split: secret_field.split)
    ultimately show ?thesis by simp
  qed
  then show ?thesis using s' d(2) by (simp add: usable_keys_def working_def ai_tmp_def)
qed

lemma update_in_step:
  assumes "slot_in_step net toml st" "total_codec toml" "client_builds net"
    and "update_ai_provider net toml io i name model api_key st = (r, st')"
  shows "slot_in_step net toml st'"
proof -
  obtain s where s: "as_admin st = Some s" "ai_sound toml s" "working s" "usable_keys (aa_file s) (aa_keys s)"
    using assms(1) by (auto simp: slot_in_step_def)
  show ?thesis
  proof (cases "entry_kind s i")
    case None
    then show ?thesis using assms(1,4) s(1) by (simp add: update_ai_provider_def)
  next
    case (Some kind)
    let ?edit = "\<lparr>apx_name = name, apx_kind = to_edit_kind kind (none_if_blank model) (secret_field api_key)\<rparr>"
    obtain a s' where updated: "ai_update toml i ?edit s = (a, s')" by (cases "ai_update toml i ?edit s")
    note fine = ai_update_working [OF s(2,3) assms(2) s(4) Some updated]
    have sound: "ai_sound toml s'"
      using ai_update_ok [OF s(2) _ updated] assms(2) by (simp add: ai_call_ok_def total_codec_def)
    obtain answer st1 where said: "ai_say io (a, s') st = (answer, st1)" by (cases "ai_say io (a, s') st")
    note st1 = ai_say_admin [OF said]
    have "st' = resync_active_slot net st1"
      using assms(4) s(1) Some updated said st1 fine
      by (cases answer) (auto simp: update_ai_provider_def then_resync_def)
    then show ?thesis using resync_in_step [of st1 s' toml net] st1 sound fine assms(3) by simp
  qed
qed

lemma delete_in_step:
  assumes "slot_in_step net toml st" "total_codec toml" "client_builds net"
    and "delete_ai_provider net toml io i st = (r, st')"
  shows "slot_in_step net toml st'"
proof -
  obtain s where s: "as_admin st = Some s" "ai_sound toml s" "working s" "usable_keys (aa_file s) (aa_keys s)"
    "as_slot st = live_provider net s"
    using assms(1) by (auto simp: slot_in_step_def)
  obtain a s' where deleted: "ai_delete toml i s = (a, s')" by (cases "ai_delete toml i s")
  have sound: "ai_sound toml s'"
    using ai_delete_ok [OF s(2) _ deleted] assms(2) by (simp add: ai_call_ok_def total_codec_def)
  obtain answer st1 where said: "ai_say io (a, s') st = (answer, st1)" by (cases "ai_say io (a, s') st")
  note st1 = ai_say_admin [OF said]
  show ?thesis
  proof (cases "ai_find_index (aa_file s) i")
    case None
    then have "a = Inl (As_Not_Found i)" "s' = s" using deleted by (simp_all add: ai_delete_def)
    then have "st' = st1" "as_admin st1 = Some s" "as_slot st1 = as_slot st"
      using assms(4) s(1) deleted said st1
      by (cases answer; simp add: delete_ai_provider_def then_resync_def)+
    then show ?thesis using s by (auto simp: slot_in_step_def)
  next
    case (Some idx)
    note at = ai_entry_at [OF s(2) Some]
    let ?file = "ai_without idx i (aa_file s)"
    obtain d where d: "ai_save toml ?file s = (Inr (), s\<lparr>aa_disk := d\<rparr>)" "working (s\<lparr>aa_disk := d\<rparr>)"
      using ai_save_working [OF s(3) assms(2)] by blast
    have s': "s' = s\<lparr>aa_disk := d, aa_file := ?file, aa_keys := (aa_keys s)(ai_ref i := None)\<rparr>" "a = Inr ()"
      using deleted Some d(1) at(1,2) s(3) by (auto simp: ai_delete_def Let_def working_def)
    have "working s'" using d(2) by (simp add: s'(1) working_def ai_tmp_def)
    moreover have "usable_keys (aa_file s') (aa_keys s')"
    proof -
      have "\<exists>v. aa_keys s (ai_ref (ape_id e)) = Some v \<and> trim v \<noteq> []" if "e \<in> set (apf_providers ?file)" for e
        using that s(4) set_take_subset [of idx "apf_providers (aa_file s)"]
          set_drop_subset [of "Suc idx" "apf_providers (aa_file s)"]
        by (auto simp: usable_keys_def ai_without_def)
      moreover have "aa_keys s' (ai_ref (ape_id e)) \<noteq> None" if "e \<in> set (apf_providers ?file)" for e
        using sound that by (simp add: ai_sound_def ai_backed_def s'(1))
      ultimately show ?thesis unfolding usable_keys_def s'(1) by (fastforce split: if_splits)
    qed
    moreover have "st' = resync_active_slot net st1"
      using assms(4) s(1) deleted said st1 s'(2)
      by (cases answer) (simp_all add: delete_ai_provider_def then_resync_def)
    ultimately show ?thesis using resync_in_step [of st1 s' toml net] st1 sound assms(3) by simp
  qed
qed

lemma activate_in_step:
  assumes "slot_in_step net toml st" "total_codec toml" "client_builds net"
    and "set_active_ai_provider net toml io target st = (r, st')"
  shows "slot_in_step net toml st'"
proof -
  obtain s where s: "as_admin st = Some s" "ai_sound toml s" "working s" "usable_keys (aa_file s) (aa_keys s)"
    using assms(1) by (auto simp: slot_in_step_def)
  have recorded: "\<exists>d. ai_set_active toml target s =
      (Inr (), s\<lparr>aa_disk := d, aa_file := (aa_file s)\<lparr>apf_active_id := target\<rparr>\<rparr>) \<and> working (s\<lparr>aa_disk := d\<rparr>)"
    if known: "\<And>i. target = Some i \<Longrightarrow> ai_find_index (aa_file s) i \<noteq> None"
  proof -
    obtain d where d: "ai_save toml ((aa_file s)\<lparr>apf_active_id := target\<rparr>) s = (Inr (), s\<lparr>aa_disk := d\<rparr>)"
        "working (s\<lparr>aa_disk := d\<rparr>)"
      using ai_save_working [OF s(3) assms(2)] by blast
    then show ?thesis
      using known by (cases target) (auto simp: ai_set_active_def io_bind_def)
  qed
  have ends: "slot_in_step net toml st'"
    if active: "ai_set_active toml target s = (Inr (), s2)"
        "s2 = s\<lparr>aa_disk := d, aa_file := (aa_file s)\<lparr>apf_active_id := target\<rparr>\<rparr>" "working (s\<lparr>aa_disk := d\<rparr>)"
      and st': "as_admin st' = Some s2" "as_slot st' = live_provider net s2" for s2 d
  proof -
    have "ai_sound toml s2"
      using ai_set_active_ok [OF s(2) _ active(1)] assms(2) by (simp add: ai_call_ok_def total_codec_def)
    then show ?thesis using st' s(4) active(2,3) by (auto simp: slot_in_step_def working_def ai_tmp_def usable_keys_def)
  qed
  show ?thesis
  proof (cases target)
    case None
    then obtain d where "ai_set_active toml target s =
        (Inr (), s\<lparr>aa_disk := d, aa_file := (aa_file s)\<lparr>apf_active_id := target\<rparr>\<rparr>)" "working (s\<lparr>aa_disk := d\<rparr>)"
      using recorded by auto
    then show ?thesis
      using assms(4) s(1) None
      by (intro ends) (auto simp: set_active_ai_provider_def ai_say_def live_provider_def ai_active_id_def)
  next
    case (Some i)
    show ?thesis
    proof (cases "entry_kind s i")
      case None
      then show ?thesis using assms(1,4) s(1) Some by (simp add: set_active_ai_provider_def)
    next
      case kind: (Some kind)
      obtain pv where pv: "build_provider_for_kind net kind s = (Inr pv, s)"
        using entry_builds [OF s(2,3) assms(3) s(4) kind] by blast
      have "ai_find_index (aa_file s) i \<noteq> None" using kind by (auto simp: entry_kind_at)
      then obtain d where d: "ai_set_active toml target s =
          (Inr (), s\<lparr>aa_disk := d, aa_file := (aa_file s)\<lparr>apf_active_id := target\<rparr>\<rparr>)" "working (s\<lparr>aa_disk := d\<rparr>)"
        using recorded Some by auto
      let ?s2 = "s\<lparr>aa_disk := d, aa_file := (aa_file s)\<lparr>apf_active_id := target\<rparr>\<rparr>"
      have "entry_kind ?s2 i = Some kind" using kind by (simp add: entry_kind_def ai_entries_def)
      moreover have "fst (build_provider_for_kind net kind ?s2) = Inr pv"
      proof -
        obtain e where "e \<in> set (apf_providers (aa_file s))" "ape_id e = i" "ape_kind e = kind"
          using entry_kind_Some [OF kind] by (auto simp: ai_entries_def)
        then have "ai_keyring_refs_in kind = [ai_ref i]" using s(2) by (auto simp: ai_sound_def ai_minted_def)
        then show ?thesis using build_provider_cong [of s ?s2 kind "ai_ref i" net] pv s(3) by (simp add: working_def)
      qed
      ultimately have "live_provider net ?s2 = Some pv"
        using Some by (simp add: live_provider_def ai_active_id_def)
      then show ?thesis
        using assms(4) s(1) Some kind pv d
        by (intro ends [OF d(1) refl d(2)]) (auto simp: set_active_ai_provider_def)
    qed
  qed
qed

end
