(* ===== verification/Ai_Properties.thy ===== *)
theory Ai_Properties
  imports Ai_Answers Ai_Slot Mcp_Properties
begin

text \<open>
  The properties of the assistant that span its parts: sessions of the store, sessions of the management
  commands and the live provider they leave, with a sample host on which each applies.
\<close>

section \<open>The store\<close>

text \<open>
  C19. No session of calls on the assistant's store, whatever fails under it, breaks it or touches a
  connection's secret: the file stays well-formed and in step with the disk, every provider keeps its
  key in its own slot, and the slots of every connection hold what they held.
\<close>

theorem assistant_store_stays_sound:
  assumes "ai_sound toml s" "faithful_codec toml"
  shows "ai_sound toml (ai_session toml reqs s) \<and>
     (\<forall>k\<in>slots connection. aa_keys (ai_session toml reqs s) k = aa_keys s k)"
proof -
  have "k \<notin> range ai_ref" if "k \<in> slots connection" for k using that ai_ref_not_slot by auto
  then show ?thesis using ai_session_ok [OF assms, of reqs] by simp
qed

text \<open>A call that fails leaves both files as they were, and no key lost while the keyring answers.\<close>

theorem failed_assistant_call_leaves_no_trace:
  assumes "ai_sound toml s" "faithful_codec toml" "ai_perform toml req s = (Inl e, s')"
  shows "aa_file s' = aa_file s \<and> ai_stored toml s' = ai_stored toml s \<and>
     (aa_key_faults s = [] \<longrightarrow> (\<forall>entry\<in>set (apf_providers (aa_file s)).
        aa_keys s' (ai_ref (ape_id entry)) = aa_keys s (ai_ref (ape_id entry))))"
  using ai_perform_ok [OF assms(1,2), of req] assms(3) by (simp add: ai_call_ok_def ai_left_alone_def)

section \<open>The live provider\<close>

datatype ai_management =
    Manage_Add string string ai_kind_input
  | Manage_Update string string "string option" "string option"
  | Manage_Delete string
  | Manage_Activate "string option"

fun ai_manage ::
    "ai_network \<Rightarrow> ai_provider_file codec \<Rightarrow> (io_error \<Rightarrow> string) \<Rightarrow> ai_management \<Rightarrow> unit ai_command" where
  "ai_manage net toml io (Manage_Add i name kind) = add_ai_provider toml io i name kind"
| "ai_manage net toml io (Manage_Update i name model api_key) = update_ai_provider net toml io i name model api_key"
| "ai_manage net toml io (Manage_Delete i) = delete_ai_provider net toml io i"
| "ai_manage net toml io (Manage_Activate target) = set_active_ai_provider net toml io target"

fun ai_manages ::
    "ai_network \<Rightarrow> ai_provider_file codec \<Rightarrow> (io_error \<Rightarrow> string) \<Rightarrow> ai_management list \<Rightarrow> ai_state \<Rightarrow> ai_state" where
  "ai_manages net toml io [] st = st"
| "ai_manages net toml io (cmd # cmds) st = ai_manages net toml io cmds (snd (ai_manage net toml io cmd st))"

lemma ai_manage_in_step:
  assumes "slot_in_step net toml st" "total_codec toml" "client_builds net"
  shows "slot_in_step net toml (snd (ai_manage net toml io cmd st))"
proof (cases cmd)
  case (Manage_Add i name kind)
  then show ?thesis using add_in_step [OF assms(1,2) prod.collapse [symmetric]] by simp
next
  case (Manage_Update i name model api_key)
  then show ?thesis using update_in_step [OF assms prod.collapse [symmetric]] by simp
next
  case (Manage_Delete i)
  then show ?thesis using delete_in_step [OF assms prod.collapse [symmetric]] by simp
next
  case (Manage_Activate target)
  then show ?thesis using activate_in_step [OF assms prod.collapse [symmetric]] by simp
qed


text \<open>At startup with nothing in the environment the slot is in step already.\<close>

lemma bootstrap_in_step:
  assumes "ai_admin_open toml path keys faults d = (Inr s, d')" "ai_sound toml s" "working s"
    and "usable_keys (aa_file s) (aa_keys s)" "client_builds net"
  shows "slot_in_step net toml (ai_bootstrap net toml (Inr path) None env_model keys faults d)"
proof -
  have "resolve_initial_provider net None env_model (Some s) = (live_provider net s, Some s)"
  proof (cases "Option.bind (ai_active_id s) (entry_kind s)")
    case None
    then show ?thesis by (simp add: resolve_initial_provider_def none_if_blank_def live_provider_def)
  next
    case (Some kind)
    then obtain i where "entry_kind s i = Some kind" by (auto simp: Option.bind_eq_Some_conv)
    then obtain pv where "build_provider_for_kind net kind s = (Inr pv, s)"
      using entry_builds [OF assms(2,3,5,4)] by blast
    then show ?thesis
      using Some by (simp add: resolve_initial_provider_def none_if_blank_def live_provider_def)
  qed
  then show ?thesis using assms(1-4) by (auto simp: ai_bootstrap_def slot_in_step_def)
qed

text \<open>
  A provider taken from the environment lasts until the first edit or delete: with no active entry, a
  successful edit of any entry empties the slot.
\<close>

theorem edit_drops_environment_provider:
  assumes "as_admin st = Some s" "ai_active_id s = None"
    and "update_ai_provider net toml io i name model api_key st = (Inr (), st')"
  shows "as_slot st' = None"
proof -
  obtain kind where kind: "entry_kind s i = Some kind"
    using assms(1,3) by (cases "entry_kind s i") (simp_all add: update_ai_provider_def)
  let ?edit = "\<lparr>apx_name = name, apx_kind = to_edit_kind kind (none_if_blank model) (secret_field api_key)\<rparr>"
  obtain a s' where updated: "ai_update toml i ?edit s = (a, s')" by (cases "ai_update toml i ?edit s")
  obtain entry where entry: "a = Inr entry"
    using assms(1,3) kind updated by (cases a) (auto simp: update_ai_provider_def then_resync_def ai_say_def)
  have same: "aa_file s1 = aa_file s" if "ai_apply_update_kind i k x s = (Inr p, s1)" for k x p s1
    using that
  proof (cases rule: ai_apply_update_kind_cases)
    case (written key_ref kind' secret old)
    then show ?thesis using ai_apply_secret_write_spec(1) [OF written(4)] by (simp add: ai_step_def)
  qed simp_all
  have "ai_active_id s' = None"
    using updated entry assms(2) same ai_save_spec(2)
    by (auto simp: ai_update_def Let_def ai_active_id_def split: option.splits prod.splits sum.splits)
  then show ?thesis
    using assms(1,3) kind updated entry
    by (auto simp: update_ai_provider_def then_resync_def ai_say_def resync_active_slot_def)
qed

section \<open>A sample host\<close>

text \<open>A codec that writes every file and reads back each it wrote: strings are preceded by their length in unary.\<close>

definition put_string :: "string \<Rightarrow> string" where
  "put_string s = replicate (length s) (CHR ''n'') @ CHR ''.'' # s"

definition take_string :: "string \<Rightarrow> string \<times> string" where
  "take_string t =
     (let n = length (takeWhile (\<lambda>c. c = CHR ''n'') t); r = drop (Suc n) t in (take n r, drop n r))"

lemma take_string_put [simp]: "take_string (put_string s @ t) = (s, t)"
proof -
  have "takeWhile (\<lambda>c. c = CHR ''n'') (replicate (length s) (CHR ''n'') @ CHR ''.'' # s @ t) =
      replicate (length s) (CHR ''n'')"
    by (subst takeWhile_append2) simp_all
  then show ?thesis by (simp add: take_string_def put_string_def)
qed

fun put_option :: "string option \<Rightarrow> string" where
  "put_option None = ''0''"
| "put_option (Some s) = CHR ''1'' # put_string s"

fun take_option :: "string \<Rightarrow> string option \<times> string" where
  "take_option [] = (None, [])"
| "take_option (c # t) = (if c = CHR ''1'' then apfst Some (take_string t) else (None, t))"

lemma take_option_put [simp]: "take_option (put_option v @ t) = (v, t)"
  by (cases v) simp_all

fun put_entry :: "ai_provider_entry \<Rightarrow> string" where
  "put_entry e = put_string (ape_id e) @ put_string (ape_name e) @
     (case ape_kind e of
        Anthropic_Kind model r \<Rightarrow> CHR ''a'' # put_option model @ put_string r
      | Openai_Kind model r \<Rightarrow> CHR ''o'' # put_option model @ put_string r)"

definition take_entry :: "string \<Rightarrow> ai_provider_entry \<times> string" where
  "take_entry t =
     (let (i, t) = take_string t; (name, t) = take_string t;
          kind = (if take 1 t = ''a'' then Anthropic_Kind else Openai_Kind);
          (model, t) = take_option (drop 1 t); (r, t) = take_string t
      in (\<lparr>ape_id = i, ape_name = name, ape_kind = kind model r\<rparr>, t))"

lemma take_entry_put [simp]: "take_entry (put_entry e @ t) = (e, t)"
  by (cases e rule: ai_provider_entry.cases)
    (simp add: take_entry_def split: ai_provider_kind.split)

fun take_entries :: "string \<Rightarrow> string \<Rightarrow> ai_provider_entry list" where
  "take_entries [] t = []"
| "take_entries (_ # marks) t = (case take_entry t of (e, t') \<Rightarrow> e # take_entries marks t')"

lemma take_entries_put: "length marks = length es \<Longrightarrow> take_entries marks (concat (map put_entry es)) = es"
proof (induction es arbitrary: marks)
  case (Cons e es)
  then show ?case by (cases marks) (simp_all del: put_entry.simps)
qed simp

definition plain_toml :: "ai_provider_file codec" where
  "plain_toml = \<lparr>to_text = (\<lambda>f. Inr (put_string (show_nat (unat (apf_version f))) @ put_option (apf_active_id f) @
        put_string (replicate (length (apf_providers f)) (CHR ''e'')) @ concat (map put_entry (apf_providers f)))),
     of_text = (\<lambda>t. let (v, t) = take_string t; (active, t) = take_option t; (marks, t) = take_string t
        in Inr \<lparr>apf_version = word_of_nat (the (parse_digits 0 v)), apf_active_id = active,
             apf_providers = take_entries marks t\<rparr>)\<rparr>"

lemma plain_toml_total: "total_codec plain_toml"
  by (simp add: total_codec_def faithful_codec_def plain_toml_def parse_digits_show_nat take_entries_put
      del: put_entry.simps)

definition plain_net :: "sse_item list \<Rightarrow> ai_network" where
  "plain_net items = \<lparr>build_client = (\<lambda>b. Inr \<lparr>hc_https_only = b\<rparr>),
     send_post = (\<lambda>_ _. Inl \<lparr>hf_timed_out = True, hf_text = []\<rparr>), event_source = (\<lambda>_ _. Inr items)\<rparr>"

lemma plain_net_builds: "client_builds (plain_net items)"
  by (simp add: client_builds_def plain_net_def)

definition plain_wire :: ai_wire where
  "plain_wire = \<lparr>lossy = (\<lambda>_. []), read_messages = (\<lambda>_. Inl []), read_chat = (\<lambda>_. Inl []),
     read_envelope = (\<lambda>_. Inl []), read_start = (\<lambda>_. Inr 7), read_delta = (\<lambda>t. Inr (Some t)),
     read_message_delta = (\<lambda>_. Inr \<lparr>md_stop_reason = None, md_output_tokens = Some 3\<rparr>),
     read_stream_error = (\<lambda>_. Inl []),
     read_chunk = (\<lambda>t. Inr \<lparr>ck_choices = [\<lparr>cc_content = Some t, cc_finish_reason = None\<rparr>], ck_usage = None\<rparr>)\<rparr>"

definition fresh_admin :: ai_admin where
  "fresh_admin = \<lparr>aa_path = \<lparr>fp_parent = Some ''d'', fp_name = Some ''a''\<rparr>, aa_file = ai_file_empty,
     aa_disk = restart Map.empty, aa_keys = [keyring_ref ''prod'' ''url'' \<mapsto> ''secret''], aa_key_faults = []\<rparr>"

definition fresh_state :: "ai_provider option \<Rightarrow> ai_state" where
  "fresh_state slot = \<lparr>as_slot = slot, as_admin = Some fresh_admin, as_cancel = False\<rparr>"

lemma fresh_sound: "ai_sound plain_toml fresh_admin"
  by (simp add: ai_sound_def fresh_admin_def ai_valid_def ai_file_empty_def ai_minted_def ai_backed_def
      ai_stored_cases restart_def)

lemma fresh_in_step: "slot_in_step net plain_toml (fresh_state None)"
proof -
  have "working fresh_admin" by (simp add: working_def fresh_admin_def restart_def)
  moreover have "usable_keys (aa_file fresh_admin) (aa_keys fresh_admin)"
    by (simp add: usable_keys_def fresh_admin_def ai_file_empty_def)
  moreover have "live_provider net fresh_admin = None"
    by (simp add: live_provider_def fresh_admin_def ai_active_id_def ai_file_empty_def)
  ultimately show ?thesis using fresh_sound by (simp add: slot_in_step_def fresh_state_def)
qed

definition sample_key_draft :: ai_provider_draft where
  "sample_key_draft = \<lparr>apd_id = ''prod'', apd_name = ''P'', apd_kind = Anthropic_Draft None ''k''\<rparr>"

theorem assistant_store_stays_sound_witness:
  "aa_keys (ai_session plain_toml [Ask_Add sample_key_draft, Ask_Active (Some ''prod''), Ask_Delete ''prod''] fresh_admin)
     (keyring_ref ''prod'' ''url'') = Some ''secret''"
proof -
  have "keyring_ref ''prod'' ''url'' \<in> slots ''prod''" by (simp add: slots_def field_defs)
  moreover have "faithful_codec plain_toml" using plain_toml_total by (simp add: total_codec_def)
  ultimately have "aa_keys (ai_session plain_toml [Ask_Add sample_key_draft, Ask_Active (Some ''prod''), Ask_Delete ''prod''] fresh_admin)
      (keyring_ref ''prod'' ''url'') = aa_keys fresh_admin (keyring_ref ''prod'' ''url'')"
    using assistant_store_stays_sound [OF fresh_sound, of _ "''prod''"] by blast
  then show ?thesis by (simp add: fresh_admin_def)
qed

theorem failed_assistant_call_leaves_no_trace_witness:
  "aa_file (snd (ai_perform plain_toml (Ask_Delete ''x'') fresh_admin)) = ai_file_empty"
proof -
  have "ai_perform plain_toml (Ask_Delete ''x'') fresh_admin = (Inl (As_Not_Found ''x''), fresh_admin)"
    by (simp add: ai_delete_def ai_find_index_def fresh_admin_def ai_file_empty_def)
  then show ?thesis
    using failed_assistant_call_leaves_no_trace [OF fresh_sound, of "Ask_Delete ''x''"] plain_toml_total
    by (simp add: total_codec_def fresh_admin_def)
qed

definition sample_commands :: "ai_management list" where
  "sample_commands = [Manage_Add ''prod'' ''P'' (Anthropic_Input None (Some ''k'')), Manage_Activate (Some ''prod''),
     Manage_Update ''prod'' ''P'' (Some ''m'') (Some ''k2'')]"


definition env_provider :: ai_provider where
  "env_provider = Anthropic_Provider \<lparr>pv_client = \<lparr>hc_https_only = True\<rparr>,
     pv_url = ''https://api.anthropic.com/v1/messages'', pv_model = ''m'', pv_api_key = ''env''\<rparr>"

text \<open>A store with one provider, none of them active.\<close>

definition one_file :: ai_provider_file where
  "one_file = \<lparr>apf_version = AI_CONFIG_VERSION, apf_active_id = None,
     apf_providers = [\<lparr>ape_id = ''main'', ape_name = ''M'', ape_kind = Anthropic_Kind None (ai_ref ''main'')\<rparr>]\<rparr>"

definition one_admin :: ai_admin where
  "one_admin = \<lparr>aa_path = \<lparr>fp_parent = Some ''d'', fp_name = Some ''a''\<rparr>, aa_file = one_file,
     aa_disk = restart [\<lparr>fp_parent = Some ''d'', fp_name = Some ''a''\<rparr> \<mapsto> projr (to_text plain_toml one_file)],
     aa_keys = [ai_ref ''main'' \<mapsto> ''k''], aa_key_faults = []\<rparr>"

lemma one_sound: "ai_sound plain_toml one_admin" "working one_admin"
  "usable_keys (aa_file one_admin) (aa_keys one_admin)"
proof -
  have valid: "ai_valid one_file" by (simp add: ai_valid_def one_file_def)
  have "of_text plain_toml (projr (to_text plain_toml one_file)) = Inr one_file"
    using plain_toml_total by (simp add: total_codec_def faithful_codec_def plain_toml_def)
  then have "ai_file_parse plain_toml (projr (to_text plain_toml one_file)) = Inr one_file"
    using valid by (rule ai_file_parse_ok)
  then show "ai_sound plain_toml one_admin"
    using valid by (simp add: ai_sound_def one_admin_def ai_stored_cases restart_def ai_minted_def ai_backed_def)
      (simp add: one_file_def)
  show "working one_admin"
    by (simp add: working_def one_admin_def restart_def ai_tmp_def tmp_path_for_def)
  have "trim ''k'' \<noteq> []" by code_simp
  then show "usable_keys (aa_file one_admin) (aa_keys one_admin)"
    by (simp add: usable_keys_def one_admin_def one_file_def)
qed

theorem edit_drops_environment_provider_witness:
  "as_slot (snd (update_ai_provider (plain_net []) plain_toml (\<lambda>_. []) ''main'' ''Q'' None None
     \<lparr>as_slot = Some env_provider, as_admin = Some one_admin, as_cancel = False\<rparr>)) = None"
proof -
  let ?st = "\<lparr>as_slot = Some env_provider, as_admin = Some one_admin, as_cancel = False\<rparr>"
  let ?run = "update_ai_provider (plain_net []) plain_toml (\<lambda>_. []) ''main'' ''Q'' None None ?st"
  let ?kind = "Anthropic_Kind None (ai_ref ''main'')"
  let ?edit = "\<lparr>apx_name = ''Q'', apx_kind = to_edit_kind ?kind None (secret_field None)\<rparr>"
  have kind: "entry_kind one_admin ''main'' = Some ?kind"
    by (simp add: entry_kind_def ai_entries_def one_admin_def one_file_def)
  obtain a s' where updated: "ai_update plain_toml ''main'' ?edit one_admin = (a, s')"
    by (cases "ai_update plain_toml ''main'' ?edit one_admin")
  then have "is_ok a" using ai_update_working [OF one_sound(1,2) plain_toml_total one_sound(3) kind] by blast
  then have "fst ?run = Inr ()"
    using kind updated by (cases a) (simp_all add: update_ai_provider_def none_if_blank_def ai_say_def then_resync_def)
  then have run: "?run = (Inr (), snd ?run)" by (simp add: prod_eq_iff)
  have "as_admin ?st = Some one_admin" "ai_active_id one_admin = None"
    by (simp_all add: one_admin_def one_file_def ai_active_id_def)
  then show ?thesis by (rule edit_drops_environment_provider) (rule run)
qed

section \<open>A sample run\<close>

definition sample_items :: "sse_item list" where
  "sample_items = [Sse_Open, Sse_Message ''message_start'' [], Sse_Message ''content_block_delta'' ''SELECT '',
     Sse_Message ''ping'' [], Sse_Message ''content_block_delta'' ''1'', Sse_Message ''message_delta'' [],
     Sse_Message ''message_stop'' [], Sse_Message ''content_block_delta'' ''late'']"

theorem answer_is_what_was_said_witness:
  "(case fst (ai_explain (plain_net sample_items) plain_wire [] None ''q'' False [] (fresh_state (Some env_provider))) of
      Inr out \<Rightarrow> ao_text out = ''SELECT 1'' \<and> \<not> ao_cancelled out \<and>
        ao_text out = provider_said plain_wire env_provider sample_items
    | Inl _ \<Rightarrow> False)"
proof -
  let ?run = "ai_explain (plain_net sample_items) plain_wire [] None ''q'' False [] (fresh_state (Some env_provider))"
  have shown: "(case fst ?run of Inr out \<Rightarrow> ao_text out = ''SELECT 1'' \<and> \<not> ao_cancelled out | Inl _ \<Rightarrow> False)"
    by code_simp
  then obtain out where out: "fst ?run = Inr out" "ao_text out = ''SELECT 1''" "\<not> ao_cancelled out"
    by (cases "fst ?run") simp_all
  then have run: "?run = (Inr out, fst (snd ?run), snd (snd ?run))" by (simp add: prod_eq_iff)
  have "as_slot (fresh_state (Some env_provider)) = Some env_provider" by (simp add: fresh_state_def)
  note told = answer_is_what_was_said [OF this run]
  have "event_source (plain_net sample_items) client post = Inr items \<Longrightarrow> items = sample_items" for client post items
    by (simp add: plain_net_def)
  then have "ao_text out = provider_said plain_wire env_provider sample_items" using told out(3) by blast
  then show ?thesis using out by simp
qed

theorem cancel_while_opening_is_lost_witness:
  "ai_explain (plain_net sample_items) plain_wire [] None ''q'' True [] (fresh_state (Some env_provider)) =
     ai_explain (plain_net sample_items) plain_wire [] None ''q'' False [] (fresh_state (Some env_provider))"
proof (rule cancel_while_opening_is_lost)
  show "stream_explain (plain_net sample_items) plain_wire env_provider
      \<lparr>er_sql = ''q'', er_dialect = Option.bind None (dialect_for_connection [])\<rparr> =
      Inr (anthropic_stream plain_wire sample_items)"
    by (simp add: env_provider_def anthropic_stream_explain_def anthropic_open_stream_def plain_net_def)
  show "as_slot (fresh_state (Some env_provider)) = Some env_provider" by (simp add: fresh_state_def)
qed


text \<open>
  The loopback test of both crates looks at the first letters only: a host whose name merely begins like
  the loopback one is reached without TLS, and the key goes with the request.
\<close>

theorem lookalike_host_gets_plaintext_key:
  "(case anthropic_with_config (plain_net []) \<lparr>ac_api_key = ''k'', ac_model = ''m'',
        ac_base_url = Some ''http://localhost.example.com''\<rparr> of
      Inr pv \<Rightarrow> \<not> hc_https_only (pv_client pv) \<and> pv_url pv = ''http://localhost.example.com/v1/messages'' \<and>
        (''x-api-key'', ''k'') \<in> set (ap_headers (anthropic_post pv q))
    | Inl _ \<Rightarrow> False)"
  by code_simp

end
