(* ===== verification/Spec2Isabelle.thy ===== *)
theory Spec2Isabelle
  imports Row_Sort Dump_Script Restore_Run Schema_Diff Row_History Redis_Adapter_Proofs Umbrachyx_Proofs Mongo_Adapter Saved_Queries_Proofs Annotations_Proofs Update_Attempt Connection_Import Redis_Route Mcp_Secrecy Ai_Properties
begin

end
